(* ===== verification/Prax_Prelude.thy ===== *)
theory Prax_Prelude
  imports Main "HOL-Library.Word" "HOL-Library.Sublist" "HOL-Library.Monad_Syntax" "HOL-Library.Char_ord"
begin

text \<open>
  The prelude of the development: the types and helper functions the component theories
  share.  A Rust \<open>String\<close> is modelled by the list of its UTF-8 bytes, Isabelle's
  \<^typ>\<open>string\<close>: every character the code inspects or replaces is ASCII, and an
  ASCII byte never occurs inside a multi-byte UTF-8 sequence, so working on bytes is the same as
  working on \<open>char\<close>s.  A Rust panic is \<open>None\<close> of an option type, an \<open>Err\<close> is
  \<open>Inl\<close> of a sum type.  A \<open>usize\<close> that only counts elements of a collection is a
  \<^typ>\<open>nat\<close>; a value on which the code does arithmetic that can overflow is a machine word.
\<close>

type_synonym i8 = "8 word"
type_synonym i16 = "16 word"
type_synonym i32 = "32 word"
type_synonym i64 = "64 word"
type_synonym u8 = "8 word"
type_synonym u16 = "16 word"
type_synonym u32 = "32 word"
type_synonym u64 = "64 word"

named_theorems str_simps \<open>rewriting of the string helpers\<close>

text \<open>Characters that cannot be written in a string literal of the inner syntax.\<close>

abbreviation (input) DQUOTE :: char where "DQUOTE \<equiv> CHR 0x22"
abbreviation (input) SQUOTE :: char where "SQUOTE \<equiv> CHR 0x27"
abbreviation (input) BSLASH :: char where "BSLASH \<equiv> CHR 0x5C"
abbreviation (input) BTICK :: char where "BTICK \<equiv> CHR 0x60"

text \<open>A text between quotes, as the format strings write it.\<close>

definition dq :: "string \<Rightarrow> string" where "dq s = [DQUOTE] @ s @ [DQUOTE]"
definition bt :: "string \<Rightarrow> string" where "bt s = [BTICK] @ s @ [BTICK]"
definition br :: "string \<Rightarrow> string" where "br s = ''['' @ s @ '']''"
definition sq :: "string \<Rightarrow> string" where "sq s = [SQUOTE] @ s @ [SQUOTE]"

subsection \<open>Strings: \<open>join\<close> and \<open>replace\<close>\<close>

text \<open>Rust's \<open>[String]::join\<close>.\<close>

fun join :: "string \<Rightarrow> string list \<Rightarrow> string" where
  "join sep [] = []"
| "join sep [x] = x"
| "join sep (x # y # ys) = x @ sep @ join sep (y # ys)"

text \<open>Rust's \<open>str::replace\<close> with a one-character pattern.\<close>

fun replace_char :: "char \<Rightarrow> string \<Rightarrow> string \<Rightarrow> string" where
  "replace_char c r [] = []"
| "replace_char c r (x # xs) = (if x = c then r else [x]) @ replace_char c r xs"

text \<open>
  Rust's \<open>str::split\<close> with a one-character pattern (never empty), and \<open>str::trim\<close>
  restricted to ASCII white space (the non-ASCII white space that Rust also trims is left alone).
\<close>

fun split_on :: "char \<Rightarrow> string \<Rightarrow> string list" where
  "split_on c [] = [[]]"
| "split_on c (x # xs) =
     (if x = c then [] # split_on c xs
      else case split_on c xs of [] \<Rightarrow> [[x]] | p # ps \<Rightarrow> (x # p) # ps)"

definition is_space :: "char \<Rightarrow> bool" where
  "is_space c \<longleftrightarrow> c \<in> {CHR 0x09, CHR 0x0A, CHR 0x0B, CHR 0x0C, CHR 0x0D, CHR 0x20}"

definition trim :: "string \<Rightarrow> string" where
  "trim s = rev (dropWhile is_space (rev (dropWhile is_space s)))"

lemma split_on_nonempty [simp]: "split_on c s \<noteq> []"
  by (induction s) (auto split: list.splits)

lemma join_Cons: "join sep (x # xs) = (if xs = [] then x else x @ sep @ join sep xs)"
  by (cases xs) auto

lemma join_append:
  "xs \<noteq> [] \<Longrightarrow> ys \<noteq> [] \<Longrightarrow> join sep (xs @ ys) = join sep xs @ sep @ join sep ys"
  by (induction xs) (auto simp: join_Cons)

lemma replace_char_append [simp]:
  "replace_char c r (xs @ ys) = replace_char c r xs @ replace_char c r ys"
  by (induction xs) auto

lemma replace_char_absent [simp]: "c \<notin> set xs \<Longrightarrow> replace_char c r xs = xs"
  by (induction xs) auto

lemma replace_char_concat:
  "replace_char c r xs = concat (map (\<lambda>x. if x = c then r else [x]) xs)"
  by (induction xs) auto

text \<open>\<^verbatim>\<open>str::to_lowercase\<close> on ASCII letters (letters outside ASCII are left alone).\<close>

definition lower_char :: "char \<Rightarrow> char" where
  "lower_char c = (if CHR ''A'' \<le> c \<and> c \<le> CHR ''Z'' then char_of (of_char c + (32 :: nat)) else c)"
definition lower :: "string \<Rightarrow> string" where
  "lower s = map lower_char s"

text \<open>The bytes of a UTF-8 sequence after its first.\<close>

definition is_continuation :: "char \<Rightarrow> bool" where
  "is_continuation c \<longleftrightarrow> CHR 0x80 \<le> c \<and> c < CHR 0xC0"

subsection \<open>Decimal numbers\<close>

definition is_digit :: "char \<Rightarrow> bool" where
  "is_digit c \<longleftrightarrow> c \<in> set ''0123456789''"

definition digit_char :: "nat \<Rightarrow> char" where
  "digit_char d = ''0123456789'' ! d"

definition digit_val :: "char \<Rightarrow> nat" where
  "digit_val c = (of_char c - 48)"

text \<open>Rust's \<open>Display\<close> of an unsigned integer.\<close>

fun show_nat :: "nat \<Rightarrow> string" where
  "show_nat n = (if n < 10 then [digit_char n] else show_nat (n div 10) @ [digit_char (n mod 10)])"

declare show_nat.simps [simp del]

text \<open>Rust's \<open>Display\<close> of a signed integer.\<close>

definition show_int :: "int \<Rightarrow> string" where
  "show_int i = (if i < 0 then CHR ''-'' # show_nat (nat (- i)) else show_nat (nat i))"

definition nat_of_digits :: "string \<Rightarrow> nat" where
  "nat_of_digits s = foldl (\<lambda>a c. 10 * a + digit_val c) 0 s"

text \<open>
  Rust's \<open>str::parse::<usize>\<close> on a 64-bit target: an optional leading \<open>+\<close>, at least
  one digit, no other character, and no overflow.
\<close>

definition parse_usize :: "string \<Rightarrow> nat option" where
  "parse_usize s =
     (let ds = (case s of c # cs \<Rightarrow> if c = CHR ''+'' then cs else s | [] \<Rightarrow> s)
      in if ds \<noteq> [] \<and> list_all is_digit ds \<and> nat_of_digits ds < 2 ^ 64
         then Some (nat_of_digits ds) else None)"

text \<open>\<^verbatim>\<open>str::parse::<i64>\<close>: an optional sign and at least one digit, within the range.\<close>

definition parse_i64 :: "string \<Rightarrow> i64 option" where
  "parse_i64 s =
     (let (neg, ds) = (case s of c # cs \<Rightarrow> if c = CHR ''-'' then (True, cs)
            else if c = CHR ''+'' then (False, cs) else (False, s) | [] \<Rightarrow> (False, []));
          n = int (nat_of_digits ds); v = (if neg then - n else n)
      in if ds = [] \<or> \<not> list_all is_digit ds then None
         else if - (2 ^ 63) \<le> v \<and> v < 2 ^ 63 then Some (of_int v) else None)"

lemma less_10_cases: "(d::nat) < 10 \<Longrightarrow>
  d = 0 \<or> d = 1 \<or> d = 2 \<or> d = 3 \<or> d = 4 \<or> d = 5 \<or> d = 6 \<or> d = 7 \<or> d = 8 \<or> d = 9"
  by arith

lemma digit_char_is_digit [simp]: "d < 10 \<Longrightarrow> is_digit (digit_char d)"
  by (drule less_10_cases) (auto simp: is_digit_def digit_char_def)

lemma digit_val_char [simp]: "d < 10 \<Longrightarrow> digit_val (digit_char d) = d"
  by (drule less_10_cases) (auto simp: digit_val_def digit_char_def)

lemma show_nat_digits: "list_all is_digit (show_nat n)"
proof (induction n rule: show_nat.induct)
  case (1 n)
  then show ?case by (subst show_nat.simps) simp
qed

lemma show_nat_set_digits [simp]: "c \<in> set (show_nat n) \<Longrightarrow> is_digit c"
  using show_nat_digits [of n] by (auto simp: list_all_iff)

lemma show_nat_nonempty [simp]: "show_nat n \<noteq> []"
  by (subst show_nat.simps) simp

lemma nat_of_digits_snoc [simp]: "nat_of_digits (s @ [c]) = 10 * nat_of_digits s + digit_val c"
  by (simp add: nat_of_digits_def)

lemma nat_of_digits_single [simp]: "nat_of_digits [c] = digit_val c"
  by (simp add: nat_of_digits_def)

lemma nat_of_digits_show [simp]: "nat_of_digits (show_nat n) = n"
proof (induction n rule: show_nat.induct)
  case (1 n)
  show ?case
  proof (cases "n < 10")
    case True
    then show ?thesis by (subst show_nat.simps) simp
  next
    case False
    with "1.IH" have "nat_of_digits (show_nat (n div 10)) = n div 10" by simp
    with False show ?thesis by (subst show_nat.simps) simp
  qed
qed

lemma show_nat_inj: "show_nat m = show_nat n \<longleftrightarrow> m = n"
  by (metis nat_of_digits_show)

lemma is_digit_not_plus: "is_digit c \<Longrightarrow> c \<noteq> CHR ''+''"
  by (auto simp: is_digit_def)

lemma parse_usize_show: "n < 2 ^ 64 \<Longrightarrow> parse_usize (show_nat n) = Some n"
proof -
  assume "n < 2 ^ 64"
  moreover obtain c cs where "show_nat n = c # cs" by (cases "show_nat n") auto
  moreover from this have "c \<noteq> CHR ''+''"
    using show_nat_set_digits [of c n] by (auto dest: is_digit_not_plus)
  ultimately show ?thesis
    using show_nat_digits [of n] nat_of_digits_show [of n] by (simp add: parse_usize_def)
qed

lemmas str_digit_simps [str_simps] = digit_char_def is_digit_def digit_val_def nat_of_digits_def

subsection \<open>Widening conversions of machine integers\<close>

lemma sint_small_i64: "uint (g :: i64) < 2 ^ 63 \<Longrightarrow> sint g = uint g"
proof -
  assume a: "uint g < 2 ^ 63"
  have "sint g = signed_take_bit 63 (uint g)" by (simp add: sint_uint)
  also have "\<dots> = uint g"
    using a by (intro signed_take_bit_int_eq_self) (auto intro: order.trans [of _ 0])
  finally show ?thesis .
qed

lemma unat_small_iff: "unat (g :: u64) < 2 ^ 63 \<longleftrightarrow> uint g \<le> 2 ^ 63 - 1"
proof -
  have "uint g = int (unat g)" by simp
  moreover have "int (unat g) \<le> 2 ^ 63 - 1 \<longleftrightarrow> int (unat g) < int (2 ^ 63)" by (simp, arith)
  ultimately show ?thesis by (metis of_nat_less_iff)
qed

lemma sint_scast_i64:
  "is_up (scast :: 'a::len word \<Rightarrow> i64) \<Longrightarrow> sint (scast (v :: 'a word) :: i64) = sint v"
  by (rule sint_up_scast)

lemma sint_ucast_i64:
  assumes "LENGTH('a::len) < 64"
  shows "sint (ucast (v :: 'a word) :: i64) = uint v"
proof -
  have u: "uint (ucast v :: i64) = uint v"
    using assms by (intro uint_up_ucast) (simp add: is_up)
  have "uint v < 2 ^ LENGTH('a)" by (rule uint_lt2p)
  also have "\<dots> \<le> (2 :: int) ^ 63" using assms by (intro power_increasing) auto
  finally show ?thesis using sint_small_i64 [of "ucast v"] u by simp
qed

end
