(* ===== verification/Sql_Dialect.thy ===== *)
theory Sql_Dialect
  imports Prax_Prelude
begin

text \<open>
  The SQL dialects of \<^verbatim>\<open>prax-query/src/dialect.rs\<close>.  The trait object
  \<^verbatim>\<open>&dyn SqlDialect\<close> is a record of its methods; a method that can panic (those of
  \<open>NotSql\<close>, which are \<^verbatim>\<open>unimplemented!\<close>) has an option as its result,
  \<open>None\<close> being the panic.
\<close>

record dialect =
  placeholder :: "nat \<Rightarrow> string option"
  returning_clause :: "string \<Rightarrow> string option"
  quote_ident :: "string \<Rightarrow> string option"
  supports_distinct_on :: bool
  insert_has_returning :: bool
  upsert_clause :: "string list \<Rightarrow> string \<Rightarrow> string option"
  supports_sql_emission :: bool
  supports_upsert :: bool
  upsert_do_nothing_clause :: "string list \<Rightarrow> string option"
  like_escape_clause :: string
  begin_sql :: string
  commit_sql :: string
  rollback_sql :: string

text \<open>\<^verbatim>\<open>format!("{q}{}{q'}", i.replace(q', q' q'))\<close>, the quoting every dialect uses.\<close>

definition quote_with :: "char \<Rightarrow> char \<Rightarrow> string \<Rightarrow> string" where
  "quote_with qo qc i = qo # replace_char qc [qc, qc] i @ [qc]"

subsection \<open>The trait's default methods\<close>

definition default_like_escape_clause :: string where
  "default_like_escape_clause = '' ESCAPE '' @ [SQUOTE, BSLASH, SQUOTE]"

definition default_upsert_do_nothing_clause :: "string list \<Rightarrow> string option" where
  "default_upsert_do_nothing_clause _ = Some []"

subsection \<open>Postgres\<close>

definition on_conflict_cols :: "(string \<Rightarrow> string) \<Rightarrow> string list \<Rightarrow> string" where
  "on_conflict_cols q c = '' ON CONFLICT ('' @ join '', '' (map q c) @ '')''"

definition postgres :: dialect where
  "postgres = \<lparr>
     placeholder = (\<lambda>i. Some (CHR ''$'' # show_nat i)),
     returning_clause = (\<lambda>cols. Some ('' RETURNING '' @ cols)),
     quote_ident = (\<lambda>i. Some (quote_with DQUOTE DQUOTE i)),
     supports_distinct_on = True,
     insert_has_returning = True,
     upsert_clause = (\<lambda>c s. Some (on_conflict_cols (quote_with DQUOTE DQUOTE) c @ '' DO UPDATE SET '' @ s)),
     supports_sql_emission = True,
     supports_upsert = True,
     upsert_do_nothing_clause = (\<lambda>c. Some (on_conflict_cols (quote_with DQUOTE DQUOTE) c @ '' DO NOTHING'')),
     like_escape_clause = default_like_escape_clause,
     begin_sql = ''BEGIN'', commit_sql = ''COMMIT'', rollback_sql = ''ROLLBACK''\<rparr>"

subsection \<open>SQLite\<close>

definition sqlite :: dialect where
  "sqlite = \<lparr>
     placeholder = (\<lambda>i. Some (CHR ''?'' # show_nat i)),
     returning_clause = (\<lambda>cols. Some ('' RETURNING '' @ cols)),
     quote_ident = (\<lambda>i. Some (quote_with DQUOTE DQUOTE i)),
     supports_distinct_on = False,
     insert_has_returning = True,
     upsert_clause = (\<lambda>c s. Some (on_conflict_cols (quote_with DQUOTE DQUOTE) c @ '' DO UPDATE SET '' @ s)),
     supports_sql_emission = True,
     supports_upsert = True,
     upsert_do_nothing_clause = (\<lambda>c. Some (on_conflict_cols (quote_with DQUOTE DQUOTE) c @ '' DO NOTHING'')),
     like_escape_clause = default_like_escape_clause,
     begin_sql = ''BEGIN'', commit_sql = ''COMMIT'', rollback_sql = ''ROLLBACK''\<rparr>"

subsection \<open>MySQL\<close>

definition mysql_upsert_do_nothing :: "string list \<Rightarrow> string" where
  "mysql_upsert_do_nothing c =
     (let col = (case c of [] \<Rightarrow> ''id'' | x # _ \<Rightarrow> x); q = quote_with BTICK BTICK col
      in '' ON DUPLICATE KEY UPDATE '' @ q @ '' = '' @ q)"

definition mysql :: dialect where
  "mysql = \<lparr>
     placeholder = (\<lambda>_. Some ''?''),
     returning_clause = (\<lambda>_. Some []),
     quote_ident = (\<lambda>i. Some (quote_with BTICK BTICK i)),
     supports_distinct_on = False,
     insert_has_returning = False,
     upsert_clause = (\<lambda>_ s. Some ('' ON DUPLICATE KEY UPDATE '' @ s)),
     supports_sql_emission = True,
     supports_upsert = True,
     upsert_do_nothing_clause = (\<lambda>c. Some (mysql_upsert_do_nothing c)),
     like_escape_clause = '' ESCAPE '' @ [SQUOTE, BSLASH, BSLASH, SQUOTE],
     begin_sql = ''BEGIN'', commit_sql = ''COMMIT'', rollback_sql = ''ROLLBACK''\<rparr>"

subsection \<open>Microsoft SQL Server\<close>

definition mssql_returning :: "string \<Rightarrow> string" where
  "mssql_returning cols =
     (if cols = ''*'' then '' OUTPUT INSERTED.*''
      else '' OUTPUT '' @ join '', '' (map (\<lambda>c. ''INSERTED.'' @ trim c) (split_on CHR '','' cols)))"

definition mssql :: dialect where
  "mssql = \<lparr>
     placeholder = (\<lambda>i. Some (''@P'' @ show_nat i)),
     returning_clause = (\<lambda>cols. Some (mssql_returning cols)),
     quote_ident = (\<lambda>i. Some (quote_with CHR ''['' CHR '']'' i)),
     supports_distinct_on = False,
     insert_has_returning = True,
     upsert_clause = (\<lambda>_ _. Some []),
     supports_sql_emission = True,
     supports_upsert = True,
     upsert_do_nothing_clause = default_upsert_do_nothing_clause,
     like_escape_clause = default_like_escape_clause,
     begin_sql = ''BEGIN TRANSACTION'', commit_sql = ''COMMIT TRANSACTION'',
     rollback_sql = ''ROLLBACK TRANSACTION''\<rparr>"

subsection \<open>CQL (Cassandra and ScyllaDB)\<close>

definition cql :: dialect where
  "cql = \<lparr>
     placeholder = (\<lambda>_. Some ''?''),
     returning_clause = (\<lambda>_. Some []),
     quote_ident = (\<lambda>i. Some (quote_with DQUOTE DQUOTE i)),
     supports_distinct_on = False,
     insert_has_returning = False,
     upsert_clause = (\<lambda>_ _. Some []),
     supports_sql_emission = True,
     supports_upsert = True,
     upsert_do_nothing_clause = default_upsert_do_nothing_clause,
     like_escape_clause = default_like_escape_clause,
     begin_sql = ''BEGIN'', commit_sql = ''COMMIT'', rollback_sql = ''ROLLBACK''\<rparr>"

subsection \<open>Engines without SQL\<close>

definition not_sql :: dialect where
  "not_sql = \<lparr>
     placeholder = (\<lambda>_. None),
     returning_clause = (\<lambda>_. None),
     quote_ident = (\<lambda>_. None),
     supports_distinct_on = False,
     insert_has_returning = True,
     upsert_clause = (\<lambda>_ _. None),
     supports_sql_emission = False,
     supports_upsert = False,
     upsert_do_nothing_clause = default_upsert_do_nothing_clause,
     like_escape_clause = default_like_escape_clause,
     begin_sql = ''BEGIN'', commit_sql = ''COMMIT'', rollback_sql = ''ROLLBACK''\<rparr>"

lemmas dialect_defs = postgres_def sqlite_def mysql_def mssql_def cql_def not_sql_def

end
