(* ===== verification/Sql_Lexing.thy ===== *)
theory Sql_Lexing
  imports Sql_Dialect
begin

text \<open>
  The abstract specification of what a dialect promises: the text it emits, read by the lexical
  rules of its database, is the identifier, placeholder or literal it stands for, whatever bytes
  the identifier holds.  The lexer follows the documented lexical structure of the databases
  (delimited identifiers with a doubled closing quote, string literals with a doubled quote and,
  for MySQL, backslash escapes, parameter markers); it is a specification, not code of the
  repository.  The locale \<open>sql_lexable\<close> states the laws, the theory interprets it on the five
  SQL dialects.
\<close>

record lexis =
  open_quote :: char
  close_quote :: char
  mark :: char
  mark_rest :: string
  numbered :: bool
  backslash :: bool

datatype token =
    TIdent string
  | TMark "nat option"
  | TStr string
  | TChar char

text \<open>The body of a delimited identifier and what follows its closing quote.\<close>

fun scan_quoted :: "char \<Rightarrow> string \<Rightarrow> (string \<times> string) option" where
  "scan_quoted q [] = None"
| "scan_quoted q (c # cs) =
     (if c \<noteq> q then map_option (\<lambda>(i, r). (c # i, r)) (scan_quoted q cs)
      else case cs of
        [] \<Rightarrow> Some ([], [])
      | c' # cs' \<Rightarrow>
          if c' = q then map_option (\<lambda>(i, r). (q # i, r)) (scan_quoted q cs')
          else Some ([], cs))"

text \<open>The body of a string literal; with \<open>bs\<close> a backslash escapes the next character.\<close>

fun scan_string :: "bool \<Rightarrow> string \<Rightarrow> (string \<times> string) option" where
  "scan_string bs [] = None"
| "scan_string bs (c # cs) =
     (if c = SQUOTE then
        (case cs of
           [] \<Rightarrow> Some ([], [])
         | c' # cs' \<Rightarrow>
             if c' = SQUOTE then map_option (\<lambda>(i, r). (SQUOTE # i, r)) (scan_string bs cs')
             else Some ([], cs))
      else if bs \<and> c = BSLASH then
        (case cs of
           [] \<Rightarrow> None
         | c' # cs' \<Rightarrow> map_option (\<lambda>(i, r). (c' # i, r)) (scan_string bs cs'))
      else map_option (\<lambda>(i, r). (c # i, r)) (scan_string bs cs))"

lemma scan_quoted_length: "scan_quoted q s = Some (i, r) \<Longrightarrow> length r < length s"
  by (induction q s arbitrary: i r rule: scan_quoted.induct)
     (fastforce split: if_splits list.splits)+

lemma scan_string_length: "scan_string bs s = Some (i, r) \<Longrightarrow> length r < length s"
  by (induction bs s arbitrary: i r rule: scan_string.induct)
     (fastforce split: if_splits list.splits)+

text \<open>A parameter marker at the head of the text: its number, if any, and what follows.\<close>

definition scan_mark :: "lexis \<Rightarrow> string \<Rightarrow> (nat option \<times> string) option" where
  "scan_mark lx s =
     (case s of
        [] \<Rightarrow> None
      | c # cs \<Rightarrow>
          if c = mark lx \<and> take (length (mark_rest lx)) cs = mark_rest lx then
            (let r = drop (length (mark_rest lx)) cs in
             if numbered lx then
               (if takeWhile is_digit r = [] then None
                else Some (Some (nat_of_digits (takeWhile is_digit r)), dropWhile is_digit r))
             else Some (None, r))
          else None)"

lemma scan_mark_length: "scan_mark lx s = Some (n, r) \<Longrightarrow> length r < length s"
proof -
  assume a: "scan_mark lx s = Some (n, r)"
  then obtain c cs where s: "s = c # cs"
    by (auto simp: scan_mark_def split: list.splits)
  have "length (dropWhile is_digit (drop k cs)) \<le> length cs" for k
    by (rule le_trans [OF length_dropWhile_le]) simp
  with a s show ?thesis
    by (auto simp: scan_mark_def Let_def le_imp_less_Suc split: if_splits)
qed

text \<open>\<open>prepend ts r\<close> puts the tokens \<open>ts\<close> before those of \<open>r\<close>.\<close>

definition prepend :: "'a list \<Rightarrow> 'a list option \<Rightarrow> 'a list option" where
  "prepend xs r = map_option (\<lambda>ys. xs @ ys) r"

lemma prepend_simps [simp]:
  "prepend [] r = r"
  "prepend xs (Some ys) = Some (xs @ ys)"
  "prepend xs None = None"
  "prepend xs (prepend ys r) = prepend (xs @ ys) r"
  by (cases r; simp add: prepend_def)+

function lex_sql :: "lexis \<Rightarrow> string \<Rightarrow> token list option" where
  "lex_sql lx [] = Some []"
| "lex_sql lx (c # cs) =
     (if c = open_quote lx then
        (case scan_quoted (close_quote lx) cs of
           None \<Rightarrow> None
         | Some (i, r) \<Rightarrow> prepend [TIdent i] (lex_sql lx r))
      else if c = SQUOTE then
        (case scan_string (backslash lx) cs of
           None \<Rightarrow> None
         | Some (i, r) \<Rightarrow> prepend [TStr i] (lex_sql lx r))
      else
        (case scan_mark lx (c # cs) of
           Some (n, r) \<Rightarrow> prepend [TMark n] (lex_sql lx r)
         | None \<Rightarrow> prepend [TChar c] (lex_sql lx cs)))"
  by pat_completeness auto
termination
proof (relation "measure (\<lambda>(lx, s). length s)", goal_cases)
  case (2 lx c cs x i r)
  then show ?case using scan_quoted_length by fastforce
next
  case (3 lx c cs x i r)
  then show ?case using scan_string_length by fastforce
next
  case (4 lx c cs)
  then show ?case by simp
next
  case (5 lx c cs x n r)
  then show ?case using scan_mark_length by fastforce
qed auto

declare lex_sql.simps(2) [simp del]

text \<open>The characters of the fixed text the query builders write.\<close>

definition plain_chars :: string where
  "plain_chars = ''ABCDEFGHIJKLMNOPQRSTUVWXYZ ()=!<>,*''"

subsection \<open>Scanning what \<open>quote_with\<close> and \<open>show_nat\<close> wrote\<close>

text \<open>\<open>fresh c rest\<close>: the text that follows does not start with \<open>c\<close>.\<close>

definition fresh :: "(char \<Rightarrow> bool) \<Rightarrow> string \<Rightarrow> bool" where
  "fresh P rest \<longleftrightarrow> (case rest of [] \<Rightarrow> True | c # _ \<Rightarrow> \<not> P c)"

lemma fresh_Nil [simp]: "fresh P []"
  and fresh_Cons [simp]: "fresh P (c # cs) \<longleftrightarrow> \<not> P c"
  by (simp_all add: fresh_def)

lemma fresh_mono: "fresh P rest \<Longrightarrow> (\<And>c. Q c \<Longrightarrow> P c) \<Longrightarrow> fresh Q rest"
  by (cases rest) auto

lemma scan_quoted_replace:
  "fresh (\<lambda>c. c = q) rest \<Longrightarrow>
   scan_quoted q (replace_char q [q, q] i @ q # rest) = Some (i, rest)"
  by (induction i) (auto split: list.splits)

lemma fresh_digits:
  "fresh P rest \<Longrightarrow> takeWhile P rest = []"
  "fresh P rest \<Longrightarrow> dropWhile P rest = rest"
  by (cases rest; simp)+

lemma lex_TIdent:
  assumes "fresh (\<lambda>c. c = close_quote lx) rest"
  shows "lex_sql lx (quote_with (open_quote lx) (close_quote lx) i @ rest)
     = prepend [TIdent i] (lex_sql lx rest)"
  using scan_quoted_replace [OF assms, of i] by (simp add: quote_with_def lex_sql.simps)

text \<open>What the lexer reports for the marker of slot \<open>n\<close>.\<close>

definition marker :: "lexis \<Rightarrow> nat \<Rightarrow> nat option" where
  "marker lx n = (if numbered lx then Some n else None)"

lemma lex_TMark:
  assumes "fresh is_digit rest" and "mark lx \<noteq> open_quote lx" and "mark lx \<noteq> SQUOTE"
  shows "lex_sql lx (mark lx # mark_rest lx @ (if numbered lx then show_nat n else []) @ rest)
     = prepend [TMark (marker lx n)] (lex_sql lx rest)"
  using assms by (simp add: lex_sql.simps scan_mark_def fresh_digits marker_def)

lemma lex_TChar:
  assumes "c \<noteq> open_quote lx" and "c \<noteq> SQUOTE" and "c \<noteq> mark lx"
  shows "lex_sql lx (c # rest) = prepend [TChar c] (lex_sql lx rest)"
  using assms by (simp add: lex_sql.simps scan_mark_def)

lemma lex_TChars:
  "(\<And>c. c \<in> set s \<Longrightarrow> c \<noteq> open_quote lx \<and> c \<noteq> SQUOTE \<and> c \<noteq> mark lx) \<Longrightarrow>
   lex_sql lx (s @ rest) = prepend (map TChar s) (lex_sql lx rest)"
  by (induction s) (auto simp: lex_TChar)

lemma plain_not_SQUOTE: "c \<in> set plain_chars \<Longrightarrow> c \<noteq> SQUOTE"
  by (auto simp: plain_chars_def)

lemma lex_like_escape_std:
  assumes fr: "fresh (\<lambda>c. c = SQUOTE) rest"
    and kw: "set kw \<subseteq> set plain_chars"
    and pl: "\<And>c. c \<in> set plain_chars \<Longrightarrow> c \<noteq> open_quote lx \<and> c \<noteq> mark lx"
    and oq: "open_quote lx \<noteq> SQUOTE"
  shows "lex_sql lx (kw @ SQUOTE # BSLASH # (if backslash lx then [BSLASH] else []) @ SQUOTE # rest)
     = prepend (map TChar kw @ [TStr [BSLASH]]) (lex_sql lx rest)"
proof -
  let ?lit = "SQUOTE # BSLASH # (if backslash lx then [BSLASH] else []) @ SQUOTE # rest"
  have "lex_sql lx ?lit = prepend [TStr [BSLASH]] (lex_sql lx rest)"
    using fr oq by (cases rest) (auto simp: lex_sql.simps(2))
  moreover have "lex_sql lx (kw @ ?lit) = prepend (map TChar kw) (lex_sql lx ?lit)"
    by (rule lex_TChars) (use kw pl plain_not_SQUOTE in blast)
  ultimately show ?thesis by simp
qed

subsection \<open>The contract of a SQL dialect\<close>

locale sql_lexable =
  fixes d :: dialect and lx :: lexis
    and quo :: "string \<Rightarrow> string" and ph :: "nat \<Rightarrow> string"
  assumes quote_ident: "quote_ident d i = Some (quo i)"
    and placeholder: "placeholder d n = Some (ph n)"
    and lex_quo: "fresh (\<lambda>c. c = close_quote lx) rest \<Longrightarrow>
        lex_sql lx (quo i @ rest) = prepend [TIdent i] (lex_sql lx rest)"
    and lex_ph: "fresh is_digit rest \<Longrightarrow>
        lex_sql lx (ph n @ rest) = prepend [TMark (marker lx n)] (lex_sql lx rest)"
    and lex_like_escape: "fresh (\<lambda>c. c = SQUOTE) rest \<Longrightarrow>
        lex_sql lx (like_escape_clause d @ rest)
        = prepend (map TChar '' ESCAPE '' @ [TStr [BSLASH]]) (lex_sql lx rest)"
    and like_escape_blank: "\<exists>t. like_escape_clause d = CHR '' '' # t"
    and plain: "c \<in> set plain_chars \<Longrightarrow> c \<noteq> open_quote lx \<and> c \<noteq> close_quote lx \<and> c \<noteq> mark lx"
begin

lemma lex_plain:
  "set s \<subseteq> set plain_chars \<Longrightarrow>
   lex_sql lx (s @ rest) = prepend (map TChar s) (lex_sql lx rest)"
  by (rule lex_TChars) (use plain plain_not_SQUOTE in blast)

end

definition postgres_lexis :: lexis where
  "postgres_lexis = \<lparr>open_quote = DQUOTE, close_quote = DQUOTE, mark = CHR ''$'', mark_rest = [],
     numbered = True, backslash = False\<rparr>"

definition sqlite_lexis :: lexis where
  "sqlite_lexis = \<lparr>open_quote = DQUOTE, close_quote = DQUOTE, mark = CHR ''?'', mark_rest = [],
     numbered = True, backslash = False\<rparr>"

definition mysql_lexis :: lexis where
  "mysql_lexis = \<lparr>open_quote = BTICK, close_quote = BTICK, mark = CHR ''?'', mark_rest = [],
     numbered = False, backslash = True\<rparr>"

definition mssql_lexis :: lexis where
  "mssql_lexis = \<lparr>open_quote = CHR ''['', close_quote = CHR '']'', mark = CHR ''@'', mark_rest = ''P'',
     numbered = True, backslash = False\<rparr>"

definition cql_lexis :: lexis where
  "cql_lexis = \<lparr>open_quote = DQUOTE, close_quote = DQUOTE, mark = CHR ''?'', mark_rest = [],
     numbered = False, backslash = False\<rparr>"

lemmas lexis_defs = postgres_lexis_def sqlite_lexis_def mysql_lexis_def mssql_lexis_def cql_lexis_def

text \<open>
  Every SQL dialect of the program satisfies the contract; the last law is the check that each
  dialect's spelling of the escape clause is one string literal holding one backslash.
\<close>

lemma like_escape_kw: "set '' ESCAPE '' \<subseteq> set plain_chars"
  by (simp add: plain_chars_def)

lemmas lex_like_escape_inst = lex_like_escape_std [OF _ like_escape_kw]

text \<open>The spelling of identifiers and markers a lexis determines.\<close>

definition spell_ident :: "lexis \<Rightarrow> string \<Rightarrow> string" where
  "spell_ident lx i = quote_with (open_quote lx) (close_quote lx) i"

definition spell_mark :: "lexis \<Rightarrow> nat \<Rightarrow> string" where
  "spell_mark lx n = mark lx # mark_rest lx @ (if numbered lx then show_nat n else [])"

lemma sql_lexableI:
  assumes "\<And>i. quote_ident d i = Some (spell_ident lx i)"
    and "\<And>n. placeholder d n = Some (spell_mark lx n)"
    and "like_escape_clause d
      = '' ESCAPE '' @ SQUOTE # BSLASH # (if backslash lx then [BSLASH] else []) @ [SQUOTE]"
    and pl: "\<And>c. c \<in> set plain_chars \<Longrightarrow>
      c \<noteq> open_quote lx \<and> c \<noteq> close_quote lx \<and> c \<noteq> mark lx"
    and "mark lx \<noteq> open_quote lx" "mark lx \<noteq> SQUOTE" "open_quote lx \<noteq> SQUOTE"
  shows "sql_lexable d lx (spell_ident lx) (spell_mark lx)"
proof (unfold_locales, goal_cases)
  case (3 rest i)
  then show ?case by (simp add: spell_ident_def lex_TIdent)
next
  case (4 rest n)
  then show ?case using lex_TMark [OF 4 assms(5,6), of n] by (simp add: spell_mark_def)
next
  case (5 rest)
  then show ?case using lex_like_escape_inst [of rest lx] pl assms(7) by (simp add: assms(3))
qed (use assms in auto)

interpretation pg_lex: sql_lexable postgres postgres_lexis
  "spell_ident postgres_lexis" "spell_mark postgres_lexis"
  by (rule sql_lexableI) (auto simp: postgres_def default_like_escape_clause_def spell_ident_def
      spell_mark_def postgres_lexis_def plain_chars_def)

interpretation sqlite_lex: sql_lexable sqlite sqlite_lexis
  "spell_ident sqlite_lexis" "spell_mark sqlite_lexis"
  by (rule sql_lexableI) (auto simp: sqlite_def default_like_escape_clause_def spell_ident_def
      spell_mark_def sqlite_lexis_def plain_chars_def)

interpretation mysql_lex: sql_lexable mysql mysql_lexis
  "spell_ident mysql_lexis" "spell_mark mysql_lexis"
  by (rule sql_lexableI) (auto simp: mysql_def spell_ident_def
      spell_mark_def mysql_lexis_def plain_chars_def)

interpretation mssql_lex: sql_lexable mssql mssql_lexis
  "spell_ident mssql_lexis" "spell_mark mssql_lexis"
  by (rule sql_lexableI) (auto simp: mssql_def default_like_escape_clause_def spell_ident_def
      spell_mark_def mssql_lexis_def plain_chars_def)

interpretation cql_lex: sql_lexable cql cql_lexis
  "spell_ident cql_lexis" "spell_mark cql_lexis"
  by (rule sql_lexableI) (auto simp: cql_def default_like_escape_clause_def spell_ident_def
      spell_mark_def cql_lexis_def plain_chars_def)

end
