(* ===== verification/Filter_Model.thy ===== *)
theory Filter_Model
  imports Sql_Lexing
begin

text \<open>
  Filters, \<^verbatim>\<open>prax-query/src/filter.rs\<close>: the values a filter carries, the conversions into
  them, the filter tree with its constructors and builders, and \<open>to_sql\<close>, which turns a
  filter into the text of a \<^verbatim>\<open>WHERE\<close> clause and the list of bound parameters.
  \<^verbatim>\<open>serde_json::Value\<close> is the type parameter \<open>'j\<close>; an \<^verbatim>\<open>f64\<close> is its 64-bit pattern.
\<close>

subsection \<open>Values\<close>

datatype 'j filter_value =
    VNull
  | VBool bool
  | VInt i64
  | VFloat u64
  | VString string
  | VJson 'j
  | VList "'j filter_value list"

definition is_null :: "'j filter_value \<Rightarrow> bool" where
  "is_null v = (case v of VNull \<Rightarrow> True | _ \<Rightarrow> False)"

definition from_bool :: "bool \<Rightarrow> 'j filter_value" where "from_bool v = VBool v"
definition from_i32 :: "i32 \<Rightarrow> 'j filter_value" where "from_i32 v = VInt (scast v)"
definition from_i64 :: "i64 \<Rightarrow> 'j filter_value" where "from_i64 v = VInt v"
definition from_f64 :: "u64 \<Rightarrow> 'j filter_value" where "from_f64 v = VFloat v"
definition from_string :: "string \<Rightarrow> 'j filter_value" where "from_string v = VString v"
definition from_i8 :: "i8 \<Rightarrow> 'j filter_value" where "from_i8 v = VInt (scast v)"
definition from_i16 :: "i16 \<Rightarrow> 'j filter_value" where "from_i16 v = VInt (scast v)"
definition from_u8 :: "u8 \<Rightarrow> 'j filter_value" where "from_u8 v = VInt (ucast v)"
definition from_u16 :: "u16 \<Rightarrow> 'j filter_value" where "from_u16 v = VInt (ucast v)"
definition from_u32 :: "u32 \<Rightarrow> 'j filter_value" where "from_u32 v = VInt (ucast v)"
definition from_json :: "'j \<Rightarrow> 'j filter_value" where "from_json v = VJson v"

text \<open>\<^verbatim>\<open>i64::try_from(v).expect(..)\<close> panics above \<^verbatim>\<open>i64::MAX\<close>.\<close>

definition from_u64 :: "u64 \<Rightarrow> 'j filter_value option" where
  "from_u64 v = (if unat v < 2 ^ 63 then Some (VInt v) else None)"

definition from_vec :: "('a \<Rightarrow> 'j filter_value) \<Rightarrow> 'a list \<Rightarrow> 'j filter_value" where
  "from_vec into v = VList (map into v)"

definition from_option :: "('a \<Rightarrow> 'j filter_value) \<Rightarrow> 'a option \<Rightarrow> 'j filter_value" where
  "from_option into v = (case v of Some x \<Rightarrow> into x | None \<Rightarrow> VNull)"

text \<open>The borrowing conversions of the trait \<open>ToFilterValue\<close>.\<close>

definition to_fv_i8 :: "i8 \<Rightarrow> 'j filter_value" where "to_fv_i8 v = VInt (scast v)"
definition to_fv_i16 :: "i16 \<Rightarrow> 'j filter_value" where "to_fv_i16 v = VInt (scast v)"
definition to_fv_i32 :: "i32 \<Rightarrow> 'j filter_value" where "to_fv_i32 v = VInt (scast v)"
definition to_fv_i64 :: "i64 \<Rightarrow> 'j filter_value" where "to_fv_i64 v = VInt v"
definition to_fv_u8 :: "u8 \<Rightarrow> 'j filter_value" where "to_fv_u8 v = VInt (ucast v)"
definition to_fv_u16 :: "u16 \<Rightarrow> 'j filter_value" where "to_fv_u16 v = VInt (ucast v)"
definition to_fv_u32 :: "u32 \<Rightarrow> 'j filter_value" where "to_fv_u32 v = VInt (ucast v)"
definition to_fv_f64 :: "u64 \<Rightarrow> 'j filter_value" where "to_fv_f64 v = VFloat v"
definition to_fv_bool :: "bool \<Rightarrow> 'j filter_value" where "to_fv_bool v = VBool v"
definition to_fv_string :: "string \<Rightarrow> 'j filter_value" where "to_fv_string v = VString v"
definition to_fv_json :: "'j \<Rightarrow> 'j filter_value" where "to_fv_json v = VJson v"
definition to_fv_bytes :: "u8 list \<Rightarrow> 'j filter_value" where
  "to_fv_bytes v = VList (map (\<lambda>b. VInt (ucast b)) v)"
definition to_fv_option :: "('a \<Rightarrow> 'j filter_value) \<Rightarrow> 'a option \<Rightarrow> 'j filter_value" where
  "to_fv_option f v = (case map_option f v of Some x \<Rightarrow> x | None \<Rightarrow> VNull)"

subsection \<open>The filter tree\<close>

datatype 'j filter =
    FNone
  | FEquals string "'j filter_value"
  | FNotEquals string "'j filter_value"
  | FLt string "'j filter_value"
  | FLte string "'j filter_value"
  | FGt string "'j filter_value"
  | FGte string "'j filter_value"
  | FIn string "'j filter_value list"
  | FNotIn string "'j filter_value list"
  | FContains string "'j filter_value"
  | FStartsWith string "'j filter_value"
  | FEndsWith string "'j filter_value"
  | FIsNull string
  | FIsNotNull string
  | FAnd "'j filter list"
  | FOr "'j filter list"
  | FNot "'j filter"
  | FScalarSubquery string "'j filter_value list"

datatype 'a scalar_filter =
    SEquals 'a | SNot 'a | SIn "'a list" | SNotIn "'a list"
  | SLt 'a | SLte 'a | SGt 'a | SGte 'a
  | SContains 'a | SStartsWith 'a | SEndsWith 'a | SIsNull | SIsNotNull

fun into_filter :: "('a \<Rightarrow> 'j filter_value) \<Rightarrow> 'a scalar_filter \<Rightarrow> string \<Rightarrow> 'j filter" where
  "into_filter into (SEquals v) column = FEquals column (into v)"
| "into_filter into (SNot v) column = FNotEquals column (into v)"
| "into_filter into (SIn vs) column = FIn column (map into vs)"
| "into_filter into (SNotIn vs) column = FNotIn column (map into vs)"
| "into_filter into (SLt v) column = FLt column (into v)"
| "into_filter into (SLte v) column = FLte column (into v)"
| "into_filter into (SGt v) column = FGt column (into v)"
| "into_filter into (SGte v) column = FGte column (into v)"
| "into_filter into (SContains v) column = FContains column (into v)"
| "into_filter into (SStartsWith v) column = FStartsWith column (into v)"
| "into_filter into (SEndsWith v) column = FEndsWith column (into v)"
| "into_filter into SIsNull column = FIsNull column"
| "into_filter into SIsNotNull column = FIsNotNull column"

definition is_none :: "'j filter \<Rightarrow> bool" where
  "is_none f = (case f of FNone \<Rightarrow> True | _ \<Rightarrow> False)"

lemma is_none_iff [simp]: "is_none f \<longleftrightarrow> f = FNone"
  by (simp add: is_none_def split: filter.splits)

lemma is_null_iff [simp]: "is_null v \<longleftrightarrow> v = VNull"
  by (simp add: is_null_def split: filter_value.splits)

subsection \<open>Constructors\<close>

definition filter_and :: "'j filter list \<Rightarrow> 'j filter" where
  "filter_and filters =
     (case List.filter (\<lambda>f. \<not> is_none f) filters of
        [] \<Rightarrow> FNone
      | [f] \<Rightarrow> f
      | fs \<Rightarrow> FAnd fs)"

definition filter_and2 :: "'j filter \<Rightarrow> 'j filter \<Rightarrow> 'j filter" where
  "filter_and2 a b =
     (case (is_none a, is_none b) of
        (True, True) \<Rightarrow> FNone
      | (True, False) \<Rightarrow> b
      | (False, True) \<Rightarrow> a
      | (False, False) \<Rightarrow> FAnd [a, b])"

definition filter_or :: "'j filter list \<Rightarrow> 'j filter" where
  "filter_or filters =
     (case List.filter (\<lambda>f. \<not> is_none f) filters of
        [] \<Rightarrow> FNone
      | [f] \<Rightarrow> f
      | fs \<Rightarrow> FOr fs)"

definition filter_or2 :: "'j filter \<Rightarrow> 'j filter \<Rightarrow> 'j filter" where
  "filter_or2 a b =
     (case (is_none a, is_none b) of
        (True, True) \<Rightarrow> FNone
      | (True, False) \<Rightarrow> b
      | (False, True) \<Rightarrow> a
      | (False, False) \<Rightarrow> FOr [a, b])"

definition and_n :: "'j filter list \<Rightarrow> 'j filter" where "and_n filters = FAnd filters"
definition or_n :: "'j filter list \<Rightarrow> 'j filter" where "or_n filters = FOr filters"
definition and3 :: "'j filter \<Rightarrow> 'j filter \<Rightarrow> 'j filter \<Rightarrow> 'j filter" where
  "and3 a b c = FAnd [a, b, c]"
definition and4 :: "'j filter \<Rightarrow> 'j filter \<Rightarrow> 'j filter \<Rightarrow> 'j filter \<Rightarrow> 'j filter" where
  "and4 a b c d = FAnd [a, b, c, d]"
definition and5 ::
  "'j filter \<Rightarrow> 'j filter \<Rightarrow> 'j filter \<Rightarrow> 'j filter \<Rightarrow> 'j filter \<Rightarrow> 'j filter" where
  "and5 a b c d e = FAnd [a, b, c, d, e]"
definition or3 :: "'j filter \<Rightarrow> 'j filter \<Rightarrow> 'j filter \<Rightarrow> 'j filter" where
  "or3 a b c = FOr [a, b, c]"
definition or4 :: "'j filter \<Rightarrow> 'j filter \<Rightarrow> 'j filter \<Rightarrow> 'j filter \<Rightarrow> 'j filter" where
  "or4 a b c d = FOr [a, b, c, d]"
definition or5 ::
  "'j filter \<Rightarrow> 'j filter \<Rightarrow> 'j filter \<Rightarrow> 'j filter \<Rightarrow> 'j filter \<Rightarrow> 'j filter" where
  "or5 a b c d e = FOr [a, b, c, d, e]"

definition in_i64 :: "string \<Rightarrow> i64 list \<Rightarrow> 'j filter" where
  "in_i64 field values = FIn field (map VInt values)"
definition in_i32 :: "string \<Rightarrow> i32 list \<Rightarrow> 'j filter" where
  "in_i32 field values = FIn field (map (\<lambda>v. VInt (scast v)) values)"
definition in_strings :: "string \<Rightarrow> string list \<Rightarrow> 'j filter" where
  "in_strings field values = FIn field (map VString values)"
definition in_values :: "string \<Rightarrow> 'j filter_value list \<Rightarrow> 'j filter" where
  "in_values field values = FIn field values"
definition in_range :: "string \<Rightarrow> i64 \<Rightarrow> i64 \<Rightarrow> 'j filter" where
  "in_range field a b = FIn field (map (\<lambda>i. VInt (word_of_int i)) [sint a .. sint b - 1])"
definition in_i64_slice :: "string \<Rightarrow> i64 list \<Rightarrow> 'j filter" where
  "in_i64_slice field values = FIn field (foldl (\<lambda>l v. l @ [VInt v]) [] values)"
definition in_i32_slice :: "string \<Rightarrow> i32 list \<Rightarrow> 'j filter" where
  "in_i32_slice field values = FIn field (foldl (\<lambda>l v. l @ [VInt (scast v)]) [] values)"
definition in_str_slice :: "string \<Rightarrow> string list \<Rightarrow> 'j filter" where
  "in_str_slice field values = FIn field (foldl (\<lambda>l v. l @ [VString v]) [] values)"

definition filter_not :: "'j filter \<Rightarrow> 'j filter" where
  "filter_not f = (if is_none f then FNone else FNot f)"

definition in_slice :: "('a \<Rightarrow> 'j filter_value) \<Rightarrow> string \<Rightarrow> 'a list \<Rightarrow> 'j filter" where
  "in_slice into field values = FIn field (map into values)"
definition not_in_slice :: "('a \<Rightarrow> 'j filter_value) \<Rightarrow> string \<Rightarrow> 'a list \<Rightarrow> 'j filter" where
  "not_in_slice into field values = FNotIn field (map into values)"
definition in_array :: "('a \<Rightarrow> 'j filter_value) \<Rightarrow> string \<Rightarrow> 'a list \<Rightarrow> 'j filter" where
  "in_array into field values = FIn field (map into values)"
definition not_in_array :: "('a \<Rightarrow> 'j filter_value) \<Rightarrow> string \<Rightarrow> 'a list \<Rightarrow> 'j filter" where
  "not_in_array into field values = FNotIn field (map into values)"

definition and_then :: "'j filter \<Rightarrow> 'j filter \<Rightarrow> 'j filter" where
  "and_then self other =
     (if is_none self then other
      else if is_none other then self
      else case self of FAnd filters \<Rightarrow> FAnd (filters @ [other]) | _ \<Rightarrow> FAnd [self, other])"

definition or_else :: "'j filter \<Rightarrow> 'j filter \<Rightarrow> 'j filter" where
  "or_else self other =
     (if is_none self then other
      else if is_none other then self
      else case self of FOr filters \<Rightarrow> FOr (filters @ [other]) | _ \<Rightarrow> FOr [self, other])"

subsection \<open>SQL generation\<close>

definition escape_like_value :: "string \<Rightarrow> string" where
  "escape_like_value s =
     replace_char CHR ''_'' [BSLASH, CHR ''_'']
       (replace_char CHR ''%'' [BSLASH, CHR ''%'']
         (replace_char BSLASH [BSLASH, BSLASH] s))"

definition contains_value :: "'j filter_value \<Rightarrow> 'j filter_value" where
  "contains_value v =
     (case v of VString s \<Rightarrow> VString (''%'' @ escape_like_value s @ ''%'') | _ \<Rightarrow> v)"
definition starts_with_value :: "'j filter_value \<Rightarrow> 'j filter_value" where
  "starts_with_value v = (case v of VString s \<Rightarrow> VString (escape_like_value s @ ''%'') | _ \<Rightarrow> v)"
definition ends_with_value :: "'j filter_value \<Rightarrow> 'j filter_value" where
  "ends_with_value v = (case v of VString s \<Rightarrow> VString (''%'' @ escape_like_value s) | _ \<Rightarrow> v)"

text \<open>The placeholder substitution of a scalar subquery: \<open>{N}\<close> becomes the placeholder of slot
  \<open>base + N + 1\<close>; an index that does not parse or is out of range panics.\<close>

function subst_slots :: "dialect \<Rightarrow> nat \<Rightarrow> nat \<Rightarrow> string \<Rightarrow> string option" where
  "subst_slots d base len [] = Some []"
| "subst_slots d base len (ch # chars) =
     (if ch = CHR ''{'' then
        do {
          n \<leftarrow> parse_usize (takeWhile (\<lambda>c. c \<noteq> CHR ''}'') chars);
          p \<leftarrow> (if len \<le> n then None else placeholder d (base + n + 1));
          out \<leftarrow> subst_slots d base len (tl (dropWhile (\<lambda>c. c \<noteq> CHR ''}'') chars));
          Some (p @ out)
        }
      else do { out \<leftarrow> subst_slots d base len chars; Some (ch # out) })"
  by pat_completeness auto
termination
proof (relation "measure (\<lambda>(d, base, len, s). length s)", goal_cases)
  case (2 d base len ch chars x xa)
  have "length (dropWhile (\<lambda>c. c \<noteq> CHR ''}'') chars) \<le> length chars"
    by (rule length_dropWhile_le)
  then show ?case by (simp add: le_imp_less_Suc less_le_trans)
qed auto

definition sql_compare ::
  "dialect \<Rightarrow> string \<Rightarrow> string \<Rightarrow> 'j filter_value \<Rightarrow> nat \<Rightarrow> 'j filter_value list \<Rightarrow>
   (string \<times> 'j filter_value list) option" where
  "sql_compare d oper col val param_idx params =
     do {
       c \<leftarrow> quote_ident d col;
       p \<leftarrow> placeholder d (param_idx + 1);
       Some (c @ oper @ p, params @ [val])
     }"

definition sql_member ::
  "dialect \<Rightarrow> string \<Rightarrow> string \<Rightarrow> 'j filter_value list \<Rightarrow> nat \<Rightarrow> 'j filter_value list \<Rightarrow>
   (string \<times> 'j filter_value list) option" where
  "sql_member d oper col values param_idx params =
     do {
       c \<leftarrow> quote_ident d col;
       ps \<leftarrow> those (map (\<lambda>i. placeholder d (param_idx + i + 1)) [0..<length values]);
       Some (c @ oper @ ''('' @ join '', '' ps @ '')'', params @ values)
     }"

definition sql_like ::
  "dialect \<Rightarrow> string \<Rightarrow> 'j filter_value \<Rightarrow> nat \<Rightarrow> 'j filter_value list \<Rightarrow>
   (string \<times> 'j filter_value list) option" where
  "sql_like d col val param_idx params =
     do {
       c \<leftarrow> quote_ident d col;
       p \<leftarrow> placeholder d (param_idx + 1);
       Some (c @ '' LIKE '' @ p @ like_escape_clause d, params @ [val])
     }"

text \<open>\<^verbatim>\<open>param_idx - params.len()\<close> on \<^verbatim>\<open>usize\<close> panics on underflow.\<close>

definition checked_sub :: "nat \<Rightarrow> nat \<Rightarrow> nat option" where
  "checked_sub a b = (if b \<le> a then Some (a - b) else None)"

fun to_sql_with_params ::
    "dialect \<Rightarrow> 'j filter \<Rightarrow> nat \<Rightarrow> 'j filter_value list \<Rightarrow> (string \<times> 'j filter_value list) option"
  and to_sql_parts ::
    "dialect \<Rightarrow> 'j filter list \<Rightarrow> nat \<Rightarrow> 'j filter_value list \<Rightarrow>
     (string list \<times> 'j filter_value list) option" where
  "to_sql_with_params d FNone param_idx params = Some (''TRUE'', params)"
| "to_sql_with_params d (FEquals col val) param_idx params =
     (if is_null val then do { c \<leftarrow> quote_ident d col; Some (c @ '' IS NULL'', params) }
      else sql_compare d '' = '' col val param_idx params)"
| "to_sql_with_params d (FNotEquals col val) param_idx params =
     (if is_null val then do { c \<leftarrow> quote_ident d col; Some (c @ '' IS NOT NULL'', params) }
      else sql_compare d '' != '' col val param_idx params)"
| "to_sql_with_params d (FLt col val) param_idx params = sql_compare d '' < '' col val param_idx params"
| "to_sql_with_params d (FLte col val) param_idx params = sql_compare d '' <= '' col val param_idx params"
| "to_sql_with_params d (FGt col val) param_idx params = sql_compare d '' > '' col val param_idx params"
| "to_sql_with_params d (FGte col val) param_idx params = sql_compare d '' >= '' col val param_idx params"
| "to_sql_with_params d (FIn col values) param_idx params =
     (if values = [] then Some (''FALSE'', params)
      else sql_member d '' IN '' col values param_idx params)"
| "to_sql_with_params d (FNotIn col values) param_idx params =
     (if values = [] then Some (''TRUE'', params)
      else sql_member d '' NOT IN '' col values param_idx params)"
| "to_sql_with_params d (FContains col val) param_idx params =
     sql_like d col (contains_value val) param_idx params"
| "to_sql_with_params d (FStartsWith col val) param_idx params =
     sql_like d col (starts_with_value val) param_idx params"
| "to_sql_with_params d (FEndsWith col val) param_idx params =
     sql_like d col (ends_with_value val) param_idx params"
| "to_sql_with_params d (FIsNull col) param_idx params =
     do { c \<leftarrow> quote_ident d col; Some (c @ '' IS NULL'', params) }"
| "to_sql_with_params d (FIsNotNull col) param_idx params =
     do { c \<leftarrow> quote_ident d col; Some (c @ '' IS NOT NULL'', params) }"
| "to_sql_with_params d (FAnd filters) param_idx params =
     (if filters = [] then Some (''TRUE'', params)
      else do {
        base \<leftarrow> checked_sub param_idx (length params);
        (parts, params') \<leftarrow> to_sql_parts d filters base params;
        Some (''('' @ join '' AND '' parts @ '')'', params')
      })"
| "to_sql_with_params d (FOr filters) param_idx params =
     (if filters = [] then Some (''FALSE'', params)
      else do {
        base \<leftarrow> checked_sub param_idx (length params);
        (parts, params') \<leftarrow> to_sql_parts d filters base params;
        Some (''('' @ join '' OR '' parts @ '')'', params')
      })"
| "to_sql_with_params d (FNot f) param_idx params =
     do {
       (inner, params') \<leftarrow> to_sql_with_params d f param_idx params;
       Some (''NOT ('' @ inner @ '')'', params')
     }"
| "to_sql_with_params d (FScalarSubquery sql inner_params) param_idx params =
     do {
       out \<leftarrow> subst_slots d param_idx (length inner_params) sql;
       Some (''('' @ out @ '')'', params @ inner_params)
     }"
| "to_sql_parts d [] base params = Some ([], params)"
| "to_sql_parts d (f # fs) base params =
     do {
       (part, params') \<leftarrow> to_sql_with_params d f (base + length params) params;
       (parts, params'') \<leftarrow> to_sql_parts d fs base params';
       Some (part # parts, params'')
     }"

definition to_sql :: "'j filter \<Rightarrow> nat \<Rightarrow> dialect \<Rightarrow> (string \<times> 'j filter_value list) option" where
  "to_sql f param_offset d = to_sql_with_params d f param_offset []"

end
