(* ===== verification/Filter_Sql.thy ===== *)
theory Filter_Sql
  imports Filter_Model
begin

text \<open>
  Correctness of the SQL that \<open>to_sql\<close> emits.  The abstract specification of a filter is its
  token stream (\<open>filter_tokens\<close>) and its bound values (\<open>bound_values\<close>); the text
  \<open>to_sql\<close> returns is shown to lex to exactly that stream, for every dialect that meets the
  contract \<open>sql_lexable\<close>.
\<close>

subsection \<open>The abstract specification\<close>

fun no_subquery :: "'j filter \<Rightarrow> bool" where
  "no_subquery (FAnd fs) = list_all no_subquery fs"
| "no_subquery (FOr fs) = list_all no_subquery fs"
| "no_subquery (FNot f) = no_subquery f"
| "no_subquery (FScalarSubquery sql ps) = False"
| "no_subquery _ = True"

text \<open>The values a filter binds, in the order of their slots.\<close>

fun bound_values :: "'j filter \<Rightarrow> 'j filter_value list" where
  "bound_values FNone = []"
| "bound_values (FEquals c v) = (if v = VNull then [] else [v])"
| "bound_values (FNotEquals c v) = (if v = VNull then [] else [v])"
| "bound_values (FLt c v) = [v]"
| "bound_values (FLte c v) = [v]"
| "bound_values (FGt c v) = [v]"
| "bound_values (FGte c v) = [v]"
| "bound_values (FIn c vs) = vs"
| "bound_values (FNotIn c vs) = vs"
| "bound_values (FContains c v) = [contains_value v]"
| "bound_values (FStartsWith c v) = [starts_with_value v]"
| "bound_values (FEndsWith c v) = [ends_with_value v]"
| "bound_values (FIsNull c) = []"
| "bound_values (FIsNotNull c) = []"
| "bound_values (FAnd fs) = concat (map bound_values fs)"
| "bound_values (FOr fs) = concat (map bound_values fs)"
| "bound_values (FNot f) = bound_values f"
| "bound_values (FScalarSubquery sql ps) = ps"

text \<open>The columns a filter names, in order.\<close>

fun filter_columns :: "'j filter \<Rightarrow> string list" where
  "filter_columns FNone = []"
| "filter_columns (FEquals c v) = [c]"
| "filter_columns (FNotEquals c v) = [c]"
| "filter_columns (FLt c v) = [c]"
| "filter_columns (FLte c v) = [c]"
| "filter_columns (FGt c v) = [c]"
| "filter_columns (FGte c v) = [c]"
| "filter_columns (FIn c vs) = (if vs = [] then [] else [c])"
| "filter_columns (FNotIn c vs) = (if vs = [] then [] else [c])"
| "filter_columns (FContains c v) = [c]"
| "filter_columns (FStartsWith c v) = [c]"
| "filter_columns (FEndsWith c v) = [c]"
| "filter_columns (FIsNull c) = [c]"
| "filter_columns (FIsNotNull c) = [c]"
| "filter_columns (FAnd fs) = concat (map filter_columns fs)"
| "filter_columns (FOr fs) = concat (map filter_columns fs)"
| "filter_columns (FNot f) = filter_columns f"
| "filter_columns (FScalarSubquery sql ps) = []"

text \<open>A piece of fixed text, and a separated list of token streams.\<close>

abbreviation (input) chars :: "string \<Rightarrow> token list" where "chars s \<equiv> map TChar s"

fun sep_tokens :: "token list \<Rightarrow> token list list \<Rightarrow> token list" where
  "sep_tokens sep [] = []"
| "sep_tokens sep (x # xs) = (if xs = [] then x else x @ sep @ sep_tokens sep xs)"

definition member_tokens :: "(nat \<Rightarrow> nat option) \<Rightarrow> nat \<Rightarrow> nat \<Rightarrow> token list" where
  "member_tokens nm i n =
     chars ''('' @ sep_tokens (chars '', '') (map (\<lambda>k. [TMark (nm (i + k + 1))]) [0..<n]) @ chars '')''"

fun filter_tokens :: "(nat \<Rightarrow> nat option) \<Rightarrow> 'j filter \<Rightarrow> nat \<Rightarrow> token list"
  and filter_tokens_list :: "(nat \<Rightarrow> nat option) \<Rightarrow> 'j filter list \<Rightarrow> nat \<Rightarrow> token list list" where
  "filter_tokens nm FNone i = chars ''TRUE''"
| "filter_tokens nm (FEquals c v) i =
     TIdent c # (if v = VNull then chars '' IS NULL'' else chars '' = '' @ [TMark (nm (i + 1))])"
| "filter_tokens nm (FNotEquals c v) i =
     TIdent c # (if v = VNull then chars '' IS NOT NULL'' else chars '' != '' @ [TMark (nm (i + 1))])"
| "filter_tokens nm (FLt c v) i = TIdent c # chars '' < '' @ [TMark (nm (i + 1))]"
| "filter_tokens nm (FLte c v) i = TIdent c # chars '' <= '' @ [TMark (nm (i + 1))]"
| "filter_tokens nm (FGt c v) i = TIdent c # chars '' > '' @ [TMark (nm (i + 1))]"
| "filter_tokens nm (FGte c v) i = TIdent c # chars '' >= '' @ [TMark (nm (i + 1))]"
| "filter_tokens nm (FIn c vs) i =
     (if vs = [] then chars ''FALSE'' else TIdent c # chars '' IN '' @ member_tokens nm i (length vs))"
| "filter_tokens nm (FNotIn c vs) i =
     (if vs = [] then chars ''TRUE'' else TIdent c # chars '' NOT IN '' @ member_tokens nm i (length vs))"
| "filter_tokens nm (FContains c v) i =
     TIdent c # chars '' LIKE '' @ TMark (nm (i + 1)) # chars '' ESCAPE '' @ [TStr [BSLASH]]"
| "filter_tokens nm (FStartsWith c v) i =
     TIdent c # chars '' LIKE '' @ TMark (nm (i + 1)) # chars '' ESCAPE '' @ [TStr [BSLASH]]"
| "filter_tokens nm (FEndsWith c v) i =
     TIdent c # chars '' LIKE '' @ TMark (nm (i + 1)) # chars '' ESCAPE '' @ [TStr [BSLASH]]"
| "filter_tokens nm (FIsNull c) i = TIdent c # chars '' IS NULL''"
| "filter_tokens nm (FIsNotNull c) i = TIdent c # chars '' IS NOT NULL''"
| "filter_tokens nm (FAnd fs) i =
     (if fs = [] then chars ''TRUE''
      else chars ''('' @ sep_tokens (chars '' AND '') (filter_tokens_list nm fs i) @ chars '')'')"
| "filter_tokens nm (FOr fs) i =
     (if fs = [] then chars ''FALSE''
      else chars ''('' @ sep_tokens (chars '' OR '') (filter_tokens_list nm fs i) @ chars '')'')"
| "filter_tokens nm (FNot f) i = chars ''NOT ('' @ filter_tokens nm f i @ chars '')''"
| "filter_tokens nm (FScalarSubquery sql ps) i = []"
| "filter_tokens_list nm [] i = []"
| "filter_tokens_list nm (f # fs) i =
     filter_tokens nm f i # filter_tokens_list nm fs (i + length (bound_values f))"

subsection \<open>Refinement: the text lexes to the specified tokens\<close>

text \<open>What may follow a filter in the text: nothing, a blank, a closing parenthesis or a comma.\<close>

definition ends_filter :: "string \<Rightarrow> bool" where
  "ends_filter rest \<longleftrightarrow> fresh (\<lambda>c. c \<notin> set '' ),'') rest"

lemma ends_filter_simps [simp]:
  "ends_filter []" "ends_filter (CHR '' '' # cs)" "ends_filter (CHR '')'' # cs)"
  "ends_filter (CHR '','' # cs)"
  by (simp_all add: ends_filter_def)

definition bound_all :: "'j filter list \<Rightarrow> 'j filter_value list" where
  "bound_all fs = concat (map bound_values fs)"

lemma bound_all_simps [simp]:
  "bound_all [] = []" "bound_all (f # fs) = bound_values f @ bound_all fs"
  "bound_values (FAnd fs) = bound_all fs" "bound_values (FOr fs) = bound_all fs"
  by (simp_all add: bound_all_def)

declare bound_values.simps(15,16) [simp del]

lemma those_Some: "those (map (\<lambda>x. Some (f x)) xs) = Some (map f xs)"
  by (induction xs) auto

lemma filter_tokens_list_Nil [simp]: "filter_tokens_list nm fs i = [] \<longleftrightarrow> fs = []"
  by (cases fs) auto

context sql_lexable
begin

abbreviation nm :: "nat \<Rightarrow> nat option" where
  "nm \<equiv> marker lx"

lemma ends_filter_fresh:
  assumes "ends_filter rest"
  shows "fresh (\<lambda>c. c = close_quote lx) rest" "fresh is_digit rest" "fresh (\<lambda>c. c = SQUOTE) rest"
proof -
  have k: "c \<noteq> close_quote lx" "\<not> is_digit c" "c \<noteq> SQUOTE" if "c \<in> set '' ),''" for c
    using that plain [of c] by (auto simp: plain_chars_def is_digit_def)
  show "fresh (\<lambda>c. c = close_quote lx) rest" "fresh is_digit rest" "fresh (\<lambda>c. c = SQUOTE) rest"
    by (rule fresh_mono [OF assms [unfolded ends_filter_def]], use k in blast)+
qed

lemmas lex_quo' = lex_quo [OF ends_filter_fresh(1)]
lemmas lex_ph' = lex_ph [OF ends_filter_fresh(2)]
lemmas lex_like_escape' = lex_like_escape [OF ends_filter_fresh(3)]

lemma lex_text:
  "set s \<subseteq> set plain_chars \<Longrightarrow> lex_sql lx s = Some (map TChar s)"
  using lex_plain [of s "[]"] by simp

text \<open>\<open>lexes s ts\<close>: in front of anything that may follow a filter, \<open>s\<close> lexes to \<open>ts\<close>.\<close>

definition lexes :: "string \<Rightarrow> token list \<Rightarrow> bool" where
  "lexes s ts \<longleftrightarrow> (\<forall>rest. ends_filter rest \<longrightarrow> lex_sql lx (s @ rest) = prepend ts (lex_sql lx rest))"

lemma lexesD: "lexes s ts \<Longrightarrow> ends_filter rest \<Longrightarrow> lex_sql lx (s @ rest) = prepend ts (lex_sql lx rest)"
  by (simp add: lexes_def)

lemma lexes_plain: "set s \<subseteq> set plain_chars \<Longrightarrow> lexes s (chars s)"
  by (simp add: lexes_def lex_plain)

lemma lexes_ident: "lexes (quo i) [TIdent i]"
  by (simp add: lexes_def lex_quo')

lemma lexes_mark: "lexes (ph n) [TMark (nm n)]"
  by (simp add: lexes_def lex_ph')

lemma lexes_like_escape: "lexes (like_escape_clause d) (chars '' ESCAPE '' @ [TStr [BSLASH]])"
  unfolding lexes_def using lex_like_escape' by blast

lemma lexes_append:
  assumes "lexes s ts" and "lexes t us" and "ends_filter t" and "t \<noteq> []"
  shows "lexes (s @ t) (ts @ us)"
  unfolding lexes_def
proof (intro allI impI)
  fix rest
  assume r: "ends_filter rest"
  from assms(3,4) have "ends_filter (t @ rest)" by (cases t) (auto simp: ends_filter_def)
  with assms(1) have "lex_sql lx (s @ t @ rest) = prepend ts (lex_sql lx (t @ rest))"
    by (rule lexesD)
  with lexesD [OF assms(2) r] show "lex_sql lx ((s @ t) @ rest) = prepend (ts @ us) (lex_sql lx rest)"
    by simp
qed

lemma lexes_text_append:
  "set t \<subseteq> set plain_chars \<Longrightarrow> lexes s ts \<Longrightarrow> lexes (t @ s) (chars t @ ts)"
  by (simp add: lexes_def lex_plain)

lemma lexes_append_text:
  "lexes s ts \<Longrightarrow> set t \<subseteq> set plain_chars \<Longrightarrow> ends_filter t \<Longrightarrow> t \<noteq> [] \<Longrightarrow>
   lexes (s @ t) (ts @ chars t)"
  by (rule lexes_append) (auto intro: lexes_plain)

lemma lexes_join:
  assumes "list_all2 lexes ss tss" and "set sep \<subseteq> set plain_chars" and "ends_filter sep"
    and "sep \<noteq> []"
  shows "lexes (join sep ss) (sep_tokens (chars sep) tss)"
  using assms(1)
proof (induction rule: list_all2_induct)
  case Nil
  then show ?case using lexes_plain [of "[]"] by simp
next
  case (Cons x xs y ys)
  show ?case
  proof (cases "xs = []")
    case True
    with Cons show ?thesis by simp
  next
    case False
    with Cons have "ys \<noteq> []" by auto
    have "lexes (sep @ join sep xs) (chars sep @ sep_tokens (chars sep) ys)"
      using assms(2) Cons.IH by (rule lexes_text_append)
    moreover have "ends_filter (sep @ join sep xs)"
      using assms(3,4) by (cases sep) (auto simp: ends_filter_def)
    ultimately have "lexes (x @ sep @ join sep xs) (y @ chars sep @ sep_tokens (chars sep) ys)"
      using Cons.hyps assms(4) by (metis lexes_append append_is_Nil_conv)
    with False \<open>ys \<noteq> []\<close> show ?thesis by (simp add: join_Cons)
  qed
qed

lemma lexes_paren:
  assumes "lexes s ts" and "set t \<subseteq> set plain_chars"
  shows "lexes (t @ s @ '')'') (chars t @ ts @ chars '')'')"
  using assms by (intro lexes_text_append lexes_append_text) (auto simp: plain_chars_def)

text \<open>\<open>renders f idx params\<close>: from slot \<open>idx\<close> the filter's text lexes to its tokens and the
  parameters grow by its values.\<close>

definition renders :: "'j filter \<Rightarrow> nat \<Rightarrow> 'j filter_value list \<Rightarrow> bool" where
  "renders f idx params \<longleftrightarrow>
     (\<exists>s. to_sql_with_params d f idx params = Some (s, params @ bound_values f)
        \<and> lexes s (filter_tokens nm f idx))"

lemma rendersI:
  "to_sql_with_params d f idx params = Some (s, params @ bound_values f) \<Longrightarrow>
   lexes s (filter_tokens nm f idx) \<Longrightarrow> renders f idx params"
  by (auto simp: renders_def)

lemma parts_render:
  assumes "\<And>f ps. f \<in> set fs \<Longrightarrow> renders f (base + length ps) ps"
  shows "\<exists>ss. to_sql_parts d fs base params = Some (ss, params @ bound_all fs)
     \<and> list_all2 lexes ss (filter_tokens_list nm fs (base + length params))"
  using assms
proof (induction fs arbitrary: params)
  case Nil
  then show ?case by simp
next
  case (Cons f fs)
  from Cons.prems [of f params] obtain s where
    s: "to_sql_with_params d f (base + length params) params = Some (s, params @ bound_values f)"
    "lexes s (filter_tokens nm f (base + length params))"
    by (auto simp: renders_def)
  from Cons.IH [of "params @ bound_values f"] Cons.prems obtain ss where
    ss: "to_sql_parts d fs base (params @ bound_values f)
        = Some (ss, (params @ bound_values f) @ bound_all fs)"
    "list_all2 lexes ss (filter_tokens_list nm fs (base + length params + length (bound_values f)))"
    by (auto simp: add.assoc)
  from s ss show ?case by simp
qed

lemma sql_compare_renders:
  assumes "set oper \<subseteq> set plain_chars" and "ends_filter oper" and "oper \<noteq> []"
  shows "\<exists>s. sql_compare d oper col val idx params = Some (s, params @ [val])
     \<and> lexes s (TIdent col # chars oper @ [TMark (nm (idx + 1))])"
proof -
  have "lexes (oper @ ph (idx + 1)) (chars oper @ [TMark (nm (idx + 1))])"
    using assms(1) lexes_mark by (rule lexes_text_append)
  moreover have "ends_filter (oper @ ph (idx + 1))"
    using assms(2,3) by (cases oper) (auto simp: ends_filter_def)
  ultimately have "lexes (quo col @ oper @ ph (idx + 1)) (TIdent col # chars oper @ [TMark (nm (idx + 1))])"
    using lexes_append [OF lexes_ident] assms(3) by fastforce
  then show ?thesis by (simp add: sql_compare_def quote_ident placeholder)
qed

lemma sql_like_renders:
  "\<exists>s. sql_like d col val idx params = Some (s, params @ [val])
     \<and> lexes s (TIdent col # chars '' LIKE '' @ TMark (nm (idx + 1)) # chars '' ESCAPE '' @ [TStr [BSLASH]])"
proof -
  obtain t where "like_escape_clause d = CHR '' '' # t" using like_escape_blank by blast
  then have "lexes (ph (idx + 1) @ like_escape_clause d)
      ([TMark (nm (idx + 1))] @ chars '' ESCAPE '' @ [TStr [BSLASH]])"
    by (intro lexes_append lexes_mark lexes_like_escape) auto
  then have "lexes ('' LIKE '' @ ph (idx + 1) @ like_escape_clause d)
      (chars '' LIKE '' @ [TMark (nm (idx + 1))] @ chars '' ESCAPE '' @ [TStr [BSLASH]])"
    by (intro lexes_text_append) (simp add: plain_chars_def)
  then have "lexes (quo col @ '' LIKE '' @ ph (idx + 1) @ like_escape_clause d)
      ([TIdent col] @ chars '' LIKE '' @ [TMark (nm (idx + 1))] @ chars '' ESCAPE '' @ [TStr [BSLASH]])"
    by (intro lexes_append [OF lexes_ident]) auto
  then show ?thesis by (simp add: sql_like_def quote_ident placeholder)
qed

lemma sql_member_renders:
  assumes "set oper \<subseteq> set plain_chars" and "ends_filter oper" and "oper \<noteq> []"
  shows "\<exists>s. sql_member d oper col vs idx params = Some (s, params @ vs)
     \<and> lexes s (TIdent col # chars oper @ member_tokens nm idx (length vs))"
proof -
  let ?ps = "map (\<lambda>i. ph (idx + i + 1)) [0..<length vs]"
  let ?ts = "map (\<lambda>k. [TMark (nm (idx + k + 1))]) [0..<length vs]"
  have "list_all2 lexes ?ps ?ts"
    using lexes_mark [of "idx + i + 1" for i] by (simp add: list_all2_conv_all_nth)
  then have "lexes (join '', '' ?ps) (sep_tokens (chars '', '') ?ts)"
    by (rule lexes_join) (auto simp: plain_chars_def)
  then have "lexes (''('' @ join '', '' ?ps @ '')'') (member_tokens nm idx (length vs))"
    unfolding member_tokens_def by (rule lexes_paren) (simp add: plain_chars_def)
  then have "lexes (oper @ ''('' @ join '', '' ?ps @ '')'')
      (chars oper @ member_tokens nm idx (length vs))"
    using assms(1) by (intro lexes_text_append)
  then have "lexes (quo col @ oper @ ''('' @ join '', '' ?ps @ '')'')
      ([TIdent col] @ chars oper @ member_tokens nm idx (length vs))"
    using assms(2,3) by (intro lexes_append [OF lexes_ident]) (cases oper; simp add: ends_filter_def)+
  then show ?thesis
    by (simp add: sql_member_def quote_ident placeholder those_Some)
qed

lemma lexes_ident_text:
  "set t \<subseteq> set plain_chars \<Longrightarrow> ends_filter t \<Longrightarrow> t \<noteq> [] \<Longrightarrow>
   lexes (quo c @ t) (TIdent c # chars t)"
  using lexes_append_text [OF lexes_ident, of t c] by simp

lemma junction_renders:
  assumes "fs \<noteq> []" and len: "length params \<le> idx"
    and r: "\<And>f ps. f \<in> set fs \<Longrightarrow> renders f (idx - length params + length ps) ps"
    and sep: "set sep \<subseteq> set plain_chars" "ends_filter sep" "sep \<noteq> []"
  shows "\<exists>parts. to_sql_parts d fs (idx - length params) params = Some (parts, params @ bound_all fs)
     \<and> lexes (''('' @ join sep parts @ '')'')
         (chars ''('' @ sep_tokens (chars sep) (filter_tokens_list nm fs idx) @ chars '')'')"
proof -
  from parts_render [where params = params, OF r] len obtain parts where
    p: "to_sql_parts d fs (idx - length params) params = Some (parts, params @ bound_all fs)"
    "list_all2 lexes parts (filter_tokens_list nm fs idx)"
    by auto
  from lexes_join [OF p(2) sep] have "lexes (join sep parts) (sep_tokens (chars sep) (filter_tokens_list nm fs idx))" .
  then have "lexes (''('' @ join sep parts @ '')'')
      (chars ''('' @ sep_tokens (chars sep) (filter_tokens_list nm fs idx) @ chars '')'')"
    by (rule lexes_paren) (simp add: plain_chars_def)
  with p(1) show ?thesis by blast
qed

lemma to_sql_renders:
  "no_subquery f \<Longrightarrow> length params \<le> idx \<Longrightarrow> renders f idx params"
proof (induction f arbitrary: idx params)
  case FNone
  then show ?case using lexes_plain [of "''TRUE''"] by (intro rendersI) (auto simp: plain_chars_def)
next
  case (FEquals c v)
  then show ?case
    using sql_compare_renders [of "'' = ''" c v idx params] lexes_ident_text [of "'' IS NULL''" c]
    by (simp add: renders_def quote_ident plain_chars_def)
next
  case (FNotEquals c v)
  then show ?case
    using sql_compare_renders [of "'' != ''" c v idx params] lexes_ident_text [of "'' IS NOT NULL''" c]
    by (simp add: renders_def quote_ident plain_chars_def)
next
  case (FLt c v)
  then show ?case
    using sql_compare_renders [of "'' < ''" c v idx params] by (simp add: renders_def plain_chars_def)
next
  case (FLte c v)
  then show ?case
    using sql_compare_renders [of "'' <= ''" c v idx params] by (simp add: renders_def plain_chars_def)
next
  case (FGt c v)
  then show ?case
    using sql_compare_renders [of "'' > ''" c v idx params] by (simp add: renders_def plain_chars_def)
next
  case (FGte c v)
  then show ?case
    using sql_compare_renders [of "'' >= ''" c v idx params] by (simp add: renders_def plain_chars_def)
next
  case (FIn c vs)
  then show ?case
    using sql_member_renders [of "'' IN ''" c vs idx params] lexes_plain [of "''FALSE''"]
    by (simp add: renders_def plain_chars_def)
next
  case (FNotIn c vs)
  then show ?case
    using sql_member_renders [of "'' NOT IN ''" c vs idx params] lexes_plain [of "''TRUE''"]
    by (simp add: renders_def plain_chars_def)
next
  case (FContains c v)
  then show ?case using sql_like_renders [of c "contains_value v" idx params] by (simp add: renders_def)
next
  case (FStartsWith c v)
  then show ?case using sql_like_renders [of c "starts_with_value v" idx params] by (simp add: renders_def)
next
  case (FEndsWith c v)
  then show ?case using sql_like_renders [of c "ends_with_value v" idx params] by (simp add: renders_def)
next
  case (FIsNull c)
  then show ?case
    using lexes_ident_text [of "'' IS NULL''" c] by (simp add: renders_def quote_ident plain_chars_def)
next
  case (FIsNotNull c)
  then show ?case
    using lexes_ident_text [of "'' IS NOT NULL''" c] by (simp add: renders_def quote_ident plain_chars_def)
next
  case (FAnd fs)
  then have "renders f (idx - length params + length ps) ps" if "f \<in> set fs" for f ps
    using that by (auto simp: list_all_iff)
  with FAnd.prems show ?case
    using junction_renders [of fs params idx "'' AND ''"] lexes_plain [of "''TRUE''"]
    by (cases "fs = []") (auto simp: renders_def plain_chars_def checked_sub_def)
next
  case (FOr fs)
  then have "renders f (idx - length params + length ps) ps" if "f \<in> set fs" for f ps
    using that by (auto simp: list_all_iff)
  with FOr.prems show ?case
    using junction_renders [of fs params idx "'' OR ''"] lexes_plain [of "''FALSE''"]
    by (cases "fs = []") (auto simp: renders_def plain_chars_def checked_sub_def)
next
  case (FNot f)
  then obtain s where
    s: "to_sql_with_params d f idx params = Some (s, params @ bound_values f)"
    "lexes s (filter_tokens nm f idx)"
    by (auto simp: renders_def)
  from lexes_paren [OF s(2), of "''NOT (''"] s(1) show ?case
    by (simp add: renders_def plain_chars_def)
qed simp

theorem to_sql_refines:
  assumes "no_subquery f"
  shows "\<exists>s. to_sql f off d = Some (s, bound_values f) \<and> lex_sql lx s = Some (filter_tokens nm f off)"
  using to_sql_renders [OF assms, of "[]" off] lexesD [of _ _ "[]"]
  by (fastforce simp: renders_def to_sql_def)

end

subsection \<open>The lexed text, dialect by dialect\<close>

definition sql_dialects :: "(dialect \<times> lexis) list" where
  "sql_dialects = [(postgres, postgres_lexis), (sqlite, sqlite_lexis), (mysql, mysql_lexis),
     (mssql, mssql_lexis), (cql, cql_lexis)]"

lemma sql_dialects_lexable:
  "(d, lx) \<in> set sql_dialects \<Longrightarrow> sql_lexable d lx (spell_ident lx) (spell_mark lx)"
  using pg_lex.sql_lexable_axioms sqlite_lex.sql_lexable_axioms mysql_lex.sql_lexable_axioms
    mssql_lex.sql_lexable_axioms cql_lex.sql_lexable_axioms
  by (auto simp: sql_dialects_def)

text \<open>The identifiers, markers and string literals of a token stream.\<close>

definition idents :: "token list \<Rightarrow> string list" where
  "idents ts = concat (map (\<lambda>t. case t of TIdent i \<Rightarrow> [i] | _ \<Rightarrow> []) ts)"
definition marks :: "token list \<Rightarrow> nat option list" where
  "marks ts = concat (map (\<lambda>t. case t of TMark n \<Rightarrow> [n] | _ \<Rightarrow> []) ts)"
definition literals :: "token list \<Rightarrow> string list" where
  "literals ts = concat (map (\<lambda>t. case t of TStr s \<Rightarrow> [s] | _ \<Rightarrow> []) ts)"

lemma idents_simps [simp]:
  "idents [] = []" "idents (TIdent i # ts) = i # idents ts" "idents (TMark n # ts) = idents ts"
  "idents (TStr s # ts) = idents ts" "idents (TChar c # ts) = idents ts"
  "idents (ts @ us) = idents ts @ idents us" "idents (chars s) = []"
  by (auto simp: idents_def)

lemma marks_simps [simp]:
  "marks [] = []" "marks (TIdent i # ts) = marks ts" "marks (TMark n # ts) = n # marks ts"
  "marks (TStr s # ts) = marks ts" "marks (TChar c # ts) = marks ts"
  "marks (ts @ us) = marks ts @ marks us" "marks (chars s) = []"
  by (auto simp: marks_def)

lemma literals_simps [simp]:
  "literals [] = []" "literals (TIdent i # ts) = literals ts" "literals (TMark n # ts) = literals ts"
  "literals (TStr s # ts) = s # literals ts" "literals (TChar c # ts) = literals ts"
  "literals (ts @ us) = literals ts @ literals us" "literals (chars s) = []"
  by (auto simp: literals_def)

lemma sep_tokens_parts:
  "idents sep = [] \<Longrightarrow> idents (sep_tokens sep tss) = concat (map idents tss)"
  "marks sep = [] \<Longrightarrow> marks (sep_tokens sep tss) = concat (map marks tss)"
  "literals sep = [] \<Longrightarrow> literals (sep_tokens sep tss) = concat (map literals tss)"
  by (induction tss) auto

lemma member_tokens_parts [simp]:
  "idents (member_tokens nm i n) = []" "literals (member_tokens nm i n) = []"
  "marks (member_tokens nm i n) = map nm [Suc i..<Suc (i + n)]"
proof -
  show "idents (member_tokens nm i n) = []" "literals (member_tokens nm i n) = []"
    by (simp_all add: member_tokens_def sep_tokens_parts comp_def)
  have "marks (member_tokens nm i n) = map (\<lambda>k. nm (k + Suc i)) [0..<n]"
    by (simp add: member_tokens_def sep_tokens_parts comp_def add.commute)
  also have "\<dots> = map nm (map (\<lambda>k. k + Suc i) [0..<n])"
    by (simp add: comp_def)
  also have "\<dots> = map nm [Suc i..<Suc (i + n)]"
    by (simp only: map_add_upt) (simp add: add.commute)
  finally show "marks (member_tokens nm i n) = map nm [Suc i..<Suc (i + n)]" .
qed

lemma upt_singleton: "[n..<Suc n] = [n]"
  by simp

lemma filter_tokens_parts:
  fixes f :: "'j filter" and fs :: "'j filter list"
  shows "no_subquery f \<Longrightarrow>
     idents (filter_tokens nm f i) = filter_columns f
   \<and> marks (filter_tokens nm f i) = map nm [Suc i..<Suc (i + length (bound_values f))]
   \<and> set (literals (filter_tokens nm f i)) \<subseteq> {[BSLASH]}"
  and "list_all no_subquery fs \<Longrightarrow>
     concat (map idents (filter_tokens_list nm fs i)) = concat (map filter_columns fs)
   \<and> concat (map marks (filter_tokens_list nm fs i)) = map nm [Suc i..<Suc (i + length (bound_all fs))]
   \<and> set (concat (map literals (filter_tokens_list nm fs i))) \<subseteq> {[BSLASH]}"
proof (induction nm f i and nm fs i rule: filter_tokens_filter_tokens_list.induct)
  case (20 nm f fs i)
  have "[Suc i..<Suc (i + length (bound_all (f # fs)))]
      = [Suc i..<Suc (i + length (bound_values f))]
        @ [Suc (i + length (bound_values f))..<Suc (i + length (bound_values f) + length (bound_all fs))]"
    using upt_add_eq_append [of "Suc i" "Suc (i + length (bound_values f))" "length (bound_all fs)"]
    by (simp add: add.assoc del: upt_Suc)
  with 20 show ?case by (simp del: upt_Suc)
qed (auto simp: sep_tokens_parts upt_singleton simp del: upt_Suc)

subsection \<open>Properties\<close>

text \<open>
  C1: For every SQL dialect of the program and every filter without a raw scalar subquery
  (\<open>no_subquery\<close>: the text of one is spliced as it is, its slots may be permuted and a bad slot
  panics; \<open>Filter_Subquery\<close> is about them), \<open>to_sql\<close> does not panic, binds exactly the filter's
  values in order, and emits a text that the dialect's lexer reads as exactly the token stream
  the filter stands for; no column name, whatever its bytes, can change that stream.
\<close>

theorem to_sql_refines_tokens:
  assumes "(d, lx) \<in> set sql_dialects" and "no_subquery f"
  shows "\<exists>s. to_sql f off d = Some (s, bound_values f)
     \<and> lex_sql lx s = Some (filter_tokens (marker lx) f off)"
  using sql_lexable.to_sql_refines [OF sql_dialects_lexable [OF assms(1)] assms(2)] .

theorem to_sql_refines_tokens_witness:
  "\<exists>s. to_sql (FAnd [FEquals ''id'' (VInt 7), FIn [DQUOTE, CHR ''x''] [VBool True, VNull]]) 2 postgres
      = Some (s, [VInt 7, VBool True, VNull :: unit filter_value])
    \<and> lex_sql postgres_lexis s = Some (filter_tokens (marker postgres_lexis)
        (FAnd [FEquals ''id'' (VInt 7), FIn [DQUOTE, CHR ''x''] [VBool True, VNull :: unit filter_value]]) 2)"
  using to_sql_refines_tokens [of postgres postgres_lexis
      "FAnd [FEquals ''id'' (VInt 7), FIn [DQUOTE, CHR ''x''] [VBool True, VNull :: unit filter_value]]" 2]
  by (simp add: sql_dialects_def)

text \<open>
  C37: Injection safety and placeholder numbering of a filter without a raw scalar subquery: the
  identifiers in the emitted text are the filter's columns, the parameter markers are numbered
  consecutively from the offset, one per bound value, and the only string literal is the escape
  character.  A raw subquery brings identifiers, literals and repeated markers of its own.
\<close>

theorem to_sql_markers:
  assumes "(d, lx) \<in> set sql_dialects" and "no_subquery f" and "to_sql f off d = Some (s, ps)"
  shows "\<exists>ts. lex_sql lx s = Some ts
     \<and> idents ts = filter_columns f
     \<and> marks ts = map (marker lx) [Suc off..<Suc (off + length ps)]
     \<and> set (literals ts) \<subseteq> {[BSLASH]}"
proof -
  from sql_lexable.to_sql_refines [OF sql_dialects_lexable [OF assms(1)] assms(2), of off] assms(3)
  have "ps = bound_values f" "lex_sql lx s = Some (filter_tokens (marker lx) f off)" by auto
  then show ?thesis
    using filter_tokens_parts(1) [OF assms(2), of "marker lx" off] by (simp del: upt_Suc)
qed

theorem to_sql_markers_witness:
  "\<exists>ts. lex_sql mysql_lexis (BTICK # ''a'' @ [BTICK] @ '' < ?'') = Some ts
     \<and> idents ts = [''a''] \<and> marks ts = [None] \<and> set (literals ts) \<subseteq> {[BSLASH]}"
proof -
  have "to_sql (FLt ''a'' (VInt 1 :: unit filter_value)) 4 mysql
      = Some (BTICK # ''a'' @ [BTICK] @ '' < ?'', [VInt 1])"
    by (simp add: to_sql_def sql_compare_def mysql_def quote_with_def)
  then show ?thesis
    using to_sql_markers [of mysql mysql_lexis "FLt ''a'' (VInt 1 :: unit filter_value)" 4
        "BTICK # ''a'' @ [BTICK] @ '' < ?''" "[VInt 1]"]
    by (simp add: sql_dialects_def marker_def mysql_lexis_def)
qed

end
