(* ===== verification/Filter_Subquery.thy ===== *)
theory Filter_Subquery
  imports Filter_Sql
begin

text \<open>
  Scalar subqueries: the template language of \<^verbatim>\<open>Filter::ScalarSubquery\<close> and its
  substitution, the values \<open>to_sql\<close> returns for every filter, and the fact that the offset
  arithmetic of \<open>And\<close> and \<open>Or\<close> never underflows.
\<close>

subsection \<open>Templates\<close>

datatype piece = Raw string | Slot nat

fun print_piece :: "piece \<Rightarrow> string" where
  "print_piece (Raw s) = s"
| "print_piece (Slot n) = CHR ''{'' # show_nat n @ ''}''"

definition print_template :: "piece list \<Rightarrow> string" where
  "print_template ps = concat (map print_piece ps)"

text \<open>\<open>valid_template len\<close>: raw text holds no opening brace, slots are below \<open>len\<close>.\<close>

fun valid_piece :: "nat \<Rightarrow> piece \<Rightarrow> bool" where
  "valid_piece len (Raw s) \<longleftrightarrow> CHR ''{'' \<notin> set s"
| "valid_piece len (Slot n) \<longleftrightarrow> n < len"

text \<open>The text a template stands for, with \<open>p n\<close> the placeholder of the 1-based slot \<open>n\<close>.\<close>

fun render_piece :: "(nat \<Rightarrow> string) \<Rightarrow> nat \<Rightarrow> piece \<Rightarrow> string" where
  "render_piece p base (Raw s) = s"
| "render_piece p base (Slot n) = p (base + n + 1)"

definition render_template :: "(nat \<Rightarrow> string) \<Rightarrow> nat \<Rightarrow> piece list \<Rightarrow> string" where
  "render_template p base ps = concat (map (render_piece p base) ps)"

lemma print_template_Cons: "print_template (q # ps) = print_piece q @ print_template ps"
  by (simp add: print_template_def)

lemma render_template_Cons:
  "render_template p base (q # ps) = render_piece p base q @ render_template p base ps"
  by (simp add: render_template_def)

lemma subst_slots_raw:
  "CHR ''{'' \<notin> set s \<Longrightarrow>
   subst_slots d base len (s @ rest) = prepend s (subst_slots d base len rest)"
  by (induction s; cases "subst_slots d base len rest") auto

lemma digits_no_brace: "is_digit c \<Longrightarrow> c \<noteq> CHR ''}''"
  by (auto simp: is_digit_def)

lemma slot_digits:
  "takeWhile (\<lambda>c. c \<noteq> CHR ''}'') (show_nat n @ CHR ''}'' # rest) = show_nat n"
  "dropWhile (\<lambda>c. c \<noteq> CHR ''}'') (show_nat n @ CHR ''}'' # rest) = CHR ''}'' # rest"
  using show_nat_set_digits [of _ n] digits_no_brace
  by (auto simp: takeWhile_append2 dropWhile_append2)

lemma subst_slots_slot:
  assumes "n < 2 ^ 64"
  shows "subst_slots d base len (CHR ''{'' # show_nat n @ CHR ''}'' # rest) =
     (if len \<le> n then None
      else do { p \<leftarrow> placeholder d (base + n + 1); out \<leftarrow> subst_slots d base len rest; Some (p @ out) })"
  using parse_usize_show [OF assms] by (simp add: slot_digits)

lemma subst_slots_render:
  assumes "\<And>n. placeholder d n = Some (p n)" and "len \<le> 2 ^ 64"
  shows "list_all (valid_piece len) ps \<Longrightarrow>
     subst_slots d base len (print_template ps) = Some (render_template p base ps)"
proof (induction ps)
  case Nil
  then show ?case by (simp add: print_template_def render_template_def)
next
  case (Cons q ps)
  show ?case
  proof (cases q)
    case (Raw s)
    with Cons show ?thesis
      by (simp add: print_template_Cons render_template_Cons subst_slots_raw)
  next
    case (Slot n)
    with Cons.prems assms(2) have "n < len" "n < 2 ^ 64" by auto
    with Slot Cons show ?thesis
      using subst_slots_slot [of n d base len "print_template ps"] assms(1)
      by (simp add: print_template_Cons render_template_Cons del: subst_slots.simps)
  qed
qed

subsection \<open>Values and offsets\<close>

lemma checked_sub_Some: "checked_sub a b = Some c \<longleftrightarrow> b \<le> a \<and> c = a - b"
  by (auto simp: checked_sub_def)

lemma to_sql_with_params_values:
  fixes f :: "'j filter" and fs :: "'j filter list"
  shows "to_sql_with_params d f idx ps = Some (s, ps') \<Longrightarrow> ps' = ps @ bound_values f"
    and "to_sql_parts d fs base ps = Some (ss, ps') \<Longrightarrow>
      ps' = ps @ bound_all fs \<and> length ss = length fs"
  by (induction d f idx ps and d fs base ps arbitrary: s ps' and ss ps'
      rule: to_sql_with_params_to_sql_parts.induct)
     (fastforce simp: bind_eq_Some_conv sql_compare_def sql_member_def sql_like_def
        split: if_splits)+

subsection \<open>Properties\<close>

text \<open>
  Whatever the dialect and the filter, raw subqueries included, the parameters \<open>to_sql\<close>
  returns are the filter's bound values in order: \<open>NULL\<close> comparisons bind nothing and the
  \<open>LIKE\<close> operations bind the escaped pattern.
\<close>

theorem to_sql_values:
  assumes "to_sql f off d = Some (s, ps)"
  shows "ps = bound_values f"
  using to_sql_with_params_values(1) assms unfolding to_sql_def by fastforce

theorem to_sql_values_witness:
  "[VInt 3 :: unit filter_value] = bound_values (FScalarSubquery ''SELECT {0}'' [VInt 3])"
proof -
  have "to_sql (FScalarSubquery ''SELECT {0}'' [VInt 3 :: unit filter_value]) 0 mysql
      = Some (''(SELECT ?)'', [VInt 3])"
    by (simp add: to_sql_def mysql_def parse_usize_def str_simps)
  from to_sql_values [OF this] show ?thesis .
qed

text \<open>
  C22: A raw subquery template is substituted faithfully: every slot \<open>{N}\<close> below the number
  of parameters becomes the dialect's placeholder of slot \<open>offset + N + 1\<close>, in any order and
  any number of times, and the rest of the text is unchanged.  The template is the print of a
  list of pieces, raw text without \<^verbatim>\<open>{\<close> and slots, with at most \<open>2 ^ 64\<close> parameters.
\<close>

theorem subquery_template:
  assumes "(d, lx) \<in> set sql_dialects" and "length ps \<le> 2 ^ 64"
    and "list_all (valid_piece (length ps)) tpl"
  shows "to_sql (FScalarSubquery (print_template tpl) ps) off d
     = Some (''('' @ render_template (spell_mark lx) off tpl @ '')'', ps)"
  using subst_slots_render [OF sql_lexable.placeholder [OF sql_dialects_lexable [OF assms(1)]] assms(2,3)]
  by (simp add: to_sql_def)

theorem subquery_template_witness:
  "to_sql (FScalarSubquery (print_template [Raw ''a = '', Slot 1, Raw '' OR b = '', Slot 0])
      [VBool True, VNull :: unit filter_value]) 2 postgres
     = Some (''('' @ render_template (spell_mark postgres_lexis) 2
          [Raw ''a = '', Slot 1, Raw '' OR b = '', Slot 0] @ '')'', [VBool True, VNull])"
  by (rule subquery_template) (auto simp: sql_dialects_def)

text \<open>
  A slot that is out of range panics: no text is produced, whatever precedes or follows it.
\<close>

theorem subquery_out_of_range:
  assumes "length ps \<le> n" and "n < 2 ^ 64" and "CHR ''{'' \<notin> set pre"
  shows "to_sql (FScalarSubquery (pre @ CHR ''{'' # show_nat n @ CHR ''}'' # post) ps) off d = None"
  using subst_slots_slot [OF assms(2), of d off "length ps" post] assms(1)
    subst_slots_raw [OF assms(3), of d off "length ps"]
  by (simp add: to_sql_def del: subst_slots.simps)

theorem subquery_out_of_range_witness:
  "to_sql (FScalarSubquery (''x = '' @ CHR ''{'' # show_nat 1 @ CHR ''}'' # [])
     [VBool True :: unit filter_value]) 0 postgres = None"
  by (rule subquery_out_of_range) auto

text \<open>
  On a dialect with positional markers the slot numbers are lost: a template whose slots are
  permuted gives the same text and the same parameters, so \<open>{1} < {0}\<close> is bound as
  \<open>{0} < {1}\<close>.
\<close>

theorem positional_subquery_order_lost:
  assumes "(d, lx) \<in> {(mysql, mysql_lexis), (cql, cql_lexis)}"
    and "list_all (valid_piece (length ps)) tpl" and "list_all (valid_piece (length ps)) tpl'"
    and "length ps \<le> 2 ^ 64"
    and "map (\<lambda>q. case q of Slot n \<Rightarrow> Slot 0 | _ \<Rightarrow> q) tpl = map (\<lambda>q. case q of Slot n \<Rightarrow> Slot 0 | _ \<Rightarrow> q) tpl'"
  shows "to_sql (FScalarSubquery (print_template tpl) ps) off d
     = to_sql (FScalarSubquery (print_template tpl') ps) off d"
proof -
  have mem: "(d, lx) \<in> set sql_dialects" and unnumbered: "\<not> numbered lx"
    using assms(1) by (auto simp: sql_dialects_def mysql_lexis_def cql_lexis_def)
  have "render_piece (spell_mark lx) off q
      = render_piece (spell_mark lx) off (case q of Slot n \<Rightarrow> Slot 0 | _ \<Rightarrow> q)" for q
    using unnumbered by (cases q) (simp_all add: spell_mark_def)
  then have "render_template (spell_mark lx) off t
      = render_template (spell_mark lx) off (map (\<lambda>q. case q of Slot n \<Rightarrow> Slot 0 | _ \<Rightarrow> q) t)" for t
    unfolding render_template_def map_map comp_def by (intro arg_cong [where f = concat] map_cong refl)
  from this [of tpl] this [of tpl']
  have "render_template (spell_mark lx) off tpl = render_template (spell_mark lx) off tpl'"
    unfolding assms(5) by (rule trans [OF _ sym])
  then show ?thesis
    using subst_slots_render [OF sql_lexable.placeholder [OF sql_dialects_lexable [OF mem]] assms(4)]
      assms(2,3) by (simp add: to_sql_def)
qed

theorem positional_subquery_order_lost_witness:
  "to_sql (FScalarSubquery (print_template [Slot 1, Raw '' < '', Slot 0])
     [VInt 1, VInt 2 :: unit filter_value]) 0 mysql
   = to_sql (FScalarSubquery (print_template [Slot 0, Raw '' < '', Slot 1])
     [VInt 1, VInt 2 :: unit filter_value]) 0 mysql"
  by (rule positional_subquery_order_lost [of mysql mysql_lexis]) auto

end
