(* ===== verification/Filter_Like.thy ===== *)
theory Filter_Like
  imports Filter_Model
begin

text \<open>
  The patterns bound for \<open>Contains\<close>, \<open>StartsWith\<close> and \<open>EndsWith\<close>, and what
  \<^verbatim>\<open>LIKE .. ESCAPE '\'\<close> makes of them (\<open>like_match\<close>, an abstract specification):
  \<open>%\<close> matches any text, \<open>_\<close> one character, the escape character makes the next one
  literal, and every other character matches those the collation takes for equal to it.  The
  collation is the parameter \<open>ckey\<close>, which maps a character to its sort key: the identity for
  a case-sensitive comparison, lower case for a case-insensitive one.  The flag \<open>brackets\<close> is
  Transact-SQL, where \<open>[\<close> opens a set of characters (\<open>[a-f]\<close>, \<open>[^xyz]\<close>) of
  which one is matched.
\<close>

fun in_ranges :: "(char \<Rightarrow> char) \<Rightarrow> string \<Rightarrow> char \<Rightarrow> bool" where
  "in_ranges ckey (a # b # c # cs) x \<longleftrightarrow>
     (if b = CHR ''-''
      then (of_char (ckey a) \<le> (of_char (ckey x) :: nat) \<and> (of_char (ckey x) :: nat) \<le> of_char (ckey c))
           \<or> in_ranges ckey cs x
      else ckey a = ckey x \<or> in_ranges ckey (b # c # cs) x)"
| "in_ranges ckey (a # cs) x \<longleftrightarrow> ckey a = ckey x \<or> in_ranges ckey cs x"
| "in_ranges ckey [] x \<longleftrightarrow> False"

definition in_char_set :: "(char \<Rightarrow> char) \<Rightarrow> string \<Rightarrow> char \<Rightarrow> bool" where
  "in_char_set ckey body x \<longleftrightarrow>
     (case body of
        c # cs \<Rightarrow> if c = CHR ''^'' then \<not> in_ranges ckey cs x else in_ranges ckey body x
      | [] \<Rightarrow> False)"

definition not_closing :: "char \<Rightarrow> bool" where "not_closing c = (c \<noteq> CHR '']'')"

lemma dropWhile_Cons_length: "dropWhile P p = c # p' \<Longrightarrow> length p' < length p"
  by (metis length_dropWhile_le length_Cons less_eq_Suc_le)

function like_match :: "(char \<Rightarrow> char) \<Rightarrow> bool \<Rightarrow> string \<Rightarrow> string \<Rightarrow> bool" where
  "like_match ckey brackets [] t \<longleftrightarrow> t = []"
| "like_match ckey brackets (c # p) t \<longleftrightarrow>
     (if c = CHR ''%'' then
        like_match ckey brackets p t
        \<or> (case t of [] \<Rightarrow> False | _ # t' \<Rightarrow> like_match ckey brackets (c # p) t')
      else if c = CHR ''_'' then (case t of [] \<Rightarrow> False | _ # t' \<Rightarrow> like_match ckey brackets p t')
      else if c = BSLASH then
        (case p of
           [] \<Rightarrow> False
         | e # p' \<Rightarrow>
             (case t of [] \<Rightarrow> False | x # t' \<Rightarrow> ckey x = ckey e \<and> like_match ckey brackets p' t'))
      else if brackets \<and> c = CHR ''['' then
        (case t of
           [] \<Rightarrow> False
         | x # t' \<Rightarrow>
             (case dropWhile not_closing p of
                [] \<Rightarrow> False
              | _ # p' \<Rightarrow>
                  in_char_set ckey (takeWhile not_closing p) x \<and> like_match ckey brackets p' t'))
      else (case t of [] \<Rightarrow> False | x # t' \<Rightarrow> ckey x = ckey c \<and> like_match ckey brackets p t'))"
  by pat_completeness auto
termination
  by (relation "measure (\<lambda>(_, _, p, t). length p + length t)")
    (auto dest: dropWhile_Cons_length)

text \<open>Escaping in three passes is escaping each character once.\<close>

definition escape_char :: "char \<Rightarrow> string" where
  "escape_char c = (if c \<in> {BSLASH, CHR ''%'', CHR ''_''} then [BSLASH, c] else [c])"

lemma escape_like_value_conv: "escape_like_value s = concat (map escape_char s)"
  by (induction s) (auto simp: escape_like_value_def escape_char_def)

lemma escape_like_value_simps [simp]:
  "escape_like_value [] = []"
  "escape_like_value (c # s) = escape_char c @ escape_like_value s"
  by (simp_all add: escape_like_value_conv)

lemma like_match_percent_step:
  "like_match ckey brackets (CHR ''%'' # p) t
    \<longleftrightarrow> like_match ckey brackets p t
      \<or> (case t of [] \<Rightarrow> False | _ # t' \<Rightarrow> like_match ckey brackets (CHR ''%'' # p) t')"
  by (subst like_match.simps(2)) (simp split: list.split)

lemma like_match_escape:
  "like_match ckey brackets (BSLASH # e # p) t
    \<longleftrightarrow> (\<exists>x u. t = x # u \<and> ckey x = ckey e \<and> like_match ckey brackets p u)"
  by (subst like_match.simps(2)) (simp split: list.split)

lemma like_match_plain:
  "\<lbrakk>c \<notin> {BSLASH, CHR ''%'', CHR ''_''}; brackets \<Longrightarrow> c \<noteq> CHR ''[''\<rbrakk>
   \<Longrightarrow> like_match ckey brackets (c # p) t
    \<longleftrightarrow> (\<exists>x u. t = x # u \<and> ckey x = ckey c \<and> like_match ckey brackets p u)"
  by (subst like_match.simps(2)) (auto split: list.split)

declare like_match.simps(2) [simp del]

lemma like_match_escaped:
  assumes "brackets \<Longrightarrow> CHR ''['' \<notin> set s"
  shows "like_match ckey brackets (escape_like_value s @ p) t
    \<longleftrightarrow> (\<exists>r u. t = r @ u \<and> map ckey r = map ckey s \<and> like_match ckey brackets p u)"
  using assms
proof (induction s arbitrary: t)
  case (Cons c s)
  then have IH: "like_match ckey brackets (escape_like_value s @ p) u
      \<longleftrightarrow> (\<exists>r v. u = r @ v \<and> map ckey r = map ckey s \<and> like_match ckey brackets p v)" for u
    by auto
  have "like_match ckey brackets (escape_char c @ q) t
      \<longleftrightarrow> (\<exists>x u. t = x # u \<and> ckey x = ckey c \<and> like_match ckey brackets q u)" for q
  proof (cases "c \<in> {BSLASH, CHR ''%'', CHR ''_''}")
    case True
    then show ?thesis
      by (auto simp: escape_char_def like_match_escape)
  next
    case False
    then show ?thesis
      using like_match_plain [OF False, of brackets ckey q t] Cons.prems
      by (auto simp: escape_char_def)
  qed
  from this [of "escape_like_value s @ p"] have "like_match ckey brackets (escape_like_value (c # s) @ p) t
      \<longleftrightarrow> (\<exists>x r v. t = x # r @ v \<and> ckey x = ckey c \<and> map ckey r = map ckey s
            \<and> like_match ckey brackets p v)"
    by (simp add: IH) blast
  also have "\<dots> \<longleftrightarrow> (\<exists>r u. t = r @ u \<and> map ckey r = map ckey (c # s) \<and> like_match ckey brackets p u)"
    by (auto simp: map_eq_Cons_conv) (metis append_Cons list.simps(9))+
  finally show ?case .
qed simp

lemma like_match_percent:
  "like_match ckey brackets (CHR ''%'' # p) t \<longleftrightarrow> (\<exists>u v. t = u @ v \<and> like_match ckey brackets p v)"
proof (induction t)
  case (Cons x t)
  have "like_match ckey brackets (CHR ''%'' # p) (x # t)
      \<longleftrightarrow> like_match ckey brackets p (x # t) \<or> like_match ckey brackets (CHR ''%'' # p) t"
    by (subst like_match_percent_step) simp
  also have "\<dots> \<longleftrightarrow> (\<exists>u v. x # t = u @ v \<and> like_match ckey brackets p v)"
    unfolding Cons.IH by (auto simp: Cons_eq_append_conv)
  finally show ?case .
qed (subst like_match_percent_step, simp)

lemma like_match_trailing: "like_match ckey brackets ''%'' t"
  by (auto simp: like_match_percent)

text \<open>The escaped value alone, matched as a pattern, matches exactly what the collation takes
  for equal to it.\<close>

lemma like_match_literal:
  "(brackets \<Longrightarrow> CHR ''['' \<notin> set s)
   \<Longrightarrow> like_match ckey brackets (escape_like_value s) t \<longleftrightarrow> map ckey t = map ckey s"
  using like_match_escaped [of brackets s ckey "[]" t] by simp

lemma map_sublist_conv:
  "sublist (map f s) (map f t) \<longleftrightarrow> (\<exists>u r v. t = u @ r @ v \<and> map f r = map f s)"
proof
  assume "sublist (map f s) (map f t)"
  then obtain a b where "map f t = a @ map f s @ b"
    by (auto simp: sublist_def)
  then show "\<exists>u r v. t = u @ r @ v \<and> map f r = map f s"
    by (metis map_eq_append_conv)
next
  assume "\<exists>u r v. t = u @ r @ v \<and> map f r = map f s"
  then show "sublist (map f s) (map f t)"
    by (auto simp: sublist_def) metis
qed

lemma map_prefix_conv: "prefix (map f s) (map f t) \<longleftrightarrow> (\<exists>r v. t = r @ v \<and> map f r = map f s)"
  by (auto simp: prefix_def map_eq_append_conv)

lemma map_suffix_conv: "suffix (map f s) (map f t) \<longleftrightarrow> (\<exists>u r. t = u @ r \<and> map f r = map f s)"
  by (fastforce simp: suffix_def map_eq_append_conv)

text \<open>
  C9: For any user string, \<open>%\<close>, \<open>_\<close> and backslashes included, and any collation, the
  pattern bound by \<open>Contains\<close> matches exactly the texts that contain it up to the collation,
  the one of \<open>StartsWith\<close> exactly those it is a prefix of, and the one of \<open>EndsWith\<close>
  exactly those it is a suffix of.  On SQL Server, whose \<open>LIKE\<close> also reads \<open>[\<close>, this is
  so for the values without a \<open>[\<close>, which the builders do not escape.
\<close>

theorem like_patterns:
  assumes "brackets \<Longrightarrow> CHR ''['' \<notin> set s"
  shows
  "(\<exists>p. contains_value (VString s :: 'j filter_value) = VString p
      \<and> like_match ckey brackets p t = sublist (map ckey s) (map ckey t))
 \<and> (\<exists>p. starts_with_value (VString s :: 'j filter_value) = VString p
      \<and> like_match ckey brackets p t = prefix (map ckey s) (map ckey t))
 \<and> (\<exists>p. ends_with_value (VString s :: 'j filter_value) = VString p
      \<and> like_match ckey brackets p t = suffix (map ckey s) (map ckey t))"
  using like_match_escaped [of brackets s ckey "[]"] like_match_escaped [of brackets s ckey "''%''"] assms
    like_match_trailing [of ckey brackets]
  by (auto simp: contains_value_def starts_with_value_def ends_with_value_def like_match_percent
      map_sublist_conv map_prefix_conv map_suffix_conv)

theorem like_patterns_witness:
  "(\<exists>p. contains_value (VString ''50%'' :: unit filter_value) = VString p
      \<and> like_match id True p ''now 50% off'')
 \<and> (\<exists>p. starts_with_value (VString ''50%'' :: unit filter_value) = VString p
      \<and> \<not> like_match id True p ''5000'')
 \<and> (\<exists>p. ends_with_value (VString ''50%'' :: unit filter_value) = VString p
      \<and> like_match id True p ''less 50%'')"
  using like_patterns [of True "''50%''" id "''now 50% off''", where 'j = unit]
    like_patterns [of True "''50%''" id "''5000''", where 'j = unit]
    like_patterns [of True "''50%''" id "''less 50%''", where 'j = unit]
  by (simp add: sublist_code suffix_def)

text \<open>The pattern of a value with a \<open>[\<close>, which no builder escapes: on SQL Server the
  pattern for texts that start with \<open>[ab]\<close> matches a text that starts with \<open>a\<close> and
  none that starts with the value itself.\<close>

lemma bracket_not_escaped:
  "starts_with_value (VString ''[ab]'' :: 'j filter_value) = VString ''[ab]%''
   \<and> like_match id True ''[ab]%'' ''apple'' \<and> \<not> like_match id True ''[ab]%'' ''[ab] plan''
   \<and> like_match id False ''[ab]%'' ''[ab] plan''"
proof -
  have "like_match id True ''[ab]%'' ''apple''" "\<not> like_match id True ''[ab]%'' ''[ab] plan''"
    "like_match id False ''[ab]%'' ''[ab] plan''"
    by (simp_all add: like_match.simps like_match_trailing not_closing_def in_char_set_def)
  then show ?thesis
    by (simp add: starts_with_value_def escape_char_def)
qed

end
