(* ===== verification/Filter_Builders.thy ===== *)
theory Filter_Builders
  imports Filter_Model
begin

text \<open>
  The builders of \<^verbatim>\<open>filter.rs\<close> and the meaning of the filter combinators.  A filter is
  read in SQL's three-valued logic over an arbitrary valuation of its atomic predicates
  (\<open>feval\<close>, an abstract specification), so the laws hold for every database.
\<close>

subsection \<open>\<open>AndFilterBuilder\<close> and \<open>OrFilterBuilder\<close>\<close>

record 'j and_builder = and_filters :: "'j filter list"
record 'j or_builder = or_filters :: "'j filter list"
record 'j fluent_builder = fluent_filters :: "'j filter list"

definition and_new :: "'j and_builder" where "and_new = \<lparr>and_filters = []\<rparr>"
definition and_push :: "'j and_builder \<Rightarrow> 'j filter \<Rightarrow> 'j and_builder" where
  "and_push b f = (if \<not> is_none f then b\<lparr>and_filters := and_filters b @ [f]\<rparr> else b)"
definition and_extend :: "'j and_builder \<Rightarrow> 'j filter list \<Rightarrow> 'j and_builder" where
  "and_extend b fs = b\<lparr>and_filters := and_filters b @ List.filter (\<lambda>f. \<not> is_none f) fs\<rparr>"
definition and_push_if :: "'j and_builder \<Rightarrow> bool \<Rightarrow> 'j filter \<Rightarrow> 'j and_builder" where
  "and_push_if b condition f = (if condition then and_push b f else b)"
definition and_push_if_some ::
  "('a \<Rightarrow> 'j filter) \<Rightarrow> 'j and_builder \<Rightarrow> 'a option \<Rightarrow> 'j and_builder" where
  "and_push_if_some into b opt = (case opt of Some f \<Rightarrow> and_push b (into f) | None \<Rightarrow> b)"
definition and_build :: "'j and_builder \<Rightarrow> 'j filter" where
  "and_build b = (case and_filters b of [] \<Rightarrow> FNone | [f] \<Rightarrow> f | fs \<Rightarrow> FAnd fs)"
definition and_len :: "'j and_builder \<Rightarrow> nat" where "and_len b = length (and_filters b)"
definition and_is_empty :: "'j and_builder \<Rightarrow> bool" where "and_is_empty b = (and_filters b = [])"

definition or_new :: "'j or_builder" where "or_new = \<lparr>or_filters = []\<rparr>"
definition or_push :: "'j or_builder \<Rightarrow> 'j filter \<Rightarrow> 'j or_builder" where
  "or_push b f = (if \<not> is_none f then b\<lparr>or_filters := or_filters b @ [f]\<rparr> else b)"
definition or_extend :: "'j or_builder \<Rightarrow> 'j filter list \<Rightarrow> 'j or_builder" where
  "or_extend b fs = b\<lparr>or_filters := or_filters b @ List.filter (\<lambda>f. \<not> is_none f) fs\<rparr>"
definition or_push_if :: "'j or_builder \<Rightarrow> bool \<Rightarrow> 'j filter \<Rightarrow> 'j or_builder" where
  "or_push_if b condition f = (if condition then or_push b f else b)"
definition or_push_if_some ::
  "('a \<Rightarrow> 'j filter) \<Rightarrow> 'j or_builder \<Rightarrow> 'a option \<Rightarrow> 'j or_builder" where
  "or_push_if_some into b opt = (case opt of Some f \<Rightarrow> or_push b (into f) | None \<Rightarrow> b)"
definition or_build :: "'j or_builder \<Rightarrow> 'j filter" where
  "or_build b = (case or_filters b of [] \<Rightarrow> FNone | [f] \<Rightarrow> f | fs \<Rightarrow> FOr fs)"
definition or_len :: "'j or_builder \<Rightarrow> nat" where "or_len b = length (or_filters b)"
definition or_is_empty :: "'j or_builder \<Rightarrow> bool" where "or_is_empty b = (or_filters b = [])"

subsection \<open>\<open>FluentFilterBuilder\<close>\<close>

definition fluent_new :: "'j fluent_builder" where "fluent_new = \<lparr>fluent_filters = []\<rparr>"

definition fluent_add :: "'j fluent_builder \<Rightarrow> 'j filter \<Rightarrow> 'j fluent_builder" where
  "fluent_add b f = b\<lparr>fluent_filters := fluent_filters b @ [f]\<rparr>"

definition fluent_eq :: "'j fluent_builder \<Rightarrow> string \<Rightarrow> 'j filter_value \<Rightarrow> 'j fluent_builder" where
  "fluent_eq b field v = fluent_add b (FEquals field v)"
definition fluent_ne :: "'j fluent_builder \<Rightarrow> string \<Rightarrow> 'j filter_value \<Rightarrow> 'j fluent_builder" where
  "fluent_ne b field v = fluent_add b (FNotEquals field v)"
definition fluent_lt :: "'j fluent_builder \<Rightarrow> string \<Rightarrow> 'j filter_value \<Rightarrow> 'j fluent_builder" where
  "fluent_lt b field v = fluent_add b (FLt field v)"
definition fluent_lte :: "'j fluent_builder \<Rightarrow> string \<Rightarrow> 'j filter_value \<Rightarrow> 'j fluent_builder" where
  "fluent_lte b field v = fluent_add b (FLte field v)"
definition fluent_gt :: "'j fluent_builder \<Rightarrow> string \<Rightarrow> 'j filter_value \<Rightarrow> 'j fluent_builder" where
  "fluent_gt b field v = fluent_add b (FGt field v)"
definition fluent_gte :: "'j fluent_builder \<Rightarrow> string \<Rightarrow> 'j filter_value \<Rightarrow> 'j fluent_builder" where
  "fluent_gte b field v = fluent_add b (FGte field v)"
definition fluent_is_in ::
  "('a \<Rightarrow> 'j filter_value) \<Rightarrow> 'j fluent_builder \<Rightarrow> string \<Rightarrow> 'a list \<Rightarrow> 'j fluent_builder" where
  "fluent_is_in into b field vs = fluent_add b (FIn field (map into vs))"
definition fluent_not_in ::
  "('a \<Rightarrow> 'j filter_value) \<Rightarrow> 'j fluent_builder \<Rightarrow> string \<Rightarrow> 'a list \<Rightarrow> 'j fluent_builder" where
  "fluent_not_in into b field vs = fluent_add b (FNotIn field (map into vs))"
definition fluent_contains :: "'j fluent_builder \<Rightarrow> string \<Rightarrow> 'j filter_value \<Rightarrow> 'j fluent_builder" where
  "fluent_contains b field v = fluent_add b (FContains field v)"
definition fluent_starts_with :: "'j fluent_builder \<Rightarrow> string \<Rightarrow> 'j filter_value \<Rightarrow> 'j fluent_builder" where
  "fluent_starts_with b field v = fluent_add b (FStartsWith field v)"
definition fluent_ends_with :: "'j fluent_builder \<Rightarrow> string \<Rightarrow> 'j filter_value \<Rightarrow> 'j fluent_builder" where
  "fluent_ends_with b field v = fluent_add b (FEndsWith field v)"
definition fluent_is_null :: "'j fluent_builder \<Rightarrow> string \<Rightarrow> 'j fluent_builder" where
  "fluent_is_null b field = fluent_add b (FIsNull field)"
definition fluent_is_not_null :: "'j fluent_builder \<Rightarrow> string \<Rightarrow> 'j fluent_builder" where
  "fluent_is_not_null b field = fluent_add b (FIsNotNull field)"
definition fluent_filter :: "'j fluent_builder \<Rightarrow> 'j filter \<Rightarrow> 'j fluent_builder" where
  "fluent_filter b f = (if \<not> is_none f then fluent_add b f else b)"
definition fluent_filter_if :: "'j fluent_builder \<Rightarrow> bool \<Rightarrow> 'j filter \<Rightarrow> 'j fluent_builder" where
  "fluent_filter_if b condition f = (if condition then fluent_filter b f else b)"
definition fluent_filter_if_some ::
  "('a \<Rightarrow> 'j filter) \<Rightarrow> 'j fluent_builder \<Rightarrow> 'a option \<Rightarrow> 'j fluent_builder" where
  "fluent_filter_if_some into b opt = (case opt of Some f \<Rightarrow> fluent_filter b (into f) | None \<Rightarrow> b)"
definition fluent_build_and :: "'j fluent_builder \<Rightarrow> 'j filter" where
  "fluent_build_and b =
     (case List.filter (\<lambda>f. \<not> is_none f) (fluent_filters b) of [] \<Rightarrow> FNone | [f] \<Rightarrow> f | fs \<Rightarrow> FAnd fs)"
definition fluent_build_or :: "'j fluent_builder \<Rightarrow> 'j filter" where
  "fluent_build_or b =
     (case List.filter (\<lambda>f. \<not> is_none f) (fluent_filters b) of [] \<Rightarrow> FNone | [f] \<Rightarrow> f | fs \<Rightarrow> FOr fs)"
definition fluent_len :: "'j fluent_builder \<Rightarrow> nat" where "fluent_len b = length (fluent_filters b)"
definition fluent_is_empty :: "'j fluent_builder \<Rightarrow> bool" where
  "fluent_is_empty b = (fluent_filters b = [])"

subsection \<open>Three-valued meaning\<close>

text \<open>SQL truth values: \<open>None\<close> is \<^verbatim>\<open>UNKNOWN\<close>.\<close>

type_synonym tv = "bool option"

fun tv_and :: "tv \<Rightarrow> tv \<Rightarrow> tv" where
  "tv_and (Some False) _ = Some False"
| "tv_and _ (Some False) = Some False"
| "tv_and (Some True) (Some True) = Some True"
| "tv_and _ _ = None"

definition tv_not :: "tv \<Rightarrow> tv" where "tv_not a = map_option Not a"
definition tv_or :: "tv \<Rightarrow> tv \<Rightarrow> tv" where "tv_or a b = tv_not (tv_and (tv_not a) (tv_not b))"
definition tv_all :: "tv list \<Rightarrow> tv" where "tv_all ts = foldr tv_and ts (Some True)"
definition tv_any :: "tv list \<Rightarrow> tv" where "tv_any ts = foldr tv_or ts (Some False)"

text \<open>\<open>\<rho>\<close> gives the truth value of an atomic filter on the row at hand; empty \<open>IN\<close> lists and
  the junctions have the meaning of the text \<open>to_sql\<close> gives them.\<close>

fun feval :: "('j filter \<Rightarrow> tv) \<Rightarrow> 'j filter \<Rightarrow> tv" where
  "feval \<rho> FNone = Some True"
| "feval \<rho> (FAnd fs) = tv_all (map (feval \<rho>) fs)"
| "feval \<rho> (FOr fs) = tv_any (map (feval \<rho>) fs)"
| "feval \<rho> (FNot f) = tv_not (feval \<rho> f)"
| "feval \<rho> (FIn c vs) = (if vs = [] then Some False else \<rho> (FIn c vs))"
| "feval \<rho> (FNotIn c vs) = (if vs = [] then Some True else \<rho> (FNotIn c vs))"
| "feval \<rho> a = \<rho> a"

lemma tv_and_laws [simp]:
  "tv_and (Some True) a = a" "tv_and a (Some True) = a"
  "tv_and (Some False) a = Some False" "tv_and a (Some False) = Some False"
  by (cases a; case_tac "the a"; force)+

lemma tv_and_None [simp]: "tv_and None None = None"
  by simp

lemma tv_cases: obtains "a = None" | "a = Some True" | "a = Some (False :: bool)"
  by (cases a) auto

lemma tv_and_assoc: "tv_and (tv_and a b) c = tv_and a (tv_and b c)"
  by (cases a rule: tv_cases; cases b rule: tv_cases; cases c rule: tv_cases) simp_all

lemma tv_not_not [simp]: "tv_not (tv_not a) = a"
  by (cases a) (simp_all add: tv_not_def)

lemma tv_or_assoc: "tv_or (tv_or a b) c = tv_or a (tv_or b c)"
  by (simp add: tv_or_def tv_and_assoc)

lemma tv_or_laws [simp]: "tv_or (Some False) a = a" "tv_or a (Some False) = a"
  by (simp_all add: tv_or_def) (simp_all add: tv_not_def option.map_comp comp_def option.map_ident)

lemma tv_all_simps [simp]:
  "tv_all [] = Some True" "tv_all (t # ts) = tv_and t (tv_all ts)"
  by (simp_all add: tv_all_def)

lemma tv_any_simps [simp]:
  "tv_any [] = Some False" "tv_any (t # ts) = tv_or t (tv_any ts)"
  by (simp_all add: tv_any_def)

lemma tv_all_append [simp]: "tv_all (ts @ us) = tv_and (tv_all ts) (tv_all us)"
  by (induction ts) (auto simp: tv_and_assoc)

lemma tv_any_append [simp]: "tv_any (ts @ us) = tv_or (tv_any ts) (tv_any us)"
  by (induction ts) (auto simp: tv_or_assoc)

text \<open>The filters a junction keeps.\<close>

abbreviation (input) present :: "'j filter list \<Rightarrow> 'j filter list" where
  "present fs \<equiv> List.filter (\<lambda>f. f \<noteq> FNone) fs"

lemma tv_all_present: "tv_all (map (feval \<rho>) (present fs)) = tv_all (map (feval \<rho>) fs)"
  by (induction fs) auto

lemma feval_and_junction:
  "feval \<rho> (case fs of [] \<Rightarrow> FNone | [f] \<Rightarrow> f | gs \<Rightarrow> FAnd gs) = tv_all (map (feval \<rho>) fs)"
  by (cases fs; cases "tl fs") auto

lemma feval_or_junction:
  "feval \<rho> (case fs of [] \<Rightarrow> FNone | [f] \<Rightarrow> f | gs \<Rightarrow> FOr gs)
     = (if fs = [] then Some True else tv_any (map (feval \<rho>) fs))"
  by (cases fs; cases "tl fs") auto

lemma fold_and_push: "and_filters (foldl and_push b fs) = and_filters b @ present fs"
  by (induction fs arbitrary: b) (auto simp: and_push_def)

lemma fold_or_push: "or_filters (foldl or_push b fs) = or_filters b @ present fs"
  by (induction fs arbitrary: b) (auto simp: or_push_def)

lemma fold_fluent_filter:
  "fluent_filters (foldl fluent_filter b fs) = fluent_filters b @ present fs"
  by (induction fs arbitrary: b) (auto simp: fluent_filter_def fluent_add_def)

subsection \<open>Properties\<close>

text \<open>
  Every way to combine filters by conjunction (\<open>and\<close>, \<open>and2\<close>, \<open>and_then\<close>, the builders)
  has the meaning of the conjunction of all its operands, absent filters and single operands
  included.
\<close>

theorem and_combinators_meaning:
  "feval \<rho> (filter_and fs) = tv_all (map (feval \<rho>) fs)
 \<and> feval \<rho> (filter_and2 a b) = tv_and (feval \<rho> a) (feval \<rho> b)
 \<and> feval \<rho> (and_then a b) = tv_and (feval \<rho> a) (feval \<rho> b)
 \<and> feval \<rho> (and_build (foldl and_push and_new fs)) = tv_all (map (feval \<rho>) fs)
 \<and> feval \<rho> (fluent_build_and (foldl fluent_filter fluent_new fs)) = tv_all (map (feval \<rho>) fs)"
proof (intro conjI)
  show "feval \<rho> (filter_and fs) = tv_all (map (feval \<rho>) fs)"
    by (simp add: filter_and_def feval_and_junction tv_all_present)
  show "feval \<rho> (filter_and2 a b) = tv_and (feval \<rho> a) (feval \<rho> b)"
    by (auto simp: filter_and2_def split: bool.splits)
  show "feval \<rho> (and_then a b) = tv_and (feval \<rho> a) (feval \<rho> b)"
    by (cases a) (auto simp: and_then_def)
  show "feval \<rho> (and_build (foldl and_push and_new fs)) = tv_all (map (feval \<rho>) fs)"
    by (simp add: and_build_def fold_and_push and_new_def feval_and_junction tv_all_present)
  show "feval \<rho> (fluent_build_and (foldl fluent_filter fluent_new fs)) = tv_all (map (feval \<rho>) fs)"
    by (simp add: fluent_build_and_def fold_fluent_filter fluent_new_def feval_and_junction
        tv_all_present)
qed

text \<open>
  Combining by disjunction has the meaning of the disjunction of the filters that are present;
  with none present the result is the filter that is always true.
\<close>

theorem or_combinators_meaning:
  "feval \<rho> (filter_or fs) = (if present fs = [] then Some True else tv_any (map (feval \<rho>) (present fs)))
 \<and> feval \<rho> (filter_or2 a b) = feval \<rho> (filter_or [a, b])
 \<and> feval \<rho> (or_else a b) = feval \<rho> (filter_or [a, b])
 \<and> or_build (foldl or_push or_new fs) = filter_or fs
 \<and> fluent_build_or (foldl fluent_filter fluent_new fs) = filter_or fs"
proof (intro conjI)
  show "feval \<rho> (filter_or fs) = (if present fs = [] then Some True else tv_any (map (feval \<rho>) (present fs)))"
    by (simp add: filter_or_def feval_or_junction)
  show "feval \<rho> (filter_or2 a b) = feval \<rho> (filter_or [a, b])"
    by (auto simp: filter_or2_def filter_or_def split: bool.splits)
  show "feval \<rho> (or_else a b) = feval \<rho> (filter_or [a, b])"
    by (cases a) (auto simp: or_else_def filter_or_def)
  show "or_build (foldl or_push or_new fs) = filter_or fs"
    by (simp add: or_build_def fold_or_push or_new_def filter_or_def)
  show "fluent_build_or (foldl fluent_filter fluent_new fs) = filter_or fs"
    by (simp add: fluent_build_or_def fold_fluent_filter fluent_new_def filter_or_def)
qed

definition value_int :: "'j filter_value \<Rightarrow> int option" where
  "value_int v = (case v of VInt i \<Rightarrow> Some (sint i) | _ \<Rightarrow> None)"

text \<open>
  Converting integers into filter values preserves the number on every width, signed and
  unsigned, and the conversion from \<^verbatim>\<open>u64\<close> panics exactly for the numbers above
  \<^verbatim>\<open>i64::MAX\<close>, so a filter never compares with a different number.
\<close>

theorem integer_conversions:
  "value_int (from_i8 a) = Some (sint a) \<and> value_int (from_i16 b) = Some (sint b)
 \<and> value_int (from_i32 c) = Some (sint c) \<and> value_int (from_u8 d) = Some (uint d)
 \<and> value_int (from_u16 e) = Some (uint e) \<and> value_int (from_u32 f) = Some (uint f)
 \<and> map_option value_int (from_u64 g)
     = (if uint g \<le> 2 ^ 63 - 1 then Some (Some (uint g)) else None)"
proof -
  have "sint g = uint g" if "uint g \<le> 2 ^ 63 - 1"
    using that sint_small_i64 [of g] by simp
  then have "map_option value_int (from_u64 g)
     = (if uint g \<le> 2 ^ 63 - 1 then Some (Some (uint g)) else None)"
    by (simp only: from_u64_def unat_small_iff) (simp add: value_int_def)
  then show ?thesis
    by (simp add: value_int_def from_i8_def from_i16_def from_i32_def from_u8_def from_u16_def
        from_u32_def sint_scast_i64 sint_ucast_i64 is_up)
qed

end
