(* ===== verification/Query_Clauses.thy ===== *)
theory Query_Clauses
  imports Filter_Sql
begin

text \<open>
  The clause types of \<^verbatim>\<open>prax-query/src/types.rs\<close> (ordering, projection, optional
  parameters) and \<^verbatim>\<open>prax-query/src/pagination.rs\<close> (skip, take, cursors).  A method that
  writes into \<^verbatim>\<open>buffer: &mut String\<close> takes and returns the buffer; the capacity it reserves
  is not modelled.
\<close>

subsection \<open>Ordering\<close>

datatype sort_order = Asc | Desc
datatype nulls_order = NullsFirst | NullsLast

definition sort_as_sql :: "sort_order \<Rightarrow> string" where
  "sort_as_sql s = (case s of Asc \<Rightarrow> ''ASC'' | Desc \<Rightarrow> ''DESC'')"
definition nulls_as_sql :: "nulls_order \<Rightarrow> string" where
  "nulls_as_sql s = (case s of NullsFirst \<Rightarrow> ''NULLS FIRST'' | NullsLast \<Rightarrow> ''NULLS LAST'')"

record order_by_field =
  ob_column :: string
  ob_order :: sort_order
  ob_nulls :: "nulls_order option"

definition obf_new :: "string \<Rightarrow> sort_order \<Rightarrow> order_by_field" where
  "obf_new column order = \<lparr>ob_column = column, ob_order = order, ob_nulls = None\<rparr>"
definition obf_nulls :: "order_by_field \<Rightarrow> nulls_order \<Rightarrow> order_by_field" where
  "obf_nulls f nulls = f\<lparr>ob_nulls := Some nulls\<rparr>"
definition obf_asc :: "string \<Rightarrow> order_by_field" where "obf_asc column = obf_new column Asc"
definition obf_desc :: "string \<Rightarrow> order_by_field" where "obf_desc column = obf_new column Desc"

definition obf_write_sql :: "order_by_field \<Rightarrow> string \<Rightarrow> string" where
  "obf_write_sql f buffer =
     buffer @ ob_column f @ '' '' @ sort_as_sql (ob_order f)
     @ (case ob_nulls f of None \<Rightarrow> [] | Some n \<Rightarrow> '' '' @ nulls_as_sql n)"
definition obf_to_sql :: "order_by_field \<Rightarrow> string" where
  "obf_to_sql f = obf_write_sql f []"
definition obf_estimated_len :: "order_by_field \<Rightarrow> nat" where
  "obf_estimated_len f = length (ob_column f) + 5 + (if ob_nulls f \<noteq> None then 12 else 0)"

datatype order_by = OField order_by_field | OFields "order_by_field list"

definition ob_none :: order_by where "ob_none = OFields []"
definition ob_is_empty :: "order_by \<Rightarrow> bool" where
  "ob_is_empty ob = (case ob of OField _ \<Rightarrow> False | OFields fs \<Rightarrow> fs = [])"
definition ob_then :: "order_by \<Rightarrow> order_by_field \<Rightarrow> order_by" where
  "ob_then ob field =
     (case ob of OField e \<Rightarrow> OFields [e, field] | OFields es \<Rightarrow> OFields (es @ [field]))"
definition ob_from_fields :: "order_by_field list \<Rightarrow> order_by" where
  "ob_from_fields flds = (case flds of [] \<Rightarrow> ob_none | [f] \<Rightarrow> OField f | fs \<Rightarrow> OFields fs)"

text \<open>The loop of \<open>write_sql\<close>: a separator before every field but the first.\<close>

fun ob_write_fields :: "nat \<Rightarrow> order_by_field list \<Rightarrow> string \<Rightarrow> string" where
  "ob_write_fields i [] buffer = buffer"
| "ob_write_fields i (f # fs) buffer =
     ob_write_fields (i + 1) fs (obf_write_sql f (if i > 0 then buffer @ '', '' else buffer))"

definition ob_write_sql :: "order_by \<Rightarrow> string \<Rightarrow> string" where
  "ob_write_sql ob buffer =
     (case ob of OField f \<Rightarrow> obf_write_sql f buffer | OFields fs \<Rightarrow> ob_write_fields 0 fs buffer)"
definition ob_to_sql :: "order_by \<Rightarrow> string" where
  "ob_to_sql ob =
     (case ob of
        OField f \<Rightarrow> obf_to_sql f
      | OFields fs \<Rightarrow> if fs = [] then [] else ob_write_sql (OFields fs) [])"
definition ob_field_count :: "order_by \<Rightarrow> nat" where
  "ob_field_count ob = (case ob of OField _ \<Rightarrow> 1 | OFields fs \<Rightarrow> length fs)"

record order_by_builder = obb_fields :: "order_by_field list"

definition obb_push :: "order_by_builder \<Rightarrow> order_by_field \<Rightarrow> order_by_builder" where
  "obb_push b f = b\<lparr>obb_fields := obb_fields b @ [f]\<rparr>"
definition obb_asc :: "order_by_builder \<Rightarrow> string \<Rightarrow> order_by_builder" where
  "obb_asc b column = obb_push b (obf_asc column)"
definition obb_desc :: "order_by_builder \<Rightarrow> string \<Rightarrow> order_by_builder" where
  "obb_desc b column = obb_push b (obf_desc column)"
definition obb_build :: "order_by_builder \<Rightarrow> order_by" where
  "obb_build b = ob_from_fields (obb_fields b)"

subsection \<open>Projection\<close>

datatype select = SelAll | SelFields "string list" | SelField string

definition sel_is_all :: "select \<Rightarrow> bool" where "sel_is_all s = (s = SelAll)"
definition sel_field_names :: "select \<Rightarrow> string list" where
  "sel_field_names s = (case s of SelAll \<Rightarrow> [''*''] | SelFields fs \<Rightarrow> fs | SelField f \<Rightarrow> [f])"

fun sel_write_fields :: "nat \<Rightarrow> string list \<Rightarrow> string \<Rightarrow> string" where
  "sel_write_fields i [] buffer = buffer"
| "sel_write_fields i (f # fs) buffer =
     sel_write_fields (i + 1) fs ((if i > 0 then buffer @ '', '' else buffer) @ f)"

definition sel_write_sql :: "select \<Rightarrow> string \<Rightarrow> string" where
  "sel_write_sql s buffer =
     (case s of SelAll \<Rightarrow> buffer @ ''*'' | SelFields fs \<Rightarrow> sel_write_fields 0 fs buffer
      | SelField f \<Rightarrow> buffer @ f)"
definition sel_to_sql :: "select \<Rightarrow> string" where
  "sel_to_sql s =
     (case s of SelAll \<Rightarrow> ''*'' | SelFields fs \<Rightarrow> sel_write_sql (SelFields fs) [] | SelField f \<Rightarrow> f)"

subsection \<open>\<open>SetParam\<close>\<close>

datatype 'a set_param = PSet 'a | PUnset

definition sp_is_set :: "'a set_param \<Rightarrow> bool" where
  "sp_is_set p = (case p of PSet _ \<Rightarrow> True | PUnset \<Rightarrow> False)"
definition sp_get :: "'a set_param \<Rightarrow> 'a option" where
  "sp_get p = (case p of PSet v \<Rightarrow> Some v | PUnset \<Rightarrow> None)"
definition sp_map :: "('a \<Rightarrow> 'b) \<Rightarrow> 'a set_param \<Rightarrow> 'b set_param" where
  "sp_map f p = (case p of PSet v \<Rightarrow> PSet (f v) | PUnset \<Rightarrow> PUnset)"
definition sp_from_option :: "'a option \<Rightarrow> 'a set_param" where
  "sp_from_option opt = (case opt of Some v \<Rightarrow> PSet v | None \<Rightarrow> PUnset)"

subsection \<open>Pagination\<close>

datatype cursor_value = CInt i64 | CString string
datatype cursor_direction = After | Before

record cursor =
  cur_column :: string
  cur_value :: cursor_value
  cur_direction :: cursor_direction

record pagination =
  pg_skip :: "u64 option"
  pg_take :: "u64 option"
  pg_cursor :: "cursor option"

definition pg_new :: pagination where
  "pg_new = \<lparr>pg_skip = None, pg_take = None, pg_cursor = None\<rparr>"
definition pg_is_empty :: "pagination \<Rightarrow> bool" where
  "pg_is_empty p \<longleftrightarrow> pg_skip p = None \<and> pg_take p = None \<and> pg_cursor p = None"

definition pg_to_sql :: "pagination \<Rightarrow> string" where
  "pg_to_sql p =
     (let sql = (case pg_take p of None \<Rightarrow> [] | Some t \<Rightarrow> ''LIMIT '' @ show_nat (unat t))
      in case pg_skip p of
           None \<Rightarrow> sql
         | Some s \<Rightarrow> (if sql \<noteq> [] then sql @ '' '' else sql) @ ''OFFSET '' @ show_nat (unat s))"

definition pg_write_sql :: "pagination \<Rightarrow> string \<Rightarrow> string" where
  "pg_write_sql p buffer =
     (let b = (case pg_take p of None \<Rightarrow> buffer | Some t \<Rightarrow> buffer @ ''LIMIT '' @ show_nat (unat t))
      in case pg_skip p of
           None \<Rightarrow> b
         | Some s \<Rightarrow> (if pg_take p \<noteq> None then b @ '' '' else b) @ ''OFFSET '' @ show_nat (unat s))"

definition pg_first :: "u64 \<Rightarrow> pagination" where
  "pg_first n = pg_new\<lparr>pg_take := Some n\<rparr>"

text \<open>The product is a \<^verbatim>\<open>u64\<close> product; it wraps around as it does in a release build.\<close>

definition saturating_sub_u64 :: "u64 \<Rightarrow> u64 \<Rightarrow> u64" where
  "saturating_sub_u64 a b = (if a < b then 0 else a - b)"
definition pg_page :: "u64 \<Rightarrow> u64 \<Rightarrow> pagination" where
  "pg_page page page_size =
     (let skip = saturating_sub_u64 page 1 * page_size
      in pg_new\<lparr>pg_skip := Some skip, pg_take := Some page_size\<rparr>)"

definition cur_after :: "string \<Rightarrow> cursor_value \<Rightarrow> cursor" where
  "cur_after column v = \<lparr>cur_column = column, cur_value = v, cur_direction = After\<rparr>"
definition cur_before :: "string \<Rightarrow> cursor_value \<Rightarrow> cursor" where
  "cur_before column v = \<lparr>cur_column = column, cur_value = v, cur_direction = Before\<rparr>"
definition cur_operator :: "cursor \<Rightarrow> string" where
  "cur_operator c = (case cur_direction c of After \<Rightarrow> ''>'' | Before \<Rightarrow> ''<'')"
definition cur_write_sql_condition :: "cursor \<Rightarrow> string \<Rightarrow> string" where
  "cur_write_sql_condition c buffer =
     buffer @ cur_column c @ '' ''
     @ (case cur_direction c of After \<Rightarrow> ''> $cursor'' | Before \<Rightarrow> ''< $cursor'')"
definition cur_to_sql_condition :: "cursor \<Rightarrow> string" where
  "cur_to_sql_condition c =
     cur_column c @ '' ''
     @ (case cur_direction c of After \<Rightarrow> ''> $cursor'' | Before \<Rightarrow> ''< $cursor'')"

record 'a paginated_result =
  pr_data :: "'a list"
  pr_has_next :: bool
  pr_has_previous :: bool
  pr_next_cursor :: "cursor_value option"
  pr_previous_cursor :: "cursor_value option"
  pr_total_count :: "u64 option"

definition pr_new :: "'a list \<Rightarrow> 'a paginated_result" where
  "pr_new d = \<lparr>pr_data = d, pr_has_next = False, pr_has_previous = False,
     pr_next_cursor = None, pr_previous_cursor = None, pr_total_count = None\<rparr>"

subsection \<open>The buffer writers\<close>

lemma obf_write_sql_append: "obf_write_sql f buffer = buffer @ obf_to_sql f"
  by (simp add: obf_write_sql_def obf_to_sql_def)

lemma ob_write_fields_join:
  "ob_write_fields i fs buffer
     = buffer @ (if i > 0 \<and> fs \<noteq> [] then '', '' else []) @ join '', '' (map obf_to_sql fs)"
  by (induction fs arbitrary: i buffer) (auto simp: obf_write_sql_append join_Cons)

lemma sel_write_fields_join:
  "sel_write_fields i fs buffer
     = buffer @ (if i > 0 \<and> fs \<noteq> [] then '', '' else []) @ join '', '' fs"
  by (induction fs arbitrary: i buffer) (auto simp: join_Cons)

lemma ob_write_sql_append: "ob_write_sql ob buffer = buffer @ ob_to_sql ob"
  by (cases ob) (auto simp: ob_write_sql_def ob_to_sql_def obf_write_sql_append ob_write_fields_join)

lemma sel_write_sql_append: "sel_write_sql s buffer = buffer @ sel_to_sql s"
  by (cases s) (auto simp: sel_write_sql_def sel_to_sql_def sel_write_fields_join)

lemma sel_to_sql_names: "sel_to_sql s = join '', '' (sel_field_names s)"
  by (cases s) (auto simp: sel_to_sql_def sel_field_names_def sel_write_sql_def
      sel_write_fields_join)

lemma pg_write_sql_append: "pg_write_sql p buffer = buffer @ pg_to_sql p"
  by (auto simp: pg_write_sql_def pg_to_sql_def split: option.splits)

text \<open>The fields of an ordering, whichever constructor holds them.\<close>

definition ob_fields :: "order_by \<Rightarrow> order_by_field list" where
  "ob_fields ob = (case ob of OField f \<Rightarrow> [f] | OFields fs \<Rightarrow> fs)"

lemma ob_to_sql_fields: "ob_to_sql ob = join '', '' (map obf_to_sql (ob_fields ob))"
  by (cases ob) (auto simp: ob_to_sql_def ob_fields_def ob_write_sql_def ob_write_fields_join)

lemma ob_fields_from_fields [simp]: "ob_fields (ob_from_fields fs) = fs"
  by (auto simp: ob_fields_def ob_from_fields_def ob_none_def split: list.splits)

lemma ob_fields_then [simp]: "ob_fields (ob_then ob f) = ob_fields ob @ [f]"
  by (cases ob) (auto simp: ob_fields_def ob_then_def)

lemma ob_is_empty_fields: "ob_is_empty ob \<longleftrightarrow> ob_fields ob = []"
  by (cases ob) (auto simp: ob_is_empty_def ob_fields_def)

lemma ob_field_count_fields: "ob_field_count ob = length (ob_fields ob)"
  by (cases ob) (auto simp: ob_field_count_def ob_fields_def)

lemma obb_fields_fold: "obb_fields (foldl obb_push b fs) = obb_fields b @ fs"
  by (induction fs arbitrary: b) (auto simp: obb_push_def)

subsection \<open>Properties\<close>

text \<open>
  Every writer appends to its buffer exactly what the corresponding \<open>to_sql\<close> returns, and
  however an ordering was built (\<open>then\<close>, \<open>from_fields\<close>, the builder) its text is its fields
  joined by commas, in order; a projection is its names joined by commas.
\<close>

theorem clause_writers:
  "ob_write_sql ob buffer = buffer @ join '', '' (map obf_to_sql (ob_fields ob))
 \<and> ob_write_sql (ob_then ob f) [] = join '', '' (map obf_to_sql (ob_fields ob @ [f]))
 \<and> ob_write_sql (obb_build (foldl obb_push b fs)) [] = join '', '' (map obf_to_sql (obb_fields b @ fs))
 \<and> ob_field_count (ob_then ob f) = Suc (ob_field_count ob)
 \<and> sel_write_sql s buffer = buffer @ join '', '' (sel_field_names s)
 \<and> pg_write_sql p buffer = buffer @ pg_to_sql p
 \<and> cur_write_sql_condition c buffer = buffer @ cur_to_sql_condition c"
  by (simp add: ob_write_sql_append ob_to_sql_fields sel_write_sql_append sel_to_sql_names
      pg_write_sql_append cur_write_sql_condition_def cur_to_sql_condition_def obb_build_def
      obb_fields_fold ob_field_count_fields)

text \<open>
  Page arithmetic: when the offset of the page fits in 64 bits, page \<open>n\<close> (counted from 1,
  page 0 read as page 1) skips \<open>(n - 1) * size\<close> rows and takes \<open>size\<close>.
\<close>

theorem page_offset:
  assumes "(unat page - 1) * unat page_size < 2 ^ 64"
  shows "map_option unat (pg_skip (pg_page page page_size)) = Some ((unat page - 1) * unat page_size)
     \<and> pg_take (pg_page page page_size) = Some page_size
     \<and> pg_cursor (pg_page page page_size) = None"
proof -
  have "unat (saturating_sub_u64 page 1) = unat page - 1"
  proof (cases "page = 0")
    case False
    then have "\<not> page < 1" by (simp add: word_less_1)
    with False show ?thesis by (simp add: saturating_sub_u64_def unat_minus_one)
  qed (simp add: saturating_sub_u64_def)
  with assms have "unat (saturating_sub_u64 page 1 * page_size) = (unat page - 1) * unat page_size"
    by (simp add: unat_word_ariths)
  then show ?thesis by (simp add: pg_page_def pg_new_def)
qed

theorem page_offset_witness:
  "map_option unat (pg_skip (pg_page 3 20)) = Some 40 \<and> pg_take (pg_page 3 20) = Some 20
   \<and> pg_cursor (pg_page 3 20) = None"
  using page_offset [of 3 20] by simp

end
