(* ===== verification/Query_Operations.thy ===== *)
theory Query_Operations
  imports Query_Clauses
begin

text \<open>
  The operation builders of \<^verbatim>\<open>prax-query/src/operations\<close> and what they embed
  (\<^verbatim>\<open>projection.rs\<close>, \<^verbatim>\<open>inputs/write_payload.rs\<close>).  An operation is a record of its fields
  without the engine and the phantom model; the model's \<^verbatim>\<open>TABLE_NAME\<close> is the argument
  \<open>table\<close> of \<open>build_sql\<close>.  Include specifications are values of the parameter type \<open>'i\<close>.
\<close>

subsection \<open>Projections and write payloads\<close>

record 'j scalar_projection =
  proj_sql :: string
  proj_params :: "'j filter_value list"
  proj_alias :: string

definition proj_to_sql ::
  "'j scalar_projection \<Rightarrow> nat \<Rightarrow> dialect \<Rightarrow> 'j filter_value list \<Rightarrow>
   (string \<times> 'j filter_value list) option" where
  "proj_to_sql p offset d out_params =
     do {
       out \<leftarrow> subst_slots d offset (length (proj_params p)) (proj_sql p);
       Some (out, out_params @ proj_params p)
     }"

datatype 'j write_op =
    WSet "'j filter_value"
  | WIncrement "'j filter_value"
  | WDecrement "'j filter_value"
  | WMultiply "'j filter_value"
  | WDivide "'j filter_value"
  | WUnset

definition wop_is_arithmetic :: "'j write_op \<Rightarrow> bool" where
  "wop_is_arithmetic w =
     (case w of WIncrement _ \<Rightarrow> True | WDecrement _ \<Rightarrow> True | WMultiply _ \<Rightarrow> True | WDivide _ \<Rightarrow> True
      | _ \<Rightarrow> False)"

fun to_set_fragment :: "'j write_op \<Rightarrow> string \<Rightarrow> string \<Rightarrow> string \<times> 'j filter_value option" where
  "to_set_fragment (WSet v) column ph = (column @ '' = '' @ ph, Some v)"
| "to_set_fragment (WIncrement v) column ph = (column @ '' = '' @ column @ '' + '' @ ph, Some v)"
| "to_set_fragment (WDecrement v) column ph = (column @ '' = '' @ column @ '' - '' @ ph, Some v)"
| "to_set_fragment (WMultiply v) column ph = (column @ '' = '' @ column @ '' * '' @ ph, Some v)"
| "to_set_fragment (WDivide v) column ph = (column @ '' = '' @ column @ '' / '' @ ph, Some v)"
| "to_set_fragment WUnset column ph = (column @ '' = NULL'', None)"

subsection \<open>\<open>FindManyOperation\<close>\<close>

record ('j, 'i) find_many =
  fm_filter :: "'j filter"
  fm_order_by :: order_by
  fm_pagination :: pagination
  fm_select :: select
  fm_distinct :: "string list option"
  fm_includes :: "'i list"
  fm_projections :: "'j scalar_projection list"

definition fm_new :: "('j, 'i) find_many" where
  "fm_new = \<lparr>fm_filter = FNone, fm_order_by = ob_none, fm_pagination = pg_new, fm_select = SelAll,
     fm_distinct = None, fm_includes = [], fm_projections = []\<rparr>"
definition fm_include :: "('j, 'i) find_many \<Rightarrow> 'i \<Rightarrow> ('j, 'i) find_many" where
  "fm_include op spec = op\<lparr>fm_includes := fm_includes op @ [spec]\<rparr>"
definition fm_where :: "('j, 'i) find_many \<Rightarrow> 'j filter \<Rightarrow> ('j, 'i) find_many" where
  "fm_where op f = op\<lparr>fm_filter := and_then (fm_filter op) f\<rparr>"
definition fm_order :: "('j, 'i) find_many \<Rightarrow> order_by \<Rightarrow> ('j, 'i) find_many" where
  "fm_order op ob = op\<lparr>fm_order_by := ob\<rparr>"
definition fm_skip :: "('j, 'i) find_many \<Rightarrow> u64 \<Rightarrow> ('j, 'i) find_many" where
  "fm_skip op n = op\<lparr>fm_pagination := (fm_pagination op)\<lparr>pg_skip := Some n\<rparr>\<rparr>"
definition fm_take :: "('j, 'i) find_many \<Rightarrow> u64 \<Rightarrow> ('j, 'i) find_many" where
  "fm_take op n = op\<lparr>fm_pagination := (fm_pagination op)\<lparr>pg_take := Some n\<rparr>\<rparr>"
definition fm_sel :: "('j, 'i) find_many \<Rightarrow> select \<Rightarrow> ('j, 'i) find_many" where
  "fm_sel op s = op\<lparr>fm_select := s\<rparr>"
definition fm_distinct_on :: "('j, 'i) find_many \<Rightarrow> string list \<Rightarrow> ('j, 'i) find_many" where
  "fm_distinct_on op columns = op\<lparr>fm_distinct := Some columns\<rparr>"
definition fm_cursor :: "('j, 'i) find_many \<Rightarrow> cursor \<Rightarrow> ('j, 'i) find_many" where
  "fm_cursor op c = op\<lparr>fm_pagination := (fm_pagination op)\<lparr>pg_cursor := Some c\<rparr>\<rparr>"
definition fm_with_scalar_projection ::
  "('j, 'i) find_many \<Rightarrow> 'j scalar_projection \<Rightarrow> ('j, 'i) find_many" where
  "fm_with_scalar_projection op p = op\<lparr>fm_projections := fm_projections op @ [p]\<rparr>"

text \<open>The loop over the extra projections, with its running offset.\<close>

fun write_projections ::
  "dialect \<Rightarrow> 'j scalar_projection list \<Rightarrow> nat \<Rightarrow> string \<Rightarrow> 'j filter_value list \<Rightarrow>
   (string \<times> 'j filter_value list) option" where
  "write_projections d [] proj_offset sql params = Some (sql, params)"
| "write_projections d (p # ps) proj_offset sql params =
     do {
       (frag, params') \<leftarrow> proj_to_sql p proj_offset d params;
       write_projections d ps (proj_offset + length (proj_params p))
         (sql @ '', '' @ ''('' @ frag @ '') AS '' @ [DQUOTE] @ proj_alias p @ [DQUOTE]) params'
     }"

definition cursor_param :: "cursor \<Rightarrow> 'j filter_value" where
  "cursor_param c = (case cur_value c of CInt v \<Rightarrow> VInt v | CString s \<Rightarrow> VString s)"

definition proj_param_count :: "'j scalar_projection list \<Rightarrow> nat" where
  "proj_param_count ps = sum_list (map (\<lambda>p. length (proj_params p)) ps)"

text \<open>The \<^verbatim>\<open>WHERE\<close> part: the filter, then the keyset predicate of the cursor.\<close>

definition fm_where_clause ::
  "dialect \<Rightarrow> 'j filter \<Rightarrow> string \<Rightarrow> cursor option \<Rightarrow> nat \<Rightarrow> string \<Rightarrow> string option" where
  "fm_where_clause d f where_sql cursor slot sql =
     (if \<not> is_none f \<or> cursor \<noteq> None then
        (let sql = sql @ '' WHERE ''; conjunct = \<not> is_none f;
             sql = (if \<not> is_none f then sql @ where_sql else sql)
         in case cursor of
              None \<Rightarrow> Some sql
            | Some c \<Rightarrow>
                do {
                  q \<leftarrow> quote_ident d (cur_column c);
                  p \<leftarrow> placeholder d slot;
                  Some ((if conjunct then sql @ '' AND '' else sql) @ q @ '' '' @ cur_operator c @ '' '' @ p)
                })
      else Some sql)"

definition fm_order_clause :: "dialect \<Rightarrow> order_by \<Rightarrow> cursor option \<Rightarrow> string \<Rightarrow> string option" where
  "fm_order_clause d ob cursor sql =
     (if \<not> ob_is_empty ob then Some (ob_write_sql ob (sql @ '' ORDER BY ''))
      else case cursor of
        None \<Rightarrow> Some sql
      | Some c \<Rightarrow>
          do {
            q \<leftarrow> quote_ident d (cur_column c);
            Some (sql @ '' ORDER BY '' @ q
              @ (case cur_direction c of After \<Rightarrow> '' ASC'' | Before \<Rightarrow> '' DESC''))
          })"

definition fm_build_sql ::
  "('j, 'i) find_many \<Rightarrow> string \<Rightarrow> dialect \<Rightarrow> (string \<times> 'j filter_value list) option" where
  "fm_build_sql op table d =
     do {
       let n = proj_param_count (fm_projections op);
       (where_sql, where_params) \<leftarrow> to_sql (fm_filter op) n d;
       let cursor = pg_cursor (fm_pagination op);
       let sql = ''SELECT ''
         @ (case fm_distinct op of
              None \<Rightarrow> []
            | Some cols \<Rightarrow>
                if supports_distinct_on d then ''DISTINCT ON ('' @ join '', '' cols @ '') ''
                else ''DISTINCT '');
       let sql = sel_write_sql (fm_select op) sql;
       (sql, params) \<leftarrow> write_projections d (fm_projections op) 0 sql [];
       let sql = sql @ '' FROM '' @ table;
       sql \<leftarrow> fm_where_clause d (fm_filter op) where_sql cursor (n + length where_params + 1) sql;
       let params = params @ where_params
         @ (case cursor of None \<Rightarrow> [] | Some c \<Rightarrow> [cursor_param c]);
       sql \<leftarrow> fm_order_clause d (fm_order_by op) cursor sql;
       let sql = (if pg_take (fm_pagination op) \<noteq> None \<or> pg_skip (fm_pagination op) \<noteq> None
         then pg_write_sql (fm_pagination op) (sql @ '' '') else sql);
       Some (sql, params)
     }"

subsection \<open>\<open>FindUniqueOperation\<close> and \<open>FindFirstOperation\<close>\<close>

record 'j find_unique =
  fu_filter :: "'j filter"
  fu_select :: select
  fu_projections :: "'j scalar_projection list"

definition fu_build_sql ::
  "'j find_unique \<Rightarrow> string \<Rightarrow> dialect \<Rightarrow> (string \<times> 'j filter_value list) option" where
  "fu_build_sql op table d =
     do {
       (where_sql, where_params) \<leftarrow> to_sql (fu_filter op) (proj_param_count (fu_projections op)) d;
       (sql, params) \<leftarrow> write_projections d (fu_projections op) 0
         (''SELECT '' @ sel_to_sql (fu_select op)) [];
       let sql = sql @ '' FROM '' @ table;
       let sql = (if \<not> is_none (fu_filter op) then sql @ '' WHERE '' @ where_sql else sql);
       Some (sql @ '' LIMIT 1'', params @ where_params)
     }"

record 'j find_first =
  ff_filter :: "'j filter"
  ff_order_by :: order_by
  ff_select :: select
  ff_projections :: "'j scalar_projection list"

definition ff_build_sql ::
  "'j find_first \<Rightarrow> string \<Rightarrow> dialect \<Rightarrow> (string \<times> 'j filter_value list) option" where
  "ff_build_sql op table d =
     do {
       (where_sql, where_params) \<leftarrow> to_sql (ff_filter op) (proj_param_count (ff_projections op)) d;
       (sql, params) \<leftarrow> write_projections d (ff_projections op) 0
         (''SELECT '' @ sel_to_sql (ff_select op)) [];
       let sql = sql @ '' FROM '' @ table;
       let sql = (if \<not> is_none (ff_filter op) then sql @ '' WHERE '' @ where_sql else sql);
       let sql = (if \<not> ob_is_empty (ff_order_by op)
         then sql @ '' ORDER BY '' @ ob_to_sql (ff_order_by op) else sql);
       Some (sql @ '' LIMIT 1'', params @ where_params)
     }"

subsection \<open>\<open>CountOperation\<close>\<close>

record 'j count_op =
  ct_filter :: "'j filter"
  ct_distinct :: "string option"

definition ct_new :: "'j count_op" where "ct_new = \<lparr>ct_filter = FNone, ct_distinct = None\<rparr>"
definition ct_where :: "'j count_op \<Rightarrow> 'j filter \<Rightarrow> 'j count_op" where
  "ct_where op f = op\<lparr>ct_filter := and_then (ct_filter op) f\<rparr>"
definition ct_distinct_on :: "'j count_op \<Rightarrow> string \<Rightarrow> 'j count_op" where
  "ct_distinct_on op column = op\<lparr>ct_distinct := Some column\<rparr>"
definition ct_build_sql ::
  "'j count_op \<Rightarrow> string \<Rightarrow> dialect \<Rightarrow> (string \<times> 'j filter_value list) option" where
  "ct_build_sql op table d =
     do {
       (where_sql, params) \<leftarrow> to_sql (ct_filter op) 0 d;
       let sql = ''SELECT COUNT(''
         @ (case ct_distinct op of Some col \<Rightarrow> ''DISTINCT '' @ col | None \<Rightarrow> ''*'') @ '')''
         @ '' FROM '' @ table;
       Some (if \<not> is_none (ct_filter op) then sql @ '' WHERE '' @ where_sql else sql, params)
     }"

subsection \<open>\<open>DeleteOperation\<close> and \<open>DeleteManyOperation\<close>\<close>

record 'j delete_op =
  dl_filter :: "'j filter"
  dl_select :: select

definition dl_new :: "'j delete_op" where "dl_new = \<lparr>dl_filter = FNone, dl_select = SelAll\<rparr>"
definition dl_where :: "'j delete_op \<Rightarrow> 'j filter \<Rightarrow> 'j delete_op" where
  "dl_where op f = op\<lparr>dl_filter := and_then (dl_filter op) f\<rparr>"
definition dl_with_where_input :: "'j delete_op \<Rightarrow> 'j filter \<Rightarrow> 'j delete_op" where
  "dl_with_where_input op f = op\<lparr>dl_filter := f\<rparr>"

definition delete_from :: "'j filter \<Rightarrow> string \<Rightarrow> dialect \<Rightarrow> (string \<times> 'j filter_value list) option" where
  "delete_from f table d =
     do {
       (where_sql, params) \<leftarrow> to_sql f 0 d;
       let sql = ''DELETE FROM '' @ table;
       Some (if \<not> is_none f then sql @ '' WHERE '' @ where_sql else sql, params)
     }"

definition dl_build_sql ::
  "'j delete_op \<Rightarrow> string \<Rightarrow> dialect \<Rightarrow> (string \<times> 'j filter_value list) option" where
  "dl_build_sql op table d =
     do {
       (where_sql, params) \<leftarrow> to_sql (dl_filter op) 0 d;
       let sql = ''DELETE FROM '' @ table;
       let sql = (if \<not> is_none (dl_filter op) then sql @ '' WHERE '' @ where_sql else sql);
       ret \<leftarrow> returning_clause d (sel_to_sql (dl_select op));
       Some (sql @ ret, params)
     }"
definition dl_build_sql_count ::
  "'j delete_op \<Rightarrow> string \<Rightarrow> dialect \<Rightarrow> (string \<times> 'j filter_value list) option" where
  "dl_build_sql_count op table d = delete_from (dl_filter op) table d"

record 'j delete_many = dm_filter :: "'j filter"

definition dm_new :: "'j delete_many" where "dm_new = \<lparr>dm_filter = FNone\<rparr>"
definition dm_where :: "'j delete_many \<Rightarrow> 'j filter \<Rightarrow> 'j delete_many" where
  "dm_where op f = op\<lparr>dm_filter := and_then (dm_filter op) f\<rparr>"
definition dm_build_sql ::
  "'j delete_many \<Rightarrow> string \<Rightarrow> dialect \<Rightarrow> (string \<times> 'j filter_value list) option" where
  "dm_build_sql op table d = delete_from (dm_filter op) table d"

end
