(* ===== verification/Statement_Lexing.thy ===== *)
theory Statement_Lexing
  imports Filter_Subquery
begin

text \<open>
  What a whole statement's text lexes to, up to its fixed characters: the calculus
  \<open>yields s is ms\<close> (the text \<open>s\<close> lexes, its identifiers are \<open>is\<close>, its markers \<open>ms\<close>) that the
  operations' proofs share, stated once for every dialect that meets the contract.
\<close>

text \<open>Text without quotes and markers: table names, columns the program does not quote.\<close>

definition raw_text :: "lexis \<Rightarrow> string \<Rightarrow> bool" where
  "raw_text lx s \<longleftrightarrow> (\<forall>c \<in> set s. c \<noteq> open_quote lx \<and> c \<noteq> SQUOTE \<and> c \<noteq> mark lx)"

lemma raw_text_simps [simp]:
  "raw_text lx []"
  "raw_text lx (c # s) \<longleftrightarrow> (c \<noteq> open_quote lx \<and> c \<noteq> SQUOTE \<and> c \<noteq> mark lx) \<and> raw_text lx s"
  "raw_text lx (s @ t) \<longleftrightarrow> raw_text lx s \<and> raw_text lx t"
  by (auto simp: raw_text_def)

lemma raw_text_join: "raw_text lx sep \<Longrightarrow> list_all (raw_text lx) ss \<Longrightarrow> raw_text lx (join sep ss)"
  by (induction ss) (auto simp: join_Cons)

text \<open>The characters of fixed statement text, of which no dialect makes a quote or a marker.\<close>

definition stmt_chars :: string where
  "stmt_chars = ''ABCDEFGHIJKLMNOPQRSTUVWXYZ ()=!<>,*+-/.0123456789''"

definition special_chars :: string where
  "special_chars = [DQUOTE, SQUOTE, BTICK, CHR ''['', CHR ''$'', CHR ''?'', CHR ''@'']"

lemma stmt_not_special: "c \<in> set stmt_chars \<Longrightarrow> c \<notin> set special_chars"
proof -
  have "list_all (\<lambda>c. c \<notin> set special_chars) stmt_chars"
    by (simp add: stmt_chars_def special_chars_def)
  then show "c \<in> set stmt_chars \<Longrightarrow> c \<notin> set special_chars" by (auto simp: list_all_iff)
qed

lemma lexis_special:
  "(d, lx) \<in> set sql_dialects \<Longrightarrow> {open_quote lx, SQUOTE, mark lx} \<subseteq> set special_chars"
  by (auto simp: sql_dialects_def special_chars_def lexis_defs)

lemma raw_text_stmt:
  assumes "(d, lx) \<in> set sql_dialects" and "set s \<subseteq> set stmt_chars"
  shows "raw_text lx s"
  unfolding raw_text_def
proof (intro ballI)
  fix c
  assume "c \<in> set s"
  then have "c \<notin> set special_chars" using assms(2) stmt_not_special by blast
  then show "c \<noteq> open_quote lx \<and> c \<noteq> SQUOTE \<and> c \<noteq> mark lx"
    using lexis_special [OF assms(1)] by auto
qed

lemma show_nat_stmt: "set (show_nat n) \<subseteq> set stmt_chars"
proof
  fix c
  assume "c \<in> set (show_nat n)"
  then have "c \<in> set ''0123456789''" using show_nat_set_digits is_digit_def by blast
  then show "c \<in> set stmt_chars" by (auto simp: stmt_chars_def)
qed

context sql_lexable
begin

definition yields :: "string \<Rightarrow> string list \<Rightarrow> nat option list \<Rightarrow> bool" where
  "yields s is ms \<longleftrightarrow> (\<exists>ts. lexes s ts \<and> idents ts = is \<and> marks ts = ms)"

lemma yields_raw: "raw_text lx s \<Longrightarrow> yields s [] []"
  unfolding yields_def lexes_def raw_text_def
  by (intro exI [of _ "chars s"]) (auto simp: lex_TChars)

lemma yields_raw_append: "raw_text lx t \<Longrightarrow> yields s is ms \<Longrightarrow> yields (t @ s) is ms"
  unfolding yields_def
proof (elim exE conjE)
  fix ts
  assume t: "raw_text lx t" and s: "lexes s ts" "idents ts = is" "marks ts = ms"
  have "lexes (t @ s) (chars t @ ts)"
    using t s(1) by (auto simp: lexes_def raw_text_def lex_TChars)
  with s show "\<exists>ts. lexes (t @ s) ts \<and> idents ts = is \<and> marks ts = ms" by fastforce
qed

lemma yields_append:
  assumes "yields s is ms" and "yields t is' ms'" and "ends_filter t"
  shows "yields (s @ t) (is @ is') (ms @ ms')"
proof -
  from assms obtain ts us where
    ts: "lexes s ts" "idents ts = is" "marks ts = ms" and
    us: "lexes t us" "idents us = is'" "marks us = ms'"
    by (auto simp: yields_def)
  have "lexes (s @ t) (ts @ us)"
  proof (cases "t = []")
    case True
    with lexesD [OF us(1), of "[]"] have "us = []" by (cases us) auto
    with True ts(1) show ?thesis by simp
  next
    case False
    with ts(1) us(1) assms(3) show ?thesis by (intro lexes_append)
  qed
  with ts us show ?thesis unfolding yields_def by fastforce
qed

lemma yields_ident: "yields (quo i) [i] []"
  unfolding yields_def by (rule exI [of _ "[TIdent i]"]) (simp add: lexes_ident)

lemma yields_mark: "yields (ph n) [] [nm n]"
  unfolding yields_def by (rule exI [of _ "[TMark (nm n)]"]) (simp add: lexes_mark)

lemma yields_filter:
  assumes "no_subquery f"
  shows "\<exists>s. to_sql f off d = Some (s, bound_values f)
     \<and> yields s (filter_columns f) (map nm [Suc off..<Suc (off + length (bound_values f))])"
  using to_sql_renders [OF assms, of "[]" off] filter_tokens_parts(1) [OF assms, of nm off]
  unfolding renders_def to_sql_def yields_def by fastforce

lemma yields_lex: "yields s is ms \<Longrightarrow> \<exists>ts. lex_sql lx s = Some ts \<and> idents ts = is \<and> marks ts = ms"
  using lexesD [of s _ "[]"] by (fastforce simp: yields_def)

text \<open>A list of markers, separated by commas.\<close>

lemma yields_marks:
  "raw_text lx '', '' \<Longrightarrow> yields (join '', '' (map ph ns)) [] (map nm ns)"
proof (induction ns)
  case Nil
  then show ?case using yields_raw [of "[]"] by simp
next
  case (Cons n ns)
  show ?case
  proof (cases "ns = []")
    case True
    then show ?thesis using yields_mark by simp
  next
    case False
    have "yields ('', '' @ join '', '' (map ph ns)) [] (map nm ns)"
      using Cons by (intro yields_raw_append) auto
    from yields_append [OF yields_mark this, of n] False show ?thesis by (simp add: join_Cons)
  qed
qed

end

subsection \<open>Dialects whose whole statements lex\<close>

lemma raw_text_stmt_chars:
  "(\<And>c. c \<in> set stmt_chars \<Longrightarrow> c \<noteq> open_quote lx \<and> c \<noteq> mark lx) \<Longrightarrow>
   set s \<subseteq> set stmt_chars \<Longrightarrow> raw_text lx s"
  using stmt_not_special unfolding raw_text_def special_chars_def by fastforce

locale sql_statements = sql_lexable +
  assumes stmt_plain: "c \<in> set stmt_chars \<Longrightarrow> c \<noteq> open_quote lx \<and> c \<noteq> mark lx"
    and returning: "raw_text lx cols \<Longrightarrow>
      \<exists>ret. returning_clause d cols = Some ret \<and> raw_text lx ret \<and> ends_filter ret"
    and dquote: "open_quote lx = DQUOTE \<Longrightarrow> close_quote lx = DQUOTE \<and> quo i = quote_with DQUOTE DQUOTE i"
    and dquote_mark: "mark lx \<noteq> DQUOTE"
    and do_nothing: "upsert_do_nothing_clause d cs \<noteq> None"
begin

lemma raw_stmt: "set s \<subseteq> set stmt_chars \<Longrightarrow> raw_text lx s"
  using raw_text_stmt_chars stmt_plain by blast

lemma raw_show_nat [simp]: "raw_text lx (show_nat n)"
  by (rule raw_stmt [OF show_nat_stmt])

lemma yields_text_append:
  "set t \<subseteq> set stmt_chars \<Longrightarrow> yields s is ms \<Longrightarrow> yields (t @ s) is ms"
  by (intro yields_raw_append raw_stmt)

lemma yields_append_raw:
  "yields s is ms \<Longrightarrow> raw_text lx t \<Longrightarrow> ends_filter t \<Longrightarrow> yields (s @ t) is ms"
  using yields_append [OF _ yields_raw, of s "is" ms t] by simp

text \<open>A column alias, which the program always writes in double quotes.\<close>

lemma yields_alias:
  assumes "raw_text lx a" and "DQUOTE \<notin> set a"
  shows "yields ([DQUOTE] @ a @ [DQUOTE]) (if open_quote lx = DQUOTE then [a] else []) []"
proof (cases "open_quote lx = DQUOTE")
  case True
  with dquote [of a] assms(2) have "quo a = [DQUOTE] @ a @ [DQUOTE]" by (simp add: quote_with_def)
  with yields_ident [of a] True show ?thesis by simp
next
  case False
  with assms(1) dquote_mark have "raw_text lx ([DQUOTE] @ a @ [DQUOTE])" by auto
  with False show ?thesis using yields_raw by simp
qed

end

lemma set_trim: "set (trim s) \<subseteq> set s"
  by (auto simp: trim_def dest!: set_dropWhileD)

lemma set_split_on: "p \<in> set (split_on c s) \<Longrightarrow> set p \<subseteq> set s"
proof (induction s arbitrary: p)
  case (Cons x s)
  then show ?case by (cases "split_on c s") (fastforce split: if_splits)+
qed simp

lemma raw_text_subset: "raw_text lx s \<Longrightarrow> set t \<subseteq> set s \<Longrightarrow> raw_text lx t"
  by (auto simp: raw_text_def)

lemma mssql_returning_raw:
  assumes "raw_text mssql_lexis cols"
  shows "raw_text mssql_lexis (mssql_returning cols)"
proof -
  have "raw_text mssql_lexis (''INSERTED.'' @ trim p)" if "p \<in> set (split_on CHR '','' cols)" for p
  proof -
    have "raw_text mssql_lexis (trim p)"
      using raw_text_subset [OF assms] set_trim set_split_on [OF that] by blast
    then show ?thesis by (simp add: mssql_lexis_def)
  qed
  then have "raw_text mssql_lexis
      (join '', '' (map (\<lambda>p. ''INSERTED.'' @ trim p) (split_on CHR '','' cols)))"
    by (intro raw_text_join) (simp add: mssql_lexis_def, auto simp: list_all_iff)
  then show ?thesis by (simp add: mssql_returning_def mssql_lexis_def)
qed

lemma sql_dialects_statements:
  assumes "(d, lx) \<in> set sql_dialects"
  shows "sql_statements d lx (spell_ident lx) (spell_mark lx)"
proof -
  have "\<exists>ret. returning_clause d cols = Some ret \<and> raw_text lx ret \<and> ends_filter ret"
    if "raw_text lx cols" for cols
    using assms that raw_text_stmt [OF assms, of "'' RETURNING ''"] mssql_returning_raw [of cols]
    by (auto simp: sql_dialects_def dialect_defs stmt_chars_def mssql_returning_def)
  moreover have "c \<noteq> open_quote lx \<and> c \<noteq> mark lx" if "c \<in> set stmt_chars" for c
    using lexis_special [OF assms] stmt_not_special [OF that] by auto
  moreover have "open_quote lx = DQUOTE \<Longrightarrow>
      close_quote lx = DQUOTE \<and> spell_ident lx i = quote_with DQUOTE DQUOTE i" for i
    using assms by (auto simp: sql_dialects_def lexis_defs spell_ident_def)
  moreover have "mark lx \<noteq> DQUOTE"
    using assms by (auto simp: sql_dialects_def lexis_defs)
  moreover have "upsert_do_nothing_clause d cs \<noteq> None" for cs
    using assms by (auto simp: sql_dialects_def dialect_defs default_upsert_do_nothing_clause_def
        on_conflict_cols_def Let_def)
  ultimately show ?thesis
    using sql_dialects_lexable [OF assms] by (intro sql_statements.intro sql_statements_axioms.intro)
qed

interpretation pg_stmt: sql_statements postgres postgres_lexis
  "spell_ident postgres_lexis" "spell_mark postgres_lexis"
  by (rule sql_dialects_statements) (simp add: sql_dialects_def)

interpretation sqlite_stmt: sql_statements sqlite sqlite_lexis
  "spell_ident sqlite_lexis" "spell_mark sqlite_lexis"
  by (rule sql_dialects_statements) (simp add: sql_dialects_def)

interpretation mysql_stmt: sql_statements mysql mysql_lexis
  "spell_ident mysql_lexis" "spell_mark mysql_lexis"
  by (rule sql_dialects_statements) (simp add: sql_dialects_def)

interpretation mssql_stmt: sql_statements mssql mssql_lexis
  "spell_ident mssql_lexis" "spell_mark mssql_lexis"
  by (rule sql_dialects_statements) (simp add: sql_dialects_def)

interpretation cql_stmt: sql_statements cql cql_lexis
  "spell_ident cql_lexis" "spell_mark cql_lexis"
  by (rule sql_dialects_statements) (simp add: sql_dialects_def)

end
