(* ===== verification/Write_Operations.thy ===== *)
theory Write_Operations
  imports Query_Operations Statement_Lexing
begin

text \<open>
  The write operations of \<^verbatim>\<open>prax-query/src/operations\<close>: \<open>UpdateOperation\<close>,
  \<open>UpdateManyOperation\<close>, \<open>CreateOperation\<close> and \<open>CreateManyOperation\<close> (the statements
  they build and the state their builder methods keep; nested writes are not modelled).
\<close>

subsection \<open>Updates\<close>

text \<open>The loop over the \<^verbatim>\<open>SET\<close> list with its running slot number \<open>param_idx\<close>.\<close>

fun set_parts ::
  "dialect \<Rightarrow> (string \<times> 'j write_op) list \<Rightarrow> nat \<Rightarrow> 'j filter_value list \<Rightarrow>
   (string list \<times> nat \<times> 'j filter_value list) option" where
  "set_parts d [] param_idx params = Some ([], param_idx, params)"
| "set_parts d ((col, op) # us) param_idx params =
     do {
       p \<leftarrow> placeholder d param_idx;
       let (fragment, v) = to_set_fragment op col p;
       (parts, param_idx', params') \<leftarrow>
         (case v of
            Some v \<Rightarrow> set_parts d us (param_idx + 1) (params @ [v])
          | None \<Rightarrow> set_parts d us param_idx params);
       Some (fragment # parts, param_idx', params')
     }"

definition update_sql ::
  "'j filter \<Rightarrow> (string \<times> 'j write_op) list \<Rightarrow> string \<Rightarrow> dialect \<Rightarrow>
   (string \<times> 'j filter_value list) option" where
  "update_sql f updates table d =
     do {
       (parts, param_idx, params) \<leftarrow> set_parts d updates 1 [];
       let sql = ''UPDATE '' @ table @ '' SET '' @ join '', '' parts;
       if \<not> is_none f then
         do {
           (where_sql, where_params) \<leftarrow> to_sql f (param_idx - 1) d;
           Some (sql @ '' WHERE '' @ where_sql, params @ where_params)
         }
       else Some (sql, params)
     }"

record 'j update_op =
  up_filter :: "'j filter"
  up_updates :: "(string \<times> 'j write_op) list"
  up_select :: select

definition up_new :: "'j update_op" where
  "up_new = \<lparr>up_filter = FNone, up_updates = [], up_select = SelAll\<rparr>"
definition up_where :: "'j update_op \<Rightarrow> 'j filter \<Rightarrow> 'j update_op" where
  "up_where op f = op\<lparr>up_filter := and_then (up_filter op) f\<rparr>"
definition up_set :: "'j update_op \<Rightarrow> string \<Rightarrow> 'j filter_value \<Rightarrow> 'j update_op" where
  "up_set op column v = op\<lparr>up_updates := up_updates op @ [(column, WSet v)]\<rparr>"
definition up_set_many :: "'j update_op \<Rightarrow> (string \<times> 'j filter_value) list \<Rightarrow> 'j update_op" where
  "up_set_many op vs = foldl (\<lambda>o' (c, v). up_set o' c v) op vs"
definition up_increment :: "'j update_op \<Rightarrow> string \<Rightarrow> i64 \<Rightarrow> 'j update_op" where
  "up_increment op column amount = op\<lparr>up_updates := up_updates op @ [(column, WIncrement (VInt amount))]\<rparr>"
definition up_set_op :: "'j update_op \<Rightarrow> string \<Rightarrow> 'j write_op \<Rightarrow> 'j update_op" where
  "up_set_op op column w = op\<lparr>up_updates := up_updates op @ [(column, w)]\<rparr>"
definition up_sel :: "'j update_op \<Rightarrow> select \<Rightarrow> 'j update_op" where
  "up_sel op s = op\<lparr>up_select := s\<rparr>"

definition up_build_sql ::
  "'j update_op \<Rightarrow> string \<Rightarrow> dialect \<Rightarrow> (string \<times> 'j filter_value list) option" where
  "up_build_sql op table d =
     do {
       (sql, params) \<leftarrow> update_sql (up_filter op) (up_updates op) table d;
       ret \<leftarrow> returning_clause d (sel_to_sql (up_select op));
       Some (sql @ ret, params)
     }"

text \<open>The primary-key value a filter fixes, for the nested writes of an update.\<close>

definition extract_pk_from_filter :: "'j filter \<Rightarrow> string \<Rightarrow> 'j filter_value option" where
  "extract_pk_from_filter f pk_col =
     (case f of FEquals name v \<Rightarrow> if name = pk_col then Some v else None | _ \<Rightarrow> None)"

record 'j update_many =
  um_filter :: "'j filter"
  um_updates :: "(string \<times> 'j write_op) list"

definition um_new :: "'j update_many" where "um_new = \<lparr>um_filter = FNone, um_updates = []\<rparr>"
definition um_where :: "'j update_many \<Rightarrow> 'j filter \<Rightarrow> 'j update_many" where
  "um_where op f = op\<lparr>um_filter := and_then (um_filter op) f\<rparr>"
definition um_set :: "'j update_many \<Rightarrow> string \<Rightarrow> 'j filter_value \<Rightarrow> 'j update_many" where
  "um_set op column v = op\<lparr>um_updates := um_updates op @ [(column, WSet v)]\<rparr>"
definition um_set_op :: "'j update_many \<Rightarrow> string \<Rightarrow> 'j write_op \<Rightarrow> 'j update_many" where
  "um_set_op op column w = op\<lparr>um_updates := um_updates op @ [(column, w)]\<rparr>"
definition um_build_sql ::
  "'j update_many \<Rightarrow> string \<Rightarrow> dialect \<Rightarrow> (string \<times> 'j filter_value list) option" where
  "um_build_sql op table d = update_sql (um_filter op) (um_updates op) table d"

subsection \<open>Inserts\<close>

record 'j create_op =
  cr_columns :: "string list"
  cr_values :: "'j filter_value list"
  cr_select :: select

definition cr_new :: "'j create_op" where
  "cr_new = \<lparr>cr_columns = [], cr_values = [], cr_select = SelAll\<rparr>"
definition cr_set :: "'j create_op \<Rightarrow> string \<Rightarrow> 'j filter_value \<Rightarrow> 'j create_op" where
  "cr_set op column v = op\<lparr>cr_columns := cr_columns op @ [column], cr_values := cr_values op @ [v]\<rparr>"
definition cr_set_many :: "'j create_op \<Rightarrow> (string \<times> 'j filter_value) list \<Rightarrow> 'j create_op" where
  "cr_set_many op vs = foldl (\<lambda>o' (c, v). cr_set o' c v) op vs"

definition build_insert_sql ::
  "string list \<Rightarrow> 'j filter_value list \<Rightarrow> select \<Rightarrow> string \<Rightarrow> dialect \<Rightarrow>
   (string \<times> 'j filter_value list) option" where
  "build_insert_sql columns vs sel table d =
     do {
       placeholders \<leftarrow> those (map (placeholder d) [1..<length vs + 1]);
       ret \<leftarrow> returning_clause d (sel_to_sql sel);
       Some (''INSERT INTO '' @ table @ '' ('' @ join '', '' columns @ '')'' @ '' VALUES (''
         @ join '', '' placeholders @ '')'' @ ret, vs)
     }"

definition cr_build_sql ::
  "'j create_op \<Rightarrow> string \<Rightarrow> dialect \<Rightarrow> (string \<times> 'j filter_value list) option" where
  "cr_build_sql op table d = build_insert_sql (cr_columns op) (cr_values op) (cr_select op) table d"

record 'j create_many =
  cm_columns :: "string list"
  cm_rows :: "'j filter_value list list"
  cm_skip_duplicates :: bool

definition cm_new :: "'j create_many" where
  "cm_new = \<lparr>cm_columns = [], cm_rows = [], cm_skip_duplicates = False\<rparr>"
definition cm_set_columns :: "'j create_many \<Rightarrow> string list \<Rightarrow> 'j create_many" where
  "cm_set_columns op columns = op\<lparr>cm_columns := columns\<rparr>"
definition cm_row :: "'j create_many \<Rightarrow> 'j filter_value list \<Rightarrow> 'j create_many" where
  "cm_row op r = op\<lparr>cm_rows := cm_rows op @ [r]\<rparr>"
definition cm_add_rows :: "'j create_many \<Rightarrow> 'j filter_value list list \<Rightarrow> 'j create_many" where
  "cm_add_rows op rs = foldl cm_row op rs"
definition cm_skip :: "'j create_many \<Rightarrow> 'j create_many" where
  "cm_skip op = op\<lparr>cm_skip_duplicates := True\<rparr>"
definition cm_with_skip_duplicates :: "'j create_many \<Rightarrow> bool \<Rightarrow> 'j create_many" where
  "cm_with_skip_duplicates op flag = op\<lparr>cm_skip_duplicates := flag\<rparr>"

text \<open>\<open>with_create_inputs\<close>: new columns are appended in first-seen order (the set \<^verbatim>\<open>seen\<close>
  mirrors the accumulated columns), every new row is laid out in the resulting column order, the
  first value of a repeated column wins, and missing values are \<^verbatim>\<open>NULL\<close>.\<close>

fun add_columns :: "string list \<Rightarrow> (string \<times> 'j filter_value) list \<Rightarrow> string list" where
  "add_columns columns [] = columns"
| "add_columns columns ((col, v) # row) =
     add_columns (if col \<in> set columns then columns else columns @ [col]) row"

definition layout_row :: "string list \<Rightarrow> (string \<times> 'j filter_value) list \<Rightarrow> 'j filter_value list" where
  "layout_row columns row = map (\<lambda>col. case map_of row col of Some v \<Rightarrow> v | None \<Rightarrow> VNull) columns"

definition cm_with_create_inputs ::
  "'j create_many \<Rightarrow> (string \<times> 'j filter_value) list list \<Rightarrow> 'j create_many" where
  "cm_with_create_inputs op lowered =
     (if lowered = [] then op
      else let columns = foldl add_columns (cm_columns op) lowered
           in op\<lparr>cm_columns := columns, cm_rows := cm_rows op @ map (layout_row columns) lowered\<rparr>)"

text \<open>The groups of placeholders, numbered through all rows.\<close>

fun value_groups ::
  "dialect \<Rightarrow> 'j filter_value list list \<Rightarrow> nat \<Rightarrow> 'j filter_value list \<Rightarrow>
   (string list \<times> 'j filter_value list) option" where
  "value_groups d [] param_idx all_params = Some ([], all_params)"
| "value_groups d (row # rows) param_idx all_params =
     do {
       placeholders \<leftarrow> those (map (placeholder d) [param_idx..<param_idx + length row]);
       (groups, params) \<leftarrow> value_groups d rows (param_idx + length row) (all_params @ row);
       Some ((''('' @ join '', '' placeholders @ '')'') # groups, params)
     }"

definition cm_build_sql ::
  "'j create_many \<Rightarrow> string \<Rightarrow> dialect \<Rightarrow> (string \<times> 'j filter_value list) option" where
  "cm_build_sql op table d =
     do {
       do_nothing \<leftarrow> (if cm_skip_duplicates op then upsert_do_nothing_clause d [] else Some []);
       let insert_ignore = prefix '' ON DUPLICATE KEY'' do_nothing;
       (groups, all_params) \<leftarrow> value_groups d (cm_rows op) 1 [];
       let sql = (if insert_ignore then ''INSERT IGNORE INTO '' else ''INSERT INTO '') @ table
         @ '' ('' @ join '', '' (cm_columns op) @ '')'' @ '' VALUES '' @ join '', '' groups;
       Some (if cm_skip_duplicates op \<and> \<not> insert_ignore \<and> do_nothing \<noteq> []
             then sql @ '' ON CONFLICT DO NOTHING'' else sql, all_params)
     }"

end
