(* ===== verification/Read_Statements.thy ===== *)
theory Read_Statements
  imports Query_Operations Statement_Lexing
begin

text \<open>
  Correctness of the statements the read operations and the deletions build: every dialect's
  lexer reads the whole statement, the markers are numbered in the order of the parameters, and
  no filter column, cursor column or alias adds anything to the text but its own identifier.
\<close>

subsection \<open>Well-formed projections\<close>

text \<open>The slots of a template; \<open>tidy\<close>: no digit can follow a slot's marker.\<close>

fun template_slots :: "piece list \<Rightarrow> nat list" where
  "template_slots [] = []"
| "template_slots (Raw s # ps) = template_slots ps"
| "template_slots (Slot n # ps) = n # template_slots ps"

fun tidy :: "piece list \<Rightarrow> bool" where
  "tidy [] = True"
| "tidy (Raw s # ps) = tidy ps"
| "tidy (Slot n # ps) =
     (tidy ps \<and> (case ps of [] \<Rightarrow> True | Raw s # _ \<Rightarrow> s \<noteq> [] \<and> ends_filter s | Slot _ # _ \<Rightarrow> False))"

fun raw_piece :: "lexis \<Rightarrow> piece \<Rightarrow> bool" where
  "raw_piece lx (Raw s) = raw_text lx s"
| "raw_piece lx (Slot n) = True"

definition proj_ok :: "lexis \<Rightarrow> 'j scalar_projection \<Rightarrow> piece list \<Rightarrow> bool" where
  "proj_ok lx p tpl \<longleftrightarrow>
     proj_sql p = print_template tpl \<and> length (proj_params p) \<le> 2 ^ 64
     \<and> list_all (valid_piece (length (proj_params p))) tpl \<and> list_all (raw_piece lx) tpl \<and> tidy tpl
     \<and> raw_text lx (proj_alias p) \<and> DQUOTE \<notin> set (proj_alias p)"

text \<open>The markers and the quoted aliases of a list of projections.\<close>

fun proj_marks ::
  "(nat \<Rightarrow> nat option) \<Rightarrow> nat \<Rightarrow> 'j scalar_projection list \<Rightarrow> piece list list \<Rightarrow> nat option list" where
  "proj_marks nm off (p # ps) (t # ts) =
     map (\<lambda>n. nm (off + n + 1)) (template_slots t) @ proj_marks nm (off + length (proj_params p)) ps ts"
| "proj_marks nm off _ _ = []"

definition alias_idents :: "lexis \<Rightarrow> 'j scalar_projection list \<Rightarrow> string list" where
  "alias_idents lx ps = (if open_quote lx = DQUOTE then map proj_alias ps else [])"

definition all_proj_params :: "'j scalar_projection list \<Rightarrow> 'j filter_value list" where
  "all_proj_params ps = concat (map proj_params ps)"

lemma alias_idents_simps [simp]:
  "alias_idents lx [] = []"
  "alias_idents lx (p # ps) = (if open_quote lx = DQUOTE then [proj_alias p] else []) @ alias_idents lx ps"
  by (simp_all add: alias_idents_def)

lemma all_proj_params_simps [simp]:
  "all_proj_params [] = []" "all_proj_params (p # ps) = proj_params p @ all_proj_params ps"
  by (simp_all add: all_proj_params_def)

lemma proj_param_count_length: "proj_param_count ps = length (all_proj_params ps)"
  by (induction ps) (auto simp: proj_param_count_def)

lemma ends_filter_append: "ends_filter s \<Longrightarrow> ends_filter t \<Longrightarrow> ends_filter (s @ t)"
  by (cases s) (auto simp: ends_filter_def)

lemma ends_filter_appendI: "ends_filter s \<Longrightarrow> s \<noteq> [] \<Longrightarrow> ends_filter (s @ t)"
  by (cases s) (auto simp: ends_filter_def)

context sql_statements
begin

lemma yields_template:
  "list_all (raw_piece lx) tpl \<Longrightarrow> tidy tpl \<Longrightarrow>
   yields (render_template ph off tpl) [] (map (\<lambda>n. nm (off + n + 1)) (template_slots tpl))"
proof (induction tpl rule: template_slots.induct)
  case 1
  then show ?case using yields_raw [of "[]"] by (simp add: render_template_def)
next
  case (2 s ps)
  then show ?case by (simp add: render_template_Cons yields_raw_append)
next
  case (3 n ps)
  have "ends_filter (render_template ph off ps)"
    using "3.prems"(2) by (cases ps) (auto simp: render_template_def ends_filter_appendI split: piece.splits)
  with 3 yields_append [OF yields_mark [of "off + n + 1"]] show ?case
    by (fastforce simp: render_template_Cons)
qed

lemma proj_to_sql_renders:
  assumes "proj_ok lx p tpl"
  shows "proj_to_sql p off d params
     = Some (render_template ph off tpl, params @ proj_params p)"
  using assms subst_slots_render [of d ph "length (proj_params p)" tpl off]
  by (simp add: proj_to_sql_def proj_ok_def placeholder)

lemma write_projections_renders:
  "list_all2 (proj_ok lx) ps tpls \<Longrightarrow>
   \<exists>t. write_projections d ps off sql params = Some (sql @ t, params @ all_proj_params ps)
     \<and> yields t (alias_idents lx ps) (proj_marks nm off ps tpls) \<and> ends_filter t"
proof (induction ps arbitrary: tpls off sql params)
  case Nil
  then show ?case using yields_raw [of "[]"] by simp
next
  case (Cons p ps)
  then obtain tpl tpls' where t: "tpls = tpl # tpls'" "proj_ok lx p tpl" "list_all2 (proj_ok lx) ps tpls'"
    by (cases tpls) auto
  define frag where "frag = render_template ph off tpl"
  from Cons.IH [OF t(3), of "off + length (proj_params p)"
      "sql @ '', '' @ ''('' @ frag @ '') AS '' @ [DQUOTE] @ proj_alias p @ [DQUOTE]" "params @ proj_params p"]
  obtain r where r:
    "write_projections d ps (off + length (proj_params p))
       (sql @ '', '' @ ''('' @ frag @ '') AS '' @ [DQUOTE] @ proj_alias p @ [DQUOTE]) (params @ proj_params p)
     = Some ((sql @ '', '' @ ''('' @ frag @ '') AS '' @ [DQUOTE] @ proj_alias p @ [DQUOTE]) @ r,
         (params @ proj_params p) @ all_proj_params ps)"
    "yields r (alias_idents lx ps) (proj_marks nm (off + length (proj_params p)) ps tpls')" "ends_filter r"
    by blast
  let ?al = "[DQUOTE] @ proj_alias p @ [DQUOTE]"
  from t(2) have a: "yields ?al (if open_quote lx = DQUOTE then [proj_alias p] else []) []"
    by (intro yields_alias) (auto simp: proj_ok_def)
  from t(2) have f: "yields frag [] (map (\<lambda>n. nm (off + n + 1)) (template_slots tpl))"
    unfolding frag_def by (intro yields_template) (auto simp: proj_ok_def)
  have "yields ('') AS '' @ (?al @ r)) (alias_idents lx (p # ps))
      (proj_marks nm (off + length (proj_params p)) ps tpls')"
    by (rule yields_text_append [of "'') AS ''"]) (use yields_append [OF a r(2,3)] in \<open>simp_all add: stmt_chars_def\<close>)
  from yields_append [OF f this]
  have "yields ('', ('' @ (frag @ '') AS '' @ ?al @ r)) (alias_idents lx (p # ps))
      (proj_marks nm off (p # ps) tpls)"
    by (intro yields_text_append [of "'', (''"]) (simp_all add: stmt_chars_def t(1))
  with r(1) show ?case
    by (intro exI [of _ "'', ('' @ (frag @ '') AS '' @ ?al @ r)"])
       (simp add: proj_to_sql_renders [OF t(2)] frag_def)
qed


lemma cur_operator_stmt: "set (cur_operator c) \<subseteq> set stmt_chars"
  by (simp add: cur_operator_def stmt_chars_def split: cursor_direction.splits)

text \<open>The \<^verbatim>\<open>WHERE\<close> part, appended to the statement so far.\<close>

lemma fm_where_clause_renders:
  assumes "no_subquery f" and "to_sql f off d = Some (w, bound_values f)"
    and "slot = off + length (bound_values f) + 1"
  shows "\<exists>t. (\<forall>sql. fm_where_clause d f w cursor slot sql = Some (sql @ t)) \<and> ends_filter t
     \<and> yields t (filter_columns f @ (case cursor of None \<Rightarrow> [] | Some c \<Rightarrow> [cur_column c]))
         (map nm [Suc off..<Suc (off + length (bound_values f) + (if cursor = None then 0 else 1))])"
proof -
  have w: "yields w (filter_columns f) (map nm [Suc off..<Suc (off + length (bound_values f))])"
    using yields_filter [OF assms(1), of off] assms(2) by auto
  have empty: "w = ''TRUE'' \<and> filter_columns f = [] \<and> bound_values f = []" if "is_none f"
    using that assms(2) by (cases f) (auto simp: is_none_def to_sql_def)
  show ?thesis
  proof (cases cursor)
    case None
    show ?thesis
    proof (cases "is_none f")
      case True
      with None empty show ?thesis
        using yields_raw [of "[]"] by (simp add: fm_where_clause_def)
    next
      case False
      with None yields_text_append [of "'' WHERE ''", OF _ w] show ?thesis
        by (simp add: fm_where_clause_def stmt_chars_def)
    qed
  next
    case (Some c)
    let ?k = "quo (cur_column c) @ '' '' @ cur_operator c @ '' '' @ ph slot"
    have "yields (cur_operator c @ '' '' @ ph slot) [] [nm slot]"
      by (intro yields_text_append [of "cur_operator c"] yields_text_append [of "'' ''"] yields_mark)
         (rule cur_operator_stmt, simp add: stmt_chars_def)
    then have "yields ('' '' @ cur_operator c @ '' '' @ ph slot) [] [nm slot]"
      by (intro yields_text_append [of "'' ''"]) (simp_all add: stmt_chars_def)
    from yields_append [OF yields_ident [of "cur_column c"] this]
    have k: "yields ?k [cur_column c] [nm slot]" by simp
    show ?thesis
    proof (cases "is_none f")
      case True
      with Some empty yields_text_append [of "'' WHERE ''", OF _ k] show ?thesis
        by (simp add: fm_where_clause_def quote_ident placeholder stmt_chars_def assms(3))
    next
      case False
      from yields_text_append [of "'' AND ''", OF _ k] yields_append [OF w]
      have "yields (w @ '' AND '' @ ?k) (filter_columns f @ [cur_column c])
          (map nm [Suc off..<Suc (off + length (bound_values f))] @ [nm slot])"
        by (simp add: stmt_chars_def)
      from yields_text_append [of "'' WHERE ''", OF _ this] False Some show ?thesis
        by (simp add: fm_where_clause_def quote_ident placeholder stmt_chars_def assms(3))
    qed
  qed
qed

lemma fm_order_clause_renders:
  assumes "raw_text lx (ob_to_sql ob)"
  shows "\<exists>t. (\<forall>sql. fm_order_clause d ob cursor sql = Some (sql @ t)) \<and> ends_filter t
     \<and> yields t (if ob_is_empty ob then (case cursor of None \<Rightarrow> [] | Some c \<Rightarrow> [cur_column c]) else []) []"
proof (cases "ob_is_empty ob")
  case False
  from yields_text_append [of "'' ORDER BY ''", OF _ yields_raw [OF assms]] False show ?thesis
    by (simp add: fm_order_clause_def ob_write_sql_append stmt_chars_def)
next
  case empty: True
  show ?thesis
  proof (cases cursor)
    case None
    with empty show ?thesis using yields_raw [of "[]"] by (simp add: fm_order_clause_def)
  next
    case (Some c)
    define dir where "dir = (case cur_direction c of After \<Rightarrow> '' ASC'' | Before \<Rightarrow> '' DESC'')"
    have "set dir \<subseteq> set stmt_chars" and e: "ends_filter dir"
      by (auto simp: dir_def stmt_chars_def split: cursor_direction.splits)
    then have "yields (quo (cur_column c) @ dir) [cur_column c] []"
      using yields_append [OF yields_ident yields_raw [OF raw_stmt]] by fastforce
    from yields_text_append [of "'' ORDER BY ''", OF _ this] Some empty show ?thesis
      by (simp add: fm_order_clause_def quote_ident stmt_chars_def dir_def)
  qed
qed

lemma pg_to_sql_raw: "raw_text lx (pg_to_sql p)"
proof -
  have "raw_text lx ''LIMIT ''" "raw_text lx ''OFFSET ''" "raw_text lx '' ''"
    by (rule raw_stmt, simp add: stmt_chars_def)+
  then show ?thesis by (auto simp: pg_to_sql_def Let_def split: option.splits)
qed


text \<open>The head and the tail of a \<^verbatim>\<open>SELECT\<close>.\<close>

definition distinct_text :: "string list option \<Rightarrow> string" where
  "distinct_text cols =
     (case cols of
        None \<Rightarrow> []
      | Some cols \<Rightarrow>
          if supports_distinct_on d then ''DISTINCT ON ('' @ join '', '' cols @ '') '' else ''DISTINCT '')"

lemma distinct_text_raw:
  "(\<forall>cols. dc = Some cols \<longrightarrow> list_all (raw_text lx) cols) \<Longrightarrow> raw_text lx (distinct_text dc)"
proof -
  have "raw_text lx ''DISTINCT ON (''" "raw_text lx '') ''" "raw_text lx ''DISTINCT ''" "raw_text lx '', ''"
    by (rule raw_stmt, simp add: stmt_chars_def)+
  then show "(\<forall>cols. dc = Some cols \<longrightarrow> list_all (raw_text lx) cols) \<Longrightarrow> ?thesis"
    by (auto simp: distinct_text_def raw_text_join split: option.splits)
qed

lemma yields_tail:
  assumes "raw_text lx table"
    and "yields w is ms" "ends_filter w" and "yields o' is' []" "ends_filter o'"
    and "raw_text lx pg" "ends_filter pg"
  shows "yields ('' FROM '' @ table @ w @ o' @ pg) (is @ is') ms"
proof -
  have "yields (o' @ pg) is' []" "ends_filter (o' @ pg)"
    using assms by (auto intro: yields_append_raw ends_filter_append)
  from yields_append [OF assms(2) this] have "yields (table @ w @ o' @ pg) (is @ is') ms"
    using assms(1) by (intro yields_raw_append [of table]) simp_all
  then show ?thesis by (intro yields_text_append [of "'' FROM ''"]) (simp_all add: stmt_chars_def)
qed

lemma find_many_renders:
  fixes op :: "('j, 'i) find_many"
  defines "f \<equiv> fm_filter op" and "cursor \<equiv> pg_cursor (fm_pagination op)"
    and "n \<equiv> length (all_proj_params (fm_projections op))"
  assumes "raw_text lx table" and "raw_text lx (sel_to_sql (fm_select op))"
    and "raw_text lx (ob_to_sql (fm_order_by op))"
    and "\<forall>cols. fm_distinct op = Some cols \<longrightarrow> list_all (raw_text lx) cols"
    and "no_subquery f" and "list_all2 (proj_ok lx) (fm_projections op) tpls"
  shows "\<exists>sql. fm_build_sql op table d
       = Some (sql, all_proj_params (fm_projections op) @ bound_values f
           @ (case cursor of None \<Rightarrow> [] | Some c \<Rightarrow> [cursor_param c]))
     \<and> yields sql
         (alias_idents lx (fm_projections op) @ filter_columns f
          @ (case cursor of None \<Rightarrow> []
             | Some c \<Rightarrow> cur_column c # (if ob_is_empty (fm_order_by op) then [cur_column c] else [])))
         (proj_marks nm 0 (fm_projections op) tpls
          @ map nm [Suc n..<Suc (n + length (bound_values f) + (if cursor = None then 0 else 1))])"
proof -
  obtain w where w: "to_sql f n d = Some (w, bound_values f)"
    using yields_filter [OF assms(8), of n] by blast
  define h where "h = ''SELECT '' @ distinct_text (fm_distinct op) @ sel_to_sql (fm_select op)"
  obtain ps where ps: "write_projections d (fm_projections op) 0 h []
      = Some (h @ ps, all_proj_params (fm_projections op))"
    "yields ps (alias_idents lx (fm_projections op)) (proj_marks nm 0 (fm_projections op) tpls)"
    using write_projections_renders [OF assms(9), of 0 h "[]"] by auto
  obtain wh where wh: "\<And>sql. fm_where_clause d f w cursor (n + length (bound_values f) + 1) sql = Some (sql @ wh)"
    "ends_filter wh" "yields wh (filter_columns f @ (case cursor of None \<Rightarrow> [] | Some c \<Rightarrow> [cur_column c]))
         (map nm [Suc n..<Suc (n + length (bound_values f) + (if cursor = None then 0 else 1))])"
    using fm_where_clause_renders [OF assms(8) w refl, of cursor] by auto
  obtain oc where oc: "\<And>sql. fm_order_clause d (fm_order_by op) cursor sql = Some (sql @ oc)"
    "ends_filter oc" "yields oc (if ob_is_empty (fm_order_by op)
        then (case cursor of None \<Rightarrow> [] | Some c \<Rightarrow> [cur_column c]) else []) []"
    using fm_order_clause_renders [OF assms(6), of cursor] by auto
  define pg where "pg = (if pg_take (fm_pagination op) \<noteq> None \<or> pg_skip (fm_pagination op) \<noteq> None
      then '' '' @ pg_to_sql (fm_pagination op) else [])"
  have pg: "raw_text lx pg" "ends_filter pg"
    using pg_to_sql_raw raw_stmt [of "'' ''"] by (auto simp: pg_def stmt_chars_def)
  have "fm_build_sql op table d = Some (h @ ps @ '' FROM '' @ table @ wh @ oc @ pg,
      all_proj_params (fm_projections op) @ bound_values f
      @ (case cursor of None \<Rightarrow> [] | Some c \<Rightarrow> [cursor_param c]))"
    using w ps(1) wh(1) oc(1)
    unfolding f_def cursor_def n_def h_def pg_def distinct_text_def
    by (auto simp: fm_build_sql_def Let_def proj_param_count_length sel_write_sql_append
        pg_write_sql_append split: option.splits)
  moreover have h: "raw_text lx h"
    unfolding h_def using raw_stmt [of "''SELECT ''"] distinct_text_raw [OF assms(7)] assms(5)
    by (auto simp: stmt_chars_def)
  have "yields (ps @ '' FROM '' @ table @ wh @ oc @ pg)
      (alias_idents lx (fm_projections op)
        @ (filter_columns f @ (case cursor of None \<Rightarrow> [] | Some c \<Rightarrow> [cur_column c]))
        @ (if ob_is_empty (fm_order_by op) then (case cursor of None \<Rightarrow> [] | Some c \<Rightarrow> [cur_column c]) else []))
      (proj_marks nm 0 (fm_projections op) tpls
        @ map nm [Suc n..<Suc (n + length (bound_values f) + (if cursor = None then 0 else 1))])"
    using yields_append [OF ps(2) yields_tail [OF assms(4) wh(3,2) oc(3,2) pg]] by simp
  note yields_raw_append [OF h this]
  ultimately show ?thesis
    by (cases cursor) (auto simp del: upt_Suc split: if_splits)
qed


text \<open>The statements without cursor and page: an optional \<^verbatim>\<open>WHERE\<close>, then fixed text.\<close>

lemma yields_where:
  assumes "no_subquery f" and "raw_text lx rt" "ends_filter rt"
  shows "\<exists>w. to_sql f off d = Some (w, bound_values f)
     \<and> yields ((if is_none f then [] else '' WHERE '' @ w) @ rt) (filter_columns f)
         (map nm [Suc off..<Suc (off + length (bound_values f))])"
proof -
  obtain w where w: "to_sql f off d = Some (w, bound_values f)"
    "yields w (filter_columns f) (map nm [Suc off..<Suc (off + length (bound_values f))])"
    using yields_filter [OF assms(1)] by blast
  from yields_append_raw [OF w(2) assms(2,3)]
  have "yields ((if is_none f then [] else '' WHERE '' @ w) @ rt) (filter_columns f)
      (map nm [Suc off..<Suc (off + length (bound_values f))])"
  proof (cases "is_none f")
    case True
    then show ?thesis using yields_raw [OF assms(2)] by (cases f) (auto simp: is_none_def)
  next
    case False
    with yields_text_append [of "'' WHERE ''", OF _ \<open>yields (w @ rt) _ _\<close>] show ?thesis
      by (simp add: stmt_chars_def)
  qed
  with w(1) show ?thesis by blast
qed

lemma delete_from_renders:
  assumes "raw_text lx table" and "no_subquery f"
  shows "\<exists>sql. delete_from f table d = Some (sql, bound_values f)
     \<and> yields sql (filter_columns f) (map nm [1..<Suc (length (bound_values f))])"
proof -
  obtain w where w: "to_sql f 0 d = Some (w, bound_values f)"
    "yields ((if is_none f then [] else '' WHERE '' @ w) @ []) (filter_columns f)
         (map nm [Suc 0..<Suc (0 + length (bound_values f))])"
    using yields_where [OF assms(2), of "[]" 0] by auto
  have "raw_text lx (''DELETE FROM '' @ table)"
    using raw_stmt [of "''DELETE FROM ''"] assms(1) by (simp add: stmt_chars_def)
  from yields_raw_append [OF this w(2)] w(1) show ?thesis
    by (auto simp: delete_from_def Let_def simp del: upt_Suc split: if_splits)
qed

lemma dl_build_sql_renders:
  assumes "raw_text lx table" and "raw_text lx (sel_to_sql (dl_select op))" and "no_subquery (dl_filter op)"
  shows "\<exists>sql. dl_build_sql op table d = Some (sql, bound_values (dl_filter op))
     \<and> yields sql (filter_columns (dl_filter op)) (map nm [1..<Suc (length (bound_values (dl_filter op)))])"
proof -
  obtain ret where ret: "returning_clause d (sel_to_sql (dl_select op)) = Some ret"
    "raw_text lx ret" "ends_filter ret"
    using returning [OF assms(2)] by blast
  obtain w where w: "to_sql (dl_filter op) 0 d = Some (w, bound_values (dl_filter op))"
    "yields ((if is_none (dl_filter op) then [] else '' WHERE '' @ w) @ ret) (filter_columns (dl_filter op))
         (map nm [Suc 0..<Suc (0 + length (bound_values (dl_filter op)))])"
    using yields_where [OF assms(3) ret(2,3), of 0] by blast
  have "raw_text lx (''DELETE FROM '' @ table)"
    using raw_stmt [of "''DELETE FROM ''"] assms(1) by (simp add: stmt_chars_def)
  from yields_raw_append [OF this w(2)] w(1) ret(1) show ?thesis
    by (auto simp: dl_build_sql_def Let_def simp del: upt_Suc split: if_splits)
qed

lemma ct_build_sql_renders:
  assumes "raw_text lx table" and "\<forall>c. ct_distinct op = Some c \<longrightarrow> raw_text lx c"
    and "no_subquery (ct_filter op)"
  shows "\<exists>sql. ct_build_sql op table d = Some (sql, bound_values (ct_filter op))
     \<and> yields sql (filter_columns (ct_filter op)) (map nm [1..<Suc (length (bound_values (ct_filter op)))])"
proof -
  define h where "h = ''SELECT COUNT(''
    @ (case ct_distinct op of Some col \<Rightarrow> ''DISTINCT '' @ col | None \<Rightarrow> ''*'') @ '') FROM '' @ table"
  obtain w where w: "to_sql (ct_filter op) 0 d = Some (w, bound_values (ct_filter op))"
    "yields ((if is_none (ct_filter op) then [] else '' WHERE '' @ w) @ []) (filter_columns (ct_filter op))
         (map nm [Suc 0..<Suc (0 + length (bound_values (ct_filter op)))])"
    using yields_where [OF assms(3), of "[]" 0] by auto
  have "raw_text lx ''SELECT COUNT(''" "raw_text lx ''DISTINCT ''" "raw_text lx ''*''" "raw_text lx '') FROM ''"
    by (rule raw_stmt, simp add: stmt_chars_def)+
  with assms have "raw_text lx h" by (auto simp: h_def split: option.splits)
  from yields_raw_append [OF this w(2)] w(1) show ?thesis
    by (auto simp: ct_build_sql_def h_def Let_def simp del: upt_Suc split: if_splits)
qed


lemma ff_build_sql_renders:
  fixes op :: "'j find_first"
  defines "f \<equiv> ff_filter op" and "n \<equiv> length (all_proj_params (ff_projections op))"
  assumes "raw_text lx table" and "raw_text lx (sel_to_sql (ff_select op))"
    and "raw_text lx (ob_to_sql (ff_order_by op))"
    and "no_subquery f" and "list_all2 (proj_ok lx) (ff_projections op) tpls"
  shows "\<exists>sql. ff_build_sql op table d = Some (sql, all_proj_params (ff_projections op) @ bound_values f)
     \<and> yields sql (alias_idents lx (ff_projections op) @ filter_columns f)
         (proj_marks nm 0 (ff_projections op) tpls @ map nm [Suc n..<Suc (n + length (bound_values f))])"
proof -
  define h where "h = ''SELECT '' @ sel_to_sql (ff_select op)"
  define rt where "rt = (if ob_is_empty (ff_order_by op) then []
    else '' ORDER BY '' @ ob_to_sql (ff_order_by op)) @ '' LIMIT 1''"
  have "raw_text lx '' ORDER BY ''" "raw_text lx '' LIMIT 1''" "raw_text lx ''SELECT ''"
    by (rule raw_stmt, simp add: stmt_chars_def)+
  with assms have raw: "raw_text lx h" "raw_text lx rt" "ends_filter rt"
    by (auto simp: h_def rt_def)
  obtain ps where ps: "write_projections d (ff_projections op) 0 h []
      = Some (h @ ps, all_proj_params (ff_projections op))"
    "yields ps (alias_idents lx (ff_projections op)) (proj_marks nm 0 (ff_projections op) tpls)"
    using write_projections_renders [OF assms(7), of 0 h "[]"] by auto
  obtain w where w: "to_sql f n d = Some (w, bound_values f)"
    "yields ((if is_none f then [] else '' WHERE '' @ w) @ rt) (filter_columns f)
       (map nm [Suc n..<Suc (n + length (bound_values f))])"
    using yields_where [OF assms(6) raw(2,3)] by blast
  from yields_raw_append [OF assms(3) w(2)]
  have tail: "yields ('' FROM '' @ table @ (if is_none f then [] else '' WHERE '' @ w) @ rt) (filter_columns f)
       (map nm [Suc n..<Suc (n + length (bound_values f))])"
    by (intro yields_text_append [of "'' FROM ''"]) (simp_all add: stmt_chars_def)
  have "ends_filter ('' FROM '' @ table @ (if is_none f then [] else '' WHERE '' @ w) @ rt)" by simp
  from yields_raw_append [OF raw(1) yields_append [OF ps(2) tail this]] ps(1) w(1)
  show ?thesis
    unfolding f_def n_def h_def rt_def
    by (auto simp: ff_build_sql_def Let_def proj_param_count_length simp del: upt_Suc split: if_splits)
qed

end

lemma fu_build_sql_first:
  "fu_build_sql op table d = ff_build_sql \<lparr>ff_filter = fu_filter op, ff_order_by = ob_none,
     ff_select = fu_select op, ff_projections = fu_projections op\<rparr> table d"
  by (simp add: fu_build_sql_def ff_build_sql_def ob_none_def ob_is_empty_def)

lemma write_projections_params:
  "write_projections d ps off sql params = Some (sql', params') \<Longrightarrow>
   params' = params @ all_proj_params ps"
  by (induction ps arbitrary: off sql params)
     (fastforce simp: bind_eq_Some_conv proj_to_sql_def)+

lemma to_sql_params: "to_sql f off d = Some (w, ps) \<Longrightarrow> ps = bound_values f"
  using to_sql_with_params_values(1) unfolding to_sql_def by fastforce

lemma write_projections_params0:
  "write_projections d ps off sql [] = Some (sql', ps') \<Longrightarrow> ps' = all_proj_params ps"
  using write_projections_params by fastforce

lemma ff_build_sql_params:
  "ff_build_sql op table d = Some (s, ps) \<Longrightarrow>
   ps = all_proj_params (ff_projections op) @ bound_values (ff_filter op)"
  by (auto simp: ff_build_sql_def Let_def bind_eq_Some_conv
      dest!: to_sql_params write_projections_params0)

lemma fm_build_sql_params:
  "fm_build_sql op table d = Some (s, ps) \<Longrightarrow>
   ps = all_proj_params (fm_projections op) @ bound_values (fm_filter op)
        @ (case pg_cursor (fm_pagination op) of None \<Rightarrow> [] | Some c \<Rightarrow> [cursor_param c])"
  unfolding fm_build_sql_def Let_def
  by (auto simp only: bind_eq_Some_conv option.inject prod.inject split_def fst_conv snd_conv
      dest!: to_sql_params write_projections_params0 split: prod.splits)

subsection \<open>Properties\<close>

text \<open>Table, columns and ordering are text without quotes and markers.\<close>

definition fm_wf :: "lexis \<Rightarrow> ('j, 'i) find_many \<Rightarrow> string \<Rightarrow> piece list list \<Rightarrow> bool" where
  "fm_wf lx op table tpls \<longleftrightarrow>
     raw_text lx table \<and> raw_text lx (sel_to_sql (fm_select op)) \<and> raw_text lx (ob_to_sql (fm_order_by op))
     \<and> (\<forall>cols. fm_distinct op = Some cols \<longrightarrow> list_all (raw_text lx) cols)
     \<and> no_subquery (fm_filter op) \<and> list_all2 (proj_ok lx) (fm_projections op) tpls"

text \<open>
  C5: Under \<open>fm_wf\<close>, \<open>FindManyOperation::build_sql\<close> does not panic; the statement lexes; its
  parameters are the projections' values, the filter's values and the cursor's value, in that
  order; its markers are those of the projections' slots, then consecutive numbers for the filter
  and the cursor; and its identifiers are exactly the aliases, the filter's columns and the
  cursor's column (twice when the cursor also orders the result).

  \<open>fm_wf\<close> asks that the texts the operation splices unquoted (the table, the selection, the
  ordering and the columns of \<^verbatim>\<open>DISTINCT\<close>) hold no quote and no parameter marker of the dialect,
  that the filter has no raw scalar subquery, and that every projection is the print of a template
  whose slots are below its number of parameters and followed by nothing or by a blank, a closing
  parenthesis or a comma, whose texts hold no quote and no marker and whose alias holds neither
  these nor a double quote.
\<close>

theorem find_many_statement:
  assumes "(d, lx) \<in> set sql_dialects" and "fm_wf lx op table tpls"
    and "n = length (all_proj_params (fm_projections op))"
    and "vs = bound_values (fm_filter op)
      @ (case pg_cursor (fm_pagination op) of None \<Rightarrow> [] | Some c \<Rightarrow> [cursor_param c])"
  shows "\<exists>sql ts. fm_build_sql op table d = Some (sql, all_proj_params (fm_projections op) @ vs)
     \<and> lex_sql lx sql = Some ts
     \<and> marks ts = proj_marks (marker lx) 0 (fm_projections op) tpls @ map (marker lx) [Suc n..<Suc (n + length vs)]
     \<and> idents ts = alias_idents lx (fm_projections op) @ filter_columns (fm_filter op)
         @ (case pg_cursor (fm_pagination op) of None \<Rightarrow> []
            | Some c \<Rightarrow> cur_column c # (if ob_is_empty (fm_order_by op) then [cur_column c] else []))"
proof -
  note stmt = sql_dialects_statements [OF assms(1)] and lexable = sql_dialects_lexable [OF assms(1)]
  from assms(2) obtain sql where
    "fm_build_sql op table d = Some (sql, all_proj_params (fm_projections op) @ vs)"
    "sql_lexable.yields lx sql
         (alias_idents lx (fm_projections op) @ filter_columns (fm_filter op)
          @ (case pg_cursor (fm_pagination op) of None \<Rightarrow> []
             | Some c \<Rightarrow> cur_column c # (if ob_is_empty (fm_order_by op) then [cur_column c] else [])))
         (proj_marks (marker lx) 0 (fm_projections op) tpls @ map (marker lx) [Suc n..<Suc (n + length vs)])"
    using sql_statements.find_many_renders [OF stmt, of table op tpls]
    unfolding assms(3,4) fm_wf_def
    by (cases "pg_cursor (fm_pagination op)") (auto simp del: upt_Suc)
  with sql_lexable.yields_lex [OF lexable this(2)] show ?thesis by blast
qed

theorem find_many_statement_witness:
  "\<exists>sql ts. fm_build_sql (fm_cursor (fm_where (fm_with_scalar_projection fm_new
        \<lparr>proj_sql = ''SELECT {0}'', proj_params = [VInt 1], proj_alias = ''k''\<rparr>)
        (FEquals ''a'' (VInt (2 :: i64)))) (cur_after ''id'' (CInt 3)) :: (unit, unit) find_many) ''users'' postgres
      = Some (sql, [VInt 1, VInt 2, VInt 3])
     \<and> lex_sql postgres_lexis sql = Some ts
     \<and> marks ts = [Some 1, Some 2, Some 3] \<and> idents ts = [''k'', ''a'', ''id'', ''id'']"
proof -
  let ?op = "fm_cursor (fm_where (fm_with_scalar_projection fm_new
        \<lparr>proj_sql = ''SELECT {0}'', proj_params = [VInt 1], proj_alias = ''k''\<rparr>)
        (FEquals ''a'' (VInt (2 :: i64)))) (cur_after ''id'' (CInt 3)) :: (unit, unit) find_many"
  note defs = fm_cursor_def fm_where_def fm_with_scalar_projection_def fm_new_def cur_after_def
    pg_new_def and_then_def filter_and2_def
  have "fm_wf postgres_lexis ?op ''users'' [[Raw ''SELECT '', Slot 0]]"
    by (simp add: fm_wf_def defs sel_to_sql_def ob_none_def ob_to_sql_def proj_ok_def postgres_lexis_def
        print_template_def show_nat.simps digit_char_def)
  from find_many_statement [OF _ this refl refl, of postgres] show ?thesis
    by (simp add: defs sql_dialects_def cursor_param_def postgres_lexis_def marker_def alias_idents_def
        ob_none_def ob_is_empty_def numeral_eq_Suc)
qed

text \<open>
  Whatever the dialect, the projections and the filter (raw subqueries included), the
  parameters of every query that is built are the projections' values, then the filter's, then
  the cursor's: \<open>find_many\<close>, \<open>find_first\<close> and \<open>find_unique\<close> agree on that order.
\<close>

theorem query_params:
  "map_option snd (fm_build_sql mop table d) \<in> {None,
      Some (all_proj_params (fm_projections mop) @ bound_values (fm_filter mop)
        @ (case pg_cursor (fm_pagination mop) of None \<Rightarrow> [] | Some c \<Rightarrow> [cursor_param c]))}
 \<and> map_option snd (ff_build_sql fop table d)
     \<in> {None, Some (all_proj_params (ff_projections fop) @ bound_values (ff_filter fop))}
 \<and> map_option snd (fu_build_sql uop table d)
     \<in> {None, Some (all_proj_params (fu_projections uop) @ bound_values (fu_filter uop))}"
  using fm_build_sql_params [of mop table d] ff_build_sql_params [of fop table d]
  by (cases "fm_build_sql mop table d"; cases "ff_build_sql fop table d"; cases "fu_build_sql uop table d")
     (auto simp: fu_build_sql_first dest!: ff_build_sql_params)

text \<open>
  \<open>FindFirstOperation::build_sql\<close> (and \<open>find_unique\<close>, which is a \<open>find_first\<close> without an
  ordering) does not panic; the statement lexes to the aliases and the filter's columns, with
  the projections' markers before the filter's.
\<close>

theorem find_first_statement:
  assumes "(d, lx) \<in> set sql_dialects" and "raw_text lx table"
    and "raw_text lx (sel_to_sql (ff_select op))" and "raw_text lx (ob_to_sql (ff_order_by op))"
    and "no_subquery (ff_filter op)" and "list_all2 (proj_ok lx) (ff_projections op) tpls"
    and "n = length (all_proj_params (ff_projections op))"
  shows "\<exists>sql ts. ff_build_sql op table d
      = Some (sql, all_proj_params (ff_projections op) @ bound_values (ff_filter op))
     \<and> lex_sql lx sql = Some ts
     \<and> idents ts = alias_idents lx (ff_projections op) @ filter_columns (ff_filter op)
     \<and> marks ts = proj_marks (marker lx) 0 (ff_projections op) tpls
         @ map (marker lx) [Suc n..<Suc (n + length (bound_values (ff_filter op)))]
     \<and> fu_build_sql \<lparr>fu_filter = ff_filter op, fu_select = ff_select op, fu_projections = ff_projections op\<rparr>
         table d = ff_build_sql (op\<lparr>ff_order_by := ob_none\<rparr>) table d"
proof -
  note stmt = sql_dialects_statements [OF assms(1)] and lexable = sql_dialects_lexable [OF assms(1)]
  obtain sql where
    "ff_build_sql op table d = Some (sql, all_proj_params (ff_projections op) @ bound_values (ff_filter op))"
    "sql_lexable.yields lx sql (alias_idents lx (ff_projections op) @ filter_columns (ff_filter op))
       (proj_marks (marker lx) 0 (ff_projections op) tpls
         @ map (marker lx) [Suc n..<Suc (n + length (bound_values (ff_filter op)))])"
    using sql_statements.ff_build_sql_renders [OF stmt assms(2-6)] unfolding assms(7) by blast
  moreover have "fu_build_sql \<lparr>fu_filter = ff_filter op, fu_select = ff_select op,
      fu_projections = ff_projections op\<rparr> table d = ff_build_sql (op\<lparr>ff_order_by := ob_none\<rparr>) table d"
    by (cases op) (simp add: fu_build_sql_first)
  ultimately show ?thesis using sql_lexable.yields_lex [OF lexable] by meson
qed

theorem find_first_statement_witness:
  "\<exists>sql ts. ff_build_sql \<lparr>ff_filter = FOr [FIsNull ''a'', FGt ''b'' (VInt (5 :: i64))], ff_order_by = ob_none,
        ff_select = SelField ''a'', ff_projections = []\<rparr> ''t'' mssql = Some (sql, [VInt 5 :: unit filter_value])
     \<and> lex_sql mssql_lexis sql = Some ts \<and> idents ts = [''a'', ''b''] \<and> marks ts = [Some 1]"
  using find_first_statement [of mssql mssql_lexis "''t''" "\<lparr>ff_filter = FOr [FIsNull ''a'',
      FGt ''b'' (VInt (5 :: i64))], ff_order_by = ob_none, ff_select = SelField ''a'', ff_projections = []\<rparr>"
      "[]" 0]
  by (auto simp: sql_dialects_def mssql_lexis_def sel_to_sql_def ob_to_sql_def ob_none_def marker_def)

text \<open>
  Deletions (\<open>delete\<close> with its \<^verbatim>\<open>RETURNING\<close> clause, its counting form, \<open>delete_many\<close>) and
  \<open>count\<close> never panic on the SQL dialects, bind exactly the filter's values, and contain the
  filter's columns and the markers 1 to \<open>n\<close> and no other identifier or marker; the three
  deletions delete with the same filter.
\<close>

theorem delete_count_statements:
  assumes "(d, lx) \<in> set sql_dialects" and "raw_text lx table" and "no_subquery f"
    and "raw_text lx (sel_to_sql sel)" and "\<forall>c. dc = Some c \<longrightarrow> raw_text lx c"
  shows "\<exists>s1 s2 s3 t1 t2 t3.
       dl_build_sql \<lparr>dl_filter = f, dl_select = sel\<rparr> table d = Some (s1, bound_values f)
     \<and> dm_build_sql \<lparr>dm_filter = f\<rparr> table d = Some (s2, bound_values f)
     \<and> dl_build_sql_count \<lparr>dl_filter = f, dl_select = sel\<rparr> table d = Some (s2, bound_values f)
     \<and> ct_build_sql \<lparr>ct_filter = f, ct_distinct = dc\<rparr> table d = Some (s3, bound_values f)
     \<and> lex_sql lx s1 = Some t1 \<and> lex_sql lx s2 = Some t2 \<and> lex_sql lx s3 = Some t3
     \<and> prefix s2 s1
     \<and> (\<forall>t \<in> {t1, t2, t3}. idents t = filter_columns f
          \<and> marks t = map (marker lx) [1..<Suc (length (bound_values f))])"
proof -
  note stmt = sql_dialects_statements [OF assms(1)] and lexable = sql_dialects_lexable [OF assms(1)]
  let ?ms = "map (marker lx) [1..<Suc (length (bound_values f))]"
  note lx = sql_lexable.yields_lex [OF lexable, of _ "filter_columns f" ?ms]
  obtain s1 where s1: "dl_build_sql \<lparr>dl_filter = f, dl_select = sel\<rparr> table d = Some (s1, bound_values f)"
    "sql_lexable.yields lx s1 (filter_columns f) ?ms"
    using sql_statements.dl_build_sql_renders [OF stmt, of table "\<lparr>dl_filter = f, dl_select = sel\<rparr>"] assms
    by auto
  obtain s2 where s2: "delete_from f table d = Some (s2, bound_values f)"
    "sql_lexable.yields lx s2 (filter_columns f) ?ms"
    using sql_statements.delete_from_renders [OF stmt assms(2,3)] by auto
  obtain s3 where s3: "ct_build_sql \<lparr>ct_filter = f, ct_distinct = dc\<rparr> table d = Some (s3, bound_values f)"
    "sql_lexable.yields lx s3 (filter_columns f) ?ms"
    using sql_statements.ct_build_sql_renders [OF stmt, of table "\<lparr>ct_filter = f, ct_distinct = dc\<rparr>"] assms
    by auto
  have "prefix s2 s1"
    using s1(1) s2(1) by (auto simp: dl_build_sql_def delete_from_def Let_def bind_eq_Some_conv prefix_def
        split: if_splits)
  with s1(1) s2(1) s3(1) lx [OF s1(2)] lx [OF s2(2)] lx [OF s3(2)] show ?thesis
    by (simp add: dm_build_sql_def dl_build_sql_count_def del: upt_Suc) blast
qed

theorem delete_count_statements_witness:
  "\<exists>s1 s2 s3 t1 t2 t3.
       dl_build_sql \<lparr>dl_filter = FEquals ''a'' (VBool True), dl_select = SelAll\<rparr> ''t'' sqlite
         = Some (s1, [VBool True :: unit filter_value])
     \<and> lex_sql sqlite_lexis s1 = Some t1 \<and> idents t1 = [''a''] \<and> marks t1 = [Some 1]"
  using delete_count_statements [of sqlite sqlite_lexis "''t''" "FEquals ''a'' (VBool True :: unit filter_value)"
      SelAll None]
  by (auto simp: sql_dialects_def sqlite_lexis_def sel_to_sql_def marker_def)

end
