(* ===== verification/Write_Statements.thy ===== *)
theory Write_Statements
  imports Write_Operations Read_Statements Filter_Builders
begin

text \<open>
  Correctness of the write operations: the numbering of the markers through \<^verbatim>\<open>SET\<close> list,
  \<^verbatim>\<open>WHERE\<close> clause and value groups, the order of the parameters, the shape of the row matrix of
  \<open>CreateManyOperation\<close>, and what a chain of \<open>where\<close> calls accumulates.
\<close>

subsection \<open>The \<^verbatim>\<open>SET\<close> list\<close>

fun wop_values :: "'j write_op \<Rightarrow> 'j filter_value list" where
  "wop_values (WSet v) = [v]"
| "wop_values (WIncrement v) = [v]"
| "wop_values (WDecrement v) = [v]"
| "wop_values (WMultiply v) = [v]"
| "wop_values (WDivide v) = [v]"
| "wop_values WUnset = []"

definition set_values :: "(string \<times> 'j write_op) list \<Rightarrow> 'j filter_value list" where
  "set_values us = concat (map (wop_values \<circ> snd) us)"

lemma set_values_simps [simp]:
  "set_values [] = []" "set_values (u # us) = wop_values (snd u) @ set_values us"
  by (simp_all add: set_values_def)

lemma set_parts_values:
  "set_parts d us idx params = Some (parts, idx', params') \<Longrightarrow>
   params' = params @ set_values us \<and> idx' = idx + length (set_values us) \<and> length parts = length us"
proof (induction d us idx params arbitrary: parts idx' params' rule: set_parts.induct)
  case (2 d col op us idx params)
  then show ?case by (cases op) (fastforce simp: bind_eq_Some_conv Let_def)+
qed simp

context sql_statements
begin

lemma raw_comma: "raw_text lx '', ''"
  by (rule raw_stmt) (simp add: stmt_chars_def)

lemma yields_join_Cons:
  assumes "yields s is ms" and "yields (join '', '' ss) is' ms'"
  shows "yields (join '', '' (s # ss)) (is @ (if ss = [] then [] else is')) (ms @ (if ss = [] then [] else ms'))"
proof (cases "ss = []")
  case False
  from yields_raw_append [OF raw_comma assms(2)]
  have "yields ('', '' @ join '', '' ss) is' ms'" .
  from yields_append [OF assms(1) this] False show ?thesis by (simp add: join_Cons)
qed (use assms(1) in simp)

lemma set_fragment_yields:
  assumes "raw_text lx col"
  shows "yields (fst (to_set_fragment op col (ph k))) [] (map (\<lambda>_. nm k) (wop_values op))"
proof -
  have "raw_text lx '' = ''" "raw_text lx '' + ''" "raw_text lx '' - ''" "raw_text lx '' * ''"
    "raw_text lx '' / ''" "raw_text lx '' = NULL''"
    by (rule raw_stmt, simp add: stmt_chars_def)+
  then have r: "raw_text lx (col @ '' = '')" "raw_text lx (col @ '' = '' @ col @ '' + '')"
    "raw_text lx (col @ '' = '' @ col @ '' - '')" "raw_text lx (col @ '' = '' @ col @ '' * '')"
    "raw_text lx (col @ '' = '' @ col @ '' / '')" "raw_text lx (col @ '' = NULL'')"
    using assms by simp_all
  show ?thesis
    by (cases op)
       (use r [THEN yields_raw_append, OF yields_mark [of k]] yields_raw [OF r(6)] in simp_all)
qed

lemma set_parts_renders:
  "list_all (raw_text lx \<circ> fst) us \<Longrightarrow>
   \<exists>parts. set_parts d us idx params
       = Some (parts, idx + length (set_values us), params @ set_values us)
     \<and> yields (join '', '' parts) [] (map nm [idx..<idx + length (set_values us)])"
proof (induction us arbitrary: idx params)
  case Nil
  then show ?case using yields_raw [of "[]"] by simp
next
  case (Cons u us)
  obtain col op where u: "u = (col, op)" by (cases u)
  let ?n = "length (wop_values op)"
  obtain parts where parts:
    "set_parts d us (idx + ?n) (params @ wop_values op)
      = Some (parts, idx + ?n + length (set_values us), params @ wop_values op @ set_values us)"
    "yields (join '', '' parts) [] (map nm [idx + ?n..<idx + ?n + length (set_values us)])"
    using Cons.IH [of "idx + ?n" "params @ wop_values op"] Cons.prems by auto
  have "length parts = length us" using set_parts_values [OF parts(1)] by simp
  then have nil: "parts = [] \<longleftrightarrow> us = []" by (metis length_0_conv)
  have f: "yields (fst (to_set_fragment op col (ph idx))) [] (map nm [idx..<idx + ?n])"
    using set_fragment_yields [of col op idx] Cons.prems u by (cases op) auto
  have "set_parts d (u # us) idx params
      = Some (fst (to_set_fragment op col (ph idx)) # parts, idx + length (set_values (u # us)),
          params @ set_values (u # us))"
    using parts(1) by (cases op) (simp_all add: u placeholder add.assoc)
  moreover have "map nm [idx..<idx + ?n] @ (if parts = [] then [] else
        map nm [idx + ?n..<idx + ?n + length (set_values us)])
      = map nm [idx..<idx + length (set_values (u # us))]"
    using upt_add_eq_append [of idx "idx + ?n" "length (set_values us)"] nil
    by (auto simp: u add.assoc simp flip: map_append)
  ultimately show ?case using yields_join_Cons [OF f parts(2)] by auto
qed


lemma update_sql_renders:
  assumes "raw_text lx table" and "list_all (raw_text lx \<circ> fst) us" and "no_subquery f"
    and "raw_text lx rt" "ends_filter rt"
  shows "\<exists>sql. update_sql f us table d = Some (sql, set_values us @ bound_values f)
     \<and> yields (sql @ rt) (filter_columns f)
         (map nm [1..<Suc (length (set_values us) + length (bound_values f))])"
proof -
  let ?k = "length (set_values us)"
  obtain parts where parts: "set_parts d us 1 [] = Some (parts, 1 + ?k, set_values us)"
    "yields (join '', '' parts) [] (map nm [1..<1 + ?k])"
    using set_parts_renders [OF assms(2), of 1 "[]"] by auto
  obtain w where w: "to_sql f ?k d = Some (w, bound_values f)"
    "yields ((if is_none f then [] else '' WHERE '' @ w) @ rt) (filter_columns f)
         (map nm [Suc ?k..<Suc (?k + length (bound_values f))])"
    using yields_where [OF assms(3-5)] by blast
  have none: "bound_values f = []" if "is_none f"
    using that by (cases f) (auto simp: is_none_def)
  have "raw_text lx ''UPDATE ''" "raw_text lx '' SET ''"
    by (rule raw_stmt, simp add: stmt_chars_def)+
  with assms(1) have h: "raw_text lx (''UPDATE '' @ table @ '' SET '')" by simp
  have "ends_filter ((if is_none f then [] else '' WHERE '' @ w) @ rt)"
    using assms(5) by simp
  note all = yields_raw_append [OF h yields_append [OF parts(2) w(2) this]]
  have "[1..<Suc (?k + length (bound_values f))]
      = [1..<1 + ?k] @ [Suc ?k..<Suc (?k + length (bound_values f))]"
    using upt_add_eq_append [of 1 "Suc ?k" "length (bound_values f)"] by simp
  then have "yields ((''UPDATE '' @ table @ '' SET '' @ join '', '' parts
        @ (if is_none f then [] else '' WHERE '' @ w)) @ rt) (filter_columns f)
      (map nm [1..<Suc (?k + length (bound_values f))])"
    using all by (simp only: map_append append_assoc append_Nil)
  then show ?thesis
    using parts(1) w(1) none by (auto simp: update_sql_def Let_def simp del: upt_Suc split: if_splits)
qed

lemma up_build_sql_renders:
  assumes "raw_text lx table" and "list_all (raw_text lx \<circ> fst) (up_updates op)"
    and "no_subquery (up_filter op)" and "raw_text lx (sel_to_sql (up_select op))"
  shows "\<exists>sql. up_build_sql op table d = Some (sql, set_values (up_updates op) @ bound_values (up_filter op))
     \<and> yields sql (filter_columns (up_filter op))
         (map nm [1..<Suc (length (set_values (up_updates op)) + length (bound_values (up_filter op)))])"
proof -
  obtain ret where ret: "returning_clause d (sel_to_sql (up_select op)) = Some ret"
    "raw_text lx ret" "ends_filter ret"
    using returning [OF assms(4)] by blast
  from update_sql_renders [OF assms(1-3) ret(2,3)] ret(1) show ?thesis
    by (auto simp: up_build_sql_def)
qed

lemma those_placeholders: "those (map (placeholder d) ns) = Some (map ph ns)"
  by (induction ns) (auto simp: placeholder)

lemma yields_group: "yields (''('' @ join '', '' (map ph ns) @ '')'') [] (map nm ns)"
proof -
  have "raw_text lx '')''" by (rule raw_stmt) (simp add: stmt_chars_def)
  then have "yields (join '', '' (map ph ns) @ '')'') [] (map nm ns)"
    by (intro yields_append_raw yields_marks raw_comma) auto
  from yields_text_append [OF _ this, of "''(''"] show ?thesis by (simp add: stmt_chars_def)
qed

lemma build_insert_sql_renders:
  assumes "raw_text lx table" and "list_all (raw_text lx) columns" and "raw_text lx (sel_to_sql sel)"
  shows "\<exists>sql. build_insert_sql columns vs sel table d = Some (sql, vs)
     \<and> yields sql [] (map nm [1..<length vs + 1])"
proof -
  obtain ret where ret: "returning_clause d (sel_to_sql sel) = Some ret" "raw_text lx ret" "ends_filter ret"
    using returning [OF assms(3)] by blast
  define h where "h = ''INSERT INTO '' @ table @ '' ('' @ join '', '' columns @ '')'' @ '' VALUES ''"
  have "raw_text lx ''INSERT INTO ''" "raw_text lx '' (''" "raw_text lx '')''" "raw_text lx '' VALUES ''"
    by (rule raw_stmt, simp add: stmt_chars_def)+
  with assms raw_comma have "raw_text lx h" by (auto simp: h_def raw_text_join)
  from yields_raw_append [OF this yields_append_raw [OF yields_group ret(2,3), of "[1..<length vs + 1]"]]
  show ?thesis using ret(1) by (simp add: build_insert_sql_def those_placeholders h_def)
qed

text \<open>The groups of a multi-row insert are numbered through.\<close>

lemma value_groups_renders:
  "\<exists>groups. value_groups d rows idx params = Some (groups, params @ concat rows)
     \<and> length groups = length rows
     \<and> yields (join '', '' groups) [] (map nm [idx..<idx + length (concat rows)])"
proof (induction rows arbitrary: idx params)
  case Nil
  then show ?case using yields_raw [of "[]"] by simp
next
  case (Cons row rows)
  obtain gs where gs: "value_groups d rows (idx + length row) (params @ row)
      = Some (gs, params @ row @ concat rows)" "length gs = length rows"
    "yields (join '', '' gs) [] (map nm [idx + length row..<idx + length row + length (concat rows)])"
    using Cons.IH [of "idx + length row" "params @ row"] by auto
  from gs(2) have nil: "gs = [] \<longleftrightarrow> rows = []" by (metis length_0_conv)
  have "map nm [idx..<idx + length row] @ (if gs = [] then [] else
        map nm [idx + length row..<idx + length row + length (concat rows)])
      = map nm [idx..<idx + length (concat (row # rows))]"
    using upt_add_eq_append [of idx "idx + length row" "length (concat rows)"] nil
    by (auto simp: add.assoc simp flip: map_append)
  with yields_join_Cons [OF yields_group gs(3), of "[idx..<idx + length row]"] gs(1,2) show ?case
    by (auto simp: those_placeholders)
qed

lemma cm_build_sql_renders:
  assumes "raw_text lx table" and "list_all (raw_text lx) (cm_columns op)"
  shows "\<exists>sql. cm_build_sql op table d = Some (sql, concat (cm_rows op))
     \<and> yields sql [] (map nm [1..<Suc (length (concat (cm_rows op)))])"
proof -
  obtain dn where dn: "(if cm_skip_duplicates op then upsert_do_nothing_clause d [] else Some []) = Some dn"
    using do_nothing by fastforce
  obtain gs where gs: "value_groups d (cm_rows op) 1 [] = Some (gs, concat (cm_rows op))"
    "yields (join '', '' gs) [] (map nm [1..<1 + length (concat (cm_rows op))])"
    using value_groups_renders [of "cm_rows op" 1 "[]"] by auto
  define h where "h = (if prefix '' ON DUPLICATE KEY'' dn then ''INSERT IGNORE INTO '' else ''INSERT INTO '')
     @ table @ '' ('' @ join '', '' (cm_columns op) @ '')'' @ '' VALUES ''"
  define rt where "rt = (if cm_skip_duplicates op \<and> \<not> prefix '' ON DUPLICATE KEY'' dn \<and> dn \<noteq> []
     then '' ON CONFLICT DO NOTHING'' else [])"
  have "raw_text lx ''INSERT INTO ''" "raw_text lx ''INSERT IGNORE INTO ''" "raw_text lx '' (''"
    "raw_text lx '')''" "raw_text lx '' VALUES ''" "raw_text lx '' ON CONFLICT DO NOTHING''"
    by (rule raw_stmt, simp add: stmt_chars_def)+
  with assms raw_comma have "raw_text lx h" "raw_text lx rt" "ends_filter rt"
    by (auto simp: h_def rt_def raw_text_join)
  from yields_raw_append [OF this(1) yields_append_raw [OF gs(2) this(2,3)]]
  show ?thesis using dn gs(1)
    by (auto simp: cm_build_sql_def Let_def h_def rt_def simp del: upt_Suc split: if_splits)
qed

end

subsection \<open>Rows and filters accumulated by the builders\<close>

lemma add_columns_props:
  "distinct cols \<Longrightarrow> distinct (add_columns cols row)
     \<and> set (add_columns cols row) = set cols \<union> set (map fst row) \<and> prefix cols (add_columns cols row)"
proof (induction cols row rule: add_columns.induct)
  case (2 cols col v row)
  show ?case
  proof (cases "col \<in> set cols")
    case False
    with 2 have "prefix (cols @ [col]) (add_columns (cols @ [col]) row)" by simp
    with False 2 show ?thesis by (auto dest: append_prefixD)
  qed (use 2 in auto)
qed simp

lemma add_all_columns_props:
  "distinct cols \<Longrightarrow> distinct (foldl add_columns cols rows)
     \<and> set (foldl add_columns cols rows) = set cols \<union> (\<Union>row \<in> set rows. set (map fst row))
     \<and> prefix cols (foldl add_columns cols rows)"
proof (induction rows arbitrary: cols)
  case (Cons row rows)
  then show ?case
    using add_columns_props [OF Cons.prems, of row] Cons.IH [of "add_columns cols row"]
    by (auto intro: prefix_order.trans)
qed simp

lemma length_layout_row [simp]: "length (layout_row cols row) = length cols"
  by (simp add: layout_row_def)

lemma and_then_values: "bound_values (and_then f g) = bound_values f @ bound_values g"
  by (cases f) (auto simp: and_then_def is_none_def bound_all_def split: filter.splits)

lemma and_then_columns: "filter_columns (and_then f g) = filter_columns f @ filter_columns g"
  by (cases f) (auto simp: and_then_def is_none_def split: filter.splits)

lemma fold_and_then_values:
  "bound_values (foldl and_then f fs) = bound_values f @ concat (map bound_values fs)"
  "filter_columns (foldl and_then f fs) = filter_columns f @ concat (map filter_columns fs)"
  by (induction fs arbitrary: f) (auto simp: and_then_values and_then_columns)

lemma where_folds:
  "fm_filter (foldl fm_where q fs) = foldl and_then (fm_filter q) fs"
  "ct_filter (foldl ct_where c fs) = foldl and_then (ct_filter c) fs"
  "dl_filter (foldl dl_where e fs) = foldl and_then (dl_filter e) fs"
  "dm_filter (foldl dm_where m fs) = foldl and_then (dm_filter m) fs"
  "up_filter (foldl up_where u fs) = foldl and_then (up_filter u) fs"
  "um_filter (foldl um_where v fs) = foldl and_then (um_filter v) fs"
  by (induction fs arbitrary: q c e m u v)
     (auto simp: fm_where_def ct_where_def dl_where_def dm_where_def up_where_def um_where_def)

lemma feval_fold_and_then: "feval \<rho> (foldl and_then f fs) = foldl tv_and (feval \<rho> f) (map (feval \<rho>) fs)"
proof (induction fs arbitrary: f)
  case (Cons g gs)
  have "feval \<rho> (and_then f g) = tv_and (feval \<rho> f) (feval \<rho> g)"
    by (cases f) (auto simp: and_then_def)
  with Cons show ?case by simp
qed simp

lemma foldl_tv_and: "foldl tv_and x ys = tv_and x (tv_all ys)"
  by (induction ys arbitrary: x) (auto simp: tv_and_assoc)

subsection \<open>Properties\<close>

text \<open>
  C8: For a filter without a raw scalar subquery, and a table, assigned columns and a selection
  whose texts (which are spliced unquoted) hold no quote and no parameter marker of the dialect,
  \<open>UpdateOperation::build_sql\<close> and \<open>UpdateManyOperation::build_sql\<close> do not panic on the SQL
  dialects: the parameters are the assigned values and then the filter's, the markers are
  numbered 1 to \<open>n\<close> through both clauses (an \<open>unset\<close> takes no number), and the only quoted
  identifiers are the filter's columns.
\<close>

theorem update_statement:
  assumes "(d, lx) \<in> set sql_dialects" and "raw_text lx table" and "list_all (raw_text lx \<circ> fst) us"
    and "no_subquery f" and "raw_text lx (sel_to_sql sel)"
    and "vs = set_values us @ bound_values f"
  shows "\<exists>s1 s2 t1 t2.
       up_build_sql \<lparr>up_filter = f, up_updates = us, up_select = sel\<rparr> table d = Some (s1, vs)
     \<and> um_build_sql \<lparr>um_filter = f, um_updates = us\<rparr> table d = Some (s2, vs)
     \<and> lex_sql lx s1 = Some t1 \<and> lex_sql lx s2 = Some t2 \<and> prefix s2 s1
     \<and> (\<forall>t \<in> {t1, t2}. idents t = filter_columns f \<and> marks t = map (marker lx) [1..<Suc (length vs)])"
proof -
  note stmt = sql_dialects_statements [OF assms(1)] and lexable = sql_dialects_lexable [OF assms(1)]
  let ?ms = "map (marker lx) [1..<Suc (length vs)]"
  note lx = sql_lexable.yields_lex [OF lexable, of _ "filter_columns f" ?ms]
  obtain s1 where s1:
    "up_build_sql \<lparr>up_filter = f, up_updates = us, up_select = sel\<rparr> table d = Some (s1, vs)"
    "sql_lexable.yields lx s1 (filter_columns f) ?ms"
    using sql_statements.up_build_sql_renders [OF stmt, of table "\<lparr>up_filter = f, up_updates = us, up_select = sel\<rparr>"]
      assms by auto
  obtain s2 where s2: "update_sql f us table d = Some (s2, vs)"
    "sql_lexable.yields lx s2 (filter_columns f) ?ms"
    using sql_statements.update_sql_renders [OF stmt assms(2-4), of "[]"] assms(6) by auto
  have "prefix s2 s1"
    using s1(1) s2(1) by (auto simp: up_build_sql_def bind_eq_Some_conv)
  with s1(1) s2(1) lx [OF s1(2)] lx [OF s2(2)] show ?thesis
    by (simp add: um_build_sql_def del: upt_Suc) blast
qed

theorem update_statement_witness:
  "\<exists>s1 s2 t1 t2.
       up_build_sql \<lparr>up_filter = FEquals ''id'' (VInt 9), up_updates =
         [(''a'', WSet (VBool True)), (''b'', WUnset), (''c'', WIncrement (VInt 1))], up_select = SelAll\<rparr>
         ''t'' postgres = Some (s1, [VBool True, VInt 1, VInt 9 :: unit filter_value])
     \<and> lex_sql postgres_lexis s1 = Some t1 \<and> idents t1 = [''id''] \<and> marks t1 = [Some 1, Some 2, Some 3]"
  using update_statement [of postgres postgres_lexis "''t''"
      "[(''a'', WSet (VBool True)), (''b'', WUnset), (''c'', WIncrement (VInt 1 :: unit filter_value))]"
      "FEquals ''id'' (VInt 9)" SelAll "[VBool True, VInt 1, VInt 9]"]
  by (auto simp: sql_dialects_def postgres_lexis_def sel_to_sql_def marker_def numeral_eq_Suc)

text \<open>
  C10: \<open>CreateOperation::build_sql\<close> and \<open>CreateManyOperation::build_sql\<close> never panic on the SQL
  dialects; the parameters are the values in row order and the markers are numbered through all
  the rows; no value reaches the text.
\<close>

theorem insert_statements:
  assumes "(d, lx) \<in> set sql_dialects" and "raw_text lx table" and "list_all (raw_text lx) cols"
    and "raw_text lx (sel_to_sql sel)"
  shows "\<exists>s1 s2 t1 t2.
       cr_build_sql \<lparr>cr_columns = cols, cr_values = vs, cr_select = sel\<rparr> table d = Some (s1, vs)
     \<and> lex_sql lx s1 = Some t1 \<and> idents t1 = [] \<and> marks t1 = map (marker lx) [1..<Suc (length vs)]
     \<and> cm_build_sql \<lparr>cm_columns = cols, cm_rows = rows, cm_skip_duplicates = skip\<rparr> table d
         = Some (s2, concat rows)
     \<and> lex_sql lx s2 = Some t2 \<and> idents t2 = []
     \<and> marks t2 = map (marker lx) [1..<Suc (length (concat rows))]"
proof -
  note stmt = sql_dialects_statements [OF assms(1)] and lexable = sql_dialects_lexable [OF assms(1)]
  note lx = sql_lexable.yields_lex [OF lexable]
  obtain s1 where s1: "cr_build_sql \<lparr>cr_columns = cols, cr_values = vs, cr_select = sel\<rparr> table d = Some (s1, vs)"
    "sql_lexable.yields lx s1 [] (map (marker lx) [1..<Suc (length vs)])"
    using sql_statements.build_insert_sql_renders [OF stmt assms(2-4), of vs]
    by (auto simp: cr_build_sql_def simp del: upt_Suc)
  obtain s2 where s2: "cm_build_sql \<lparr>cm_columns = cols, cm_rows = rows, cm_skip_duplicates = skip\<rparr> table d
      = Some (s2, concat rows)"
    "sql_lexable.yields lx s2 [] (map (marker lx) [1..<Suc (length (concat rows))])"
    using sql_statements.cm_build_sql_renders [OF stmt assms(2),
        of "\<lparr>cm_columns = cols, cm_rows = rows, cm_skip_duplicates = skip\<rparr>"] assms(3)
    by (auto simp del: upt_Suc)
  from s1(1) s2(1) lx [OF s1(2)] lx [OF s2(2)] show ?thesis by blast
qed

theorem insert_statements_witness:
  "\<exists>s1 s2 t1 t2.
       cr_build_sql \<lparr>cr_columns = [''a''], cr_values = [VNull], cr_select = SelAll\<rparr> ''t'' mysql
         = Some (s1, [VNull :: unit filter_value])
     \<and> lex_sql mysql_lexis s1 = Some t1 \<and> marks t1 = [None]
     \<and> cm_build_sql \<lparr>cm_columns = [''a''], cm_rows = [[VNull], [VInt 1 :: unit filter_value]],
         cm_skip_duplicates = True\<rparr> ''t'' mysql = Some (s2, [VNull, VInt 1])
     \<and> lex_sql mysql_lexis s2 = Some t2 \<and> marks t2 = [None, None]"
  using insert_statements [of mysql mysql_lexis "''t''" "[''a'']" SelAll "[VNull :: unit filter_value]"
      "[[VNull], [VInt 1 :: unit filter_value]]" True]
  by (auto simp: sql_dialects_def mysql_lexis_def sel_to_sql_def marker_def)

text \<open>
  \<open>with_create_inputs\<close> lays every payload out under the right columns: the column list only
  grows (no column is duplicated, each payload's columns are present), every new row has one
  value per column, the payload's first value for it or \<^verbatim>\<open>NULL\<close>, and the earlier rows are
  kept as they are.
\<close>

theorem create_inputs_layout:
  assumes "distinct (cm_columns op)" and "op' = cm_with_create_inputs op lowered"
  shows "distinct (cm_columns op') \<and> prefix (cm_columns op) (cm_columns op')
     \<and> set (cm_columns op') = set (cm_columns op) \<union> (\<Union>row \<in> set lowered. set (map fst row))
     \<and> (\<exists>new. cm_rows op' = cm_rows op @ new \<and>
          list_all2 (\<lambda>row vs. length vs = length (cm_columns op') \<and>
            vs = map (\<lambda>c. if c \<in> set (map fst row) then the (map_of row c) else VNull) (cm_columns op'))
          lowered new)"
proof (cases "lowered = []")
  case False
  let ?cols = "foldl add_columns (cm_columns op) lowered"
  have op': "op' = op\<lparr>cm_columns := ?cols, cm_rows := cm_rows op @ map (layout_row ?cols) lowered\<rparr>"
    using False assms(2) by (simp add: cm_with_create_inputs_def Let_def)
  have "layout_row cs row = map (\<lambda>c. if c \<in> set (map fst row) then the (map_of row c) else VNull) cs"
    for cs and row :: "(string \<times> 'a filter_value) list"
    unfolding layout_row_def by (rule map_cong [OF refl]) (auto simp: map_of_eq_None_iff split: option.splits dest: map_of_SomeD intro: rev_image_eqI)
  then show ?thesis
    using add_all_columns_props [OF assms(1), of lowered] by (auto simp: op' list_all2_map2 list_all2_same)
qed (use assms in \<open>auto simp: cm_with_create_inputs_def\<close>)

theorem create_inputs_layout_witness:
  "\<exists>new. cm_rows (cm_with_create_inputs cm_new
      [[(''a'', VInt 1)], [(''b'', VBool True), (''a'', VNull :: unit filter_value)]]) = cm_rows cm_new @ new
    \<and> length new = 2"
proof -
  let ?rows = "[[(''a'', VInt 1)], [(''b'', VBool True), (''a'', VNull :: unit filter_value)]]"
  have "distinct (cm_columns (cm_new :: unit create_many))" by (simp add: cm_new_def)
  from create_inputs_layout [OF this refl, of ?rows] show ?thesis
    by (elim conjE exE) (drule list_all2_lengthD, simp)
qed

definition rectangular :: "'j create_many \<Rightarrow> bool" where
  "rectangular op = list_all (\<lambda>r. length r = length (cm_columns op)) (cm_rows op)"

text \<open>
  A second \<open>with_create_inputs\<close> call on rows that fill the columns keeps the matrix rectangular
  exactly when it brings no new column: the earlier rows are not padded, and then the
  statement has value groups shorter than its column list.
\<close>

theorem create_inputs_ragged:
  assumes "distinct (cm_columns op)" and "rectangular op" and "cm_rows op \<noteq> []"
  shows "rectangular (cm_with_create_inputs op lowered)
     \<longleftrightarrow> (\<Union>row \<in> set lowered. set (map fst row)) \<subseteq> set (cm_columns op)"
proof -
  define cols where "cols = foldl add_columns (cm_columns op) lowered"
  note cols = add_all_columns_props [OF assms(1), of lowered, folded cols_def]
  have "rectangular (cm_with_create_inputs op lowered)
      \<longleftrightarrow> lowered = [] \<or> list_all (\<lambda>r. length r = length cols) (cm_rows op)"
    using assms(2) by (auto simp: rectangular_def cm_with_create_inputs_def Let_def cols_def list_all_iff)
  also have "\<dots> \<longleftrightarrow> length (cm_columns op) = length cols"
    using assms(2,3) by (cases "cm_rows op") (auto simp: rectangular_def list_all_iff cols_def)
  also have "\<dots> \<longleftrightarrow> set cols \<subseteq> set (cm_columns op)"
    using cols assms(1) by (metis Un_upper1 card_subset_eq distinct_card finite_set order_antisym order_refl)
  also have "\<dots> \<longleftrightarrow> (\<Union>row \<in> set lowered. set (map fst row)) \<subseteq> set (cm_columns op)"
    using cols by auto
  finally show ?thesis .
qed

theorem create_inputs_ragged_witness:
  "\<not> rectangular (cm_with_create_inputs (cm_with_create_inputs cm_new [[(''a'', VInt 1)]])
      [[(''b'', VBool True :: unit filter_value)]])"
  using create_inputs_ragged [of "cm_with_create_inputs cm_new [[(''a'', VInt 1 :: unit filter_value)]]"
      "[[(''b'', VBool True)]]"]
  by (simp add: cm_with_create_inputs_def cm_new_def rectangular_def layout_row_def)

text \<open>
  However many \<open>where\<close> calls an operation receives, its filter means the conjunction of all of
  them, and its columns and values are theirs in call order, on all six operations.
\<close>

theorem where_chain:
  "list_all (\<lambda>g. feval \<rho> g = tv_all (map (feval \<rho>) fs)
       \<and> bound_values g = concat (map bound_values fs)
       \<and> filter_columns g = concat (map filter_columns fs))
     [fm_filter (foldl fm_where fm_new fs), ct_filter (foldl ct_where ct_new fs),
      dl_filter (foldl dl_where dl_new fs), dm_filter (foldl dm_where dm_new fs),
      up_filter (foldl up_where up_new fs), um_filter (foldl um_where um_new fs)]"
  by (simp add: where_folds feval_fold_and_then foldl_tv_and fold_and_then_values fm_new_def ct_new_def
      dl_new_def dm_new_def up_new_def um_new_def)

end
