(* ===== verification/Hash_Maps.thy ===== *)
theory Hash_Maps
  imports Prax_Prelude "HOL-Library.AList"
begin

text \<open>
  Rust's \<^verbatim>\<open>HashMap\<close>: an association list with distinct keys, whose order stands for the
  unspecified iteration order.  \<^verbatim>\<open>get\<close> is \<^const>\<open>map_of\<close>, \<^verbatim>\<open>insert\<close> is
  \<^const>\<open>AList.update\<close>, \<^verbatim>\<open>remove\<close> is \<^const>\<open>AList.delete\<close>; the functions below are the
  \<^verbatim>\<open>entry\<close> API and iteration with \<^verbatim>\<open>find_map\<close>.
\<close>

type_synonym ('k, 'v) hash_map = "('k \<times> 'v) list"

definition keys_distinct :: "('k, 'v) hash_map \<Rightarrow> bool" where
  "keys_distinct m = distinct (map fst m)"

text \<open>\<^verbatim>\<open>*map.entry(k).or_insert_with(|| v) = f(..)\<close>: modify the entry, created if absent.\<close>

fun entry_modify :: "'k \<Rightarrow> 'v \<Rightarrow> ('v \<Rightarrow> 'v) \<Rightarrow> ('k, 'v) hash_map \<Rightarrow> ('k, 'v) hash_map" where
  "entry_modify k v f [] = [(k, f v)]"
| "entry_modify k v f ((k', v') # m) =
     (if k' = k then (k', f v') # m else (k', v') # entry_modify k v f m)"

text \<open>\<^verbatim>\<open>map.entry(k).or_insert(v)\<close> alone.\<close>

definition entry_or_insert :: "'k \<Rightarrow> 'v \<Rightarrow> ('k, 'v) hash_map \<Rightarrow> ('k, 'v) hash_map" where
  "entry_or_insert k v m = entry_modify k v id m"

fun find_map :: "('a \<Rightarrow> 'b option) \<Rightarrow> 'a list \<Rightarrow> 'b option" where
  "find_map f [] = None"
| "find_map f (x # xs) = (case f x of Some y \<Rightarrow> Some y | None \<Rightarrow> find_map f xs)"

named_theorems hash_map_simps \<open>lookups in updated hash maps\<close>

lemma map_of_entry_modify [hash_map_simps]:
  "map_of (entry_modify k v f m) = (map_of m)(k \<mapsto> f (case map_of m k of Some v' \<Rightarrow> v' | None \<Rightarrow> v))"
  by (induction m) (auto simp: fun_eq_iff)

lemma keys_entry_modify:
  "map fst (entry_modify k v f m) = (if k \<in> set (map fst m) then map fst m else map fst m @ [k])"
proof (induction m)
  case (Cons p m)
  then show ?case by (cases p) (auto simp: image_iff split: if_splits)
qed simp

lemma keys_distinct_entry_modify [simp]: "keys_distinct m \<Longrightarrow> keys_distinct (entry_modify k v f m)"
  by (simp add: keys_distinct_def keys_entry_modify)

lemma keys_distinct_update [simp]: "keys_distinct m \<Longrightarrow> keys_distinct (AList.update k v m)"
  by (simp add: keys_distinct_def distinct_update)

lemma keys_distinct_delete [simp]: "keys_distinct m \<Longrightarrow> keys_distinct (AList.delete k m)"
  by (simp add: keys_distinct_def distinct_delete)

lemma keys_distinct_Nil [simp]: "keys_distinct []"
  by (simp add: keys_distinct_def)

lemmas hash_map_lookup [hash_map_simps] = update_conv' delete_conv'

lemma find_snoc:
  "find P (xs @ [x]) = (case find P xs of Some y \<Rightarrow> Some y | None \<Rightarrow> if P x then Some x else None)"
  by (induction xs) auto

lemma map_of_keys: "map_of m k = None \<longleftrightarrow> k \<notin> set (map fst m)"
  by (simp add: map_of_eq_None_iff)

lemma set_update_subset: "set (AList.update k v m) \<subseteq> insert (k, v) (set m)"
  by (induction m) auto

lemma update_new: "k \<notin> fst ` set m \<Longrightarrow> AList.update k v m = m @ [(k, v)]"
  by (induction m) auto

lemma length_update_hm:
  "length (AList.update k v m) = (if map_of m k = None then Suc (length m) else length m)"
  by (induction m) auto

lemma length_delete_hm:
  "keys_distinct m \<Longrightarrow> length (AList.delete k m) = (if map_of m k = None then length m else length m - 1)"
proof (induction m)
  case (Cons p m)
  then have "map_of m (fst p) = None" "length (AList.delete k m) = (if map_of m k = None then length m else length m - 1)"
    by (auto simp: keys_distinct_def map_of_eq_None_iff)
  moreover have "map_of m k \<noteq> None \<Longrightarrow> length m > 0" by (cases m) auto
  ultimately show ?case by (cases p) (auto simp: AList.delete_eq)
qed simp

lemma keys_distinct_filter [simp]: "keys_distinct m \<Longrightarrow> keys_distinct (List.filter P m)"
  by (simp add: keys_distinct_def distinct_map_filter)

lemma map_of_filter_hm:
  "keys_distinct m \<Longrightarrow> map_of (List.filter P m) k
     = (case map_of m k of Some v \<Rightarrow> if P (k, v) then Some v else None | None \<Rightarrow> None)"
  by (induction m) (auto simp: keys_distinct_def map_of_eq_None_iff image_iff split: option.splits)

lemma find_map_Some:
  "find_map f xs = Some y \<Longrightarrow> \<exists>x \<in> set xs. f x = Some y"
  by (induction xs) (auto split: option.splits)

lemma find_map_None: "find_map f xs = None \<longleftrightarrow> (\<forall>x \<in> set xs. f x = None)"
  by (induction xs) (auto split: option.splits)

subsection \<open>The interface of a keyed store\<close>

text \<open>
  A store of values under a key they carry: what its clients use of a configuration, a registry
  or a cache.  \<open>inv\<close> is the invariant the provider keeps.
\<close>

locale keyed_store =
  fixes inv :: "'s \<Rightarrow> bool" and key :: "'v \<Rightarrow> 'k"
    and put :: "'s \<Rightarrow> 'v \<Rightarrow> 's" and del :: "'s \<Rightarrow> 'k \<Rightarrow> 's" and get :: "'s \<Rightarrow> 'k \<Rightarrow> 'v option"
  assumes inv_put: "inv s \<Longrightarrow> inv (put s v)" and inv_del: "inv s \<Longrightarrow> inv (del s k)"
    and get_put: "inv s \<Longrightarrow> get (put s v) k = (if k = key v then Some v else get s k)"
    and get_del: "inv s \<Longrightarrow> get (del s k') k = (if k = k' then None else get s k)"
begin

lemma inv_puts: "inv s \<Longrightarrow> inv (foldl put s vs)"
  by (induction vs arbitrary: s) (simp_all add: inv_put)

text \<open>The last value put under a key is the one found.\<close>

lemma get_puts:
  "inv s \<Longrightarrow> get (foldl put s vs) k
     = (case find (\<lambda>v. key v = k) (rev vs) of Some v \<Rightarrow> Some v | None \<Rightarrow> get s k)"
  by (induction vs rule: rev_induct) (auto simp: get_put inv_puts split: option.splits)

lemma put_del_commute:
  "inv s \<Longrightarrow> key v \<noteq> k \<Longrightarrow> get (put (del s k) v) = get (del (put s v) k)"
  by (rule ext) (simp add: get_put get_del inv_put inv_del)

end

subsection \<open>The interface of a store that may forget\<close>

text \<open>
  What a cache promises: a key just written is found, a removed key is not, and every other key
  is found unchanged or forgotten.  The client's view is the map without forgetting.
\<close>

datatype ('k, 'v) store_op = Write 'k 'v | Remove 'k

fun model_op :: "('k \<rightharpoonup> 'v) \<Rightarrow> ('k, 'v) store_op \<Rightarrow> ('k \<rightharpoonup> 'v)" where
  "model_op m (Write k v) = m(k \<mapsto> v)"
| "model_op m (Remove k) = m(k := None)"

locale lossy_store =
  fixes inv :: "'s \<Rightarrow> bool"
    and get :: "'s \<Rightarrow> 'k \<Rightarrow> 'v option" and put :: "'s \<Rightarrow> 'k \<Rightarrow> 'v \<Rightarrow> 's" and del :: "'s \<Rightarrow> 'k \<Rightarrow> 's"
  assumes inv_put: "inv s \<Longrightarrow> inv (put s k v)" and inv_del: "inv s \<Longrightarrow> inv (del s k)"
    and get_put: "inv s \<Longrightarrow> get (put s k v) k = Some v"
    and get_put_other: "inv s \<Longrightarrow> k' \<noteq> k \<Longrightarrow> get (put s k v) k' \<noteq> None \<Longrightarrow> get (put s k v) k' = get s k'"
    and get_del: "inv s \<Longrightarrow> get (del s k) k' = (if k' = k then None else get s k')"
begin

fun run_op :: "'s \<Rightarrow> ('k, 'v) store_op \<Rightarrow> 's" where
  "run_op s (Write k v) = put s k v"
| "run_op s (Remove k) = del s k"

lemma inv_run_op: "inv s \<Longrightarrow> inv (run_op s x)"
  by (cases x) (simp_all add: inv_put inv_del)

lemma inv_run: "inv s \<Longrightarrow> inv (foldl run_op s xs)"
  by (induction xs arbitrary: s) (simp_all add: inv_run_op)

lemma run_op_le:
  assumes "inv s" and "get s \<subseteq>\<^sub>m m"
  shows "get (run_op s x) \<subseteq>\<^sub>m model_op m x"
proof (cases x)
  case (Write k v)
  have "get (put s k v) k' = (m(k \<mapsto> v)) k'" if "k' \<in> dom (get (put s k v))" for k'
  proof (cases "k' = k")
    case True
    then show ?thesis using get_put [OF assms(1)] by simp
  next
    case False
    with that have "get (put s k v) k' = get s k'" "k' \<in> dom (get s)"
      using get_put_other [OF assms(1) False, of v] by (auto simp: dom_def)
    with False assms(2) show ?thesis by (auto simp: map_le_def)
  qed
  with Write show ?thesis by (simp add: map_le_def)
next
  case (Remove k)
  with assms show ?thesis by (auto simp: map_le_def get_del dom_def split: if_splits)
qed

text \<open>A store that may forget never answers differently from the map of all writes.\<close>

lemma run_le: "inv s \<Longrightarrow> get s \<subseteq>\<^sub>m m \<Longrightarrow> get (foldl run_op s xs) \<subseteq>\<^sub>m foldl model_op m xs"
  by (induction xs arbitrary: s m) (simp_all add: run_op_le inv_run_op)

lemma run_found:
  "inv s \<Longrightarrow> get s \<subseteq>\<^sub>m m \<Longrightarrow> get (foldl run_op s xs) k = Some v \<Longrightarrow> foldl model_op m xs k = Some v"
  using run_le [of s m xs] by (metis domI map_le_def)

end

end
