(* ===== verification/Migration_Events.thy ===== *)
theory Migration_Events
  imports Hash_Maps "HOL-Library.Multiset"
begin

text \<open>
  The event-sourced migration log of \<^verbatim>\<open>prax-migrate\<close>: events (\<^verbatim>\<open>event.rs\<close>), the state
  replayed from them (\<^verbatim>\<open>state.rs\<close>) and the in-memory event store (\<^verbatim>\<open>event_store.rs\<close>).
  \<^verbatim>\<open>Utc::now()\<close> is an argument \<open>now\<close> of the operation that calls it; the two mutexes of the
  store make its two critical sections the atomic steps of the interleaving model.
\<close>

type_synonym timestamp = int

subsection \<open>Events\<close>

datatype event_type = Applied | RolledBack | Failed | Resolved

definition event_as_str :: "event_type \<Rightarrow> string" where
  "event_as_str t =
     (case t of Applied \<Rightarrow> ''applied'' | RolledBack \<Rightarrow> ''rolled_back'' | Failed \<Rightarrow> ''failed''
      | Resolved \<Rightarrow> ''resolved'')"

text \<open>The crate's errors; the payload of an I/O error is abstracted to its text.\<close>

datatype migration_error =
    IoError string
  | Database string
  | SchemaError string
  | InvalidMigration string
  | ChecksumMismatch string string string
  | AlreadyApplied string
  | NotFound string
  | DataLoss string
  | LockFailed string
  | NoChanges
  | RollbackFailed string
  | ShadowDatabaseError string
  | ExecutionUnavailable string
  | NotImplemented string
  | ResolutionFile string
  | ResolutionConflict string
  | MigrationConflict string string
  | BootstrapFailed string
  | NoMigrationsToRollback
  | ParentEventNotFound
  | MigrationFileNotFound string
  | NoDownMigration string
  | OtherError string

definition is_recoverable :: "migration_error \<Rightarrow> bool" where
  "is_recoverable e =
     (case e of LockFailed _ \<Rightarrow> True | AlreadyApplied _ \<Rightarrow> True | NoChanges \<Rightarrow> True | _ \<Rightarrow> False)"

definition event_from_str :: "string \<Rightarrow> migration_error + event_type" where
  "event_from_str s =
     (if s = ''applied'' then Inr Applied
      else if s = ''rolled_back'' then Inr RolledBack
      else if s = ''failed'' then Inr Failed
      else if s = ''resolved'' then Inr Resolved
      else Inl (InvalidMigration (''Unknown event type: '' @ s)))"

datatype event_data =
    DApplied (da_checksum: string) (da_duration: i64) "string option" "string option" bool
  | DRolledBack string i64 "string option" "string option" (dr_parent: i64) "string option"
  | DFailed string "string option" "string option"
  | DResolved string "string option" "string option" string "string option"

record migration_event =
  ev_id :: i64
  ev_migration :: string
  ev_type :: event_type
  ev_data :: event_data
  ev_created :: timestamp

subsection \<open>The replayed state\<close>

record migration_status =
  ms_migration :: string
  ms_checksum :: string
  ms_applied :: bool
  ms_last_applied :: "timestamp option"
  ms_last_rolled_back :: "timestamp option"
  ms_apply_count :: u32
  ms_rollback_count :: u32

definition status_new :: "string \<Rightarrow> migration_status" where
  "status_new m = \<lparr>ms_migration = m, ms_checksum = [], ms_applied = False, ms_last_applied = None,
     ms_last_rolled_back = None, ms_apply_count = 0, ms_rollback_count = 0\<rparr>"

type_synonym migration_state = "(string, migration_status) hash_map"

text \<open>The body of the loop of \<open>from_events\<close>: the effect of one event on its entry.\<close>

definition replay_event :: "migration_event \<Rightarrow> migration_status \<Rightarrow> migration_status" where
  "replay_event e s =
     (case ev_type e of
        Applied \<Rightarrow>
          (let s = s\<lparr>ms_applied := True, ms_last_applied := Some (ev_created e),
                 ms_apply_count := ms_apply_count s + 1\<rparr>
           in case ev_data e of DApplied checksum _ _ _ _ \<Rightarrow> s\<lparr>ms_checksum := checksum\<rparr> | _ \<Rightarrow> s)
      | RolledBack \<Rightarrow>
          s\<lparr>ms_applied := False, ms_last_rolled_back := Some (ev_created e),
            ms_rollback_count := ms_rollback_count s + 1\<rparr>
      | Failed \<Rightarrow> s
      | Resolved \<Rightarrow>
          (case ev_data e of DResolved _ _ (Some checksum) _ _ \<Rightarrow> s\<lparr>ms_checksum := checksum\<rparr> | _ \<Rightarrow> s))"

definition from_events :: "migration_event list \<Rightarrow> migration_state" where
  "from_events evs =
     foldl (\<lambda>st e. entry_modify (ev_migration e) (status_new (ev_migration e)) (replay_event e) st) [] evs"

definition state_is_applied :: "migration_state \<Rightarrow> string \<Rightarrow> bool" where
  "state_is_applied st m = (case map_of st m of Some s \<Rightarrow> ms_applied s | None \<Rightarrow> False)"
definition get_status :: "migration_state \<Rightarrow> string \<Rightarrow> migration_status option" where
  "get_status st m = map_of st m"
definition state_get_applied :: "migration_state \<Rightarrow> migration_status list" where
  "state_get_applied st = List.filter ms_applied (map snd st)"

subsection \<open>The in-memory event store\<close>

record event_store =
  es_events :: "migration_event list"
  es_next_id :: i64

definition store_new :: event_store where
  "store_new = \<lparr>es_events = [], es_next_id = 1\<rparr>"

text \<open>The two critical sections of \<open>append_event\<close>: taking an id, pushing the event.\<close>

definition alloc_id :: "event_store \<Rightarrow> i64 \<times> event_store" where
  "alloc_id st = (es_next_id st, st\<lparr>es_next_id := es_next_id st + 1\<rparr>)"
definition push_event :: "event_store \<Rightarrow> migration_event \<Rightarrow> event_store" where
  "push_event st e = st\<lparr>es_events := es_events st @ [e]\<rparr>"

definition append_event ::
  "event_store \<Rightarrow> string \<Rightarrow> event_type \<Rightarrow> event_data \<Rightarrow> timestamp \<Rightarrow> i64 \<times> event_store" where
  "append_event st m t d now =
     (let (i, st) = alloc_id st;
          e = \<lparr>ev_id = i, ev_migration = m, ev_type = t, ev_data = d, ev_created = now\<rparr>
      in (i, push_event st e))"

definition get_events :: "event_store \<Rightarrow> string \<Rightarrow> migration_event list" where
  "get_events st m = List.filter (\<lambda>e. ev_migration e = m) (es_events st)"
definition get_all_events :: "event_store \<Rightarrow> migration_event list" where
  "get_all_events st = es_events st"
definition get_events_by_type :: "event_store \<Rightarrow> event_type \<Rightarrow> migration_event list" where
  "get_events_by_type st t = List.filter (\<lambda>e. ev_type e = t) (es_events st)"
definition get_events_since :: "event_store \<Rightarrow> timestamp \<Rightarrow> migration_event list" where
  "get_events_since st since = List.filter (\<lambda>e. ev_created e \<ge> since) (es_events st)"

subsection \<open>What a replayed status says\<close>

text \<open>The specification reads the history of one migration from its end.\<close>

definition history_of :: "string \<Rightarrow> migration_event list \<Rightarrow> migration_event list" where
  "history_of m evs = List.filter (\<lambda>e. ev_migration e = m) evs"

definition last_such :: "(migration_event \<Rightarrow> bool) \<Rightarrow> migration_event list \<Rightarrow> migration_event option" where
  "last_such P h = find P (rev h)"

definition event_checksum :: "migration_event \<Rightarrow> string option" where
  "event_checksum e =
     (case (ev_type e, ev_data e) of
        (Applied, DApplied c _ _ _ _) \<Rightarrow> Some c
      | (Resolved, DResolved _ _ c _ _) \<Rightarrow> c
      | _ \<Rightarrow> None)"

definition status_of_history :: "string \<Rightarrow> migration_event list \<Rightarrow> migration_status" where
  "status_of_history m h = \<lparr>
     ms_migration = m,
     ms_checksum = (case last_such (\<lambda>e. event_checksum e \<noteq> None) h of
        Some e \<Rightarrow> the (event_checksum e) | None \<Rightarrow> []),
     ms_applied = (case last_such (\<lambda>e. ev_type e = Applied \<or> ev_type e = RolledBack) h of
        Some e \<Rightarrow> ev_type e = Applied | None \<Rightarrow> False),
     ms_last_applied = map_option ev_created (last_such (\<lambda>e. ev_type e = Applied) h),
     ms_last_rolled_back = map_option ev_created (last_such (\<lambda>e. ev_type e = RolledBack) h),
     ms_apply_count = of_nat (length (List.filter (\<lambda>e. ev_type e = Applied) h)),
     ms_rollback_count = of_nat (length (List.filter (\<lambda>e. ev_type e = RolledBack) h))\<rparr>"

lemma last_such_snoc: "last_such P (h @ [e]) = (if P e then Some e else last_such P h)"
  by (simp add: last_such_def)

lemma last_such_Nil [simp]: "last_such P [] = None"
  by (simp add: last_such_def)

lemma status_of_history_Nil: "status_of_history m [] = status_new m"
  by (simp add: status_of_history_def status_new_def)

lemma status_of_history_snoc:
  "status_of_history m (h @ [e]) = replay_event e (status_of_history m h)"
  by (cases "ev_type e"; cases "ev_data e")
     (auto simp: status_of_history_def replay_event_def last_such_snoc event_checksum_def Let_def
        split: option.splits)

lemma history_of_snoc:
  "history_of m (evs @ [e]) = history_of m evs @ (if ev_migration e = m then [e] else [])"
  by (simp add: history_of_def)

lemma from_events_snoc:
  "from_events (evs @ [e])
     = entry_modify (ev_migration e) (status_new (ev_migration e)) (replay_event e) (from_events evs)"
  by (simp add: from_events_def)

lemma get_status_from_events:
  "get_status (from_events evs) m
     = (if history_of m evs = [] then None else Some (status_of_history m (history_of m evs)))"
proof (induction evs rule: rev_induct)
  case Nil
  then show ?case by (simp add: get_status_def from_events_def history_of_def)
next
  case (snoc e evs)
  then show ?case
    by (auto simp: get_status_def from_events_snoc history_of_snoc hash_map_simps
        status_of_history_snoc status_of_history_Nil simp flip: status_of_history_Nil
        split: if_splits)
qed

lemma keys_distinct_from_events: "keys_distinct (from_events evs)"
  by (induction evs rule: rev_induct) (simp_all add: from_events_def)

subsection \<open>The interface of an event log\<close>

text \<open>What \<^verbatim>\<open>MigrationEventStore\<close> promises the replay: an appended event is the last one.\<close>

locale event_log =
  fixes append :: "'s \<Rightarrow> string \<Rightarrow> event_type \<Rightarrow> event_data \<Rightarrow> timestamp \<Rightarrow> i64 \<times> 's"
    and all_events :: "'s \<Rightarrow> migration_event list"
    and events_of :: "'s \<Rightarrow> string \<Rightarrow> migration_event list"
  assumes append_all: "all_events (snd (append s m t d now)) = all_events s
      @ [\<lparr>ev_id = fst (append s m t d now), ev_migration = m, ev_type = t, ev_data = d, ev_created = now\<rparr>]"
    and events_of: "events_of s m = history_of m (all_events s)"
begin

definition status_in :: "'s \<Rightarrow> string \<Rightarrow> migration_status option" where
  "status_in s m = get_status (from_events (all_events s)) m"

lemma events_of_append:
  "events_of (snd (append s m t d now)) m' = events_of s m'
     @ (if m' = m then [\<lparr>ev_id = fst (append s m t d now), ev_migration = m, ev_type = t, ev_data = d,
         ev_created = now\<rparr>] else [])"
  by (auto simp: events_of append_all history_of_snoc)

lemma status_append_same:
  "status_in (snd (append s m t d now)) m
     = Some (replay_event \<lparr>ev_id = fst (append s m t d now), ev_migration = m, ev_type = t, ev_data = d,
         ev_created = now\<rparr> (status_of_history m (events_of s m)))"
  by (simp add: status_in_def get_status_from_events append_all history_of_snoc status_of_history_snoc
      events_of)

lemma status_append_other:
  "m' \<noteq> m \<Longrightarrow> status_in (snd (append s m t d now)) m' = status_in s m'"
  by (simp add: status_in_def get_status_from_events append_all history_of_snoc)

end

interpretation mem_log: event_log append_event get_all_events get_events
  by unfold_locales
     (auto simp: append_event_def alloc_id_def push_event_def get_all_events_def get_events_def
       history_of_def Let_def)

subsection \<open>Interleaved appends\<close>

text \<open>
  Several tasks append at once: an event is in flight between the two critical sections.  The
  configuration is the store and the events in flight.
\<close>

type_synonym store_config = "event_store \<times> migration_event multiset"

inductive append_step :: "store_config \<Rightarrow> store_config \<Rightarrow> bool" where
  take_id: "(ev_id e, st') = alloc_id st \<Longrightarrow> append_step (st, fl) (st', add_mset e fl)"
| push: "e \<in># fl \<Longrightarrow> append_step (st, fl) (push_event st e, fl - {#e#})"

inductive append_reachable :: "store_config \<Rightarrow> bool" where
  start: "append_reachable (store_new, {#})"
| step: "append_reachable c \<Longrightarrow> append_step c c' \<Longrightarrow> append_reachable c'"

inductive_cases append_stepE: "append_step (st, fl) c'"

lemma push_step: "e \<in># fl \<Longrightarrow> st' = push_event st e \<Longrightarrow> fl' = fl - {#e#} \<Longrightarrow> append_step (st, fl) (st', fl')"
  by (simp add: push)

definition config_events :: "store_config \<Rightarrow> migration_event multiset" where
  "config_events c = mset (es_events (fst c)) + snd c"

text \<open>The invariant: the ids taken so far are 1 to \<open>n\<close>, each once, and the next one is \<open>n + 1\<close>.\<close>

definition ids_inv :: "store_config \<Rightarrow> bool" where
  "ids_inv c \<longleftrightarrow>
     es_next_id (fst c) = of_nat (Suc (size (config_events c)))
   \<and> image_mset ev_id (config_events c) = mset (map of_nat [1..<Suc (size (config_events c))])"

lemma ids_inv_step: "append_step c c' \<Longrightarrow> ids_inv c \<Longrightarrow> ids_inv c'"
proof (induction rule: append_step.induct)
  case (take_id e st' st fl)
  then show ?case
    by (auto simp: ids_inv_def config_events_def alloc_id_def)
next
  case (push e fl st)
  then obtain fl' where "fl = add_mset e fl'" by (metis insert_DiffM)
  with push show ?case
    by (simp add: ids_inv_def config_events_def push_event_def)
qed

lemma ids_inv_reachable: "append_reachable c \<Longrightarrow> ids_inv c"
proof (induction rule: append_reachable.induct)
  case start
  show ?case by (simp add: ids_inv_def config_events_def store_new_def)
qed (rule ids_inv_step)

lemma of_nat_i64_inj: "inj_on (of_nat :: nat \<Rightarrow> i64) {0..<2 ^ 64}"
  by (rule inj_onI, drule arg_cong [of _ _ unat]) (simp add: unat_of_nat)

text \<open>A call that is not interrupted is the two steps in a row.\<close>

lemma append_event_reachable:
  "append_reachable (st, fl) \<Longrightarrow> append_reachable (snd (append_event st m t d now), fl)"
proof -
  assume r: "append_reachable (st, fl)"
  define e where "e = \<lparr>ev_id = fst (alloc_id st), ev_migration = m, ev_type = t, ev_data = d, ev_created = now\<rparr>"
  have "append_step (st, fl) (snd (alloc_id st), add_mset e fl)"
    by (rule take_id) (simp add: e_def)
  with r have "append_reachable (snd (alloc_id st), add_mset e fl)" by (rule step)
  moreover have "append_step (snd (alloc_id st), add_mset e fl) (push_event (snd (alloc_id st)) e, fl)"
    using push [of e "add_mset e fl" "snd (alloc_id st)"] by simp
  ultimately have "append_reachable (push_event (snd (alloc_id st)) e, fl)" by (rule step)
  then show ?thesis by (simp add: append_event_def e_def split_def Let_def)
qed

lemma sequential_ids:
  "map ev_id (es_events (foldl (\<lambda>st (m, t, d, now). snd (append_event st m t d now)) store_new calls))
     = map of_nat [1..<Suc (length calls)]
   \<and> es_next_id (foldl (\<lambda>st (m, t, d, now). snd (append_event st m t d now)) store_new calls)
     = of_nat (Suc (length calls))"
  by (induction calls rule: rev_induct)
     (auto simp: store_new_def append_event_def alloc_id_def push_event_def Let_def)

lemma overtaking_reachable:
  "\<exists>c. append_reachable c \<and> snd c = {#} \<and> map ev_id (es_events (fst c)) = [2, 1]"
proof -
  define e where "e i = \<lparr>ev_id = i, ev_migration = [], ev_type = Failed, ev_data = DFailed [] None None,
    ev_created = 0\<rparr>" for i
  let ?st = "\<lambda>n evs. \<lparr>es_events = evs, es_next_id = n\<rparr>"
  have "append_reachable (?st 1 [], {#})" using start by (simp add: store_new_def)
  moreover have "append_step (?st 1 [], {#}) (?st 2 [], {#e 1#})"
    by (rule take_id) (simp add: alloc_id_def e_def)
  ultimately have "append_reachable (?st 2 [], {#e 1#})" by (rule step)
  moreover have "append_step (?st 2 [], {#e 1#}) (?st 3 [], {#e 2, e 1#})"
    by (rule take_id) (simp add: alloc_id_def e_def)
  ultimately have "append_reachable (?st 3 [], {#e 2, e 1#})" by (rule step)
  moreover have "append_step (?st 3 [], {#e 2, e 1#}) (?st 3 [e 2], {#e 1#})"
    by (rule push_step [of "e 2"]) (simp_all add: push_event_def)
  ultimately have "append_reachable (?st 3 [e 2], {#e 1#})" by (rule step)
  moreover have "append_step (?st 3 [e 2], {#e 1#}) (?st 3 [e 2, e 1], {#})"
    by (rule push_step [of "e 1"]) (simp_all add: push_event_def)
  ultimately have "append_reachable (?st 3 [e 2, e 1], {#})" by (rule step)
  then show ?thesis by (intro exI [of _ "(?st 3 [e 2, e 1], {#})"] conjI) (simp_all add: e_def)
qed

lemma applied_list_keys:
  "list_all (\<lambda>(k, s). ms_migration s = k) st \<Longrightarrow>
   map ms_migration (state_get_applied st) = map fst (List.filter (\<lambda>(k, s). ms_applied s) st)"
  by (induction st) (auto simp: state_get_applied_def)

lemma from_events_entry:
  assumes "(k, s) \<in> set (from_events evs)"
  shows "ms_migration s = k"
proof -
  have "map_of (from_events evs) k = Some s"
    using assms keys_distinct_from_events [of evs] by (simp add: keys_distinct_def)
  then show ?thesis
    using get_status_from_events [of evs k]
    by (auto simp: get_status_def status_of_history_def split: if_splits)
qed

lemma sint_of_nat_i64: "k < 2 ^ 63 \<Longrightarrow> sint (of_nat k :: i64) = int k"
proof -
  assume k: "k < 2 ^ 63"
  then have "int k < 2 ^ 63" by (metis of_nat_less_iff of_nat_numeral of_nat_power)
  moreover have "uint (of_nat k :: i64) = int k"
    using k by (simp add: uint_nat unat_of_nat)
  ultimately show ?thesis using sint_small_i64 [of "of_nat k"] by simp
qed

lemma distinct_sub_mset: "mset xs \<subseteq># mset ys \<Longrightarrow> distinct ys \<Longrightarrow> distinct xs"
proof -
  assume sub: "mset xs \<subseteq># mset ys" and "distinct ys"
  then have "count (mset ys) a \<le> 1" for a by (simp add: distinct_count_atmost_1)
  moreover have "count (mset xs) a \<le> count (mset ys) a" for a using sub by (simp add: mset_subset_eq_count)
  ultimately have le: "count (mset xs) a \<le> 1" for a by (metis le_trans)
  have "count (mset xs) a = (if a \<in> set xs then 1 else 0)" for a
  proof (cases "a \<in> set xs")
    case True
    then have "0 < count (mset xs) a" by (intro count_greater_zero_iff [THEN iffD2]) simp
    then have "count (mset xs) a = 1" using le [of a] by (metis One_nat_def Suc_leI le_antisym)
    with True show ?thesis by simp
  next
    case False
    then have "count (mset xs) a = 0" by (intro not_in_iff [THEN iffD1]) simp
    with False show ?thesis by simp
  qed
  then show "distinct xs" by (simp add: distinct_count_atmost_1)
qed

lemma ids_of_reachable:
  assumes "append_reachable (st, fl)" and n: "n = length (es_events st) + size fl" and "n < 2 ^ 63 - 1"
  shows "mset (map ev_id (es_events st)) \<subseteq># mset (map of_nat [1..<Suc n])"
    and "es_next_id st = of_nat (Suc n)" and "distinct (map (of_nat :: nat \<Rightarrow> i64) [1..<Suc n])"
proof -
  have inv: "ids_inv (st, fl)" using assms(1) by (rule ids_inv_reachable)
  then show "es_next_id st = of_nat (Suc n)"
    by (simp add: ids_inv_def config_events_def n)
  from inv have "image_mset ev_id (mset (es_events st)) + image_mset ev_id fl
      = mset (map of_nat [1..<Suc n])"
    by (simp add: ids_inv_def config_events_def n del: upt_Suc)
  then show "mset (map ev_id (es_events st)) \<subseteq># mset (map of_nat [1..<Suc n])"
    by (metis mset_map mset_subset_eq_add_left)
  show "distinct (map (of_nat :: nat \<Rightarrow> i64) [1..<Suc n])"
    unfolding distinct_map using assms(3) by (auto intro: inj_on_subset [OF of_nat_i64_inj])
qed

lemma applied_list_spec:
  "distinct (map ms_migration (state_get_applied (from_events evs)))
 \<and> set (map ms_migration (state_get_applied (from_events evs)))
     = {m. state_is_applied (from_events evs) m}"
proof -
  have d: "distinct (map fst (from_events evs))"
    using keys_distinct_from_events [of evs] by (simp add: keys_distinct_def)
  have "map ms_migration (state_get_applied (from_events evs))
      = map fst (List.filter (\<lambda>(k, s). ms_applied s) (from_events evs))"
    by (rule applied_list_keys) (auto simp: list_all_iff from_events_entry)
  moreover have mem: "m \<in> fst ` {p \<in> set (from_events evs). case p of (k, s) \<Rightarrow> ms_applied s}
      \<longleftrightarrow> state_is_applied (from_events evs) m" for m
  proof -
    have "m \<in> fst ` {p \<in> set (from_events evs). case p of (k, s) \<Rightarrow> ms_applied s}
        \<longleftrightarrow> (\<exists>s. (m, s) \<in> set (from_events evs) \<and> ms_applied s)"
      by (auto simp: image_iff)
    also have "\<dots> \<longleftrightarrow> (\<exists>s. map_of (from_events evs) m = Some s \<and> ms_applied s)"
      using d by simp
    finally show ?thesis by (auto simp: state_is_applied_def split: option.splits)
  qed
  ultimately show ?thesis
    using d by (simp only: distinct_map_filter set_map set_filter) blast
qed

subsection \<open>Properties\<close>

text \<open>
  C35: Replay: the status of a migration after \<open>from_events\<close> depends only on its own events, in
  order.  It is absent without events; it is applied exactly when the last apply or rollback
  event is an apply; its checksum is the last one an apply or a resolution recorded; the times
  are those of the last apply and rollback; the counters count them (modulo \<open>2 ^ 32\<close>).
\<close>

theorem replay_status:
  "get_status (from_events evs) m
     = (if history_of m evs = [] then None else Some (status_of_history m (history_of m evs)))
 \<and> state_is_applied (from_events evs) m
     = (case last_such (\<lambda>e. ev_type e = Applied \<or> ev_type e = RolledBack) (history_of m evs) of
          Some e \<Rightarrow> ev_type e = Applied | None \<Rightarrow> False)"
  using get_status_from_events [of evs m]
  by (auto simp: state_is_applied_def get_status_def status_of_history_def)

text \<open>
  The applied list of a replayed state lists each applied migration once, and no other.
\<close>

theorem replay_applied_list:
  "distinct (map ms_migration (state_get_applied (from_events evs)))
 \<and> set (map ms_migration (state_get_applied (from_events evs)))
     = {m. state_is_applied (from_events evs) m}"
  by (rule applied_list_spec)

text \<open>
  Appending an event to the in-memory store changes the replayed status of that migration by
  exactly that event, and of no other migration; the new event is the last of its migration's
  events.
\<close>

theorem append_then_replay:
  "get_status (from_events (get_all_events (snd (append_event st m t d now)))) m'
     = (if m' = m
        then Some (replay_event \<lparr>ev_id = fst (append_event st m t d now), ev_migration = m, ev_type = t,
               ev_data = d, ev_created = now\<rparr> (status_of_history m (get_events st m)))
        else get_status (from_events (get_all_events st)) m')
 \<and> get_events (snd (append_event st m t d now)) m'
     = get_events st m' @ (if m' = m then [\<lparr>ev_id = fst (append_event st m t d now), ev_migration = m,
         ev_type = t, ev_data = d, ev_created = now\<rparr>] else [])"
  using mem_log.status_append_same [of st m t d now] mem_log.status_append_other [of m' m st t d now]
    mem_log.events_of_append [of st m t d now m']
  by (auto simp: mem_log.status_in_def)

text \<open>
  C36: However the appends of concurrent tasks interleave, no id is given twice and every id lies
  between 1 and the number of ids taken, as long as fewer than \<open>2 ^ 63 - 1\<close> events were appended.
\<close>

theorem concurrent_ids_distinct:
  assumes "append_reachable (st, fl)" and "length (es_events st) + size fl < 2 ^ 63 - 1"
  shows "distinct (map ev_id (get_all_events st))
     \<and> (\<forall>e \<in> set (get_all_events st). 1 \<le> sint (ev_id e)
          \<and> sint (ev_id e) \<le> int (length (es_events st) + size fl)
          \<and> sint (ev_id e) < sint (es_next_id st))"
proof -
  let ?n = "length (es_events st) + size fl"
  note ids = ids_of_reachable [OF assms(1) refl assms(2)]
  have "\<exists>k. ev_id e = of_nat k \<and> 1 \<le> k \<and> k \<le> ?n" if "e \<in> set (es_events st)" for e
  proof -
    from that have "ev_id e \<in># mset (map ev_id (es_events st))" by simp
    from mset_subset_eqD [OF ids(1) this] show ?thesis by auto
  qed
  moreover have "sint (es_next_id st) = int (Suc ?n)"
    unfolding ids(2) using assms(2) by (intro sint_of_nat_i64) simp
  ultimately show ?thesis
    using distinct_sub_mset [OF ids(1,3)] assms(2) by (fastforce simp: get_all_events_def sint_of_nat_i64)
qed

theorem concurrent_ids_distinct_witness:
  "distinct (map ev_id (get_all_events (snd (append_event store_new ''a'' Failed (DFailed [] None None) 3))))"
proof -
  have "append_reachable (snd (append_event store_new ''a'' Failed (DFailed [] None None) 3), {#})"
    by (rule append_event_reachable) (rule start)
  from concurrent_ids_distinct [OF this] show ?thesis
    by (simp add: append_event_def alloc_id_def push_event_def store_new_def Let_def)
qed

text \<open>
  A single task numbers its events 1, 2, 3 and so on, in log order; two tasks can leave a log
  whose order is not the order of the ids, because an id is taken before its event is pushed.
\<close>

theorem log_order:
  "map ev_id (get_all_events (foldl (\<lambda>st (m, t, d, now). snd (append_event st m t d now)) store_new calls))
     = map of_nat [1..<Suc (length calls)]
 \<and> (\<exists>st. append_reachable (st, {#}) \<and> map ev_id (get_all_events st) = [2, 1])"
  using sequential_ids [of calls] overtaking_reachable
  by (auto simp: get_all_events_def simp del: upt_Suc)

text \<open>
  The database strings of event types: parsing accepts exactly the printed ones.
\<close>

theorem event_type_roundtrip:
  "event_from_str s = Inr t \<longleftrightarrow> s = event_as_str t"
  by (cases t) (auto simp: event_from_str_def event_as_str_def)

end
