(* ===== verification/Migration_Resolutions.thy ===== *)
theory Migration_Resolutions
  imports Migration_Events
begin

text \<open>
  Migration resolutions (\<^verbatim>\<open>prax-migrate/src/resolution.rs\<close>): the recorded decisions about
  migrations that were skipped, baselined, renamed, force-applied or modified after they were
  applied.  \<^verbatim>\<open>Utc::now()\<close> is the argument \<open>now\<close>; loading and saving the TOML file is not
  modelled.
\<close>

datatype conflict_strategy = KeepThis | MergeAll | ApplyFirst | ApplyLast

datatype resolution_action =
    AcceptChecksum string string
  | Skip
  | Baseline
  | Rename string
  | ResolveConflict "string list" conflict_strategy
  | ForceApply

record resolution =
  rs_migration :: string
  rs_action :: resolution_action
  rs_reason :: string
  rs_created :: timestamp
  rs_created_by :: "string option"
  rs_expires :: "timestamp option"
  rs_metadata :: "(string, string) hash_map"

definition rs_make :: "string \<Rightarrow> resolution_action \<Rightarrow> string \<Rightarrow> timestamp \<Rightarrow> resolution" where
  "rs_make m a reason now = \<lparr>rs_migration = m, rs_action = a, rs_reason = reason, rs_created = now,
     rs_created_by = None, rs_expires = None, rs_metadata = []\<rparr>"
definition rs_accept_checksum :: "string \<Rightarrow> string \<Rightarrow> string \<Rightarrow> string \<Rightarrow> timestamp \<Rightarrow> resolution" where
  "rs_accept_checksum m from_c to_c reason now = rs_make m (AcceptChecksum from_c to_c) reason now"
definition rs_skip :: "string \<Rightarrow> string \<Rightarrow> timestamp \<Rightarrow> resolution" where
  "rs_skip m reason now = rs_make m Skip reason now"
definition rs_baseline :: "string \<Rightarrow> string \<Rightarrow> timestamp \<Rightarrow> resolution" where
  "rs_baseline m reason now = rs_make m Baseline reason now"
definition rs_rename :: "string \<Rightarrow> string \<Rightarrow> string \<Rightarrow> timestamp \<Rightarrow> resolution" where
  "rs_rename new_id old_id reason now = rs_make new_id (Rename old_id) reason now"
definition rs_resolve_conflict ::
  "string \<Rightarrow> string list \<Rightarrow> conflict_strategy \<Rightarrow> string \<Rightarrow> timestamp \<Rightarrow> resolution" where
  "rs_resolve_conflict m ids strategy reason now = rs_make m (ResolveConflict ids strategy) reason now"
definition rs_force_apply :: "string \<Rightarrow> string \<Rightarrow> timestamp \<Rightarrow> resolution" where
  "rs_force_apply m reason now = rs_make m ForceApply reason now"
definition rs_with_author :: "resolution \<Rightarrow> string \<Rightarrow> resolution" where
  "rs_with_author r a = r\<lparr>rs_created_by := Some a\<rparr>"
definition rs_with_expiration :: "resolution \<Rightarrow> timestamp \<Rightarrow> resolution" where
  "rs_with_expiration r t = r\<lparr>rs_expires := Some t\<rparr>"
definition rs_with_metadata :: "resolution \<Rightarrow> string \<Rightarrow> string \<Rightarrow> resolution" where
  "rs_with_metadata r k v = r\<lparr>rs_metadata := AList.update k v (rs_metadata r)\<rparr>"
definition rs_is_expired :: "resolution \<Rightarrow> timestamp \<Rightarrow> bool" where
  "rs_is_expired r now = (case rs_expires r of Some e \<Rightarrow> e < now | None \<Rightarrow> False)"

subsection \<open>The configuration\<close>

type_synonym resolution_config = "(string, resolution) hash_map"

definition rc_add :: "resolution_config \<Rightarrow> resolution \<Rightarrow> resolution_config" where
  "rc_add rc r = AList.update (rs_migration r) r rc"
definition rc_remove :: "resolution_config \<Rightarrow> string \<Rightarrow> resolution option \<times> resolution_config" where
  "rc_remove rc m = (map_of rc m, AList.delete m rc)"
definition rc_get :: "resolution_config \<Rightarrow> string \<Rightarrow> resolution option" where
  "rc_get rc m = map_of rc m"
definition rc_has :: "resolution_config \<Rightarrow> string \<Rightarrow> bool" where
  "rc_has rc m \<longleftrightarrow> map_of rc m \<noteq> None"

text \<open>\<^verbatim>\<open>std::mem::discriminant\<close>, as the number of the variant.\<close>

definition action_tag :: "resolution_action \<Rightarrow> nat" where
  "action_tag a = (case a of AcceptChecksum _ _ \<Rightarrow> 0 | Skip \<Rightarrow> 1 | Baseline \<Rightarrow> 2 | Rename _ \<Rightarrow> 3
     | ResolveConflict _ _ \<Rightarrow> 4 | ForceApply \<Rightarrow> 5)"

definition rc_by_action :: "resolution_config \<Rightarrow> resolution_action \<Rightarrow> resolution list" where
  "rc_by_action rc a = List.filter (\<lambda>r. action_tag (rs_action r) = action_tag a) (map snd rc)"
definition rc_skipped :: "resolution_config \<Rightarrow> string list" where
  "rc_skipped rc = List.map_filter (\<lambda>r. if rs_action r = Skip then Some (rs_migration r) else None) (map snd rc)"
definition rc_baselines :: "resolution_config \<Rightarrow> string list" where
  "rc_baselines rc =
     List.map_filter (\<lambda>r. if rs_action r = Baseline then Some (rs_migration r) else None) (map snd rc)"

definition should_skip :: "resolution_config \<Rightarrow> timestamp \<Rightarrow> string \<Rightarrow> bool" where
  "should_skip rc now m =
     (case rc_get rc m of Some r \<Rightarrow> \<not> rs_is_expired r now \<and> rs_action r = Skip | None \<Rightarrow> False)"
definition is_baseline :: "resolution_config \<Rightarrow> timestamp \<Rightarrow> string \<Rightarrow> bool" where
  "is_baseline rc now m =
     (case rc_get rc m of Some r \<Rightarrow> \<not> rs_is_expired r now \<and> rs_action r = Baseline | None \<Rightarrow> False)"
definition is_force_applied :: "resolution_config \<Rightarrow> timestamp \<Rightarrow> string \<Rightarrow> bool" where
  "is_force_applied rc now m =
     (case rc_get rc m of Some r \<Rightarrow> \<not> rs_is_expired r now \<and> rs_action r = ForceApply | None \<Rightarrow> False)"
definition accepts_checksum :: "resolution_config \<Rightarrow> timestamp \<Rightarrow> string \<Rightarrow> string \<Rightarrow> string \<Rightarrow> bool" where
  "accepts_checksum rc now m old_c new_c =
     (case rc_get rc m of
        Some r \<Rightarrow>
          if rs_is_expired r now then False
          else (case rs_action r of AcceptChecksum f t \<Rightarrow> f = old_c \<and> t = new_c | _ \<Rightarrow> False)
      | None \<Rightarrow> False)"

definition get_renamed :: "resolution_config \<Rightarrow> string \<Rightarrow> string option" where
  "get_renamed rc old_id =
     find_map (\<lambda>r. case rs_action r of Rename from_id \<Rightarrow> if from_id = old_id then Some (rs_migration r) else None
        | _ \<Rightarrow> None) (map snd rc)"

datatype resolution_warning =
    DuplicateRename string string
  | Expired string timestamp
  | BaselineNotFound string
  | RenameSourceNotFound string string

text \<open>The two checks of the loop body of \<open>validate\<close>.\<close>

definition rename_warnings :: "resolution_config \<Rightarrow> string \<Rightarrow> resolution \<Rightarrow> resolution_warning list" where
  "rename_warnings rc i r =
     (case rs_action r of
        Rename from_id \<Rightarrow>
          if length (List.filter (\<lambda>q. rs_action q = Rename from_id) (map snd rc)) > 1
          then [DuplicateRename i from_id] else []
      | _ \<Rightarrow> [])"
definition expiry_warnings :: "timestamp \<Rightarrow> string \<Rightarrow> resolution \<Rightarrow> resolution_warning list" where
  "expiry_warnings now i r =
     (case rs_expires r of Some e \<Rightarrow> if e < now then [Expired i e] else [] | None \<Rightarrow> [])"

definition rc_validate :: "resolution_config \<Rightarrow> timestamp \<Rightarrow> resolution_warning list" where
  "rc_validate rc now = concat (map (\<lambda>(i, r). rename_warnings rc i r @ expiry_warnings now i r) rc)"

definition rc_merge :: "resolution_config \<Rightarrow> resolution_config \<Rightarrow> resolution_config" where
  "rc_merge rc other = foldl (\<lambda>m (i, r). entry_or_insert i r m) rc other"

record resolution_counts =
  rn_checksum :: nat
  rn_skipped :: nat
  rn_baseline :: nat
  rn_renamed :: nat
  rn_conflicts :: nat
  rn_forced :: nat

definition count_resolution :: "resolution_counts \<Rightarrow> resolution \<Rightarrow> resolution_counts" where
  "count_resolution c r =
     (case rs_action r of
        AcceptChecksum _ _ \<Rightarrow> c\<lparr>rn_checksum := rn_checksum c + 1\<rparr>
      | Skip \<Rightarrow> c\<lparr>rn_skipped := rn_skipped c + 1\<rparr>
      | Baseline \<Rightarrow> c\<lparr>rn_baseline := rn_baseline c + 1\<rparr>
      | Rename _ \<Rightarrow> c\<lparr>rn_renamed := rn_renamed c + 1\<rparr>
      | ResolveConflict _ _ \<Rightarrow> c\<lparr>rn_conflicts := rn_conflicts c + 1\<rparr>
      | ForceApply \<Rightarrow> c\<lparr>rn_forced := rn_forced c + 1\<rparr>)"
definition count_by_type :: "resolution_config \<Rightarrow> resolution_counts" where
  "count_by_type rc = foldl count_resolution
     \<lparr>rn_checksum = 0, rn_skipped = 0, rn_baseline = 0, rn_renamed = 0, rn_conflicts = 0, rn_forced = 0\<rparr>
     (map snd rc)"
definition counts_total :: "resolution_counts \<Rightarrow> nat" where
  "counts_total c = rn_checksum c + rn_skipped c + rn_baseline c + rn_renamed c + rn_conflicts c + rn_forced c"

subsection \<open>The builder\<close>

record resolution_builder =
  rb_migration :: string
  rb_action :: "resolution_action option"
  rb_reason :: "string option"
  rb_created_by :: "string option"
  rb_expires :: "timestamp option"
  rb_metadata :: "(string, string) hash_map"

definition rb_new :: "string \<Rightarrow> resolution_builder" where
  "rb_new m = \<lparr>rb_migration = m, rb_action = None, rb_reason = None, rb_created_by = None,
     rb_expires = None, rb_metadata = []\<rparr>"
definition rb_set_action :: "resolution_builder \<Rightarrow> resolution_action \<Rightarrow> resolution_builder" where
  "rb_set_action b a = b\<lparr>rb_action := Some a\<rparr>"
definition rb_set_reason :: "resolution_builder \<Rightarrow> string \<Rightarrow> resolution_builder" where
  "rb_set_reason b r = b\<lparr>rb_reason := Some r\<rparr>"
definition rb_set_author :: "resolution_builder \<Rightarrow> string \<Rightarrow> resolution_builder" where
  "rb_set_author b a = b\<lparr>rb_created_by := Some a\<rparr>"
definition rb_set_expires :: "resolution_builder \<Rightarrow> timestamp \<Rightarrow> resolution_builder" where
  "rb_set_expires b t = b\<lparr>rb_expires := Some t\<rparr>"
definition rb_meta :: "resolution_builder \<Rightarrow> string \<Rightarrow> string \<Rightarrow> resolution_builder" where
  "rb_meta b k v = b\<lparr>rb_metadata := AList.update k v (rb_metadata b)\<rparr>"

definition rb_build :: "resolution_builder \<Rightarrow> timestamp \<Rightarrow> migration_error + resolution" where
  "rb_build b now =
     (case rb_action b of
        None \<Rightarrow> Inl (ResolutionFile ''Resolution action is required'')
      | Some a \<Rightarrow>
          (case rb_reason b of
             None \<Rightarrow> Inl (ResolutionFile ''Resolution reason is required'')
           | Some reason \<Rightarrow>
               Inr \<lparr>rs_migration = rb_migration b, rs_action = a, rs_reason = reason, rs_created = now,
                 rs_created_by = rb_created_by b, rs_expires = rb_expires b, rs_metadata = rb_metadata b\<rparr>))"

subsection \<open>The invariant of a configuration\<close>

definition rc_wf :: "resolution_config \<Rightarrow> bool" where
  "rc_wf rc \<longleftrightarrow> keys_distinct rc \<and> list_all (\<lambda>(m, r). rs_migration r = m) rc"

lemma rc_wf_entry: "rc_wf rc \<Longrightarrow> map_of rc m = Some r \<Longrightarrow> rs_migration r = m"
  by (auto simp: rc_wf_def list_all_iff dest: map_of_SomeD)

lemma rc_wf_values: "rc_wf rc \<Longrightarrow> r \<in> set (map snd rc) \<Longrightarrow> map_of rc (rs_migration r) = Some r"
  by (auto simp: rc_wf_def keys_distinct_def list_all_iff)

lemma rc_wf_add: "rc_wf rc \<Longrightarrow> rc_wf (rc_add rc r)"
  using set_update_subset [of "rs_migration r" r rc] by (auto simp: rc_wf_def rc_add_def list_all_iff)

lemma rc_wf_remove: "rc_wf rc \<Longrightarrow> rc_wf (snd (rc_remove rc m))"
  by (auto simp: rc_wf_def rc_remove_def list_all_iff AList.delete_eq keys_distinct_def distinct_map_filter)

lemma set_entry_or_insert: "set (entry_or_insert k v m) \<subseteq> insert (k, v) (set m)"
  unfolding entry_or_insert_def by (induction m) (auto split: if_splits)

lemma rc_merge_simps:
  "rc_merge rc [] = rc" "rc_merge rc ((i, r) # other) = rc_merge (entry_or_insert i r rc) other"
  by (simp_all add: rc_merge_def)

lemma rc_wf_merge: "rc_wf rc \<Longrightarrow> rc_wf other \<Longrightarrow> rc_wf (rc_merge rc other)"
proof (induction other arbitrary: rc)
  case (Cons p other)
  obtain i r where p: "p = (i, r)" by (cases p)
  have "rc_wf (entry_or_insert i r rc)"
    using Cons.prems set_entry_or_insert [of i r rc]
    by (auto simp: rc_wf_def list_all_iff p entry_or_insert_def)
  then show ?case using Cons by (simp add: p rc_merge_simps rc_wf_def keys_distinct_def)
qed (simp add: rc_merge_simps)

lemma rc_get_merge:
  "rc_get (rc_merge rc other) m = (case rc_get rc m of Some r \<Rightarrow> Some r | None \<Rightarrow> rc_get other m)"
proof (induction other arbitrary: rc)
  case (Cons p other)
  then show ?case
    by (cases p) (auto simp: rc_merge_simps rc_get_def entry_or_insert_def hash_map_simps split: option.splits)
qed (simp add: rc_merge_simps rc_get_def split: option.splits)

interpretation rc_store: keyed_store rc_wf rs_migration rc_add "\<lambda>rc m. snd (rc_remove rc m)" rc_get
  by unfold_locales (fact rc_wf_add rc_wf_remove | simp add: rc_get_def rc_add_def rc_remove_def hash_map_simps)+

lemma rc_wf_Nil: "rc_wf []"
  by (simp add: rc_wf_def)

lemma count_resolution_total: "counts_total (count_resolution c r) = Suc (counts_total c)"
  by (cases "rs_action r") (simp_all add: count_resolution_def counts_total_def)

lemma fold_count_total: "counts_total (foldl count_resolution c rs) = counts_total c + length rs"
  by (induction rs arbitrary: c) (simp_all add: count_resolution_total)

lemma get_renamed_Some:
  "get_renamed rc old_id = Some new_id \<Longrightarrow>
   \<exists>r \<in> set (map snd rc). rs_action r = Rename old_id \<and> rs_migration r = new_id"
  unfolding get_renamed_def
  by (drule find_map_Some, elim bexE, rule_tac x = x in bexI) (auto split: resolution_action.split_asm if_split_asm)

lemma get_renamed_None:
  "get_renamed rc old_id = None \<longleftrightarrow> (\<forall>r \<in> set (map snd rc). rs_action r \<noteq> Rename old_id)"
  unfolding get_renamed_def find_map_None by (auto split: resolution_action.splits)

lemma filter_unique:
  "length (List.filter P xs) \<le> 1 \<Longrightarrow> x \<in> set xs \<Longrightarrow> y \<in> set xs \<Longrightarrow> P x \<Longrightarrow> P y \<Longrightarrow> x = y"
proof -
  assume l: "length (List.filter P xs) \<le> 1" and "x \<in> set xs" "y \<in> set xs" "P x" "P y"
  then have "x \<in> set (List.filter P xs)" "y \<in> set (List.filter P xs)" by auto
  with l show "x = y" by (cases "List.filter P xs") auto
qed

lemma validate_unique_rename:
  assumes "\<forall>i f. DuplicateRename i f \<notin> set (rc_validate rc now)"
  shows "length (List.filter (\<lambda>q. rs_action q = Rename f) (map snd rc)) \<le> 1"
proof (rule ccontr)
  assume many: "\<not> length (List.filter (\<lambda>q. rs_action q = Rename f) (map snd rc)) \<le> 1"
  then have "List.filter (\<lambda>q. rs_action q = Rename f) (map snd rc) \<noteq> []" by force
  then obtain r where "r \<in> set (List.filter (\<lambda>q. rs_action q = Rename f) (map snd rc))"
    using list.set_intros(1) by (metis neq_Nil_conv)
  then obtain i where "(i, r) \<in> set rc" and act: "rs_action r = Rename f" by auto
  from many act have "DuplicateRename i f \<in> set (rename_warnings rc i r)"
    by (simp add: rename_warnings_def)
  then have "DuplicateRename i f \<in> set (rc_validate rc now)"
    using \<open>(i, r) \<in> set rc\<close> by (force simp: rc_validate_def)
  with assms show False by blast
qed

subsection \<open>Properties\<close>

text \<open>
  The configuration keeps its invariant (one resolution per migration, filed under the
  migration it is for) whatever is added, removed or merged; the last resolution added for a
  migration is the one found; and merging never overrides a resolution already present.
\<close>

theorem resolution_config_laws:
  assumes "rc_wf rc" and "rc_wf other"
  shows "rc_wf (foldl rc_add rc rs) \<and> rc_wf (snd (rc_remove rc m)) \<and> rc_wf (rc_merge rc other)
     \<and> rc_get (foldl rc_add rc rs) m
       = (case find (\<lambda>r. rs_migration r = m) (rev rs) of Some r \<Rightarrow> Some r | None \<Rightarrow> rc_get rc m)
     \<and> rc_get (snd (rc_remove rc m)) k = (if k = m then None else rc_get rc k)
     \<and> rc_get (rc_merge rc other) m
       = (case rc_get rc m of Some r \<Rightarrow> Some r | None \<Rightarrow> rc_get other m)"
  using assms rc_store.inv_puts rc_store.get_puts rc_store.get_del rc_wf_remove rc_wf_merge
  by (simp add: rc_get_merge)

theorem resolution_config_laws_witness:
  "rc_wf (rc_merge (rc_add [] (rs_skip ''m1'' ''r'' 0)) (rc_add [] (rs_baseline ''m1'' ''q'' 1)))
   \<and> rc_get (rc_merge (rc_add [] (rs_skip ''m1'' ''r'' 0)) (rc_add [] (rs_baseline ''m1'' ''q'' 1))) ''m1''
     = Some (rs_skip ''m1'' ''r'' 0)"
  using resolution_config_laws [of "rc_add [] (rs_skip ''m1'' ''r'' 0)" "rc_add [] (rs_baseline ''m1'' ''q'' 1)"
      "[]" "''m1''" "''m1''"]
  by (simp add: rc_wf_add rc_wf_Nil) (simp add: rc_get_def rc_add_def rs_skip_def rs_make_def)

text \<open>
  At most one verdict (skip, baseline, force-apply, accept this checksum change) holds for a
  migration at a time; a verdict needs an unexpired resolution of that very migration; and once
  it no longer holds it never holds again, while the configuration is unchanged.
\<close>

theorem resolution_verdicts:
  assumes "now \<le> later"
  shows "length (List.filter id [should_skip rc now m, is_baseline rc now m, is_force_applied rc now m,
           accepts_checksum rc now m c c']) \<le> 1
     \<and> (rc_get rc m = None \<or> (\<exists>r. rc_get rc m = Some r \<and> rs_is_expired r now) \<longrightarrow>
         \<not> should_skip rc now m \<and> \<not> is_baseline rc now m \<and> \<not> is_force_applied rc now m
         \<and> \<not> accepts_checksum rc now m c c')
     \<and> (should_skip rc later m \<longrightarrow> should_skip rc now m)
     \<and> (is_baseline rc later m \<longrightarrow> is_baseline rc now m)
     \<and> (is_force_applied rc later m \<longrightarrow> is_force_applied rc now m)
     \<and> (accepts_checksum rc later m c c' \<longrightarrow> accepts_checksum rc now m c c')"
  using assms
  by (auto simp: should_skip_def is_baseline_def is_force_applied_def accepts_checksum_def rs_is_expired_def
      split: option.splits resolution_action.splits if_splits)

theorem resolution_verdicts_witness:
  "\<not> should_skip (rc_add [] (rs_with_expiration (rs_skip ''m'' ''r'' 0) 5)) 6 ''m''
   \<and> \<not> is_baseline (rc_add [] (rs_with_expiration (rs_skip ''m'' ''r'' 0) 5)) 6 ''m''"
  using resolution_verdicts [of 6 7 "rc_add [] (rs_with_expiration (rs_skip ''m'' ''r'' 0) 5)" "''m''"]
  by (auto simp: rc_get_def rc_add_def rs_skip_def rs_make_def rs_with_expiration_def rs_is_expired_def)

text \<open>
  If \<open>validate\<close> reports no duplicate rename, the migration \<open>get_renamed\<close> finds does not
  depend on the iteration order of the hash map.
\<close>

theorem rename_deterministic:
  assumes "mset rc' = mset rc"
    and "\<forall>i f. DuplicateRename i f \<notin> set (rc_validate rc now)"
  shows "get_renamed rc' old_id = get_renamed rc old_id"
proof -
  have same: "set (map snd rc') = set (map snd rc)" using mset_eq_setD [OF assms(1)] by simp
  have uniq: "r = r'" if "r \<in> set (map snd rc)" "r' \<in> set (map snd rc)"
    "rs_action r = Rename old_id" "rs_action r' = Rename old_id" for r r'
    using filter_unique [OF validate_unique_rename [OF assms(2)]] that by blast
  show ?thesis
  proof (cases "get_renamed rc old_id")
    case None
    then show ?thesis using get_renamed_None same by metis
  next
    case (Some n)
    then have "\<not> (\<forall>r \<in> set (map snd rc). rs_action r \<noteq> Rename old_id)"
      using get_renamed_None [of rc old_id] by (metis option.distinct(1))
    then have "get_renamed rc' old_id \<noteq> None" unfolding get_renamed_None same .
    then obtain n' where n': "get_renamed rc' old_id = Some n'" by blast
    from get_renamed_Some [OF n', unfolded same] get_renamed_Some [OF Some] have "n' = n"
      using uniq by blast
    with n' Some show ?thesis by simp
  qed
qed

theorem rename_deterministic_witness:
  "get_renamed [(''a'', rs_rename ''a'' ''b'' ''r'' 0), (''c'', rs_skip ''c'' ''r'' 0)] ''b''
   = get_renamed [(''c'', rs_skip ''c'' ''r'' 0), (''a'', rs_rename ''a'' ''b'' ''r'' 0)] ''b''"
  by (rule rename_deterministic [where now = 0])
     (auto simp: rc_validate_def rename_warnings_def expiry_warnings_def rs_rename_def rs_skip_def rs_make_def)

text \<open>
  Counting by type counts every resolution once.
\<close>

theorem count_by_type_total:
  "counts_total (count_by_type rc) = length rc
 \<and> rn_skipped (count_by_type rc) = length (rc_skipped rc)
 \<and> rn_baseline (count_by_type rc) = length (rc_baselines rc)"
proof -
  have "rn_skipped (foldl count_resolution c rs)
      = rn_skipped c + length (List.map_filter (\<lambda>r. if rs_action r = Skip then Some (rs_migration r) else None) rs)
    \<and> rn_baseline (foldl count_resolution c rs)
      = rn_baseline c + length (List.map_filter (\<lambda>r. if rs_action r = Baseline then Some (rs_migration r) else None) rs)"
    for c rs
    by (induction rs arbitrary: c) (auto simp: count_resolution_def map_filter_simps split: resolution_action.splits)
  then show ?thesis
    by (simp add: count_by_type_def fold_count_total rc_skipped_def rc_baselines_def) (simp add: counts_total_def)
qed

text \<open>
  The builder fails exactly when the action or the reason is missing, with the error that
  names it; otherwise it returns the resolution its calls described, whatever their order.
\<close>

theorem resolution_builder_build:
  "rb_build (rb_set_reason (rb_new m) reason) now = Inl (ResolutionFile ''Resolution action is required'')
 \<and> rb_build (rb_set_action (rb_new m) a) now = Inl (ResolutionFile ''Resolution reason is required'')
 \<and> rb_build (rb_set_author (rb_set_expires (rb_set_action (rb_set_reason (rb_new m) reason) a) t) who) now
     = Inr (rs_with_author (rs_with_expiration (rs_make m a reason now) t) who)
 \<and> rb_build (rb_set_reason (rb_set_action (rb_meta (rb_new m) k v) a) reason) now
     = Inr (rs_with_metadata (rs_make m a reason now) k v)"
  by (simp add: rb_build_def rb_new_def rb_set_action_def rb_set_reason_def rb_set_author_def rb_set_expires_def
      rb_meta_def rs_make_def rs_with_author_def rs_with_expiration_def rs_with_metadata_def)

end
