(* ===== verification/Migration_Engine.thy ===== *)
theory Migration_Engine
  imports Migration_Resolutions
begin

text \<open>
  The migration engine (\<^verbatim>\<open>prax-migrate/src/engine.rs\<close>): planning, migrating, rolling back
  and the status.  The directory listing is the argument \<open>files\<close>; the history repository,
  a trait the crate leaves to its users, is the record of functions \<open>history_repo\<close> over a state
  of type \<open>'h\<close>; the instants \<open>now\<close> and the durations are arguments, one \<open>now\<close> for a run.  The
  schema-diff part of \<open>plan\<close> is not modelled: a plan carries an opaque diff of type \<open>'d\<close>.
\<close>

subsection \<open>Files, configuration, history\<close>

record migration_file =
  mf_path :: string
  mf_id :: string
  mf_name :: string
  mf_up :: string
  mf_down :: string
  mf_checksum :: string

text \<open>\<open>hash\<close> stands for the standard library's hasher, which \<open>compute_checksum\<close> prints.\<close>

definition mf_new :: "(string \<Rightarrow> string) \<Rightarrow> string \<Rightarrow> string \<Rightarrow> string \<times> string \<Rightarrow> migration_file" where
  "mf_new hash i name sql = \<lparr>mf_path = [], mf_id = i, mf_name = name, mf_up = fst sql, mf_down = snd sql,
     mf_checksum = hash (fst sql)\<rparr>"
definition mf_with_path :: "migration_file \<Rightarrow> string \<Rightarrow> migration_file" where
  "mf_with_path f p = f\<lparr>mf_path := p\<rparr>"

record migration_config =
  mc_migrations_dir :: string
  mc_resolutions_file :: string
  mc_dry_run :: bool
  mc_allow_data_loss :: bool
  mc_fail_on_checksum :: bool
  mc_auto_baseline :: bool

definition mc_default :: migration_config where
  "mc_default = \<lparr>mc_migrations_dir = ''./migrations'', mc_resolutions_file = ''./migrations/resolutions.toml'',
     mc_dry_run = False, mc_allow_data_loss = False, mc_fail_on_checksum = True, mc_auto_baseline = False\<rparr>"

record migration_record =
  hr_id :: string
  hr_checksum :: string
  hr_applied_at :: timestamp
  hr_duration :: i64
  hr_rolled_back :: bool

record 'h history_repo =
  hist_applied :: "'h \<Rightarrow> migration_error + migration_record list"
  hist_record :: "'h \<Rightarrow> string \<Rightarrow> string \<Rightarrow> i64 \<Rightarrow> migration_error + 'h"
  hist_rollback :: "'h \<Rightarrow> string \<Rightarrow> migration_error + 'h"
  hist_last :: "'h \<Rightarrow> migration_error + migration_record option"
  hist_lock :: "'h \<Rightarrow> migration_error + unit"

subsection \<open>Planning\<close>

record checksum_resolution =
  cx_migration :: string
  cx_expected :: string
  cx_actual :: string
  cx_reason :: string

record checksum_mismatch =
  ck_migration :: string
  ck_expected :: string
  ck_actual :: string

record ('d, 's) migration_plan =
  pl_pending :: "migration_file list"
  pl_skipped :: "string list"
  pl_baselines :: "string list"
  pl_resolved :: "checksum_resolution list"
  pl_unresolved :: "checksum_mismatch list"
  pl_diff :: "'d option"
  pl_sql :: "'s option"
  pl_warnings :: "string list"

definition plan_empty :: "('d, 's) migration_plan" where
  "plan_empty = \<lparr>pl_pending = [], pl_skipped = [], pl_baselines = [], pl_resolved = [],
     pl_unresolved = [], pl_diff = None, pl_sql = None, pl_warnings = []\<rparr>"

definition plan_is_empty :: "('d \<Rightarrow> bool) \<Rightarrow> ('d, 's) migration_plan \<Rightarrow> bool" where
  "plan_is_empty diff_empty p \<longleftrightarrow>
     pl_pending p = [] \<and> pl_baselines p = [] \<and> (case pl_diff p of None \<Rightarrow> True | Some d \<Rightarrow> diff_empty d)"
definition has_blocking_issues :: "('d, 's) migration_plan \<Rightarrow> bool" where
  "has_blocking_issues p \<longleftrightarrow> pl_unresolved p \<noteq> []"

definition counted :: "'a list \<Rightarrow> string \<Rightarrow> string list" where
  "counted xs what = (if xs \<noteq> [] then [show_nat (length xs) @ what] else [])"

definition plan_summary :: "('d \<Rightarrow> string) \<Rightarrow> ('d, 's) migration_plan \<Rightarrow> string" where
  "plan_summary diff_summary p =
     (let parts = counted (pl_pending p) '' pending migrations'' @ counted (pl_skipped p) '' skipped''
        @ counted (pl_baselines p) '' baselines'' @ counted (pl_resolved p) '' resolved checksums''
        @ counted (pl_unresolved p) '' UNRESOLVED checksums''
        @ (case pl_diff p of None \<Rightarrow> [] | Some d \<Rightarrow> [diff_summary d])
      in if parts = [] then ''No changes to apply'' else join ''; '' parts)"

text \<open>The checksums of the applied migrations: replayed from the events when there are any.\<close>

definition collect_checksums :: "(string \<times> string) list \<Rightarrow> (string, string) hash_map" where
  "collect_checksums ps = foldl (\<lambda>m (i, c). AList.update i c m) [] ps"

definition applied_checksums ::
  "migration_event list \<Rightarrow> 'h history_repo \<Rightarrow> 'h \<Rightarrow> migration_error + (string, string) hash_map" where
  "applied_checksums events repo h =
     (if events = [] then
        (case hist_applied repo h of
           Inl e \<Rightarrow> Inl e
         | Inr rs \<Rightarrow> Inr (collect_checksums (map (\<lambda>r. (hr_id r, hr_checksum r)) rs)))
      else Inr (collect_checksums
        (map (\<lambda>s. (ms_migration s, ms_checksum s)) (state_get_applied (from_events events)))))"

definition effective_id :: "resolution_config \<Rightarrow> migration_file \<Rightarrow> string" where
  "effective_id rc f = (case get_renamed rc (mf_id f) of Some n \<Rightarrow> n | None \<Rightarrow> mf_id f)"

definition mismatch_warning :: "migration_file \<Rightarrow> string \<Rightarrow> string" where
  "mismatch_warning f old_c =
     ''Migration '' @ [SQUOTE] @ mf_id f @ [SQUOTE] @ '' has been modified since it was applied. ''
     @ ''Add a resolution to accept this change: '' @ ''prax migrate resolve checksum '' @ mf_id f @ '' ''
     @ mf_id f @ '' '' @ old_c @ '' '' @ mf_checksum f"

text \<open>The body of the loop over the files.\<close>

definition plan_file ::
  "migration_config \<Rightarrow> resolution_config \<Rightarrow> timestamp \<Rightarrow> (string, string) hash_map \<Rightarrow>
   ('d, 's) migration_plan \<Rightarrow> migration_file \<Rightarrow> ('d, 's) migration_plan" where
  "plan_file cfg rc now applied p f =
     (if should_skip rc now (mf_id f) then p\<lparr>pl_skipped := pl_skipped p @ [mf_id f]\<rparr>
      else if is_baseline rc now (mf_id f) \<and> map_of applied (mf_id f) = None
        then p\<lparr>pl_baselines := pl_baselines p @ [mf_id f]\<rparr>
      else case map_of applied (effective_id rc f) of
        None \<Rightarrow> p\<lparr>pl_pending := pl_pending p @ [f]\<rparr>
      | Some c \<Rightarrow>
          if c \<noteq> mf_checksum f then
            (if is_force_applied rc now (mf_id f) then p\<lparr>pl_pending := pl_pending p @ [f]\<rparr>
             else if accepts_checksum rc now (mf_id f) c (mf_checksum f) then
               (case rc_get rc (mf_id f) of
                  Some r \<Rightarrow> p\<lparr>pl_resolved := pl_resolved p @ [\<lparr>cx_migration = mf_id f, cx_expected = c,
                    cx_actual = mf_checksum f, cx_reason = rs_reason r\<rparr>]\<rparr>
                | None \<Rightarrow> p)
             else
               (let p = p\<lparr>pl_unresolved := pl_unresolved p @ [\<lparr>ck_migration = mf_id f, ck_expected = c,
                    ck_actual = mf_checksum f\<rparr>]\<rparr>
                in if mc_fail_on_checksum cfg
                   then p\<lparr>pl_warnings := pl_warnings p @ [mismatch_warning f c]\<rparr> else p))
          else p)"

definition plan_files ::
  "migration_config \<Rightarrow> resolution_config \<Rightarrow> timestamp \<Rightarrow> migration_event list \<Rightarrow> 'h history_repo \<Rightarrow> 'h \<Rightarrow>
   migration_file list \<Rightarrow> migration_error + ('d, 's) migration_plan" where
  "plan_files cfg rc now events repo h files =
     (case applied_checksums events repo h of
        Inl e \<Rightarrow> Inl e
      | Inr applied \<Rightarrow> Inr (foldl (plan_file cfg rc now applied) plan_empty files))"

text \<open>The event store and the directory listing can fail, too: \<open>events\<close> and \<open>files\<close> are
  their answers, asked for before and after the history's.\<close>

definition engine_plan ::
  "migration_config \<Rightarrow> resolution_config \<Rightarrow> timestamp \<Rightarrow> migration_error + migration_event list \<Rightarrow>
   'h history_repo \<Rightarrow> 'h \<Rightarrow> migration_error + migration_file list \<Rightarrow> migration_error + ('d, 's) migration_plan" where
  "engine_plan cfg rc now events repo h files =
     (case events of
        Inl e \<Rightarrow> Inl e
      | Inr evs \<Rightarrow>
          (case (applied_checksums evs repo h, files) of
             (Inl e, _) \<Rightarrow> Inl e
           | (Inr _, Inl e) \<Rightarrow> Inl e
           | (Inr _, Inr fs) \<Rightarrow> plan_files cfg rc now evs repo h fs))"

subsection \<open>Migrating\<close>

record migration_result =
  mr_applied_count :: nat
  mr_duration :: i64
  mr_applied :: "string list"
  mr_baselined :: "string list"
  mr_skipped :: "string list"
  mr_warnings :: "string list"

definition mr_empty :: migration_result where
  "mr_empty = \<lparr>mr_applied_count = 0, mr_duration = 0, mr_applied = [], mr_baselined = [],
     mr_skipped = [], mr_warnings = []\<rparr>"
definition mr_total_processed :: "migration_result \<Rightarrow> nat" where
  "mr_total_processed r = mr_applied_count r + length (mr_baselined r)"
definition mr_has_changes :: "migration_result \<Rightarrow> bool" where
  "mr_has_changes r \<longleftrightarrow> mr_applied_count r > 0 \<or> mr_baselined r \<noteq> []"
definition mr_summary :: "migration_result \<Rightarrow> string" where
  "mr_summary r =
     (let parts = (if mr_applied_count r > 0 then [show_nat (mr_applied_count r) @ '' applied''] else [])
        @ counted (mr_baselined r) '' baselined'' @ counted (mr_skipped r) '' skipped''
      in if parts = [] then ''No migrations applied''
         else join '', '' parts @ '' in '' @ show_int (sint (mr_duration r)) @ ''ms'')"

definition apply_migration :: "migration_file \<Rightarrow> migration_error + unit" where
  "apply_migration f = Inl (ExecutionUnavailable
     (''cannot apply migration '' @ [SQUOTE] @ mf_id f @ [SQUOTE]
      @ '': no SQL executor is configured on this engine''))"

text \<open>What follows the checks for one file: baseline, dry run or apply.\<close>

definition process_file ::
  "migration_config \<Rightarrow> resolution_config \<Rightarrow> timestamp \<Rightarrow> i64 \<Rightarrow> 'h history_repo \<Rightarrow> migration_file \<Rightarrow>
   'h \<Rightarrow> migration_result \<Rightarrow> (migration_error + migration_result) \<times> 'h" where
  "process_file cfg rc now dur repo f h res =
     (if is_baseline rc now (mf_id f) then
        (if mc_dry_run cfg
         then (Inr (res\<lparr>mr_warnings := mr_warnings res @ [''[DRY RUN] Would baseline: '' @ mf_id f]\<rparr>), h)
         else case hist_record repo h (mf_id f) (mf_checksum f) 0 of
           Inl e \<Rightarrow> (Inl e, h)
         | Inr h' \<Rightarrow> (Inr (res\<lparr>mr_baselined := mr_baselined res @ [mf_id f]\<rparr>), h'))
      else if mc_dry_run cfg then
        (Inr (res\<lparr>mr_applied := mr_applied res @ [mf_id f],
           mr_warnings := mr_warnings res @ [''[DRY RUN] Would apply: '' @ mf_id f]\<rparr>), h)
      else case apply_migration f of
        Inl e \<Rightarrow> (Inl e, h)
      | Inr u \<Rightarrow>
          (case hist_record repo h (mf_id f) (mf_checksum f) dur of
             Inl e \<Rightarrow> (Inl e, h)
           | Inr h' \<Rightarrow> (Inr (res\<lparr>mr_applied := mr_applied res @ [mf_id f],
               mr_applied_count := mr_applied_count res + 1\<rparr>), h')))"

definition migrate_file ::
  "migration_config \<Rightarrow> resolution_config \<Rightarrow> timestamp \<Rightarrow> i64 \<Rightarrow> 'h history_repo \<Rightarrow> migration_record list \<Rightarrow>
   migration_file \<Rightarrow> 'h \<Rightarrow> migration_result \<Rightarrow> (migration_error + migration_result) \<times> 'h" where
  "migrate_file cfg rc now dur repo applied f h res =
     (if should_skip rc now (mf_id f)
      then (Inr (res\<lparr>mr_skipped := mr_skipped res @ [mf_id f]\<rparr>), h)
      else case find (\<lambda>r. hr_id r = effective_id rc f) applied of
        None \<Rightarrow> process_file cfg rc now dur repo f h res
      | Some r \<Rightarrow>
          if \<not> (hr_checksum r \<noteq> mf_checksum f \<and> is_force_applied rc now (mf_id f)) then
            (if hr_checksum r \<noteq> mf_checksum f
                \<and> \<not> accepts_checksum rc now (mf_id f) (hr_checksum r) (mf_checksum f)
                \<and> mc_fail_on_checksum cfg
             then (Inl (ChecksumMismatch (mf_id f) (hr_checksum r) (mf_checksum f)), h)
             else (Inr res, h))
          else process_file cfg rc now dur repo f h res)"

fun migrate_loop ::
  "migration_config \<Rightarrow> resolution_config \<Rightarrow> timestamp \<Rightarrow> i64 \<Rightarrow> 'h history_repo \<Rightarrow> migration_record list \<Rightarrow>
   migration_file list \<Rightarrow> 'h \<Rightarrow> migration_result \<Rightarrow> (migration_error + migration_result) \<times> 'h" where
  "migrate_loop cfg rc now dur repo applied [] h res = (Inr res, h)"
| "migrate_loop cfg rc now dur repo applied (f # fs) h res =
     (case migrate_file cfg rc now dur repo applied f h res of
        (Inl e, h') \<Rightarrow> (Inl e, h')
      | (Inr res', h') \<Rightarrow> migrate_loop cfg rc now dur repo applied fs h' res')"

definition migrate ::
  "migration_config \<Rightarrow> resolution_config \<Rightarrow> timestamp \<Rightarrow> i64 \<Rightarrow> i64 \<Rightarrow> 'h history_repo \<Rightarrow> migration_file list \<Rightarrow>
   'h \<Rightarrow> (migration_error + migration_result) \<times> 'h" where
  "migrate cfg rc now dur elapsed repo files h =
     (case hist_lock repo h of
        Inl e \<Rightarrow> (Inl e, h)
      | Inr u \<Rightarrow>
          (case hist_applied repo h of
             Inl e \<Rightarrow> (Inl e, h)
           | Inr applied \<Rightarrow>
               (case migrate_loop cfg rc now dur repo applied files h mr_empty of
                  (Inl e, h') \<Rightarrow> (Inl e, h')
                | (Inr res, h') \<Rightarrow> (Inr (res\<lparr>mr_duration := elapsed\<rparr>), h'))))"

subsection \<open>Rolling back, status\<close>

definition rollback_migration :: "migration_file \<Rightarrow> migration_error + unit" where
  "rollback_migration f = Inl (ExecutionUnavailable
     (''cannot roll back migration '' @ [SQUOTE] @ mf_id f @ [SQUOTE]
      @ '': no SQL executor is configured on this engine''))"

definition rollback ::
  "migration_config \<Rightarrow> 'h history_repo \<Rightarrow> migration_file list \<Rightarrow> 'h \<Rightarrow> (migration_error + string option) \<times> 'h" where
  "rollback cfg repo files h =
     (if mc_dry_run cfg then
        (case hist_last repo h of
           Inl e \<Rightarrow> (Inl e, h)
         | Inr None \<Rightarrow> (Inr None, h)
         | Inr (Some l) \<Rightarrow> (Inr (Some (''[DRY RUN] Would rollback: '' @ hr_id l)), h))
      else case hist_lock repo h of
        Inl e \<Rightarrow> (Inl e, h)
      | Inr u \<Rightarrow>
          (case hist_last repo h of
             Inl e \<Rightarrow> (Inl e, h)
           | Inr None \<Rightarrow> (Inr None, h)
           | Inr (Some r) \<Rightarrow>
               (case find (\<lambda>f. mf_id f = hr_id r) files of
                  None \<Rightarrow> (Inr None, h)
                | Some m \<Rightarrow>
                    if mf_down m = [] then
                      (Inl (InvalidMigration (''Migration '' @ [SQUOTE] @ mf_id m @ [SQUOTE]
                         @ '' has no down migration'')), h)
                    else case rollback_migration m of
                      Inl e \<Rightarrow> (Inl e, h)
                    | Inr u \<Rightarrow>
                        (case hist_rollback repo h (mf_id m) of
                           Inl e \<Rightarrow> (Inl e, h)
                         | Inr h' \<Rightarrow> (Inr (Some (mf_id m)), h')))))"

record engine_status =
  st_applied :: "migration_record list"
  st_pending :: "string list"
  st_total_applied :: nat
  st_total_pending :: nat

definition status ::
  "timestamp \<Rightarrow> migration_event list \<Rightarrow> 'h history_repo \<Rightarrow> migration_file list \<Rightarrow> 'h \<Rightarrow>
   migration_error + engine_status" where
  "status now events repo files h =
     (case (if events = [] then hist_applied repo h
        else Inr (map (\<lambda>s. \<lparr>hr_id = ms_migration s, hr_checksum = ms_checksum s,
            hr_applied_at = (case ms_last_applied s of Some t \<Rightarrow> t | None \<Rightarrow> now), hr_duration = 0,
            hr_rolled_back = False\<rparr>) (state_get_applied (from_events events)))) of
        Inl e \<Rightarrow> Inl e
      | Inr applied \<Rightarrow>
          (let pending = map mf_id (List.filter (\<lambda>f. mf_id f \<notin> set (map hr_id applied)) files)
           in Inr \<lparr>st_applied = applied, st_pending = pending, st_total_applied = length applied,
                st_total_pending = length pending\<rparr>))"

subsection \<open>What planning and migrating decide for a file\<close>

text \<open>The specification: one verdict for each file, from the resolutions and the applied checksum.\<close>

datatype verdict = ToSkip | ToBaseline | ToApply | Accepted string | Mismatch string | UpToDate

definition checksum_verdict ::
  "resolution_config \<Rightarrow> timestamp \<Rightarrow> string option \<Rightarrow> migration_file \<Rightarrow> verdict" where
  "checksum_verdict rc now recorded f =
     (case recorded of
        None \<Rightarrow> ToApply
      | Some c \<Rightarrow>
          if c = mf_checksum f then UpToDate
          else if is_force_applied rc now (mf_id f) then ToApply
          else if accepts_checksum rc now (mf_id f) c (mf_checksum f) then Accepted c
          else Mismatch c)"

definition plan_verdict ::
  "resolution_config \<Rightarrow> timestamp \<Rightarrow> (string, string) hash_map \<Rightarrow> migration_file \<Rightarrow> verdict" where
  "plan_verdict rc now applied f =
     (if should_skip rc now (mf_id f) then ToSkip
      else if is_baseline rc now (mf_id f) \<and> map_of applied (mf_id f) = None then ToBaseline
      else checksum_verdict rc now (map_of applied (effective_id rc f)) f)"

definition migrate_verdict ::
  "resolution_config \<Rightarrow> timestamp \<Rightarrow> migration_record list \<Rightarrow> migration_file \<Rightarrow> verdict" where
  "migrate_verdict rc now applied f =
     (if should_skip rc now (mf_id f) then ToSkip
      else case checksum_verdict rc now
          (map_option hr_checksum (find (\<lambda>r. hr_id r = effective_id rc f) applied)) f of
        ToApply \<Rightarrow> if is_baseline rc now (mf_id f) then ToBaseline else ToApply
      | v \<Rightarrow> v)"

definition accepted_entry :: "resolution_config \<Rightarrow> migration_file \<Rightarrow> string \<Rightarrow> checksum_resolution" where
  "accepted_entry rc f c = \<lparr>cx_migration = mf_id f, cx_expected = c, cx_actual = mf_checksum f,
     cx_reason = rs_reason (the (rc_get rc (mf_id f)))\<rparr>"
definition mismatch_entry :: "migration_file \<Rightarrow> string \<Rightarrow> checksum_mismatch" where
  "mismatch_entry f c = \<lparr>ck_migration = mf_id f, ck_expected = c, ck_actual = mf_checksum f\<rparr>"

text \<open>The plan the verdicts call for.\<close>

definition plan_of ::
  "migration_config \<Rightarrow> resolution_config \<Rightarrow> (migration_file \<Rightarrow> verdict) \<Rightarrow> migration_file list \<Rightarrow>
   ('d, 's) migration_plan" where
  "plan_of cfg rc v files = plan_empty\<lparr>
     pl_pending := List.filter (\<lambda>f. v f = ToApply) files,
     pl_skipped := map mf_id (List.filter (\<lambda>f. v f = ToSkip) files),
     pl_baselines := map mf_id (List.filter (\<lambda>f. v f = ToBaseline) files),
     pl_resolved := List.map_filter (\<lambda>f. case v f of Accepted c \<Rightarrow> Some (accepted_entry rc f c) | _ \<Rightarrow> None) files,
     pl_unresolved := List.map_filter (\<lambda>f. case v f of Mismatch c \<Rightarrow> Some (mismatch_entry f c) | _ \<Rightarrow> None) files,
     pl_warnings := (if mc_fail_on_checksum cfg
       then List.map_filter (\<lambda>f. case v f of Mismatch c \<Rightarrow> Some (mismatch_warning f c) | _ \<Rightarrow> None) files
       else [])\<rparr>"

lemma accepts_checksum_get: "accepts_checksum rc now m c c' \<Longrightarrow> rc_get rc m \<noteq> None"
  by (auto simp: accepts_checksum_def split: option.splits)

lemma map_filter_append [simp]: "List.map_filter f (xs @ ys) = List.map_filter f xs @ List.map_filter f ys"
  by (induction xs) (auto simp: map_filter_simps split: option.splits)

lemma plan_file_verdict:
  "plan_file cfg rc now applied p f =
     (case plan_verdict rc now applied f of
        ToSkip \<Rightarrow> p\<lparr>pl_skipped := pl_skipped p @ [mf_id f]\<rparr>
      | ToBaseline \<Rightarrow> p\<lparr>pl_baselines := pl_baselines p @ [mf_id f]\<rparr>
      | ToApply \<Rightarrow> p\<lparr>pl_pending := pl_pending p @ [f]\<rparr>
      | Accepted c \<Rightarrow> p\<lparr>pl_resolved := pl_resolved p @ [accepted_entry rc f c]\<rparr>
      | Mismatch c \<Rightarrow> p\<lparr>pl_unresolved := pl_unresolved p @ [mismatch_entry f c],
          pl_warnings := pl_warnings p @ (if mc_fail_on_checksum cfg then [mismatch_warning f c] else [])\<rparr>
      | UpToDate \<Rightarrow> p)"
proof (cases "should_skip rc now (mf_id f) \<or> is_baseline rc now (mf_id f) \<and> map_of applied (mf_id f) = None")
  case True
  then show ?thesis by (auto simp: plan_file_def plan_verdict_def)
next
  case False
  then have v: "plan_verdict rc now applied f = checksum_verdict rc now (map_of applied (effective_id rc f)) f"
    by (auto simp: plan_verdict_def)
  show ?thesis
  proof (cases "map_of applied (effective_id rc f)")
    case None
    with False v show ?thesis by (auto simp: plan_file_def checksum_verdict_def)
  next
    case (Some c)
    show ?thesis
    proof (cases "accepts_checksum rc now (mf_id f) c (mf_checksum f)")
      case True
      then obtain r where "rc_get rc (mf_id f) = Some r" using accepts_checksum_get by blast
      with True Some False v show ?thesis
        by (auto simp: plan_file_def checksum_verdict_def accepted_entry_def)
    next
      case not_accepted: False
      with Some False v show ?thesis
        by (auto simp: plan_file_def checksum_verdict_def mismatch_entry_def Let_def)
    qed
  qed
qed

lemma foldl_plan_file:
  "foldl (plan_file cfg rc now applied) plan_empty files = plan_of cfg rc (plan_verdict rc now applied) files"
proof (induction files rule: rev_induct)
  case Nil
  then show ?case by (simp add: plan_of_def plan_empty_def map_filter_simps)
next
  case (snoc f files)
  then show ?case
    by (cases "plan_verdict rc now applied f")
       (simp_all add: plan_file_verdict plan_of_def plan_empty_def map_filter_simps)
qed

lemma migrate_file_verdict:
  "migrate_file cfg rc now dur repo applied f h res =
     (case migrate_verdict rc now applied f of
        ToSkip \<Rightarrow> (Inr (res\<lparr>mr_skipped := mr_skipped res @ [mf_id f]\<rparr>), h)
      | Mismatch c \<Rightarrow>
          if mc_fail_on_checksum cfg then (Inl (ChecksumMismatch (mf_id f) c (mf_checksum f)), h) else (Inr res, h)
      | ToBaseline \<Rightarrow> process_file cfg rc now dur repo f h res
      | ToApply \<Rightarrow> process_file cfg rc now dur repo f h res
      | _ \<Rightarrow> (Inr res, h))"
proof (cases "should_skip rc now (mf_id f)")
  case True
  then show ?thesis by (simp add: migrate_file_def migrate_verdict_def)
next
  case False
  then show ?thesis
    by (cases "find (\<lambda>r. hr_id r = effective_id rc f) applied")
       (auto simp: migrate_file_def migrate_verdict_def checksum_verdict_def)
qed

lemma verdict_baseline:
  "migrate_verdict rc now applied f = ToBaseline \<Longrightarrow> is_baseline rc now (mf_id f)"
  "migrate_verdict rc now applied f = ToApply \<Longrightarrow> \<not> is_baseline rc now (mf_id f)"
  by (auto simp: migrate_verdict_def checksum_verdict_def split: verdict.splits if_splits option.splits)

text \<open>The files a run stops at: one to apply, or an unresolved mismatch the configuration rejects.\<close>

definition stops :: "migration_config \<Rightarrow> verdict \<Rightarrow> bool" where
  "stops cfg v = (case v of ToApply \<Rightarrow> True | Mismatch c \<Rightarrow> mc_fail_on_checksum cfg | _ \<Rightarrow> False)"

lemma stops_simps [simp]:
  "\<not> stops cfg ToSkip" "\<not> stops cfg ToBaseline" "stops cfg ToApply" "\<not> stops cfg (Accepted c)"
  "stops cfg (Mismatch c) \<longleftrightarrow> mc_fail_on_checksum cfg" "\<not> stops cfg UpToDate"
  by (simp_all add: stops_def)

definition stop_error :: "verdict \<Rightarrow> migration_file \<Rightarrow> migration_error" where
  "stop_error v f =
     (case v of Mismatch c \<Rightarrow> ChecksumMismatch (mf_id f) c (mf_checksum f)
      | _ \<Rightarrow> ExecutionUnavailable (''cannot apply migration '' @ [SQUOTE] @ mf_id f @ [SQUOTE]
          @ '': no SQL executor is configured on this engine''))"

definition ids_with :: "(migration_file \<Rightarrow> verdict) \<Rightarrow> verdict \<Rightarrow> migration_file list \<Rightarrow> string list" where
  "ids_with v w files = map mf_id (List.filter (\<lambda>f. v f = w) files)"

definition record_baselines ::
  "('h \<Rightarrow> string \<Rightarrow> string \<Rightarrow> 'h) \<Rightarrow> (migration_file \<Rightarrow> verdict) \<Rightarrow> migration_file list \<Rightarrow> 'h \<Rightarrow> 'h" where
  "record_baselines upd v files h =
     foldl (\<lambda>h f. upd h (mf_id f) (mf_checksum f)) h (List.filter (\<lambda>f. v f = ToBaseline) files)"

lemma ids_with_simps [simp]:
  "ids_with v w [] = []" "ids_with v w (f # fs) = (if v f = w then [mf_id f] else []) @ ids_with v w fs"
  by (simp_all add: ids_with_def)

lemma record_baselines_simps [simp]:
  "record_baselines upd v [] h = h"
  "record_baselines upd v (f # fs) h
     = record_baselines upd v fs (if v f = ToBaseline then upd h (mf_id f) (mf_checksum f) else h)"
  by (simp_all add: record_baselines_def)

lemma migrate_loop_run:
  fixes applied :: "migration_record list" and rc :: resolution_config and now :: timestamp
  defines "v \<equiv> migrate_verdict rc now applied"
  assumes live: "\<not> mc_dry_run cfg" and rec: "\<And>h i c. hist_record repo h i c 0 = Inr (upd h i c)"
  shows "migrate_loop cfg rc now dur repo applied files h res =
     (case dropWhile (\<lambda>f. \<not> stops cfg (v f)) files of
        [] \<Rightarrow> Inr (res\<lparr>mr_baselined := mr_baselined res @ ids_with v ToBaseline files,
                 mr_skipped := mr_skipped res @ ids_with v ToSkip files\<rparr>)
      | f # fs \<Rightarrow> Inl (stop_error (v f) f),
      record_baselines upd v (takeWhile (\<lambda>f. \<not> stops cfg (v f)) files) h)"
proof (induction files arbitrary: h res)
  case (Cons f files)
  have m: "migrate_file cfg rc now dur repo applied f h res =
     (case v f of
        ToSkip \<Rightarrow> (Inr (res\<lparr>mr_skipped := mr_skipped res @ [mf_id f]\<rparr>), h)
      | Mismatch c \<Rightarrow>
          if mc_fail_on_checksum cfg then (Inl (ChecksumMismatch (mf_id f) c (mf_checksum f)), h) else (Inr res, h)
      | ToBaseline \<Rightarrow> (Inr (res\<lparr>mr_baselined := mr_baselined res @ [mf_id f]\<rparr>), upd h (mf_id f) (mf_checksum f))
      | ToApply \<Rightarrow> (Inl (stop_error ToApply f), h)
      | _ \<Rightarrow> (Inr res, h))"
    unfolding migrate_file_verdict v_def
    using live rec verdict_baseline [of rc now applied f]
    by (cases "migrate_verdict rc now applied f") (simp_all add: process_file_def apply_migration_def stop_error_def)
  show ?case
    using Cons.IH
    by (cases "v f"; cases "dropWhile (\<lambda>f. \<not> stops cfg (v f)) files")
       (simp_all add: m stop_error_def del: dropWhile_eq_Nil_conv)
qed simp

lemma migrate_loop_dry:
  fixes applied :: "migration_record list" and rc :: resolution_config and now :: timestamp
  defines "v \<equiv> migrate_verdict rc now applied"
  assumes dry: "mc_dry_run cfg"
  shows "snd (migrate_loop cfg rc now dur repo applied files h res) = h"
    and "fst (migrate_loop cfg rc now dur repo applied files h res) = Inr res' \<Longrightarrow>
       mr_applied res' = mr_applied res @ ids_with v ToApply files
     \<and> mr_skipped res' = mr_skipped res @ ids_with v ToSkip files
     \<and> mr_baselined res' = mr_baselined res \<and> mr_applied_count res' = mr_applied_count res
     \<and> length (mr_warnings res') = length (mr_warnings res)
         + length (ids_with v ToApply files) + length (ids_with v ToBaseline files)"
proof (induction files arbitrary: h res)
  case (Cons f files)
  have m: "migrate_file cfg rc now dur repo applied f h res =
     (case v f of
        ToSkip \<Rightarrow> (Inr (res\<lparr>mr_skipped := mr_skipped res @ [mf_id f]\<rparr>), h)
      | Mismatch c \<Rightarrow>
          if mc_fail_on_checksum cfg then (Inl (ChecksumMismatch (mf_id f) c (mf_checksum f)), h) else (Inr res, h)
      | ToBaseline \<Rightarrow> (Inr (res\<lparr>mr_warnings := mr_warnings res @ [''[DRY RUN] Would baseline: '' @ mf_id f]\<rparr>), h)
      | ToApply \<Rightarrow> (Inr (res\<lparr>mr_applied := mr_applied res @ [mf_id f],
           mr_warnings := mr_warnings res @ [''[DRY RUN] Would apply: '' @ mf_id f]\<rparr>), h)
      | _ \<Rightarrow> (Inr res, h))" for h and res :: migration_result
    unfolding migrate_file_verdict v_def
    using dry verdict_baseline [of rc now applied f]
    by (cases "migrate_verdict rc now applied f") (simp_all add: process_file_def)
  {
    case 1
    show ?case using Cons.IH(1) by (cases "v f") (simp_all add: m)
  next
    case 2
    then show ?case using Cons.IH(2) by (cases "v f") (simp_all add: m split: if_splits)
  }
qed simp_all

lemma migrate_loop_dry_error:
  fixes applied :: "migration_record list" and rc :: resolution_config and now :: timestamp
  defines "v \<equiv> migrate_verdict rc now applied"
  assumes dry: "mc_dry_run cfg"
  shows "(\<exists>e. fst (migrate_loop cfg rc now dur repo applied files h res) = Inl e)
     \<longleftrightarrow> mc_fail_on_checksum cfg \<and> list_ex (\<lambda>f. case v f of Mismatch c \<Rightarrow> True | _ \<Rightarrow> False) files"
proof (induction files arbitrary: h res)
  case (Cons f files)
  have "(case v f of Mismatch c \<Rightarrow> mc_fail_on_checksum cfg | _ \<Rightarrow> False)
      \<and> (\<exists>e. migrate_file cfg rc now dur repo applied f h res = (Inl e, h))
     \<or> \<not> (case v f of Mismatch c \<Rightarrow> mc_fail_on_checksum cfg | _ \<Rightarrow> False)
      \<and> (\<exists>res'. migrate_file cfg rc now dur repo applied f h res = (Inr res', h))"
    unfolding migrate_file_verdict v_def
    using dry by (cases "migrate_verdict rc now applied f") (simp_all add: process_file_def)
  then show ?case
  proof (elim disjE conjE exE)
    fix res' assume "migrate_file cfg rc now dur repo applied f h res = (Inr res', h)"
      "\<not> (case v f of Mismatch c \<Rightarrow> mc_fail_on_checksum cfg | _ \<Rightarrow> False)"
    then show ?case using Cons.IH [of h res'] by (cases "v f") simp_all
  next
    fix e assume "migrate_file cfg rc now dur repo applied f h res = (Inl e, h)"
      "case v f of Mismatch c \<Rightarrow> mc_fail_on_checksum cfg | _ \<Rightarrow> False"
    then show ?case by (cases "v f") simp_all
  qed
qed simp

lemma map_of_collect_snoc:
  "map_of (collect_checksums (ps @ [(i, c)])) = (map_of (collect_checksums ps))(i \<mapsto> c)"
  by (simp add: collect_checksums_def hash_map_simps)

lemma map_of_collected:
  "map_of (collect_checksums ps) i = map_option snd (find (\<lambda>p. fst p = i) (rev ps))"
proof (induction ps rule: rev_induct)
  case Nil
  then show ?case by (simp add: collect_checksums_def)
next
  case (snoc p ps)
  then show ?case by (cases p) (simp add: map_of_collect_snoc)
qed

lemma find_distinct_rev:
  "distinct (map g xs) \<Longrightarrow> find (\<lambda>x. g x = i) (rev xs) = find (\<lambda>x. g x = i) xs"
proof (induction xs)
  case (Cons x xs)
  then have "find (\<lambda>y. g y = g x) xs = None" by (auto simp: find_None_iff image_iff)
  with Cons show ?case by (auto simp: find_snoc split: option.splits)
qed simp

lemma recorded_checksum:
  fixes rs :: "migration_record list"
  assumes "distinct (map hr_id rs)"
  shows "map_of (collect_checksums (map (\<lambda>r. (hr_id r, hr_checksum r)) rs)) i
     = map_option hr_checksum (find (\<lambda>r. hr_id r = i) rs)"
proof -
  have "find (\<lambda>p. fst p = i) (map (\<lambda>r. (hr_id r, hr_checksum r)) qs)
      = map_option (\<lambda>r. (hr_id r, hr_checksum r)) (find (\<lambda>r. hr_id r = i) qs)"
    for qs :: "migration_record list"
    by (induction qs) auto
  from this [of "rev rs"] find_distinct_rev [OF assms, of i] show ?thesis
    by (simp add: map_of_collected rev_map option.map_comp comp_def)
qed

lemma plan_migrate_verdict:
  fixes rs :: "migration_record list"
  assumes "distinct (map hr_id rs)" and "get_renamed rc (mf_id f) = None"
  shows "plan_verdict rc now (collect_checksums (map (\<lambda>r. (hr_id r, hr_checksum r)) rs)) f
     = migrate_verdict rc now rs f"
proof -
  have "effective_id rc f = mf_id f" using assms(2) by (simp add: effective_id_def)
  moreover have "is_baseline rc now m \<Longrightarrow> \<not> is_force_applied rc now m" for m
    by (auto simp: is_baseline_def is_force_applied_def split: option.splits)
  ultimately show ?thesis
    using recorded_checksum [OF assms(1), of "mf_id f"]
    by (auto simp: plan_verdict_def migrate_verdict_def checksum_verdict_def split: option.splits)
qed

subsection \<open>Properties\<close>

text \<open>
  C34: Planning sorts every file into exactly the list its verdict calls for, in directory order:
  the pending, skipped, baselined, accepted and mismatched files of the plan are the files with
  that verdict, a warning goes with every unresolved mismatch when the configuration asks for it,
  and an up-to-date file appears nowhere; once the event store and the directory have answered,
  the only error is the history's.
\<close>

theorem plan_sorts_files:
  "(plan_files cfg rc now events repo h files :: migration_error + ('d, 's) migration_plan)
     = (case applied_checksums events repo h of
          Inl e \<Rightarrow> Inl e
        | Inr applied \<Rightarrow> Inr (plan_of cfg rc (plan_verdict rc now applied) files))
 \<and> has_blocking_issues (plan_of cfg rc v files :: ('d, 's) migration_plan)
     = list_ex (\<lambda>f. case v f of Mismatch c \<Rightarrow> True | _ \<Rightarrow> False) files"
proof -
  have "List.map_filter (\<lambda>f. case v f of Mismatch c \<Rightarrow> Some (mismatch_entry f c) | _ \<Rightarrow> None) files = []
      \<longleftrightarrow> \<not> list_ex (\<lambda>f. case v f of Mismatch c \<Rightarrow> True | _ \<Rightarrow> False) files"
    by (induction files) (auto simp: map_filter_simps split: verdict.splits)
  then show ?thesis
    by (simp add: plan_files_def foldl_plan_file has_blocking_issues_def plan_of_def split: sum.splits)
qed

text \<open>
  C6: A real (not dry) run, on a history that accepts records, stops at the first file that would
  have to be applied (no executor is wired in) or whose modification is unresolved, with the
  error that says which; the history it leaves holds exactly the baselines before that file,
  recorded without running, and nothing is ever reported as applied.
\<close>

theorem migrate_records_only_baselines:
  assumes "\<not> mc_dry_run cfg" and "\<And>h i c. hist_record repo h i c 0 = Inr (upd h i c)"
    and "hist_lock repo h = Inr ()" and "hist_applied repo h = Inr applied"
  shows "migrate cfg rc now dur elapsed repo files h
     = (let v = migrate_verdict rc now applied; before = takeWhile (\<lambda>f. \<not> stops cfg (v f)) files in
        (case dropWhile (\<lambda>f. \<not> stops cfg (v f)) files of
           [] \<Rightarrow> Inr \<lparr>mr_applied_count = 0, mr_duration = elapsed, mr_applied = [],
                   mr_baselined = ids_with v ToBaseline files, mr_skipped = ids_with v ToSkip files,
                   mr_warnings = []\<rparr>
         | f # fs \<Rightarrow> Inl (stop_error (v f) f),
         record_baselines upd v before h))"
  by (cases "dropWhile (\<lambda>f. \<not> stops cfg (migrate_verdict rc now applied f)) files")
     (simp_all add: migrate_def assms(3,4) migrate_loop_run [OF assms(1,2)] mr_empty_def Let_def
        del: dropWhile_eq_Nil_conv)

text \<open>The list of recorded (id, checksum) pairs as a repository, for the witnesses.\<close>

definition log_repo :: "(string \<times> string) list history_repo" where
  "log_repo = \<lparr>hist_applied = (\<lambda>h. Inr (map (\<lambda>(i, c). \<lparr>hr_id = i, hr_checksum = c, hr_applied_at = 0,
       hr_duration = 0, hr_rolled_back = False\<rparr>) h)),
     hist_record = (\<lambda>h i c d. Inr (h @ [(i, c)])),
     hist_rollback = (\<lambda>h i. Inr (List.filter (\<lambda>p. fst p \<noteq> i) h)),
     hist_last = (\<lambda>h. Inr None), hist_lock = (\<lambda>h. Inr ())\<rparr>"

theorem migrate_records_only_baselines_witness:
  "migrate mc_default [(''a'', rs_baseline ''a'' ''r'' 0)] 0 0 7 log_repo
     [mf_new id ''a'' [] (''x'', []), mf_new id ''b'' [] (''y'', [])] []
   = (Inl (ExecutionUnavailable (''cannot apply migration '' @ [SQUOTE] @ ''b'' @ [SQUOTE]
        @ '': no SQL executor is configured on this engine'')), [(''a'', ''x'')])"
proof -
  have "hist_record log_repo h i c 0 = Inr (h @ [(i, c)])" for h i c by (simp add: log_repo_def)
  from migrate_records_only_baselines [OF _ this, where cfg = mc_default and h = "[]" and applied = "[]"
      and rc = "[(''a'', rs_baseline ''a'' ''r'' 0)]" and now = 0 and dur = 0 and elapsed = 7
      and files = "[mf_new id ''a'' [] (''x'', []), mf_new id ''b'' [] (''y'', [])]"]
  show ?thesis
    by (simp add: log_repo_def mc_default_def mf_new_def migrate_verdict_def checksum_verdict_def should_skip_def
        is_baseline_def rc_get_def rs_baseline_def rs_make_def rs_is_expired_def stop_error_def)
qed

text \<open>
  A dry run never touches the history, whatever the repository answers; when it succeeds it
  lists the files a real run would apply and would skip, and gives one warning for each file to
  apply or to baseline.
\<close>

theorem dry_run_changes_nothing:
  assumes "mc_dry_run cfg"
  shows "snd (migrate cfg rc now dur elapsed repo files h) = h
     \<and> (\<forall>res. fst (migrate cfg rc now dur elapsed repo files h) = Inr res \<longrightarrow>
          (\<exists>applied. hist_applied repo h = Inr applied
             \<and> mr_applied res = ids_with (migrate_verdict rc now applied) ToApply files
             \<and> mr_skipped res = ids_with (migrate_verdict rc now applied) ToSkip files
             \<and> mr_baselined res = [] \<and> \<not> mr_has_changes res
             \<and> length (mr_warnings res) = length (mr_applied res)
                 + length (ids_with (migrate_verdict rc now applied) ToBaseline files)))"
proof (cases "hist_lock repo h")
  case (Inr u)
  show ?thesis
  proof (cases "hist_applied repo h")
    case (Inr applied)
    define out where "out = migrate_loop cfg rc now dur repo applied files h mr_empty"
    note dry = migrate_loop_dry [OF assms, where rc = rc and now = now and dur = dur and repo = repo
        and applied = applied and files = files and h = h and res = mr_empty, folded out_def]
    have "migrate cfg rc now dur elapsed repo files h
        = (map_sum id (\<lambda>res. res\<lparr>mr_duration := elapsed\<rparr>) (fst out), snd out)"
      using Inr \<open>hist_lock repo h = Inr u\<close>
      by (auto simp: migrate_def out_def [symmetric] split: prod.splits sum.splits)
    with dry(1) dry(2) Inr show ?thesis
      by (cases "fst out") (auto simp: mr_empty_def mr_has_changes_def)
  qed (use Inr in \<open>simp add: migrate_def\<close>)
qed (simp add: migrate_def)

theorem dry_run_changes_nothing_witness:
  "snd (migrate (mc_default\<lparr>mc_dry_run := True\<rparr>) [] 0 0 0 log_repo [mf_new id ''a'' [] (''x'', [])] [(''b'', ''y'')])
   = [(''b'', ''y'')]"
  by (rule dry_run_changes_nothing [THEN conjunct1]) simp

lemma plan_of_blocking:
  "has_blocking_issues (plan_of cfg rc v files :: ('d, 's) migration_plan)
   \<longleftrightarrow> list_ex (\<lambda>f. case v f of Mismatch c \<Rightarrow> True | _ \<Rightarrow> False) files"
  unfolding has_blocking_issues_def plan_of_def
  by (simp, induction files) (auto simp: map_filter_simps split: verdict.splits)

lemma plan_of_lists [simp]:
  "pl_pending (plan_of cfg rc v files) = List.filter (\<lambda>f. v f = ToApply) files"
  "pl_skipped (plan_of cfg rc v files) = ids_with v ToSkip files"
  "pl_baselines (plan_of cfg rc v files) = ids_with v ToBaseline files"
  by (simp_all add: plan_of_def ids_with_def)

lemma plan_of_stops:
  "(dropWhile (\<lambda>f. \<not> stops cfg (v f)) files = [])
   \<longleftrightarrow> pl_pending (plan_of cfg rc v files :: ('d, 's) migration_plan) = []
     \<and> \<not> (mc_fail_on_checksum cfg \<and> has_blocking_issues (plan_of cfg rc v files :: ('d, 's) migration_plan))"
  unfolding plan_of_blocking plan_of_lists dropWhile_eq_Nil_conv
  by (induction files) (auto simp: stops_def split: verdict.splits)

lemma engine_plan_verdicts:
  fixes p :: "('d, 's) migration_plan" and rs :: "migration_record list"
  assumes "hist_applied repo h = Inr rs" and "distinct (map hr_id rs)"
    and "list_all (\<lambda>f. get_renamed rc (mf_id f) = None) files"
    and "engine_plan cfg rc now (Inr []) repo h (Inr files) = Inr p"
  shows "p = plan_of cfg rc (migrate_verdict rc now rs) files"
proof -
  let ?ap = "collect_checksums (map (\<lambda>r. (hr_id r, hr_checksum r)) rs)"
  have "applied_checksums [] repo h = Inr ?ap" using assms(1) by (simp add: applied_checksums_def)
  with assms(4) have "p = plan_of cfg rc (plan_verdict rc now ?ap) files"
    by (simp add: engine_plan_def plan_files_def foldl_plan_file)
  moreover have "plan_verdict rc now ?ap f = migrate_verdict rc now rs f" if "f \<in> set files" for f
    using plan_migrate_verdict [OF assms(2)] assms(3) that by (simp add: list_all_iff)
  then have "plan_of cfg rc (plan_verdict rc now ?ap) files
      = (plan_of cfg rc (migrate_verdict rc now rs) files :: ('d, 's) migration_plan)"
    unfolding plan_of_def List.map_filter_def by (simp cong: filter_cong map_cong)
  ultimately show ?thesis by simp
qed

text \<open>
  C40: Planning predicts migrating.  While the event store is empty, on a history that accepts
  records and lists every migration once, and with no rename of the files at hand, a real run
  after \<open>plan\<close> succeeds exactly when the plan has nothing pending and no mismatch the
  configuration rejects, and then baselines and skips exactly the files the plan lists; a dry run
  fails exactly when the plan has a mismatch the configuration rejects, and otherwise announces
  exactly the plan's pending files as those it would apply.
\<close>

theorem plan_predicts_migrate:
  fixes p :: "('d, 's) migration_plan" and rs :: "migration_record list"
  assumes "\<And>h i c. hist_record repo h i c 0 = Inr (upd h i c)" and "hist_lock repo h = Inr ()"
    and "hist_applied repo h = Inr rs" and "distinct (map hr_id rs)"
    and "list_all (\<lambda>f. get_renamed rc (mf_id f) = None) files"
    and "engine_plan cfg rc now (Inr []) repo h (Inr files) = Inr p"
  shows "(let blocked = mc_fail_on_checksum cfg \<and> has_blocking_issues p;
       real = fst (migrate (cfg\<lparr>mc_dry_run := False\<rparr>) rc now dur elapsed repo files h);
       dry = fst (migrate (cfg\<lparr>mc_dry_run := True\<rparr>) rc now dur elapsed repo files h)
     in (if pl_pending p = [] \<and> \<not> blocked
         then \<exists>res. real = Inr res \<and> mr_applied res = [] \<and> mr_baselined res = pl_baselines p
                \<and> mr_skipped res = pl_skipped p
         else \<exists>e. real = Inl e)
      \<and> (if blocked then \<exists>e. dry = Inl e
         else \<exists>res. dry = Inr res \<and> mr_applied res = map mf_id (pl_pending p)
                \<and> mr_skipped res = pl_skipped p \<and> mr_baselined res = []))"
proof -
  define v where "v = migrate_verdict rc now rs"
  have p: "p = plan_of cfg rc v files"
    using engine_plan_verdicts [OF assms(3-6)] by (simp add: v_def)
  define blocked where "blocked \<longleftrightarrow> mc_fail_on_checksum cfg \<and> has_blocking_issues p"
  define c0 where "c0 = cfg\<lparr>mc_dry_run := False\<rparr>"
  define c1 where "c1 = cfg\<lparr>mc_dry_run := True\<rparr>"
  have live: "\<not> mc_dry_run c0" and wet: "mc_dry_run c1"
    and same: "mc_fail_on_checksum c1 = mc_fail_on_checksum cfg"
    and stops: "stops c0 = stops cfg"
    by (auto simp: c0_def c1_def fun_eq_iff stops_def split: verdict.splits)
  have real: "if pl_pending p = [] \<and> \<not> blocked
      then \<exists>res. fst (migrate c0 rc now dur elapsed repo files h) = Inr res \<and> mr_applied res = []
        \<and> mr_baselined res = pl_baselines p \<and> mr_skipped res = pl_skipped p
      else \<exists>e. fst (migrate c0 rc now dur elapsed repo files h) = Inl e"
    using migrate_loop_run [OF live assms(1), where rc = rc and now = now and dur = dur and applied = rs and files = files and h = h and res = mr_empty, folded v_def] assms(2,3)
      plan_of_stops [of cfg v files rc, where 'd = 'd and 's = 's]
    unfolding blocked_def p stops
    by (cases "dropWhile (\<lambda>f. \<not> stops cfg (v f)) files")
       (auto simp: migrate_def mr_empty_def simp del: dropWhile_eq_Nil_conv)
  have err: "(\<exists>e. fst (migrate_loop c1 rc now dur repo rs files h mr_empty) = Inl e) \<longleftrightarrow> blocked"
    using migrate_loop_dry_error [OF wet, where rc = rc and now = now and dur = dur and repo = repo and applied = rs and files = files and h = h and res = mr_empty, folded v_def]
    unfolding blocked_def p plan_of_blocking same by simp
  have "fst (migrate c1 rc now dur elapsed repo files h)
      = map_sum id (\<lambda>res. res\<lparr>mr_duration := elapsed\<rparr>) (fst (migrate_loop c1 rc now dur repo rs files h mr_empty))"
    using assms(2,3) by (auto simp: migrate_def split: prod.splits sum.splits)
  then have dry: "if blocked then \<exists>e. fst (migrate c1 rc now dur elapsed repo files h) = Inl e
      else \<exists>res. fst (migrate c1 rc now dur elapsed repo files h) = Inr res
        \<and> mr_applied res = map mf_id (pl_pending p) \<and> mr_skipped res = pl_skipped p \<and> mr_baselined res = []"
    using err migrate_loop_dry(2) [OF wet, where rc = rc and now = now and dur = dur and repo = repo and applied = rs and files = files and h = h and res = mr_empty, folded v_def]
    by (cases "fst (migrate_loop c1 rc now dur repo rs files h mr_empty)")
       (auto simp: p ids_with_def mr_empty_def)
  show ?thesis
    unfolding Let_def blocked_def [symmetric] c0_def [symmetric] c1_def [symmetric]
    using real dry by blast
qed

theorem plan_predicts_migrate_witness:
  "\<exists>res. fst (migrate mc_default [(''a'', rs_baseline ''a'' ''r'' 0)] 0 0 7 log_repo
       [mf_new id ''a'' [] (''x'', [])] []) = Inr res \<and> mr_baselined res = [''a'']"
proof -
  define p :: "(unit, unit) migration_plan" where "p = plan_empty\<lparr>pl_baselines := [''a'']\<rparr>"
  have rec: "hist_record log_repo h i c 0 = Inr (h @ [(i, c)])" for h i c by (simp add: log_repo_def)
  have "engine_plan mc_default [(''a'', rs_baseline ''a'' ''r'' 0)] 0 (Inr []) log_repo []
      (Inr [mf_new id ''a'' [] (''x'', [])]) = Inr p"
    by (simp add: p_def engine_plan_def plan_files_def applied_checksums_def log_repo_def collect_checksums_def
        plan_file_def mf_new_def should_skip_def is_baseline_def rc_get_def rs_baseline_def rs_make_def
        rs_is_expired_def plan_empty_def)
  from plan_predicts_migrate [OF rec _ _ _ _ this, of "[]" 0 7]
  have "\<exists>res. fst (migrate (mc_default\<lparr>mc_dry_run := False\<rparr>) [(''a'', rs_baseline ''a'' ''r'' 0)] 0 0 7 log_repo
       [mf_new id ''a'' [] (''x'', [])] []) = Inr res \<and> mr_baselined res = [''a'']"
    by (auto simp: log_repo_def p_def plan_empty_def has_blocking_issues_def get_renamed_def rs_baseline_def
        rs_make_def Let_def)
  moreover have "mc_default\<lparr>mc_dry_run := False\<rparr> = mc_default" by (simp add: mc_default_def)
  ultimately show ?thesis by simp
qed

text \<open>With events in the store the two part: planning replays the log, migrating reads the
  history table only.\<close>

lemma plan_reads_events:
  "applied_checksums (get_all_events (snd (append_event store_new ''a'' Applied (DApplied ''x'' 0 None None False) 3)))
      log_repo [] = Inr [(''a'', ''x'')]
   \<and> plan_verdict [] 0 [(''a'', ''x'')] (mf_new id ''a'' [] (''x'', [])) = UpToDate
   \<and> migrate_verdict [] 0 [] (mf_new id ''a'' [] (''x'', [])) = ToApply"
proof -
  have "get_all_events (snd (append_event store_new ''a'' Applied (DApplied ''x'' 0 None None False) 3))
    = [\<lparr>ev_id = 1, ev_migration = ''a'', ev_type = Applied, ev_data = DApplied ''x'' 0 None None False, ev_created = 3\<rparr>]"
    by (simp add: append_event_def alloc_id_def push_event_def get_all_events_def store_new_def)
  then show ?thesis
    by (simp add: applied_checksums_def from_events_def replay_event_def state_get_applied_def collect_checksums_def
        plan_verdict_def migrate_verdict_def checksum_verdict_def should_skip_def is_baseline_def rc_get_def
        effective_id_def get_renamed_def mf_new_def status_new_def Let_def)
qed

text \<open>
  A rename resolution does not carry the applied state over to the new id: although the old
  id is recorded with the very checksum of the file, the file under its new id is planned for
  application again.
\<close>

theorem renamed_migration_is_pending:
  assumes "rc_get rc (mf_id f) = Some r" and "rs_action r = Rename old_id" and "old_id \<noteq> mf_id f"
    and "get_renamed rc (mf_id f) = None"
    and "map_of applied (mf_id f) = None" and "map_of applied old_id = Some (mf_checksum f)"
  shows "plan_verdict rc now applied f = ToApply"
  using assms by (simp add: plan_verdict_def should_skip_def is_baseline_def checksum_verdict_def effective_id_def)

theorem renamed_migration_is_pending_witness:
  "plan_verdict (rc_add [] (rs_rename ''new'' ''old'' ''r'' 0)) 0 [(''old'', ''x'')]
     (mf_new id ''new'' [] (''x'', [])) = ToApply"
  by (rule renamed_migration_is_pending [of _ _ "rs_rename ''new'' ''old'' ''r'' 0" "''old''"])
     (auto simp: rc_get_def rc_add_def rs_rename_def rs_make_def mf_new_def get_renamed_def)

text \<open>
  Rolling back never changes the history: it is a dry run, there is nothing to roll back, the
  file or its down migration is missing, or no executor is available.
\<close>

theorem rollback_changes_nothing:
  "snd (rollback cfg repo files h) = h
 \<and> (mc_dry_run cfg \<or> fst (rollback cfg repo files h) \<in> insert (Inr None) (range Inl))"
  by (auto simp: rollback_def rollback_migration_def split: sum.splits option.splits)

text \<open>
  The status of an event-sourced history: as many migrations are applied as the replay says,
  each once, and the pending ones are the files the replay does not list as applied.
\<close>

theorem status_follows_replay:
  assumes "events \<noteq> []"
  shows "\<exists>st. status now events repo files h = Inr st
     \<and> st_total_applied st = card {m. state_is_applied (from_events events) m}
     \<and> set (map hr_id (st_applied st)) = {m. state_is_applied (from_events events) m}
     \<and> st_pending st = map mf_id (List.filter (\<lambda>f. \<not> state_is_applied (from_events events) (mf_id f)) files)
     \<and> st_total_pending st = length (st_pending st)"
proof -
  let ?ap = "state_get_applied (from_events events)"
  have ids: "set (map ms_migration ?ap) = {m. state_is_applied (from_events events) m}"
    and "distinct (map ms_migration ?ap)"
    using applied_list_spec [of events] by auto
  then have "length ?ap = card {m. state_is_applied (from_events events) m}"
    by (metis distinct_card length_map)
  with ids assms show ?thesis by (simp add: status_def Let_def comp_def image_image)
qed

theorem status_follows_replay_witness:
  "\<exists>st. status 0 (get_all_events (snd (append_event store_new ''a'' Applied (DApplied ''x'' 0 None None False) 3)))
       log_repo [mf_new id ''b'' [] (''y'', [])] [] = Inr st
     \<and> st_total_applied st = 1 \<and> st_pending st = [''b'']"
proof -
  let ?evs = "get_all_events (snd (append_event store_new ''a'' Applied (DApplied ''x'' 0 None None False) 3))"
  have evs: "?evs = [\<lparr>ev_id = 1, ev_migration = ''a'', ev_type = Applied,
      ev_data = DApplied ''x'' 0 None None False, ev_created = 3\<rparr>]"
    by (simp add: append_event_def alloc_id_def push_event_def get_all_events_def store_new_def)
  have "{m. state_is_applied (from_events ?evs) m} = {''a''}"
    by (auto simp: evs from_events_def state_is_applied_def replay_event_def Let_def split: if_splits)
  moreover have "?evs \<noteq> []" by (simp add: evs)
  ultimately show ?thesis
    using status_follows_replay [of ?evs 0 log_repo "[mf_new id ''b'' [] (''y'', [])]" "[]"]
    by (auto simp: mf_new_def set_eq_iff)
qed

end
