(* ===== verification/Tenant_Cache.thy ===== *)
theory Tenant_Cache
  imports Hash_Maps "HOL-Library.Multiset"
begin

text \<open>
  The tenant cache (\<^verbatim>\<open>prax-query/src/tenant/cache.rs\<close>): entries with a time to live,
  negative entries, eviction at capacity, metrics, and the sharded variant.  A tenant id is its
  string, a context is a value of the parameter type \<open>'c\<close>.  Instants and durations are natural
  numbers; the clock is the argument \<open>now\<close>.  The refresh threshold, a floating-point factor, is the
  function \<open>cc_refresh_after\<close> it induces on durations (\<^verbatim>\<open>Duration::mul_f64\<close>).
\<close>

type_synonym instant = nat
type_synonym duration = nat

record cache_config =
  cc_max_entries :: nat
  cc_ttl :: duration
  cc_negative_ttl :: duration
  cc_background_refresh :: bool
  cc_refresh_after :: "duration \<Rightarrow> duration"
  cc_enable_metrics :: bool

definition cc_with_ttl :: "cache_config \<Rightarrow> duration \<Rightarrow> cache_config" where
  "cc_with_ttl c t = c\<lparr>cc_ttl := t\<rparr>"
definition cc_with_negative_ttl :: "cache_config \<Rightarrow> duration \<Rightarrow> cache_config" where
  "cc_with_negative_ttl c t = c\<lparr>cc_negative_ttl := t\<rparr>"
definition cc_without_background_refresh :: "cache_config \<Rightarrow> cache_config" where
  "cc_without_background_refresh c = c\<lparr>cc_background_refresh := False\<rparr>"
definition cc_without_metrics :: "cache_config \<Rightarrow> cache_config" where
  "cc_without_metrics c = c\<lparr>cc_enable_metrics := False\<rparr>"

text \<open>Durations are in nanoseconds; \<open>after\<close> is the refresh threshold.\<close>

definition cc_default :: "(duration \<Rightarrow> duration) \<Rightarrow> cache_config" where
  "cc_default after = \<lparr>cc_max_entries = 10000, cc_ttl = 300 * 10 ^ 9, cc_negative_ttl = 60 * 10 ^ 9,
     cc_background_refresh = True, cc_refresh_after = after, cc_enable_metrics = True\<rparr>"
definition cc_new :: "(duration \<Rightarrow> duration) \<Rightarrow> nat \<Rightarrow> cache_config" where
  "cc_new after n = (cc_default after)\<lparr>cc_max_entries := n\<rparr>"

record 'c cache_entry =
  ce_context :: "'c option"
  ce_created :: instant
  ce_expires :: instant
  ce_refreshing :: bool
  ce_access_count :: u64

definition ce_positive :: "instant \<Rightarrow> 'c \<Rightarrow> duration \<Rightarrow> 'c cache_entry" where
  "ce_positive now ctx ttl = \<lparr>ce_context = Some ctx, ce_created = now, ce_expires = now + ttl,
     ce_refreshing = False, ce_access_count = 1\<rparr>"
definition ce_negative :: "instant \<Rightarrow> duration \<Rightarrow> 'c cache_entry" where
  "ce_negative now ttl = \<lparr>ce_context = None, ce_created = now, ce_expires = now + ttl,
     ce_refreshing = False, ce_access_count = 1\<rparr>"
definition ce_is_expired :: "instant \<Rightarrow> 'c cache_entry \<Rightarrow> bool" where
  "ce_is_expired now e \<longleftrightarrow> now \<ge> ce_expires e"
definition ce_should_refresh :: "instant \<Rightarrow> (duration \<Rightarrow> duration) \<Rightarrow> 'c cache_entry \<Rightarrow> bool" where
  "ce_should_refresh now after e =
     (if ce_refreshing e then False
      else now - ce_created e \<ge> after (ce_expires e - ce_created e))"
definition ce_remaining_ttl :: "instant \<Rightarrow> 'c cache_entry \<Rightarrow> duration" where
  "ce_remaining_ttl now e = ce_expires e - now"

record cache_metrics =
  cx_hits :: u64
  cx_misses :: u64
  cx_negative_hits :: u64
  cx_evictions :: u64
  cx_expirations :: u64
  cx_refreshes :: u64

definition cx_new :: cache_metrics where
  "cx_new = \<lparr>cx_hits = 0, cx_misses = 0, cx_negative_hits = 0, cx_evictions = 0, cx_expirations = 0,
     cx_refreshes = 0\<rparr>"
definition record_hit :: "cache_metrics \<Rightarrow> cache_metrics" where "record_hit x = x\<lparr>cx_hits := cx_hits x + 1\<rparr>"
definition record_miss :: "cache_metrics \<Rightarrow> cache_metrics" where "record_miss x = x\<lparr>cx_misses := cx_misses x + 1\<rparr>"
definition record_negative_hit :: "cache_metrics \<Rightarrow> cache_metrics" where
  "record_negative_hit x = x\<lparr>cx_negative_hits := cx_negative_hits x + 1\<rparr>"
definition record_eviction :: "cache_metrics \<Rightarrow> cache_metrics" where
  "record_eviction x = x\<lparr>cx_evictions := cx_evictions x + 1\<rparr>"
definition record_expiration :: "cache_metrics \<Rightarrow> cache_metrics" where
  "record_expiration x = x\<lparr>cx_expirations := cx_expirations x + 1\<rparr>"
definition record_background_refresh :: "cache_metrics \<Rightarrow> cache_metrics" where
  "record_background_refresh x = x\<lparr>cx_refreshes := cx_refreshes x + 1\<rparr>"

datatype 'c cache_lookup = Hit 'c | NegativeHit | Miss | Stale 'c

record 'c tenant_cache =
  tc_config :: cache_config
  tc_entries :: "(string, 'c cache_entry) hash_map"
  tc_metrics :: cache_metrics

definition tc_new :: "cache_config \<Rightarrow> 'c tenant_cache" where
  "tc_new cfg = \<lparr>tc_config = cfg, tc_entries = [], tc_metrics = cx_new\<rparr>"

definition tc_lookup :: "instant \<Rightarrow> string \<Rightarrow> 'c tenant_cache \<Rightarrow> 'c cache_lookup \<times> 'c tenant_cache" where
  "tc_lookup now k c =
     (case map_of (tc_entries c) k of
        Some e \<Rightarrow>
          if ce_is_expired now e then (Miss, c\<lparr>tc_metrics := record_expiration (tc_metrics c)\<rparr>)
          else (case ce_context e of
            None \<Rightarrow> (NegativeHit, c\<lparr>tc_metrics := record_negative_hit (tc_metrics c)\<rparr>)
          | Some ctx \<Rightarrow>
              if cc_background_refresh (tc_config c)
                 \<and> ce_should_refresh now (cc_refresh_after (tc_config c)) e
              then (Stale ctx, c\<lparr>tc_metrics := record_hit (tc_metrics c)\<rparr>)
              else (Hit ctx, c\<lparr>tc_metrics := record_hit (tc_metrics c)\<rparr>))
      | None \<Rightarrow> (Miss, c\<lparr>tc_metrics := record_miss (tc_metrics c)\<rparr>))"

text \<open>\<^verbatim>\<open>Iterator::min_by_key\<close>: the first entry with the least access count.\<close>

fun min_by_access :: "(string, 'c cache_entry) hash_map \<Rightarrow> (string \<times> 'c cache_entry) option" where
  "min_by_access [] = None"
| "min_by_access (p # ps) =
     (case min_by_access ps of
        None \<Rightarrow> Some p
      | Some q \<Rightarrow> if ce_access_count (snd p) \<le> ce_access_count (snd q) then Some p else Some q)"

definition evict_one :: "instant \<Rightarrow> 'c tenant_cache \<Rightarrow> 'c tenant_cache" where
  "evict_one now c =
     (case find (\<lambda>(k, e). ce_is_expired now e) (tc_entries c) of
        Some (k, e) \<Rightarrow> c\<lparr>tc_entries := AList.delete k (tc_entries c),
          tc_metrics := record_expiration (tc_metrics c)\<rparr>
      | None \<Rightarrow>
          (case min_by_access (tc_entries c) of
             Some (k, e) \<Rightarrow> c\<lparr>tc_entries := AList.delete k (tc_entries c),
               tc_metrics := record_eviction (tc_metrics c)\<rparr>
           | None \<Rightarrow> c))"

text \<open>The common tail of \<open>insert\<close> and \<open>insert_negative\<close>.\<close>

definition tc_put :: "instant \<Rightarrow> string \<Rightarrow> 'c cache_entry \<Rightarrow> 'c tenant_cache \<Rightarrow> 'c tenant_cache" where
  "tc_put now k e c =
     (let c = (if length (tc_entries c) \<ge> cc_max_entries (tc_config c) \<and> map_of (tc_entries c) k = None
               then evict_one now c else c)
      in c\<lparr>tc_entries := AList.update k e (tc_entries c)\<rparr>)"

definition tc_insert :: "instant \<Rightarrow> string \<Rightarrow> 'c \<Rightarrow> 'c tenant_cache \<Rightarrow> 'c tenant_cache" where
  "tc_insert now k ctx c = tc_put now k (ce_positive now ctx (cc_ttl (tc_config c))) c"
definition tc_insert_negative :: "instant \<Rightarrow> string \<Rightarrow> 'c tenant_cache \<Rightarrow> 'c tenant_cache" where
  "tc_insert_negative now k c = tc_put now k (ce_negative now (cc_negative_ttl (tc_config c))) c"
definition tc_invalidate :: "string \<Rightarrow> 'c tenant_cache \<Rightarrow> 'c tenant_cache" where
  "tc_invalidate k c = c\<lparr>tc_entries := AList.delete k (tc_entries c)\<rparr>"
definition tc_invalidate_if :: "(string \<Rightarrow> 'c \<Rightarrow> bool) \<Rightarrow> 'c tenant_cache \<Rightarrow> 'c tenant_cache" where
  "tc_invalidate_if p c = c\<lparr>tc_entries := List.filter
     (\<lambda>(k, e). case ce_context e of Some ctx \<Rightarrow> \<not> p k ctx | None \<Rightarrow> True) (tc_entries c)\<rparr>"
definition tc_clear :: "'c tenant_cache \<Rightarrow> 'c tenant_cache" where
  "tc_clear c = c\<lparr>tc_entries := []\<rparr>"
definition tc_len :: "'c tenant_cache \<Rightarrow> nat" where
  "tc_len c = length (tc_entries c)"
definition tc_is_empty :: "'c tenant_cache \<Rightarrow> bool" where
  "tc_is_empty c \<longleftrightarrow> tc_len c = 0"
definition tc_reset_metrics :: "'c tenant_cache \<Rightarrow> 'c tenant_cache" where
  "tc_reset_metrics c = c\<lparr>tc_metrics := cx_new\<rparr>"

definition tc_evict_expired :: "instant \<Rightarrow> 'c tenant_cache \<Rightarrow> nat \<times> 'c tenant_cache" where
  "tc_evict_expired now c =
     (let kept = List.filter (\<lambda>(k, e). \<not> ce_is_expired now e) (tc_entries c);
          evicted = length (tc_entries c) - length kept
      in (evicted, c\<lparr>tc_entries := kept, tc_metrics := (record_expiration ^^ evicted) (tc_metrics c)\<rparr>))"

definition tc_mark_refreshing :: "string \<Rightarrow> 'c tenant_cache \<Rightarrow> bool \<times> 'c tenant_cache" where
  "tc_mark_refreshing k c =
     (case map_of (tc_entries c) k of
        Some e \<Rightarrow>
          if \<not> ce_refreshing e
          then (True, c\<lparr>tc_entries := AList.update k (e\<lparr>ce_refreshing := True\<rparr>) (tc_entries c),
            tc_metrics := record_background_refresh (tc_metrics c)\<rparr>)
          else (False, c)
      | None \<Rightarrow> (False, c))"
definition tc_complete_refresh :: "instant \<Rightarrow> string \<Rightarrow> 'c \<Rightarrow> 'c tenant_cache \<Rightarrow> 'c tenant_cache" where
  "tc_complete_refresh now k ctx c = c\<lparr>tc_entries :=
     AList.update k (ce_positive now ctx (cc_ttl (tc_config c))) (tc_entries c)\<rparr>"

text \<open>\<open>fetched\<close> is what the source answers; the lookup and the insertion that follows a fetch read
  the clock at \<open>now\<close> and \<open>now'\<close>.\<close>

definition tc_get_or_fetch ::
  "instant \<Rightarrow> instant \<Rightarrow> string \<Rightarrow> 'c option \<Rightarrow> 'c tenant_cache \<Rightarrow> 'c option \<times> 'c tenant_cache" where
  "tc_get_or_fetch now now' k fetched c =
     (case tc_lookup now k c of
        (Hit ctx, c) \<Rightarrow> (Some ctx, c)
      | (NegativeHit, c) \<Rightarrow> (None, c)
      | (Stale ctx, c) \<Rightarrow> (Some ctx, c)
      | (Miss, c) \<Rightarrow>
          (case fetched of
             Some ctx \<Rightarrow> (Some ctx, tc_insert now' k ctx c)
           | None \<Rightarrow> (None, tc_insert_negative now' k c)))"

subsection \<open>The sharded cache\<close>

type_synonym 'c sharded_cache = "'c tenant_cache list"

text \<open>\<^verbatim>\<open>new\<close> divides by the shard count: zero shards panic.\<close>

definition sc_new :: "nat \<Rightarrow> cache_config \<Rightarrow> 'c sharded_cache option" where
  "sc_new shard_count cfg =
     (if shard_count = 0 then None
      else Some (replicate shard_count
        (tc_new (cfg\<lparr>cc_max_entries := max (cc_max_entries cfg div shard_count) 100\<rparr>))))"

definition shard_hash :: "string \<Rightarrow> u64" where
  "shard_hash k = foldl (\<lambda>acc b. acc * 31 + of_nat (of_char b)) 0 k"
definition shard_index :: "'c sharded_cache \<Rightarrow> string \<Rightarrow> nat" where
  "shard_index s k = unat (shard_hash k) mod length s"

definition sc_lookup :: "instant \<Rightarrow> string \<Rightarrow> 'c sharded_cache \<Rightarrow> 'c cache_lookup \<times> 'c sharded_cache" where
  "sc_lookup now k s =
     (let (r, c) = tc_lookup now k (s ! shard_index s k) in (r, s[shard_index s k := c]))"
definition sc_insert :: "instant \<Rightarrow> string \<Rightarrow> 'c \<Rightarrow> 'c sharded_cache \<Rightarrow> 'c sharded_cache" where
  "sc_insert now k ctx s = s[shard_index s k := tc_insert now k ctx (s ! shard_index s k)]"
definition sc_insert_negative :: "instant \<Rightarrow> string \<Rightarrow> 'c sharded_cache \<Rightarrow> 'c sharded_cache" where
  "sc_insert_negative now k s = s[shard_index s k := tc_insert_negative now k (s ! shard_index s k)]"
definition sc_invalidate :: "string \<Rightarrow> 'c sharded_cache \<Rightarrow> 'c sharded_cache" where
  "sc_invalidate k s = s[shard_index s k := tc_invalidate k (s ! shard_index s k)]"
definition sc_clear :: "'c sharded_cache \<Rightarrow> 'c sharded_cache" where
  "sc_clear s = map tc_clear s"
definition sc_len :: "'c sharded_cache \<Rightarrow> nat" where
  "sc_len s = sum_list (map tc_len s)"
definition sc_is_empty :: "'c sharded_cache \<Rightarrow> bool" where
  "sc_is_empty s = list_all tc_is_empty s"
definition sc_evict_expired :: "instant \<Rightarrow> 'c sharded_cache \<Rightarrow> nat \<times> 'c sharded_cache" where
  "sc_evict_expired now s =
     (sum_list (map (\<lambda>c. fst (tc_evict_expired now c)) s), map (\<lambda>c. snd (tc_evict_expired now c)) s)"

definition sc_get_or_fetch ::
  "instant \<Rightarrow> instant \<Rightarrow> string \<Rightarrow> 'c option \<Rightarrow> 'c sharded_cache \<Rightarrow> 'c option \<times> 'c sharded_cache" where
  "sc_get_or_fetch now now' k fetched s =
     (let (r, c) = tc_get_or_fetch now now' k fetched (s ! shard_index s k)
      in (r, s[shard_index s k := c]))"

text \<open>The snapshot of a cache: its counters and its size; the sharded cache adds the snapshots up.\<close>

definition tc_snapshot :: "'c tenant_cache \<Rightarrow> cache_metrics \<times> nat" where
  "tc_snapshot c = (tc_metrics c, tc_len c)"
definition add_metrics :: "cache_metrics \<Rightarrow> cache_metrics \<Rightarrow> cache_metrics" where
  "add_metrics x y = \<lparr>cx_hits = cx_hits x + cx_hits y, cx_misses = cx_misses x + cx_misses y,
     cx_negative_hits = cx_negative_hits x + cx_negative_hits y,
     cx_evictions = cx_evictions x + cx_evictions y,
     cx_expirations = cx_expirations x + cx_expirations y,
     cx_refreshes = cx_refreshes x + cx_refreshes y\<rparr>"
definition sc_snapshot :: "'c sharded_cache \<Rightarrow> cache_metrics \<times> nat" where
  "sc_snapshot s = foldl (\<lambda>(x, n) c. (add_metrics x (fst (tc_snapshot c)), n + snd (tc_snapshot c)))
     (cx_new, 0) s"

subsection \<open>The invariant and the interface\<close>

definition tc_wf :: "'c tenant_cache \<Rightarrow> bool" where
  "tc_wf c = keys_distinct (tc_entries c)"

definition tc_get :: "'c tenant_cache \<Rightarrow> string \<Rightarrow> 'c cache_entry option" where
  "tc_get c k = map_of (tc_entries c) k"

lemma evict_one_cases:
  fixes c :: "'c tenant_cache"
  obtains (kept) "tc_entries c = []" "evict_one now c = c"
  | (removed) k m where "map_of (tc_entries c) k \<noteq> None"
      "evict_one now c = c\<lparr>tc_entries := AList.delete k (tc_entries c), tc_metrics := m\<rparr>"
proof -
  have key: "p \<in> set m \<Longrightarrow> map_of m (fst p) \<noteq> None" for p :: "string \<times> 'c cache_entry" and m
    by (simp add: map_of_eq_None_iff)
  have min: "min_by_access m = Some p \<Longrightarrow> p \<in> set m" for p and m :: "(string, 'c cache_entry) hash_map"
    by (induction m arbitrary: p) (auto split: option.splits if_splits)
  have none: "min_by_access m = None \<Longrightarrow> m = []" for m :: "(string, 'c cache_entry) hash_map"
    by (cases m) (auto split: option.splits if_splits)
  show ?thesis
  proof (cases "find (\<lambda>(k, e). ce_is_expired now e) (tc_entries c)")
    case (Some p)
    then have "p \<in> set (tc_entries c)" by (auto simp: find_Some_iff) (metis nth_mem)
    with key [OF this] Some show ?thesis
      by (intro removed [of "fst p"]) (auto simp: evict_one_def split: prod.splits)
  next
    case find_None: None
    show ?thesis
    proof (cases "min_by_access (tc_entries c)")
      case (Some p)
      with key [OF min [OF Some]] find_None show ?thesis
        by (intro removed [of "fst p"]) (auto simp: evict_one_def split: prod.splits)
    next
      case None
      with none [OF None] find_None show ?thesis by (intro kept) (simp_all add: evict_one_def)
    qed
  qed
qed

lemma evict_one_wf: "tc_wf c \<Longrightarrow> tc_wf (evict_one now c)"
  by (cases rule: evict_one_cases [where c = c and now = now]) (simp_all add: tc_wf_def)

lemma evict_one_get: "tc_get (evict_one now c) k \<noteq> None \<Longrightarrow> tc_get (evict_one now c) k = tc_get c k"
  by (cases rule: evict_one_cases [where c = c and now = now]) (auto simp: tc_get_def hash_map_simps split: if_splits)

lemma evict_one_length:
  "tc_wf c \<Longrightarrow> length (tc_entries (evict_one now c)) = length (tc_entries c) - 1"
  by (cases rule: evict_one_cases [where c = c and now = now]) (auto simp: tc_wf_def length_delete_hm)

lemma evict_one_config [simp]: "tc_config (evict_one now c) = tc_config c"
  by (cases rule: evict_one_cases [where c = c and now = now]) simp_all

lemma tc_put_wf: "tc_wf c \<Longrightarrow> tc_wf (tc_put now k e c)"
  using evict_one_wf [of c now] by (simp add: tc_put_def Let_def tc_wf_def)

lemma tc_put_get: "tc_get (tc_put now k e c) k = Some e"
  by (simp add: tc_put_def Let_def tc_get_def hash_map_simps)

lemma tc_put_get_other:
  "k' \<noteq> k \<Longrightarrow> tc_get (tc_put now k e c) k' \<noteq> None \<Longrightarrow> tc_get (tc_put now k e c) k' = tc_get c k'"
  using evict_one_get [of now c k'] by (auto simp: tc_put_def Let_def tc_get_def hash_map_simps split: if_splits)

lemma tc_put_length:
  assumes "tc_wf c"
  shows "tc_len (tc_put now k e c) \<le> max (tc_len c) (max 1 (cc_max_entries (tc_config c)))"
  using evict_one_length [OF assms, of now] evict_one_get [of now c k]
  by (auto simp: tc_put_def Let_def tc_len_def length_update_hm tc_get_def)

lemma tc_put_config [simp]: "tc_config (tc_put now k e c) = tc_config c"
  by (simp add: tc_put_def Let_def)

text \<open>
  What a reader can see of an entry is when it was written and what it holds; the invariant of the
  cache is that keys are distinct and every entry expires one time to live after it was written.
\<close>

definition tc_view :: "'c tenant_cache \<Rightarrow> string \<Rightarrow> (instant \<times> 'c option) option" where
  "tc_view c k = map_option (\<lambda>e. (ce_created e, ce_context e)) (tc_get c k)"

definition ttl_of :: "cache_config \<Rightarrow> 'c option \<Rightarrow> duration" where
  "ttl_of cfg x = (case x of None \<Rightarrow> cc_negative_ttl cfg | Some _ \<Rightarrow> cc_ttl cfg)"

definition tc_ok :: "cache_config \<Rightarrow> 'c tenant_cache \<Rightarrow> bool" where
  "tc_ok cfg c \<longleftrightarrow> tc_config c = cfg \<and> tc_wf c \<and>
     (\<forall>k e. tc_get c k = Some e \<longrightarrow> ce_expires e = ce_created e + ttl_of cfg (ce_context e))"

definition tc_store_entry :: "'c tenant_cache \<Rightarrow> string \<Rightarrow> instant \<times> 'c option \<Rightarrow> 'c tenant_cache" where
  "tc_store_entry c k p =
     (case snd p of Some ctx \<Rightarrow> tc_insert (fst p) k ctx c | None \<Rightarrow> tc_insert_negative (fst p) k c)"

definition entry_for :: "cache_config \<Rightarrow> instant \<times> 'c option \<Rightarrow> 'c cache_entry" where
  "entry_for cfg p = (case snd p of Some ctx \<Rightarrow> ce_positive (fst p) ctx (cc_ttl cfg)
     | None \<Rightarrow> ce_negative (fst p) (cc_negative_ttl cfg))"

lemma entry_for_simps [simp]:
  "ce_created (entry_for cfg p) = fst p" "ce_context (entry_for cfg p) = snd p"
  "ce_expires (entry_for cfg p) = fst p + ttl_of cfg (snd p)"
  by (auto simp: entry_for_def ttl_of_def ce_positive_def ce_negative_def split: option.splits)

lemma tc_store_entry_put: "tc_store_entry c k p = tc_put (fst p) k (entry_for (tc_config c) p) c"
  by (auto simp: tc_store_entry_def entry_for_def tc_insert_def tc_insert_negative_def split: option.splits)

lemma tc_ok_new: "tc_ok cfg (tc_new cfg)"
  by (simp add: tc_ok_def tc_new_def tc_wf_def tc_get_def)

lemma tc_ok_put:
  assumes "tc_ok cfg c" and "ce_expires e = ce_created e + ttl_of cfg (ce_context e)"
  shows "tc_ok cfg (tc_put now k e c)"
proof -
  have "ce_expires x = ce_created x + ttl_of cfg (ce_context x)" if "tc_get (tc_put now k e c) k' = Some x" for k' x
    using that assms tc_put_get [of now k e c] tc_put_get_other [of k' k now e c]
    by (cases "k' = k") (auto simp: tc_ok_def)
  with assms show ?thesis by (simp add: tc_ok_def tc_put_wf)
qed

lemma tc_view_put: "tc_view (tc_put now k e c) k = Some (ce_created e, ce_context e)"
  by (simp add: tc_view_def tc_put_get)

lemma tc_view_put_other:
  "k' \<noteq> k \<Longrightarrow> tc_view (tc_put now k e c) k' \<noteq> None \<Longrightarrow> tc_view (tc_put now k e c) k' = tc_view c k'"
  using tc_put_get_other [of k' k now e c] by (auto simp: tc_view_def)

lemma tc_get_invalidate: "tc_get (tc_invalidate k c) k' = (if k' = k then None else tc_get c k')"
  by (simp add: tc_get_def tc_invalidate_def hash_map_simps)

lemma tc_ok_invalidate: "tc_ok cfg c \<Longrightarrow> tc_ok cfg (tc_invalidate k c)"
  by (auto simp: tc_ok_def tc_get_invalidate) (simp_all add: tc_invalidate_def tc_wf_def)

interpretation tc_store: lossy_store "tc_ok cfg" tc_view tc_store_entry "\<lambda>c k. tc_invalidate k c"
proof (unfold_locales, goal_cases)
  case (1 c k p)
  then have "tc_config c = cfg" by (simp add: tc_ok_def)
  with 1 show ?case by (simp add: tc_store_entry_put tc_ok_put)
next
  case (2 c k)
  then show ?case by (rule tc_ok_invalidate)
next
  case (3 c k p)
  show ?case by (simp add: tc_store_entry_put tc_view_put)
next
  case (4 c k' k p)
  then show ?case unfolding tc_store_entry_put by (intro tc_view_put_other)
next
  case (5 c k k')
  then show ?case by (simp add: tc_view_def tc_get_invalidate)
qed


subsection \<open>Operations as steps\<close>

text \<open>
  Every method takes the lock once, so a history of the cache shared by concurrent tasks is a
  sequence of these steps (\<^verbatim>\<open>get_or_fetch\<close> is a lookup step and, after the fetch, an insertion
  step, with steps of other tasks in between).  The clock readings are not ordered: an entry is
  stamped before the lock is taken.
\<close>

datatype 'c tc_op = Store string "'c option" | Invalidate string | Invalidate_If "string \<Rightarrow> 'c \<Rightarrow> bool"
  | Clear | Evict_Expired | Mark_Refreshing string | Complete_Refresh string 'c | Lookup string
  | Reset_Metrics

fun tc_exec :: "instant \<Rightarrow> 'c tc_op \<Rightarrow> 'c tenant_cache \<Rightarrow> 'c tenant_cache" where
  "tc_exec now (Store k x) c = tc_store_entry c k (now, x)"
| "tc_exec now (Invalidate k) c = tc_invalidate k c"
| "tc_exec now (Invalidate_If p) c = tc_invalidate_if p c"
| "tc_exec now Clear c = tc_clear c"
| "tc_exec now Evict_Expired c = snd (tc_evict_expired now c)"
| "tc_exec now (Mark_Refreshing k) c = snd (tc_mark_refreshing k c)"
| "tc_exec now (Complete_Refresh k x) c = tc_complete_refresh now k x c"
| "tc_exec now (Lookup k) c = snd (tc_lookup now k c)"
| "tc_exec now Reset_Metrics c = tc_reset_metrics c"

text \<open>The specification: for each tenant, what was last written and when.\<close>

fun last_write :: "instant \<Rightarrow> 'c tc_op \<Rightarrow> (string \<rightharpoonup> instant \<times> 'c option) \<Rightarrow> (string \<rightharpoonup> instant \<times> 'c option)" where
  "last_write now (Store k x) w = w(k \<mapsto> (now, x))"
| "last_write now (Invalidate k) w = w(k := None)"
| "last_write now (Invalidate_If p) w =
     (\<lambda>k. case w k of Some (t, Some x) \<Rightarrow> if p k x then None else w k | v \<Rightarrow> v)"
| "last_write now Clear w = Map.empty"
| "last_write now (Complete_Refresh k x) w = w(k \<mapsto> (now, Some x))"
| "last_write now _ w = w"

fun refreshes :: "'c tc_op \<Rightarrow> nat" where
  "refreshes (Complete_Refresh k x) = 1"
| "refreshes _ = 0"

text \<open>The hash map may reorder its entries at any time; the entry order decides what is evicted.\<close>

inductive tc_run ::
  "cache_config \<Rightarrow> 'c tenant_cache \<Rightarrow> (string \<rightharpoonup> instant \<times> 'c option) \<Rightarrow> nat \<Rightarrow> bool" for cfg where
  tc_run_new: "tc_run cfg (tc_new cfg) Map.empty 0"
| tc_run_op: "tc_run cfg c w r \<Longrightarrow> tc_run cfg (tc_exec now op c) (last_write now op w) (r + refreshes op)"
| tc_run_reorder: "tc_run cfg c w r \<Longrightarrow> mset es = mset (tc_entries c) \<Longrightarrow> tc_run cfg (c\<lparr>tc_entries := es\<rparr>) w r"

definition tc_inv ::
  "cache_config \<Rightarrow> 'c tenant_cache \<Rightarrow> (string \<rightharpoonup> instant \<times> 'c option) \<Rightarrow> nat \<Rightarrow> bool" where
  "tc_inv cfg c w r \<longleftrightarrow> tc_ok cfg c \<and> tc_view c \<subseteq>\<^sub>m w \<and> tc_len c \<le> max 1 (cc_max_entries cfg) + r"


definition tc_kept :: "'c tenant_cache \<Rightarrow> 'c tenant_cache \<Rightarrow> bool" where
  "tc_kept c c' \<longleftrightarrow> tc_config c' = tc_config c \<and> tc_wf c' \<and> tc_len c' \<le> tc_len c \<and>
     (\<forall>k e'. tc_get c' k = Some e' \<longrightarrow> (\<exists>e. tc_get c k = Some e \<and> ce_created e' = ce_created e
        \<and> ce_context e' = ce_context e \<and> ce_expires e' = ce_expires e))"

lemma tc_kept_ok: "tc_kept c c' \<Longrightarrow> tc_ok cfg c \<Longrightarrow> tc_ok cfg c'"
  unfolding tc_kept_def tc_ok_def by metis

lemma tc_kept_view:
  assumes "tc_kept c c'"
  shows "tc_view c' \<subseteq>\<^sub>m tc_view c"
proof -
  have "tc_view c' k = tc_view c k" if "tc_get c' k = Some e'" for k e'
    using assms that unfolding tc_kept_def tc_view_def by fastforce
  then show ?thesis by (auto simp: map_le_def tc_view_def dom_def)
qed

lemma tc_kept_inv: "tc_kept c c' \<Longrightarrow> tc_inv cfg c w r \<Longrightarrow> tc_inv cfg c' w r"
  unfolding tc_inv_def using tc_kept_ok tc_kept_view map_le_trans
  by (metis (no_types, lifting) le_trans tc_kept_def)

lemma tc_kept_same:
  "tc_wf c \<Longrightarrow> tc_entries c' = tc_entries c \<Longrightarrow> tc_config c' = tc_config c \<Longrightarrow> tc_kept c c'"
  by (simp add: tc_kept_def tc_wf_def tc_len_def tc_get_def)

lemma tc_lookup_keeps [simp]:
  "tc_entries (snd (tc_lookup now k c)) = tc_entries c" "tc_config (snd (tc_lookup now k c)) = tc_config c"
  by (auto simp: tc_lookup_def split: option.splits)

lemma tc_kept_lookup: "tc_wf c \<Longrightarrow> tc_kept c (snd (tc_lookup now k c))"
  by (rule tc_kept_same) simp_all

lemma tc_kept_evict_expired: "tc_wf c \<Longrightarrow> tc_kept c (snd (tc_evict_expired now c))"
  by (auto simp: tc_kept_def tc_evict_expired_def Let_def tc_wf_def tc_len_def tc_get_def map_of_filter_hm
    split: option.splits if_splits)

lemma tc_kept_mark: "tc_wf c \<Longrightarrow> tc_kept c (snd (tc_mark_refreshing k c))"
  by (auto simp: tc_kept_def tc_mark_refreshing_def tc_wf_def tc_len_def tc_get_def length_update_hm
    hash_map_simps split: option.splits if_splits)

lemma tc_kept_invalidate: "tc_wf c \<Longrightarrow> tc_kept c (tc_invalidate k c)"
  by (auto simp: tc_kept_def tc_get_invalidate)
    (auto simp: tc_invalidate_def tc_wf_def tc_len_def length_delete_hm)

lemma tc_kept_invalidate_if: "tc_wf c \<Longrightarrow> tc_kept c (tc_invalidate_if p c)"
  by (auto simp: tc_kept_def tc_invalidate_if_def tc_wf_def tc_len_def tc_get_def map_of_filter_hm
    split: option.splits if_splits)

lemma tc_view_invalidate_if:
  "tc_wf c \<Longrightarrow> tc_view (tc_invalidate_if p c) k = (case tc_view c k of
     Some (t, Some x) \<Rightarrow> if p k x then None else tc_view c k | v \<Rightarrow> v)"
  by (auto simp: tc_view_def tc_get_def tc_invalidate_if_def tc_wf_def map_of_filter_hm
    split: option.splits if_splits)

lemma tc_inv_wf: "tc_inv cfg c w r \<Longrightarrow> tc_wf c"
  by (simp add: tc_inv_def tc_ok_def)

lemma tc_inv_store:
  assumes "tc_inv cfg c w r"
  shows "tc_inv cfg (tc_store_entry c k (now, x)) (w(k \<mapsto> (now, x))) r"
proof -
  have ok: "tc_ok cfg c" and le: "tc_view c \<subseteq>\<^sub>m w" and len: "tc_len c \<le> max 1 (cc_max_entries cfg) + r"
    using assms by (simp_all add: tc_inv_def)
  from ok have wf: "tc_wf c" and cfg: "tc_config c = cfg" by (simp_all add: tc_ok_def)
  have "tc_ok cfg (tc_store_entry c k (now, x))" using ok by (rule tc_store.inv_put)
  moreover have "tc_view (tc_store_entry c k (now, x)) \<subseteq>\<^sub>m w(k \<mapsto> (now, x))"
    using tc_store.run_op_le [OF ok le, of "Write k (now, x)"] by simp
  moreover have "tc_len (tc_store_entry c k (now, x)) \<le> max 1 (cc_max_entries cfg) + r"
    unfolding tc_store_entry_put using tc_put_length [OF wf, of "fst (now, x)" k] len cfg
    by (meson le_add1 max.boundedI order_trans)
  ultimately show ?thesis by (simp add: tc_inv_def)
qed


lemma tc_get_complete_refresh:
  "tc_get (tc_complete_refresh now k x c) k'
     = (if k' = k then Some (ce_positive now x (cc_ttl (tc_config c))) else tc_get c k')"
  by (simp add: tc_get_def tc_complete_refresh_def hash_map_simps)

lemma tc_inv_complete_refresh:
  assumes "tc_inv cfg c w r"
  shows "tc_inv cfg (tc_complete_refresh now k x c) (w(k \<mapsto> (now, Some x))) (Suc r)"
proof -
  have c: "tc_ok cfg c" "tc_view c \<subseteq>\<^sub>m w" "tc_len c \<le> max 1 (cc_max_entries cfg) + r"
    using assms by (simp_all add: tc_inv_def)
  have "tc_view (tc_complete_refresh now k x c) = (tc_view c)(k \<mapsto> (now, Some x))"
    by (auto simp: fun_eq_iff tc_view_def tc_get_complete_refresh ce_positive_def)
  with c(2) have "tc_view (tc_complete_refresh now k x c) \<subseteq>\<^sub>m w(k \<mapsto> (now, Some x))"
    by (simp add: map_le_def)
  moreover have "tc_len (tc_complete_refresh now k x c) \<le> Suc (tc_len c)"
    by (simp add: tc_len_def tc_complete_refresh_def length_update_hm)
  moreover have "tc_ok cfg (tc_complete_refresh now k x c)"
    using c(1) by (auto simp: tc_ok_def tc_get_complete_refresh ce_positive_def ttl_of_def tc_wf_def
      split: if_splits) (simp_all add: tc_complete_refresh_def)
  ultimately show ?thesis using c(3) by (simp add: tc_inv_def)
qed

lemma tc_inv_narrow:
  "tc_inv cfg c w r \<Longrightarrow> tc_kept c c' \<Longrightarrow> tc_view c' \<subseteq>\<^sub>m w' \<Longrightarrow> tc_inv cfg c' w' r"
  using tc_kept_inv [of c c' cfg w r] by (simp add: tc_inv_def)

lemma tc_inv_invalidate:
  assumes "tc_inv cfg c w r"
  shows "tc_inv cfg (tc_invalidate k c) (w(k := None)) r"
proof (rule tc_inv_narrow [OF assms tc_kept_invalidate [OF tc_inv_wf [OF assms]]])
  show "tc_view (tc_invalidate k c) \<subseteq>\<^sub>m w(k := None)"
    using assms by (auto simp: tc_inv_def map_le_def tc_view_def tc_get_invalidate dom_def split: if_splits)
qed

lemma tc_inv_invalidate_if:
  assumes "tc_inv cfg c w r"
  shows "tc_inv cfg (tc_invalidate_if p c) (last_write now (Invalidate_If p) w) r"
proof (rule tc_inv_narrow [OF assms tc_kept_invalidate_if [OF tc_inv_wf [OF assms]]])
  have "w k = tc_view c k" if "tc_view (tc_invalidate_if p c) k \<noteq> None" for k
    using assms that tc_view_invalidate_if [OF tc_inv_wf [OF assms], of p k]
    by (auto simp: tc_inv_def map_le_def dom_def split: option.splits)
  then have "tc_view (tc_invalidate_if p c) k = last_write now (Invalidate_If p) w k"
    if "tc_view (tc_invalidate_if p c) k \<noteq> None" for k
    using that tc_view_invalidate_if [OF tc_inv_wf [OF assms], of p k] by (auto split: option.splits if_splits)
  then show "tc_view (tc_invalidate_if p c) \<subseteq>\<^sub>m last_write now (Invalidate_If p) w"
    unfolding map_le_def dom_def by blast
qed

lemma tc_inv_clear: "tc_inv cfg c w r \<Longrightarrow> tc_inv cfg (tc_clear c) Map.empty r"
  by (auto simp: tc_inv_def tc_ok_def tc_clear_def tc_wf_def tc_view_def tc_get_def tc_len_def map_le_def)

lemma tc_inv_exec:
  assumes "tc_inv cfg c w r"
  shows "tc_inv cfg (tc_exec now op c) (last_write now op w) (r + refreshes op)"
proof (cases op)
  case (Invalidate_If p)
  then show ?thesis using tc_inv_invalidate_if [OF assms] by simp
qed (use assms tc_inv_wf [OF assms] in \<open>simp_all add: tc_inv_store tc_inv_invalidate tc_inv_clear
  tc_inv_complete_refresh tc_kept_inv [OF tc_kept_lookup] tc_kept_inv [OF tc_kept_mark]
  tc_kept_inv [OF tc_kept_evict_expired] tc_kept_inv [OF tc_kept_same] tc_reset_metrics_def\<close>)

lemma tc_inv_reorder:
  assumes "tc_inv cfg c w r" and es: "mset es = mset (tc_entries c)"
  shows "tc_inv cfg (c\<lparr>tc_entries := es\<rparr>) w r"
proof -
  have wf: "keys_distinct (tc_entries c)" using tc_inv_wf [OF assms(1)] by (simp add: tc_wf_def)
  have "mset (map fst es) = mset (map fst (tc_entries c))" using es by simp
  then have "keys_distinct es" using wf unfolding keys_distinct_def by (metis mset_eq_imp_distinct_iff)
  moreover have "map_of es = map_of (tc_entries c)"
    using wf \<open>keys_distinct es\<close> es unfolding keys_distinct_def by (metis map_of_inject_set mset_eq_setD)
  moreover have "length es = length (tc_entries c)" using es by (rule mset_eq_length)
  ultimately have "tc_kept c (c\<lparr>tc_entries := es\<rparr>)" by (simp add: tc_kept_def tc_wf_def tc_len_def tc_get_def)
  then show ?thesis using assms(1) by (rule tc_kept_inv)
qed

lemma tc_run_inv: "tc_run cfg c w r \<Longrightarrow> tc_inv cfg c w r"
proof (induction rule: tc_run.induct)
  case tc_run_new
  show ?case using tc_ok_new [of cfg]
    by (simp add: tc_inv_def map_le_def tc_view_def tc_get_def tc_len_def) (simp add: tc_new_def)
qed (auto intro: tc_inv_exec tc_inv_reorder)


text \<open>What a lookup answers: a context, "no such tenant", or nothing.\<close>

fun answer :: "'c cache_lookup \<Rightarrow> 'c option option" where
  "answer (Hit x) = Some (Some x)"
| "answer (Stale x) = Some (Some x)"
| "answer NegativeHit = Some None"
| "answer Miss = None"

lemma answer_None: "answer l = None \<longleftrightarrow> l = Miss"
  by (cases l) simp_all

lemma answer_lookup:
  "answer (fst (tc_lookup now k c)) = (case tc_get c k of
     Some e \<Rightarrow> if now < ce_expires e then Some (ce_context e) else None | None \<Rightarrow> None)"
  by (auto simp: tc_lookup_def tc_get_def ce_is_expired_def split: option.splits)

lemma answer_lookup_view:
  "tc_ok cfg c \<Longrightarrow> answer (fst (tc_lookup now k c)) = (case tc_view c k of
     Some (t, x) \<Rightarrow> if now < t + ttl_of cfg x then Some x else None | None \<Rightarrow> None)"
  by (auto simp: answer_lookup tc_ok_def tc_view_def split: option.splits)

subsection \<open>Properties\<close>

text \<open>
  C39: In every history of the tenant cache, whatever is evicted and however tasks interleave, a
  lookup that answers, with a context or with "no such tenant", answers what was last written for
  that very tenant and not invalidated since, and only before the time to live of that write is
  over.
\<close>

theorem tenant_cache_serves_last_write:
  assumes "tc_run cfg c w r" and "answer (fst (tc_lookup now k c)) = Some x"
  shows "\<exists>t. w k = Some (t, x) \<and> now < t + ttl_of cfg x"
proof -
  from tc_run_inv [OF assms(1)] have inv: "tc_ok cfg c" "tc_view c \<subseteq>\<^sub>m w" by (simp_all add: tc_inv_def)
  from assms(2) obtain t where "tc_view c k = Some (t, x)" "now < t + ttl_of cfg x"
    by (auto simp: answer_lookup_view [OF inv(1)] split: option.splits if_splits)
  with inv(2) show ?thesis by (metis domI map_le_def)
qed

lemma tenant_cache_serves_last_write_witness:
  "\<exists>t. last_write 5 (Store ''acme'' (Some (7::nat))) Map.empty ''acme'' = Some (t, Some 7)
     \<and> 8 < t + ttl_of (cc_new id 2) (Some (7::nat))"
proof (rule tenant_cache_serves_last_write [OF tc_run_op
    [OF tc_run_new [of "cc_new id 2"], of 5 "Store ''acme'' (Some (7::nat))"]])
  show "answer (fst (tc_lookup 8 ''acme'' (tc_exec 5 (Store ''acme'' (Some (7::nat)))
      (tc_new (cc_new id 2))))) = Some (Some 7)"
    by (simp add: answer_lookup tc_store_entry_put tc_put_get) (simp add: tc_new_def cc_new_def cc_default_def ttl_of_def)
qed

text \<open>
  In every history the cache holds at most \<open>max_entries\<close> entries (one, when that is 0), plus
  the completed refreshes: \<open>complete_refresh\<close> is the only operation that inserts without checking
  the capacity.
\<close>

theorem tenant_cache_capacity:
  assumes "tc_run cfg c w r"
  shows "tc_len c \<le> max 1 (cc_max_entries cfg) + r"
  using tc_run_inv [OF assms] by (simp add: tc_inv_def)

lemma tenant_cache_capacity_witness:
  "tc_len (tc_exec 2 (Store ''b'' (Some 2)) (tc_exec 1 (Store ''a'' (Some (1::nat))) (tc_new (cc_new id 1)))) \<le> 1"
proof -
  note run = tc_run_op [OF tc_run_op [OF tc_run_new [of "cc_new id 1"], of 1 "Store ''a'' (Some (1::nat))"],
      of 2 "Store ''b'' (Some 2)"]
  show ?thesis using tenant_cache_capacity [OF run] by (simp add: cc_new_def)
qed

text \<open>
  After a lookup that missed, \<open>get_or_fetch\<close> returns what the source answered and stores it:
  until the time to live of that answer (the negative one for "no such tenant") is over, further
  calls return it without asking the source and leave the entries as they are.
\<close>

theorem get_or_fetch_reuses:
  assumes "fst (tc_lookup now k c) = Miss"
    and "later < now' + ttl_of (tc_config c) fetched"
  shows "fst (tc_get_or_fetch now now' k fetched c) = fetched \<and>
    fst (tc_get_or_fetch later later' k other (snd (tc_get_or_fetch now now' k fetched c))) = fetched \<and>
    tc_entries (snd (tc_get_or_fetch later later' k other (snd (tc_get_or_fetch now now' k fetched c))))
      = tc_entries (snd (tc_get_or_fetch now now' k fetched c))"
proof -
  define c1 where "c1 = snd (tc_lookup now k c)"
  define c2 where "c2 = tc_store_entry c1 k (now', fetched)"
  have first: "tc_get_or_fetch now now' k fetched c = (fetched, c2)"
    using assms(1) by (cases "tc_lookup now k c") (auto simp: tc_get_or_fetch_def c2_def c1_def
      tc_store_entry_def split: option.splits)
  have "answer (fst (tc_lookup later k c2)) = Some fetched"
    using assms(2) by (simp add: c2_def answer_lookup tc_store_entry_put tc_put_get c1_def)
  then have "fst (tc_get_or_fetch later later' k other c2) = fetched"
    and "snd (tc_get_or_fetch later later' k other c2) = snd (tc_lookup later k c2)"
    by (auto simp: tc_get_or_fetch_def split: prod.splits cache_lookup.splits)
  with first show ?thesis by simp
qed

lemma get_or_fetch_reuses_witness:
  "fst (tc_get_or_fetch 9 9 ''acme'' None (snd (tc_get_or_fetch 1 2 ''acme'' (Some (7::nat)) (tc_new (cc_new id 2))))) = Some 7"
  using get_or_fetch_reuses [of 1 "''acme''" "tc_new (cc_new id 2)" 9 2 "Some (7::nat)" 9 None]
  by (simp add: tc_lookup_def tc_new_def cc_new_def cc_default_def ttl_of_def)


lemma evict_expired_get:
  "tc_wf c \<Longrightarrow> tc_get (snd (tc_evict_expired now c)) k = (case tc_get c k of
     Some e \<Rightarrow> if now < ce_expires e then Some e else None | None \<Rightarrow> None)"
  by (auto simp: tc_evict_expired_def Let_def tc_wf_def tc_get_def map_of_filter_hm ce_is_expired_def
    split: option.splits)

text \<open>
  \<open>evict_expired\<close> frees exactly as many entries as it reports, keeps none that is expired,
  and cannot be noticed by readers: from then on every lookup answers as it would have without
  it.
\<close>

theorem evict_expired_unobservable:
  assumes "tc_wf c" and "now \<le> later"
  shows "tc_len (snd (tc_evict_expired now c)) + fst (tc_evict_expired now c) = tc_len c \<and>
    list_all (\<lambda>(k, e). now < ce_expires e) (tc_entries (snd (tc_evict_expired now c))) \<and>
    fst (tc_lookup later k (snd (tc_evict_expired now c))) = fst (tc_lookup later k c)"
proof (intro conjI)
  show "tc_len (snd (tc_evict_expired now c)) + fst (tc_evict_expired now c) = tc_len c"
    by (simp add: tc_evict_expired_def Let_def tc_len_def length_filter_le)
  show "list_all (\<lambda>(k, e). now < ce_expires e) (tc_entries (snd (tc_evict_expired now c)))"
    by (auto simp: tc_evict_expired_def Let_def list_all_iff ce_is_expired_def)
  have "tc_config (snd (tc_evict_expired now c)) = tc_config c"
    by (simp add: tc_evict_expired_def Let_def)
  then show "fst (tc_lookup later k (snd (tc_evict_expired now c))) = fst (tc_lookup later k c)"
    using evict_expired_get [OF assms(1), of now k] assms(2)
    by (auto simp: tc_lookup_def ce_is_expired_def tc_get_def split: option.splits if_splits)
qed

lemma evict_expired_unobservable_witness:
  "fst (tc_lookup 70 ''a'' (snd (tc_evict_expired 65 (tc_insert 5 ''a'' (1::nat) (tc_new (cc_new id 2))))))
   = fst (tc_lookup 70 ''a'' (tc_insert 5 ''a'' (1::nat) (tc_new (cc_new id 2))))"
proof -
  have "tc_wf (tc_insert 5 ''a'' (1::nat) (tc_new (cc_new id 2)))"
    unfolding tc_insert_def by (rule tc_put_wf) (simp add: tc_wf_def tc_new_def)
  from evict_expired_unobservable [OF this, of 65 70 "''a''"] show ?thesis by simp
qed

text \<open>
  One task at a time refreshes a tenant: once \<open>mark_refreshing\<close> has granted the refresh, it
  refuses every further one and lookups answer the same contexts but no longer call them stale;
  \<open>complete_refresh\<close> then makes the new context the one that is served.
\<close>

theorem refresh_claimed_once:
  assumes "fst (tc_mark_refreshing k c)"
  shows "\<not> fst (tc_mark_refreshing k (snd (tc_mark_refreshing k c))) \<and>
    answer (fst (tc_lookup now k (snd (tc_mark_refreshing k c)))) = answer (fst (tc_lookup now k c)) \<and>
    fst (tc_lookup now k (snd (tc_mark_refreshing k c))) \<noteq> Stale x \<and>
    (later < now + cc_ttl (tc_config c) \<longrightarrow>
      answer (fst (tc_lookup later k (tc_complete_refresh now k y (snd (tc_mark_refreshing k c))))) = Some (Some y))"
proof -
  from assms obtain e where e: "map_of (tc_entries c) k = Some e" "\<not> ce_refreshing e"
    by (auto simp: tc_mark_refreshing_def split: option.splits if_splits)
  define c' where "c' = snd (tc_mark_refreshing k c)"
  have c': "map_of (tc_entries c') k = Some (e\<lparr>ce_refreshing := True\<rparr>)" "tc_config c' = tc_config c"
    using e by (simp_all add: c'_def tc_mark_refreshing_def hash_map_simps)
  have "\<not> fst (tc_mark_refreshing k c')" using c' by (simp add: tc_mark_refreshing_def)
  moreover have "answer (fst (tc_lookup now k c')) = answer (fst (tc_lookup now k c))"
    using c' e by (simp add: answer_lookup tc_get_def)
  moreover have "fst (tc_lookup now k c') \<noteq> Stale x"
    using c' by (auto simp: tc_lookup_def ce_should_refresh_def split: option.splits)
  moreover have "answer (fst (tc_lookup later k (tc_complete_refresh now k y c'))) = Some (Some y)"
    if "later < now + cc_ttl (tc_config c)"
    using that c' by (simp add: answer_lookup tc_get_complete_refresh ce_positive_def)
  ultimately show ?thesis by (simp add: c'_def)
qed

lemma refresh_claimed_once_witness:
  "answer (fst (tc_lookup 9 ''a'' (tc_complete_refresh 6 ''a'' 2
     (snd (tc_mark_refreshing ''a'' (tc_insert 5 ''a'' (1::nat) (tc_new (cc_new id 2)))))))) = Some (Some 2)"
proof -
  have "fst (tc_mark_refreshing ''a'' (tc_insert 5 ''a'' (1::nat) (tc_new (cc_new id 2))))"
    by (simp add: tc_mark_refreshing_def tc_insert_def tc_put_def tc_new_def cc_new_def cc_default_def ce_positive_def)
  from refresh_claimed_once [OF this, of 6 0 9 2] show ?thesis
    by (simp add: tc_insert_def) (simp add: tc_new_def cc_new_def cc_default_def)
qed

subsection \<open>The sharded cache keeps the same promise\<close>

definition sc_ok :: "cache_config \<Rightarrow> 'c sharded_cache \<Rightarrow> bool" where
  "sc_ok cfg s \<longleftrightarrow> s \<noteq> [] \<and> (\<forall>c\<in>set s. tc_ok cfg c)"
definition sc_view :: "'c sharded_cache \<Rightarrow> string \<Rightarrow> (instant \<times> 'c option) option" where
  "sc_view s k = tc_view (s ! shard_index s k) k"
definition sc_store_entry :: "'c sharded_cache \<Rightarrow> string \<Rightarrow> instant \<times> 'c option \<Rightarrow> 'c sharded_cache" where
  "sc_store_entry s k p =
     (case snd p of Some ctx \<Rightarrow> sc_insert (fst p) k ctx s | None \<Rightarrow> sc_insert_negative (fst p) k s)"

lemma sc_store_entry_shard:
  "sc_store_entry s k p = s[shard_index s k := tc_store_entry (s ! shard_index s k) k p]"
  by (simp add: sc_store_entry_def tc_store_entry_def sc_insert_def sc_insert_negative_def split: option.splits)

lemma shard_index_bound: "s \<noteq> [] \<Longrightarrow> shard_index s k < length s"
  by (simp add: shard_index_def)

lemma shard_index_update [simp]: "shard_index (s[i := c]) k = shard_index s k"
  by (simp add: shard_index_def)

lemma shard_ok: "sc_ok cfg s \<Longrightarrow> tc_ok cfg (s ! shard_index s k)"
  by (simp add: sc_ok_def shard_index_bound)

lemma sc_ok_update: "sc_ok cfg s \<Longrightarrow> tc_ok cfg c \<Longrightarrow> sc_ok cfg (s[i := c])"
  by (auto simp: sc_ok_def dest: set_update_subset_insert [THEN subsetD])

lemma sc_view_update:
  "s \<noteq> [] \<Longrightarrow> sc_view (s[shard_index s k := c]) k'
     = (if shard_index s k' = shard_index s k then tc_view c k' else sc_view s k')"
  by (simp add: sc_view_def shard_index_bound)

interpretation sc_store: lossy_store "sc_ok cfg" sc_view sc_store_entry "\<lambda>s k. sc_invalidate k s"
proof (unfold_locales, goal_cases)
  case (1 s k p)
  then show ?case unfolding sc_store_entry_shard by (intro sc_ok_update tc_store.inv_put shard_ok)
next
  case (2 s k)
  then show ?case unfolding sc_invalidate_def by (intro sc_ok_update tc_store.inv_del shard_ok)
next
  case (3 s k p)
  then have "s \<noteq> []" by (simp add: sc_ok_def)
  then show ?case using tc_store.get_put [OF shard_ok [OF 3]]
    by (simp add: sc_store_entry_shard sc_view_update)
next
  case (4 s k' k p)
  then have "s \<noteq> []" by (simp add: sc_ok_def)
  with 4(3) show ?case
    using tc_store.get_put_other [OF shard_ok [OF 4(1)] 4(2), of k p]
    unfolding sc_store_entry_shard sc_view_update [OF \<open>s \<noteq> []\<close>] by (auto simp: sc_view_def split: if_splits)
next
  case (5 s k k')
  then have "s \<noteq> []" by (simp add: sc_ok_def)
  then show ?case unfolding sc_invalidate_def sc_view_update [OF \<open>s \<noteq> []\<close>]
    by (auto simp: sc_view_def tc_store.get_del [OF shard_ok [OF 5]])
qed

fun sc_apply :: "'c sharded_cache \<Rightarrow> (string, instant \<times> 'c option) store_op \<Rightarrow> 'c sharded_cache" where
  "sc_apply s (Write k p) = sc_store_entry s k p"
| "sc_apply s (Remove k) = sc_invalidate k s"

lemma sc_apply_run: "sc_apply = sc_store.run_op"
proof (intro ext)
  show "sc_apply s x = sc_store.run_op s x" for s :: "'c sharded_cache" and x by (cases x) simp_all
qed

text \<open>
  The shards together behave as one cache: whatever sequence of insertions and
  invalidations was applied through the shard hash, a lookup that answers gives what was last
  written for that tenant, within its time to live.
\<close>

theorem sharded_serves_last_write:
  assumes "sc_new n cfg = Some s"
    and "answer (fst (sc_lookup now k (foldl sc_apply s ops))) = Some x"
  shows "\<exists>t. foldl model_op Map.empty ops k = Some (t, x) \<and> now < t + ttl_of cfg x"
proof -
  let ?cfg = "cfg\<lparr>cc_max_entries := max (cc_max_entries cfg div n) 100\<rparr>"
  let ?s = "foldl sc_apply s ops"
  from assms(1) have s: "s = replicate n (tc_new ?cfg)" "n \<noteq> 0"
    by (simp_all add: sc_new_def split: if_splits)
  then have ok: "sc_ok ?cfg s" by (simp add: sc_ok_def tc_ok_new)
  then have empty: "sc_view s \<subseteq>\<^sub>m Map.empty"
    using s shard_index_bound [of s] by (auto simp: map_le_def sc_view_def dom_def tc_view_def tc_get_def tc_new_def)
  have ok': "sc_ok ?cfg ?s" using sc_store.inv_run [OF ok, of ops] by (simp add: sc_apply_run)
  have "answer (fst (tc_lookup now k (?s ! shard_index ?s k))) = Some x"
    using assms(2) by (simp add: sc_lookup_def split: prod.splits)
  then obtain t where t: "sc_view ?s k = Some (t, x)" "now < t + ttl_of ?cfg x"
    by (auto simp: answer_lookup_view [OF shard_ok [OF ok']] sc_view_def split: option.splits if_splits)
  have "foldl model_op Map.empty ops k = Some (t, x)"
    using sc_store.run_found [OF ok empty, of ops k "(t, x)"] t(1) by (simp add: sc_apply_run)
  with t(2) show ?thesis by (auto simp: ttl_of_def split: option.splits)
qed

lemma sharded_serves_last_write_witness:
  "\<exists>t. foldl model_op Map.empty [Write ''acme'' (5, Some (7::nat))] ''acme'' = Some (t, Some 7)
     \<and> 8 < t + ttl_of (cc_new id 2) (Some (7::nat))"
proof -
  let ?s = "[tc_new (cc_new id 100)] :: nat sharded_cache"
  have "sc_new 1 (cc_new id 2) = Some ?s" by (simp add: sc_new_def cc_new_def)
  moreover have "answer (fst (sc_lookup 8 ''acme'' (foldl sc_apply ?s [Write ''acme'' (5, Some 7)]))) = Some (Some 7)"
    by (simp add: sc_lookup_def shard_index_def sc_store_entry_shard case_prod_unfold Let_def answer_lookup
      tc_store_entry_put tc_put_get) (simp add: tc_new_def cc_new_def cc_default_def ttl_of_def)
  ultimately show ?thesis by (rule sharded_serves_last_write)
qed

end
