(* ===== verification/Schema_Ast.thy ===== *)
theory Schema_Ast
  imports Hash_Maps "HOL-Library.Char_ord"
begin

text \<open>
  The abstract syntax of the schema language that the migration engine works on
  (\<^verbatim>\<open>prax-schema/src/ast\<close>): attributes and their values, scalar and field types, fields,
  models, enums, views, procedures and the schema itself.  An identifier is its name (spans,
  documentation and the file an item came from are left out: they only serve error messages).  A
  float literal is represented by the text Rust prints for it.  An \<^verbatim>\<open>IndexMap\<close> keeps insertion
  order: it is an association list, \<^const>\<open>AList.update\<close> is its \<open>insert\<close>.
\<close>

subsection \<open>Attributes\<close>

datatype attr_value =
    ValString string
  | ValInt i64
  | ValFloat string
  | ValBool bool
  | ValIdent string
  | ValFunction string "attr_value list"
  | ValArray "attr_value list"
  | FieldRef string
  | FieldRefList "string list"

fun val_as_string :: "attr_value \<Rightarrow> string option" where
  "val_as_string (ValString s) = Some s"
| "val_as_string _ = None"

fun val_as_int :: "attr_value \<Rightarrow> i64 option" where
  "val_as_int (ValInt i) = Some i"
| "val_as_int _ = None"

fun val_as_bool :: "attr_value \<Rightarrow> bool option" where
  "val_as_bool (ValBool b) = Some b"
| "val_as_bool _ = None"

fun val_as_ident :: "attr_value \<Rightarrow> string option" where
  "val_as_ident (ValIdent s) = Some s"
| "val_as_ident _ = None"

record attr_arg =
  arg_name :: "string option"
  arg_value :: attr_value

definition arg_positional :: "attr_value \<Rightarrow> attr_arg" where
  "arg_positional v = \<lparr>arg_name = None, arg_value = v\<rparr>"
definition arg_named :: "string \<Rightarrow> attr_value \<Rightarrow> attr_arg" where
  "arg_named n v = \<lparr>arg_name = Some n, arg_value = v\<rparr>"

record attribute =
  at_name :: string
  at_args :: "attr_arg list"

definition attr_simple :: "string \<Rightarrow> attribute" where
  "attr_simple n = \<lparr>at_name = n, at_args = []\<rparr>"

definition first_arg :: "attribute \<Rightarrow> attr_value option" where
  "first_arg a = (case at_args a of [] \<Rightarrow> None | x # _ \<Rightarrow> Some (arg_value x))"

definition get_arg :: "string \<Rightarrow> attribute \<Rightarrow> attr_value option" where
  "get_arg n a = map_option arg_value (find (\<lambda>x. arg_name x = Some n) (at_args a))"

definition first_string_arg :: "attribute \<Rightarrow> string option" where
  "first_string_arg a = Option.bind (first_arg a) val_as_string"

definition first_ident_arg :: "attribute \<Rightarrow> string option" where
  "first_ident_arg a = (case first_arg a of
     Some (ValIdent s) \<Rightarrow> Some s
   | Some (ValString s) \<Rightarrow> if CHR ''.'' \<in> set s then None else Some s
   | _ \<Rightarrow> None)"

definition first_path_arg :: "attribute \<Rightarrow> string option" where
  "first_path_arg a = (case first_arg a of
     Some (ValIdent s) \<Rightarrow> Some s
   | Some (ValString s) \<Rightarrow> Some s
   | _ \<Rightarrow> None)"

text \<open>\<^verbatim>\<open>self.attributes.iter().find(|a| a.is(name))\<close> and the \<^verbatim>\<open>any\<close> of the same shape.\<close>

definition find_attribute :: "string \<Rightarrow> attribute list \<Rightarrow> attribute option" where
  "find_attribute n as = find (\<lambda>a. at_name a = n) as"
definition has_attribute :: "string \<Rightarrow> attribute list \<Rightarrow> bool" where
  "has_attribute n as = list_ex (\<lambda>a. at_name a = n) as"

text \<open>The string argument of a named attribute, as in \<^verbatim>\<open>@map("...")\<close>.\<close>

definition attribute_string :: "string \<Rightarrow> attribute list \<Rightarrow> string option" where
  "attribute_string n as = Option.bind (Option.bind (find_attribute n as) first_arg) val_as_string"

definition unwrap_or :: "'a option \<Rightarrow> 'a \<Rightarrow> 'a" where
  "unwrap_or x d = (case x of Some y \<Rightarrow> y | None \<Rightarrow> d)"

subsection \<open>Types\<close>

datatype scalar_type =
    ScInt | ScBigInt | ScFloat | ScDecimal | ScString | ScBoolean | ScDateTime | ScDate | ScTime
  | ScJson | ScBytes | ScUuid | ScCuid | ScCuid2 | ScNanoId | ScUlid
  | ScVector "u32 option" | ScHalfVector "u32 option" | ScSparseVector "u32 option" | ScBit "u32 option"

definition scalar_from_str :: "string \<Rightarrow> scalar_type option" where
  "scalar_from_str s =
     (if s = ''Int'' then Some ScInt
      else if s = ''BigInt'' then Some ScBigInt
      else if s = ''Float'' then Some ScFloat
      else if s = ''Decimal'' then Some ScDecimal
      else if s = ''String'' then Some ScString
      else if s = ''Boolean'' \<or> s = ''Bool'' then Some ScBoolean
      else if s = ''DateTime'' then Some ScDateTime
      else if s = ''Date'' then Some ScDate
      else if s = ''Time'' then Some ScTime
      else if s = ''Json'' then Some ScJson
      else if s = ''Bytes'' then Some ScBytes
      else if s = ''Uuid'' \<or> s = ''UUID'' then Some ScUuid
      else if s = ''Cuid'' \<or> s = ''CUID'' then Some ScCuid
      else if s = ''Cuid2'' \<or> s = ''CUID2'' then Some ScCuid2
      else if s = ''NanoId'' \<or> s = ''NanoID'' \<or> s = ''Nanoid'' then Some ScNanoId
      else if s = ''Ulid'' \<or> s = ''ULID'' then Some ScUlid
      else if s = ''Vector'' then Some (ScVector None)
      else if s = ''HalfVector'' \<or> s = ''Halfvec'' then Some (ScHalfVector None)
      else if s = ''SparseVector'' \<or> s = ''Sparsevec'' then Some (ScSparseVector None)
      else if s = ''Bit'' then Some (ScBit None)
      else None)"

definition parse_with_param :: "string \<Rightarrow> u32 option \<Rightarrow> scalar_type option" where
  "parse_with_param name param =
     (if name = ''Vector'' then Some (ScVector param)
      else if name = ''HalfVector'' \<or> name = ''Halfvec'' then Some (ScHalfVector param)
      else if name = ''SparseVector'' \<or> name = ''Sparsevec'' then Some (ScSparseVector param)
      else if name = ''Bit'' then Some (ScBit param)
      else scalar_from_str name)"

fun scalar_as_str :: "scalar_type \<Rightarrow> string" where
  "scalar_as_str ScInt = ''Int''"
| "scalar_as_str ScBigInt = ''BigInt''"
| "scalar_as_str ScFloat = ''Float''"
| "scalar_as_str ScDecimal = ''Decimal''"
| "scalar_as_str ScString = ''String''"
| "scalar_as_str ScBoolean = ''Boolean''"
| "scalar_as_str ScDateTime = ''DateTime''"
| "scalar_as_str ScDate = ''Date''"
| "scalar_as_str ScTime = ''Time''"
| "scalar_as_str ScJson = ''Json''"
| "scalar_as_str ScBytes = ''Bytes''"
| "scalar_as_str ScUuid = ''Uuid''"
| "scalar_as_str ScCuid = ''Cuid''"
| "scalar_as_str ScCuid2 = ''Cuid2''"
| "scalar_as_str ScNanoId = ''NanoId''"
| "scalar_as_str ScUlid = ''Ulid''"
| "scalar_as_str (ScVector _) = ''Vector''"
| "scalar_as_str (ScHalfVector _) = ''HalfVector''"
| "scalar_as_str (ScSparseVector _) = ''SparseVector''"
| "scalar_as_str (ScBit _) = ''Bit''"

fun is_id_type :: "scalar_type \<Rightarrow> bool" where
  "is_id_type ScUuid = True"
| "is_id_type ScCuid = True"
| "is_id_type ScCuid2 = True"
| "is_id_type ScNanoId = True"
| "is_id_type ScUlid = True"
| "is_id_type _ = False"

fun requires_vector_extension :: "scalar_type \<Rightarrow> bool" where
  "requires_vector_extension (ScVector _) = True"
| "requires_vector_extension (ScHalfVector _) = True"
| "requires_vector_extension (ScSparseVector _) = True"
| "requires_vector_extension (ScBit _) = True"
| "requires_vector_extension _ = False"

fun scalar_dimension :: "scalar_type \<Rightarrow> u32 option" where
  "scalar_dimension (ScVector d) = d"
| "scalar_dimension (ScHalfVector d) = d"
| "scalar_dimension (ScSparseVector d) = d"
| "scalar_dimension (ScBit d) = d"
| "scalar_dimension _ = None"

definition with_dim :: "string \<Rightarrow> u32 option \<Rightarrow> string" where
  "with_dim name d = (case d of Some n \<Rightarrow> name @ ''('' @ show_nat (unat n) @ '')'' | None \<Rightarrow> name)"

fun postgres_type :: "scalar_type \<Rightarrow> string" where
  "postgres_type ScInt = ''INTEGER''"
| "postgres_type ScBigInt = ''BIGINT''"
| "postgres_type ScFloat = ''DOUBLE PRECISION''"
| "postgres_type ScDecimal = ''DECIMAL''"
| "postgres_type ScString = ''TEXT''"
| "postgres_type ScBoolean = ''BOOLEAN''"
| "postgres_type ScDateTime = ''TIMESTAMP WITH TIME ZONE''"
| "postgres_type ScDate = ''DATE''"
| "postgres_type ScTime = ''TIME''"
| "postgres_type ScJson = ''JSONB''"
| "postgres_type ScBytes = ''BYTEA''"
| "postgres_type ScUuid = ''UUID''"
| "postgres_type ScCuid = ''TEXT''"
| "postgres_type ScCuid2 = ''TEXT''"
| "postgres_type ScNanoId = ''TEXT''"
| "postgres_type ScUlid = ''TEXT''"
| "postgres_type (ScVector d) = with_dim ''vector'' d"
| "postgres_type (ScHalfVector d) = with_dim ''halfvec'' d"
| "postgres_type (ScSparseVector d) = with_dim ''sparsevec'' d"
| "postgres_type (ScBit d) = with_dim ''bit'' d"

datatype field_type =
    TyScalar scalar_type
  | TyEnum string
  | TyModel string
  | TyComposite string
  | TyUnsupported string

fun type_is_relation :: "field_type \<Rightarrow> bool" where
  "type_is_relation (TyModel _) = True"
| "type_is_relation _ = False"

fun type_name :: "field_type \<Rightarrow> string" where
  "type_name (TyScalar s) = scalar_as_str s"
| "type_name (TyEnum n) = n"
| "type_name (TyModel n) = n"
| "type_name (TyComposite n) = n"
| "type_name (TyUnsupported n) = n"

datatype type_modifier = Required | Optional | IsList | OptionalList

fun modifier_is_optional :: "type_modifier \<Rightarrow> bool" where
  "modifier_is_optional Optional = True"
| "modifier_is_optional OptionalList = True"
| "modifier_is_optional _ = False"

fun modifier_is_list :: "type_modifier \<Rightarrow> bool" where
  "modifier_is_list IsList = True"
| "modifier_is_list OptionalList = True"
| "modifier_is_list _ = False"

subsection \<open>Structured field attributes\<close>

record native_type =
  nt_name :: string
  nt_args :: "attr_value list"

datatype referential_action = Cascade | Restrict | NoAction | SetNull | SetDefault

definition action_from_str :: "string \<Rightarrow> referential_action option" where
  "action_from_str s =
     (if s = ''Cascade'' then Some Cascade
      else if s = ''Restrict'' then Some Restrict
      else if s = ''NoAction'' then Some NoAction
      else if s = ''SetNull'' then Some SetNull
      else if s = ''SetDefault'' then Some SetDefault
      else None)"

fun action_as_str :: "referential_action \<Rightarrow> string" where
  "action_as_str Cascade = ''CASCADE''"
| "action_as_str Restrict = ''RESTRICT''"
| "action_as_str NoAction = ''NO ACTION''"
| "action_as_str SetNull = ''SET NULL''"
| "action_as_str SetDefault = ''SET DEFAULT''"

record relation_attr =
  rel_name :: "string option"
  rel_fields :: "string list"
  rel_references :: "string list"
  rel_on_delete :: "referential_action option"
  rel_on_update :: "referential_action option"
  rel_map :: "string option"

record generated_attr =
  gen_expression :: string
  gen_stored :: bool

datatype aggregate_kind = AggCount | AggSum | AggAvg | AggMin | AggMax

record aggregate_attr =
  agg_kind :: aggregate_kind
  agg_relation :: string
  agg_field :: "string option"

record field_attributes =
  fa_is_id :: bool
  fa_is_auto :: bool
  fa_is_unique :: bool
  fa_is_indexed :: bool
  fa_is_updated_at :: bool
  fa_is_omit :: bool
  fa_default :: "attr_value option"
  fa_map :: "string option"
  fa_native :: "native_type option"
  fa_relation :: "relation_attr option"
  fa_generated :: "generated_attr option"
  fa_aggregate :: "aggregate_attr option"

definition fa_empty :: field_attributes where
  "fa_empty = \<lparr>fa_is_id = False, fa_is_auto = False, fa_is_unique = False, fa_is_indexed = False,
     fa_is_updated_at = False, fa_is_omit = False, fa_default = None, fa_map = None,
     fa_native = None, fa_relation = None, fa_generated = None, fa_aggregate = None\<rparr>"


subsection \<open>Fields\<close>

record field =
  f_name :: string
  f_type :: field_type
  f_modifier :: type_modifier
  f_attributes :: "attribute list"

definition f_is_optional :: "field \<Rightarrow> bool" where
  "f_is_optional f = modifier_is_optional (f_modifier f)"
definition f_is_list :: "field \<Rightarrow> bool" where
  "f_is_list f = modifier_is_list (f_modifier f)"
definition f_is_id :: "field \<Rightarrow> bool" where
  "f_is_id f = has_attribute ''id'' (f_attributes f)"
definition f_is_unique :: "field \<Rightarrow> bool" where
  "f_is_unique f = has_attribute ''unique'' (f_attributes f)"
definition f_is_relation :: "field \<Rightarrow> bool" where
  "f_is_relation f \<longleftrightarrow> type_is_relation (f_type f) \<or> has_attribute ''relation'' (f_attributes f)"
definition f_is_generated :: "field \<Rightarrow> bool" where
  "f_is_generated f = has_attribute ''generated'' (f_attributes f)"
definition f_is_aggregate :: "field \<Rightarrow> bool" where
  "f_is_aggregate f \<longleftrightarrow> has_attribute ''count'' (f_attributes f) \<or> has_attribute ''sum'' (f_attributes f)
     \<or> has_attribute ''avg'' (f_attributes f) \<or> has_attribute ''min'' (f_attributes f)
     \<or> has_attribute ''max'' (f_attributes f)"
definition f_is_computed :: "field \<Rightarrow> bool" where
  "f_is_computed f \<longleftrightarrow> f_is_generated f \<or> f_is_aggregate f"

text \<open>The \<^verbatim>\<open>"relation"\<close> arm: the arguments of \<^verbatim>\<open>@relation\<close>.\<close>

definition ref_list :: "attr_value option \<Rightarrow> string list" where
  "ref_list v = (case v of Some (FieldRefList fs) \<Rightarrow> fs | _ \<Rightarrow> [])"

definition parse_relation :: "attribute \<Rightarrow> relation_attr" where
  "parse_relation a =
     \<lparr>rel_name = Option.bind (first_arg a) val_as_string,
      rel_fields = ref_list (get_arg ''fields'' a),
      rel_references = ref_list (get_arg ''references'' a),
      rel_on_delete = Option.bind (Option.bind (get_arg ''onDelete'' a) val_as_ident) action_from_str,
      rel_on_update = Option.bind (Option.bind (get_arg ''onUpdate'' a) val_as_ident) action_from_str,
      rel_map = Option.bind (get_arg ''map'' a) val_as_string\<rparr>"

text \<open>\<^verbatim>\<open>str::split_once\<close> with a one-character pattern.\<close>

fun split_once :: "char \<Rightarrow> string \<Rightarrow> (string \<times> string) option" where
  "split_once c [] = None"
| "split_once c (x # xs) =
     (if x = c then Some ([], xs)
      else map_option (\<lambda>(a, b). (x # a, b)) (split_once c xs))"

definition aggregate_of :: "aggregate_kind \<Rightarrow> attribute \<Rightarrow> aggregate_attr option" where
  "aggregate_of k a = (case Option.bind (first_path_arg a) (split_once CHR ''.'') of
     Some (rel, fld) \<Rightarrow> Some \<lparr>agg_kind = k, agg_relation = rel, agg_field = Some fld\<rparr>
   | None \<Rightarrow> None)"

definition set_aggregate :: "aggregate_attr option \<Rightarrow> field_attributes \<Rightarrow> field_attributes" where
  "set_aggregate x fa = (case x of Some g \<Rightarrow> fa\<lparr>fa_aggregate := Some g\<rparr> | None \<Rightarrow> fa)"

text \<open>One iteration of the loop; \<open>as\<close> are all attributes of the field.\<close>

definition extract_one :: "attribute list \<Rightarrow> field_attributes \<Rightarrow> attribute \<Rightarrow> field_attributes" where
  "extract_one as fa a =
     (let n = at_name a in
      if n = ''id'' then fa\<lparr>fa_is_id := True\<rparr>
      else if n = ''auto'' then fa\<lparr>fa_is_auto := True\<rparr>
      else if n = ''unique'' then fa\<lparr>fa_is_unique := True\<rparr>
      else if n = ''index'' then fa\<lparr>fa_is_indexed := True\<rparr>
      else if n = ''updated_at'' then fa\<lparr>fa_is_updated_at := True\<rparr>
      else if n = ''omit'' then fa\<lparr>fa_is_omit := True\<rparr>
      else if n = ''default'' then fa\<lparr>fa_default := first_arg a\<rparr>
      else if n = ''map'' then
        (case first_arg a of Some v \<Rightarrow> fa\<lparr>fa_map := val_as_string v\<rparr> | None \<Rightarrow> fa)
      else if n = ''db'' then
        (case first_arg a of
           Some (ValFunction f xs) \<Rightarrow> fa\<lparr>fa_native := Some \<lparr>nt_name = f, nt_args = xs\<rparr>\<rparr>
         | Some (ValIdent f) \<Rightarrow> fa\<lparr>fa_native := Some \<lparr>nt_name = f, nt_args = []\<rparr>\<rparr>
         | _ \<Rightarrow> fa)
      else if n = ''relation'' then fa\<lparr>fa_relation := Some (parse_relation a)\<rparr>
      else if n = ''generated'' then
        (case first_string_arg a of
           Some e \<Rightarrow> fa\<lparr>fa_generated := Some \<lparr>gen_expression = e, gen_stored = \<not> has_attribute ''virtual'' as\<rparr>\<rparr>
         | None \<Rightarrow> fa)
      else if n = ''count'' then
        (case first_ident_arg a of
           Some r \<Rightarrow> fa\<lparr>fa_aggregate := Some \<lparr>agg_kind = AggCount, agg_relation = r, agg_field = None\<rparr>\<rparr>
         | None \<Rightarrow> fa)
      else if n = ''sum'' then set_aggregate (aggregate_of AggSum a) fa
      else if n = ''avg'' then set_aggregate (aggregate_of AggAvg a) fa
      else if n = ''min'' then set_aggregate (aggregate_of AggMin a) fa
      else if n = ''max'' then set_aggregate (aggregate_of AggMax a) fa
      else fa)"

definition extract_attributes :: "field \<Rightarrow> field_attributes" where
  "extract_attributes f = foldl (extract_one (f_attributes f)) fa_empty (f_attributes f)"

definition f_generated :: "field \<Rightarrow> generated_attr option" where
  "f_generated f = fa_generated (extract_attributes f)"
definition f_aggregate :: "field \<Rightarrow> aggregate_attr option" where
  "f_aggregate f = fa_aggregate (extract_attributes f)"

subsection \<open>Models, enums, views\<close>

type_synonym 'v index_map = "(string, 'v) hash_map"

definition map_values :: "(string \<times> 'v) list \<Rightarrow> 'v list" where
  "map_values m = map snd m"

record model =
  mo_name :: string
  mo_fields :: "field index_map"
  mo_attributes :: "attribute list"

definition mo_new :: "string \<Rightarrow> model" where
  "mo_new n = \<lparr>mo_name = n, mo_fields = [], mo_attributes = []\<rparr>"
definition mo_add_field :: "field \<Rightarrow> model \<Rightarrow> model" where
  "mo_add_field f m = m\<lparr>mo_fields := AList.update (f_name f) f (mo_fields m)\<rparr>"
definition mo_get_field :: "string \<Rightarrow> model \<Rightarrow> field option" where
  "mo_get_field n m = map_of (mo_fields m) n"
definition mo_id_fields :: "model \<Rightarrow> field list" where
  "mo_id_fields m = List.filter f_is_id (map_values (mo_fields m))"
definition mo_relation_fields :: "model \<Rightarrow> field list" where
  "mo_relation_fields m = List.filter f_is_relation (map_values (mo_fields m))"
definition mo_scalar_fields :: "model \<Rightarrow> field list" where
  "mo_scalar_fields m = List.filter (\<lambda>f. \<not> f_is_relation f) (map_values (mo_fields m))"
definition table_name :: "model \<Rightarrow> string" where
  "table_name m = unwrap_or (attribute_string ''map'' (mo_attributes m)) (mo_name m)"

record enum_variant =
  ev_name :: string
  ev_attributes :: "attribute list"

definition ev_db_value :: "enum_variant \<Rightarrow> string" where
  "ev_db_value v = unwrap_or (attribute_string ''map'' (ev_attributes v)) (ev_name v)"

record enum_def =
  en_name :: string
  en_variants :: "enum_variant list"
  en_attributes :: "attribute list"

definition en_new :: "string \<Rightarrow> enum_def" where
  "en_new n = \<lparr>en_name = n, en_variants = [], en_attributes = []\<rparr>"
definition en_add_variant :: "enum_variant \<Rightarrow> enum_def \<Rightarrow> enum_def" where
  "en_add_variant v e = e\<lparr>en_variants := en_variants e @ [v]\<rparr>"
definition en_get_variant :: "string \<Rightarrow> enum_def \<Rightarrow> enum_variant option" where
  "en_get_variant n e = find (\<lambda>v. ev_name v = n) (en_variants e)"
definition database_name :: "enum_def \<Rightarrow> string" where
  "database_name e = unwrap_or (attribute_string ''map'' (en_attributes e)) (en_name e)"

record view =
  vi_name :: string
  vi_fields :: "field index_map"
  vi_attributes :: "attribute list"

definition vi_view_name :: "view \<Rightarrow> string" where
  "vi_view_name v = unwrap_or (attribute_string ''map'' (vi_attributes v)) (vi_name v)"
definition vi_sql_query :: "view \<Rightarrow> string option" where
  "vi_sql_query v = attribute_string ''sql'' (vi_attributes v)"
definition vi_is_materialized :: "view \<Rightarrow> bool" where
  "vi_is_materialized v = has_attribute ''materialized'' (vi_attributes v)"
definition vi_refresh_interval :: "view \<Rightarrow> string option" where
  "vi_refresh_interval v = attribute_string ''refreshInterval'' (vi_attributes v)"

record procedure =
  pr_name :: string
  pr_is_function :: bool
  pr_body :: string

record raw_sql =
  rq_name :: string
  rq_sql :: string

text \<open>The parts of a schema that a migration reads.\<close>

record schema =
  sm_models :: "model index_map"
  sm_enums :: "enum_def index_map"
  sm_views :: "view index_map"
  sm_procedures :: "procedure index_map"
  sm_raw_sql :: "raw_sql list"

definition sm_new :: schema where
  "sm_new = \<lparr>sm_models = [], sm_enums = [], sm_views = [], sm_procedures = [], sm_raw_sql = []\<rparr>"
definition sm_add_model :: "model \<Rightarrow> 'a schema_scheme \<Rightarrow> 'a schema_scheme" where
  "sm_add_model m s = s\<lparr>sm_models := AList.update (mo_name m) m (sm_models s)\<rparr>"
definition sm_add_enum :: "enum_def \<Rightarrow> 'a schema_scheme \<Rightarrow> 'a schema_scheme" where
  "sm_add_enum e s = s\<lparr>sm_enums := AList.update (en_name e) e (sm_enums s)\<rparr>"
definition sm_add_view :: "view \<Rightarrow> 'a schema_scheme \<Rightarrow> 'a schema_scheme" where
  "sm_add_view v s = s\<lparr>sm_views := AList.update (vi_name v) v (sm_views s)\<rparr>"
definition sm_add_raw_sql :: "raw_sql \<Rightarrow> 'a schema_scheme \<Rightarrow> 'a schema_scheme" where
  "sm_add_raw_sql q s = s\<lparr>sm_raw_sql := sm_raw_sql s @ [q]\<rparr>"
definition sm_get_model :: "string \<Rightarrow> 'a schema_scheme \<Rightarrow> model option" where
  "sm_get_model n s = map_of (sm_models s) n"

text \<open>
  Well-formedness, which the \<open>add\<close> operations keep: an index map is keyed by the name of what it
  holds, and every key occurs once.
\<close>

definition keyed_by :: "('v \<Rightarrow> string) \<Rightarrow> 'v index_map \<Rightarrow> bool" where
  "keyed_by f m \<longleftrightarrow> keys_distinct m \<and> list_all (\<lambda>(k, v). k = f v) m"

definition mo_wf :: "model \<Rightarrow> bool" where
  "mo_wf m = keyed_by f_name (mo_fields m)"

definition sm_wf :: "'a schema_scheme \<Rightarrow> bool" where
  "sm_wf s \<longleftrightarrow> keyed_by mo_name (sm_models s) \<and> keyed_by en_name (sm_enums s)
     \<and> keyed_by vi_name (sm_views s) \<and> list_all mo_wf (map_values (sm_models s))"

lemma keyed_by_Nil [simp]: "keyed_by f []"
  by (simp add: keyed_by_def)

lemma keyed_by_update: "keyed_by f m \<Longrightarrow> keyed_by f (AList.update (f v) v m)"
  using set_update_subset [of "f v" v m] by (auto simp: keyed_by_def list_all_iff)

lemma keyed_by_distinct: "keyed_by f m \<Longrightarrow> distinct (map f (map snd m))"
proof -
  assume a: "keyed_by f m"
  then have "map fst m = map f (map snd m)"
    by (induction m) (auto simp: keyed_by_def list_all_iff keys_distinct_def)
  with a show ?thesis by (simp add: keyed_by_def keys_distinct_def)
qed

lemma mo_wf_add_field: "mo_wf m \<Longrightarrow> mo_wf (mo_add_field f m)"
  by (simp add: mo_wf_def mo_add_field_def keyed_by_update)

lemma sm_wf_add_model: "sm_wf s \<Longrightarrow> mo_wf m \<Longrightarrow> sm_wf (sm_add_model m s)"
  using set_update_subset [of "mo_name m" m "sm_models s"]
  by (auto simp: sm_wf_def sm_add_model_def keyed_by_update map_values_def list_all_iff)

lemma sm_wf_add_enum: "sm_wf s \<Longrightarrow> sm_wf (sm_add_enum e s)"
  by (simp add: sm_wf_def sm_add_enum_def keyed_by_update)

lemma sm_wf_add_view: "sm_wf s \<Longrightarrow> sm_wf (sm_add_view v s)"
  by (simp add: sm_wf_def sm_add_view_def keyed_by_update)

subsection \<open>Index types\<close>

datatype index_type = IxBTree | IxHash | IxGist | IxGin | IxFullText | IxBrin | IxHnsw | IxIvfFlat

definition index_type_from_str :: "string \<Rightarrow> index_type option" where
  "index_type_from_str s0 = (let s = lower s0 in
     if s = ''btree'' then Some IxBTree
     else if s = ''hash'' then Some IxHash
     else if s = ''gist'' then Some IxGist
     else if s = ''gin'' then Some IxGin
     else if s = ''fulltext'' then Some IxFullText
     else if s = ''brin'' then Some IxBrin
     else if s = ''hnsw'' then Some IxHnsw
     else if s = ''ivfflat'' then Some IxIvfFlat
     else None)"

fun is_vector_index_type :: "index_type \<Rightarrow> bool" where
  "is_vector_index_type IxHnsw = True"
| "is_vector_index_type IxIvfFlat = True"
| "is_vector_index_type _ = False"

fun index_type_sql :: "index_type \<Rightarrow> string" where
  "index_type_sql IxBTree = ''BTREE''"
| "index_type_sql IxHash = ''HASH''"
| "index_type_sql IxGist = ''GIST''"
| "index_type_sql IxGin = ''GIN''"
| "index_type_sql IxFullText = ''GIN''"
| "index_type_sql IxBrin = ''BRIN''"
| "index_type_sql IxHnsw = ''hnsw''"
| "index_type_sql IxIvfFlat = ''ivfflat''"

datatype vector_ops = OpsCosine | OpsL2 | OpsInnerProduct

definition vector_ops_from_str :: "string \<Rightarrow> vector_ops option" where
  "vector_ops_from_str s0 = (let s = lower s0 in
     if s = ''cosine'' \<or> s = ''vector_cosine_ops'' then Some OpsCosine
     else if s = ''l2'' \<or> s = ''vector_l2_ops'' \<or> s = ''euclidean'' then Some OpsL2
     else if s = ''ip'' \<or> s = ''inner_product'' \<or> s = ''vector_ip_ops'' \<or> s = ''innerproduct''
       then Some OpsInnerProduct
     else None)"

fun ops_class :: "vector_ops \<Rightarrow> string" where
  "ops_class OpsCosine = ''vector_cosine_ops''"
| "ops_class OpsL2 = ''vector_l2_ops''"
| "ops_class OpsInnerProduct = ''vector_ip_ops''"

subsection \<open>Properties\<close>

fun erase_dim :: "scalar_type \<Rightarrow> scalar_type" where
  "erase_dim (ScVector _) = ScVector None"
| "erase_dim (ScHalfVector _) = ScHalfVector None"
| "erase_dim (ScSparseVector _) = ScSparseVector None"
| "erase_dim (ScBit _) = ScBit None"
| "erase_dim t = t"

text \<open>
  The names of scalar types are read back: \<open>from_str\<close> of a printed name gives the type
  without its dimension, and \<open>parse_with_param\<close> with the dimension gives the type itself.
\<close>

theorem scalar_name_roundtrip:
  "scalar_from_str (scalar_as_str t) = Some (erase_dim t) \<and>
   parse_with_param (scalar_as_str t) (scalar_dimension t) = Some t \<and>
   scalar_as_str (erase_dim t) = scalar_as_str t"
  by (cases t) (simp_all add: scalar_from_str_def parse_with_param_def)

end
