(* ===== verification/Keyed_Diff.thy ===== *)
theory Keyed_Diff
  imports Hash_Maps
begin

text \<open>
  The shape every differ of the migration engine has: both sides are collected in hash maps by a
  key; what only the target has is created, what only the source has is dropped, and what both have
  is compared.  The functions below are the three loops, \<open>apply_changes\<close> is the meaning of their
  result as an update of the source map.  The locale \<open>keyed_diff\<close> is the contract between the
  loops and the comparison of two items: whoever provides a comparison that reports every
  difference gets a differ whose result leads from the source to the target.
\<close>

text \<open>\<^verbatim>\<open>iter.map(|x| (key(x), x)).collect()\<close>\<close>

definition collect_by :: "('v \<Rightarrow> 'k) \<Rightarrow> 'v list \<Rightarrow> ('k, 'v) hash_map" where
  "collect_by key xs = foldl (\<lambda>m x. AList.update (key x) x m) [] xs"

definition created :: "('k, 'a) hash_map \<Rightarrow> ('k, 'b) hash_map \<Rightarrow> ('k \<times> 'b) list" where
  "created src tgt = List.filter (\<lambda>(k, y). map_of src k = None) tgt"

definition dropped :: "('k, 'a) hash_map \<Rightarrow> ('k, 'b) hash_map \<Rightarrow> 'k list" where
  "dropped src tgt = List.filter (\<lambda>k. map_of tgt k = None) (map fst src)"

definition altered ::
  "('a \<Rightarrow> 'b \<Rightarrow> 'd option) \<Rightarrow> ('k, 'a) hash_map \<Rightarrow> ('k, 'b) hash_map \<Rightarrow> ('k \<times> 'd) list" where
  "altered alter src tgt = List.map_filter (\<lambda>(k, y). case map_of src k of
     Some x \<Rightarrow> map_option (\<lambda>d. (k, d)) (alter x y) | None \<Rightarrow> None) tgt"

definition apply_changes ::
  "('b \<Rightarrow> 'o) \<Rightarrow> ('d \<Rightarrow> 'o \<Rightarrow> 'o) \<Rightarrow> ('k \<times> 'b) list \<Rightarrow> 'k list \<Rightarrow> ('k \<times> 'd) list
    \<Rightarrow> ('k \<rightharpoonup> 'o) \<Rightarrow> ('k \<rightharpoonup> 'o)" where
  "apply_changes build app cr dr al m = (\<lambda>k. case map_of cr k of
     Some y \<Rightarrow> Some (build y)
   | None \<Rightarrow> if k \<in> set dr then None
             else (case map_of al k of Some d \<Rightarrow> map_option (app d) (m k) | None \<Rightarrow> m k))"

subsection \<open>Lookups\<close>

lemma keys_distinct_collect [simp]: "keys_distinct (collect_by key xs)"
  unfolding collect_by_def by (induction xs rule: rev_induct) simp_all

lemma collect_by_snoc: "collect_by key (xs @ [x]) = AList.update (key x) x (collect_by key xs)"
  by (simp add: collect_by_def)

lemma map_of_collect:
  "map_of (collect_by key xs) k = find (\<lambda>x. key x = k) (rev xs)"
  by (induction xs rule: rev_induct) (auto simp: collect_by_snoc hash_map_simps collect_by_def)

lemma collect_by_distinct:
  "distinct (map key xs) \<Longrightarrow> collect_by key xs = map (\<lambda>x. (key x, x)) xs"
proof (induction xs rule: rev_induct)
  case (snoc x xs)
  then have "key x \<notin> fst ` set (map (\<lambda>x. (key x, x)) xs)" by auto
  with snoc show ?case by (simp add: collect_by_snoc update_new)
qed (simp add: collect_by_def)

lemma set_collect_by: "(k, x) \<in> set (collect_by key xs) \<Longrightarrow> k = key x \<and> x \<in> set xs"
proof (induction xs rule: rev_induct)
  case (snoc y xs)
  then show ?case using set_update_subset [of "key y" y "collect_by key xs"]
    unfolding collect_by_snoc by auto
qed (simp add: collect_by_def)

lemma map_of_created:
  "keys_distinct tgt \<Longrightarrow> map_of (created src tgt) k = (if map_of src k = None then map_of tgt k else None)"
  by (auto simp: created_def map_of_filter_hm split: option.splits)

lemma set_dropped: "k \<in> set (dropped src tgt) \<longleftrightarrow> map_of src k \<noteq> None \<and> map_of tgt k = None"
  by (auto simp: dropped_def map_of_keys)

lemma map_of_altered:
  "keys_distinct tgt \<Longrightarrow> map_of (altered alter src tgt) k
     = (case map_of src k of None \<Rightarrow> None
        | Some x \<Rightarrow> (case map_of tgt k of None \<Rightarrow> None | Some y \<Rightarrow> alter x y))"
proof (induction tgt)
  case Nil
  then show ?case by (simp add: altered_def List.map_filter_simps split: option.splits)
next
  case (Cons p tgt)
  obtain k0 y where p: "p = (k0, y)" by (cases p)
  with Cons.prems have *: "keys_distinct tgt" "map_of tgt k0 = None"
    by (auto simp: keys_distinct_def map_of_keys)
  have split: "altered alter src (p # tgt) = (case map_of src k0 of
      Some x \<Rightarrow> (case alter x y of Some d \<Rightarrow> [(k0, d)] | None \<Rightarrow> []) | None \<Rightarrow> []) @ altered alter src tgt"
    by (simp add: altered_def List.map_filter_simps p split: option.splits)
  show ?case
    using Cons.IH [OF *(1)] * unfolding split by (auto simp: p split: option.splits)
qed

text \<open>The results keep the items only; their keys can be read off them.\<close>

definition rekey :: "('v \<Rightarrow> 'k) \<Rightarrow> 'v list \<Rightarrow> ('k \<times> 'v) list" where
  "rekey key xs = map (\<lambda>x. (key x, x)) xs"

lemma rekey_snd:
  assumes "\<And>k x. (k, x) \<in> set m \<Longrightarrow> k = key x"
  shows "rekey key (map snd m) = m"
proof -
  have "map (\<lambda>p. (key (snd p), snd p)) m = map id m" using assms by (intro map_cong) (auto simp: split_pairs)
  then show ?thesis by (simp add: rekey_def comp_def)
qed

lemma rekey_created [simp]:
  "rekey key (map snd (created src (collect_by key xs))) = created src (collect_by key xs)"
  by (rule rekey_snd) (auto simp: created_def dest: set_collect_by)

lemma rekey_altered:
  assumes "\<And>x y d. alter x y = Some d \<Longrightarrow> dkey d = key y"
  shows "rekey dkey (map snd (altered alter src (collect_by key xs))) = altered alter src (collect_by key xs)"
proof (rule rekey_snd)
  fix k d assume "(k, d) \<in> set (altered alter src (collect_by key xs))"
  then obtain x y where "(k, y) \<in> set (collect_by key xs)" "alter x y = Some d"
    by (auto simp: altered_def List.map_filter_def split: option.splits)
  with assms show "k = dkey d" by (auto dest: set_collect_by)
qed

locale keyed_diff =
  fixes alter :: "'a \<Rightarrow> 'b \<Rightarrow> 'd option"
    and obs_src :: "'a \<Rightarrow> 'o" and obs_tgt :: "'b \<Rightarrow> 'o" and app :: "'d \<Rightarrow> 'o \<Rightarrow> 'o"
  assumes alter_None: "alter x y = None \<Longrightarrow> obs_src x = obs_tgt y"
    and alter_Some: "alter x y = Some d \<Longrightarrow> app d (obs_src x) = obs_tgt y"
begin

text \<open>The three lists of changes lead from the source to the target.\<close>

lemma changes_lead_to_target:
  assumes "keys_distinct tgt"
  shows "apply_changes obs_tgt app (created src tgt) (dropped src tgt) (altered alter src tgt)
           (\<lambda>k. map_option obs_src (map_of src k)) k = map_option obs_tgt (map_of tgt k)"
  using assms alter_None alter_Some
  by (auto simp: apply_changes_def map_of_created set_dropped map_of_altered split: option.splits)

text \<open>Nothing is created, dropped or altered exactly when there is nothing to tell apart.\<close>

lemma no_changes_iff:
  assumes "keys_distinct tgt"
  shows "created src tgt = [] \<and> dropped src tgt = [] \<and> altered alter src tgt = [] \<longleftrightarrow>
    (\<forall>k. rel_option (\<lambda>x y. alter x y = None) (map_of src k) (map_of tgt k))"
    (is "?none \<longleftrightarrow> ?same")
proof
  assume none: ?none
  show ?same
  proof
    fix k
    have "map_of (created src tgt) k = None" "k \<notin> set (dropped src tgt)"
      "map_of (altered alter src tgt) k = None" using none by simp_all
    then show "rel_option (\<lambda>x y. alter x y = None) (map_of src k) (map_of tgt k)"
      using assms by (auto simp: map_of_created set_dropped map_of_altered option.rel_sel split: option.splits)
  qed
next
  assume same: ?same
  have nil: "m = []" if "\<And>k. map_of m k = None" for m :: "('x \<times> 'y) list"
    using that by (cases m) (force split: if_splits)+
  have "map_of (created src tgt) k = None" for k
    using same [rule_format, of k] assms by (auto simp: map_of_created option.rel_sel)
  moreover have "k \<notin> set (dropped src tgt)" for k
    using same [rule_format, of k] by (auto simp: set_dropped option.rel_sel)
  moreover have "map_of (altered alter src tgt) k = None" for k
    using same [rule_format, of k] assms by (auto simp: map_of_altered option.rel_sel split: option.splits)
  ultimately show ?none using nil [of "created src tgt"] nil [of "altered alter src tgt"]
    by (metis list.set_intros(1) neq_Nil_conv)
qed

end

end
