(* ===== verification/Procedure_Diff.thy ===== *)
theory Procedure_Diff
  imports Keyed_Diff Prax_Prelude
begin

text \<open>
  Stored procedures and triggers (\<^verbatim>\<open>prax-migrate/src/procedure.rs\<close>): their definitions, the differ,
  and the SQL of the four databases.  The hash that \<open>body\<close> stores as a checksum
  (\<^verbatim>\<open>DefaultHasher\<close>) is the parameter \<open>hash_hex\<close>.
\<close>

abbreviation (input) NL :: string where "NL \<equiv> [CHR 0x0A]"

subsection \<open>Definitions\<close>

datatype parameter_mode = ModeIn | ModeOut | ModeInOut | ModeVariadic

record procedure_parameter =
  pp_name :: string
  pp_type :: string
  pp_mode :: parameter_mode
  pp_default :: "string option"

record return_column =
  rt_name :: string
  rt_type :: string

datatype procedure_language = LangSql | LangPlPgSql | LangPlPython | LangPlPerl | LangPlTcl | LangPlV8 | LangC

fun language_sql :: "procedure_language \<Rightarrow> string" where
  "language_sql LangSql = ''SQL''"
| "language_sql LangPlPgSql = ''plpgsql''"
| "language_sql LangPlPython = ''plpython3u''"
| "language_sql LangPlPerl = ''plperl''"
| "language_sql LangPlTcl = ''pltcl''"
| "language_sql LangPlV8 = ''plv8''"
| "language_sql LangC = ''C''"

datatype volatility = VolVolatile | VolStable | VolImmutable

fun volatility_sql :: "volatility \<Rightarrow> string" where
  "volatility_sql VolVolatile = ''VOLATILE''"
| "volatility_sql VolStable = ''STABLE''"
| "volatility_sql VolImmutable = ''IMMUTABLE''"

datatype parallel_safety = ParUnsafe | ParRestricted | ParSafe

fun parallel_sql :: "parallel_safety \<Rightarrow> string" where
  "parallel_sql ParUnsafe = ''PARALLEL UNSAFE''"
| "parallel_sql ParRestricted = ''PARALLEL RESTRICTED''"
| "parallel_sql ParSafe = ''PARALLEL SAFE''"

record procedure_def =
  pf_name :: string
  pf_schema :: "string option"
  pf_is_function :: bool
  pf_parameters :: "procedure_parameter list"
  pf_return_type :: "string option"
  pf_returns_set :: bool
  pf_return_columns :: "return_column list"
  pf_language :: procedure_language
  pf_body :: string
  pf_volatility :: volatility
  pf_security_definer :: bool
  pf_cost :: "i32 option"
  pf_rows :: "i32 option"
  pf_parallel :: parallel_safety
  pf_or_replace :: bool
  pf_comment :: "string option"
  pf_checksum :: "string option"
  pf_version :: "i32 option"

definition pf_default :: procedure_def where
  "pf_default = \<lparr>pf_name = [], pf_schema = None, pf_is_function = True, pf_parameters = [],
     pf_return_type = None, pf_returns_set = False, pf_return_columns = [], pf_language = LangSql,
     pf_body = [], pf_volatility = VolVolatile, pf_security_definer = False, pf_cost = None,
     pf_rows = None, pf_parallel = ParUnsafe, pf_or_replace = True, pf_comment = None,
     pf_checksum = None, pf_version = None\<rparr>"

definition pf_new :: "string \<Rightarrow> procedure_def" where
  "pf_new n = pf_default\<lparr>pf_name := n\<rparr>"
definition pf_function :: "string \<Rightarrow> procedure_def" where
  "pf_function n = pf_default\<lparr>pf_name := n, pf_is_function := True\<rparr>"
definition pf_procedure :: "string \<Rightarrow> procedure_def" where
  "pf_procedure n = pf_default\<lparr>pf_name := n, pf_is_function := False\<rparr>"
definition pf_set_schema :: "string \<Rightarrow> procedure_def \<Rightarrow> procedure_def" where
  "pf_set_schema s p = p\<lparr>pf_schema := Some s\<rparr>"

text \<open>\<open>param\<close>, \<open>out_param\<close> and \<open>inout_param\<close> differ in the mode only.\<close>

definition pf_param :: "parameter_mode \<Rightarrow> string \<Rightarrow> string \<Rightarrow> procedure_def \<Rightarrow> procedure_def" where
  "pf_param mode n t p = p\<lparr>pf_parameters := pf_parameters p
     @ [\<lparr>pp_name = n, pp_type = t, pp_mode = mode, pp_default = None\<rparr>]\<rparr>"
definition pf_returns :: "string \<Rightarrow> procedure_def \<Rightarrow> procedure_def" where
  "pf_returns t p = p\<lparr>pf_return_type := Some t\<rparr>"
definition pf_returns_setof :: "string \<Rightarrow> procedure_def \<Rightarrow> procedure_def" where
  "pf_returns_setof t p = p\<lparr>pf_return_type := Some t, pf_returns_set := True\<rparr>"
definition pf_returns_table :: "return_column list \<Rightarrow> procedure_def \<Rightarrow> procedure_def" where
  "pf_returns_table cols p = p\<lparr>pf_returns_set := True, pf_return_columns := cols\<rparr>"
definition pf_set_body :: "(string \<Rightarrow> string) \<Rightarrow> string \<Rightarrow> procedure_def \<Rightarrow> procedure_def" where
  "pf_set_body hash_hex b p = p\<lparr>pf_body := b, pf_checksum := Some (hash_hex b)\<rparr>"

definition qualified_as :: "string option \<Rightarrow> string \<Rightarrow> string" where
  "qualified_as s n = (case s of Some schema \<Rightarrow> schema @ ''.'' @ n | None \<Rightarrow> n)"
definition pf_qualified_name :: "procedure_def \<Rightarrow> string" where
  "pf_qualified_name p = qualified_as (pf_schema p) (pf_name p)"

definition pf_has_changed :: "procedure_def \<Rightarrow> procedure_def \<Rightarrow> bool" where
  "pf_has_changed p q =
     (if (case (pf_checksum p, pf_checksum q) of (Some a, Some b) \<Rightarrow> a \<noteq> b | _ \<Rightarrow> False) then True
      else pf_body p \<noteq> pf_body q \<or> pf_parameters p \<noteq> pf_parameters q \<or> pf_return_type p \<noteq> pf_return_type q
        \<or> pf_returns_set p \<noteq> pf_returns_set q \<or> pf_language p \<noteq> pf_language q
        \<or> pf_volatility p \<noteq> pf_volatility q \<or> pf_security_definer p \<noteq> pf_security_definer q)"

datatype trigger_timing = Before | After | InsteadOf

fun timing_sql :: "trigger_timing \<Rightarrow> string" where
  "timing_sql Before = ''BEFORE''"
| "timing_sql After = ''AFTER''"
| "timing_sql InsteadOf = ''INSTEAD OF''"

datatype trigger_event = OnInsert | OnUpdate | OnDelete | OnTruncate

fun trigger_event_sql :: "trigger_event \<Rightarrow> string" where
  "trigger_event_sql OnInsert = ''INSERT''"
| "trigger_event_sql OnUpdate = ''UPDATE''"
| "trigger_event_sql OnDelete = ''DELETE''"
| "trigger_event_sql OnTruncate = ''TRUNCATE''"

datatype trigger_level = PerRow | PerStatement

fun trigger_level_sql :: "trigger_level \<Rightarrow> string" where
  "trigger_level_sql PerRow = ''FOR EACH ROW''"
| "trigger_level_sql PerStatement = ''FOR EACH STATEMENT''"

record trigger_def =
  tg_name :: string
  tg_schema :: "string option"
  tg_table :: string
  tg_timing :: trigger_timing
  tg_events :: "trigger_event list"
  tg_level :: trigger_level
  tg_condition :: "string option"
  tg_function :: string
  tg_args :: "string list"
  tg_or_replace :: bool
  tg_comment :: "string option"
  tg_checksum :: "string option"

definition tg_default :: trigger_def where
  "tg_default = \<lparr>tg_name = [], tg_schema = None, tg_table = [], tg_timing = Before,
     tg_events = [OnInsert], tg_level = PerRow, tg_condition = None, tg_function = [], tg_args = [],
     tg_or_replace = True, tg_comment = None, tg_checksum = None\<rparr>"
definition tg_new :: "string \<Rightarrow> string \<Rightarrow> trigger_def" where
  "tg_new n t = tg_default\<lparr>tg_name := n, tg_table := t\<rparr>"
definition tg_qualified_name :: "trigger_def \<Rightarrow> string" where
  "tg_qualified_name t = qualified_as (tg_schema t) (tg_name t)"

subsection \<open>The differ\<close>

datatype procedure_change = ChBody | ChParameters | ChReturnType | ChLanguage | ChVolatility
  | ChSecurityDefiner | ChCost | ChParallel

record procedure_alter =
  pa_old :: procedure_def
  pa_new :: procedure_def
  pa_changes :: "procedure_change list"

record trigger_alter =
  ta_old :: trigger_def
  ta_new :: trigger_def

record procedure_diff =
  pd_create :: "procedure_def list"
  pd_drop :: "string list"
  pd_alter :: "procedure_alter list"
  pd_create_triggers :: "trigger_def list"
  pd_drop_triggers :: "string list"
  pd_alter_triggers :: "trigger_alter list"

definition pd_empty :: procedure_diff where
  "pd_empty = \<lparr>pd_create = [], pd_drop = [], pd_alter = [], pd_create_triggers = [],
     pd_drop_triggers = [], pd_alter_triggers = []\<rparr>"
definition pd_is_empty :: "procedure_diff \<Rightarrow> bool" where
  "pd_is_empty d \<longleftrightarrow> pd_create d = [] \<and> pd_drop d = [] \<and> pd_alter d = []
     \<and> pd_create_triggers d = [] \<and> pd_drop_triggers d = [] \<and> pd_alter_triggers d = []"

definition count_part :: "string \<Rightarrow> string \<Rightarrow> nat \<Rightarrow> string list" where
  "count_part before after n = (if n = 0 then [] else [before @ show_nat n @ after])"
definition pd_parts :: "procedure_diff \<Rightarrow> string list" where
  "pd_parts d = count_part ''Create '' '' procedures'' (length (pd_create d))
     @ count_part ''Drop '' '' procedures'' (length (pd_drop d))
     @ count_part ''Alter '' '' procedures'' (length (pd_alter d))
     @ count_part ''Create '' '' triggers'' (length (pd_create_triggers d))
     @ count_part ''Drop '' '' triggers'' (length (pd_drop_triggers d))
     @ count_part ''Alter '' '' triggers'' (length (pd_alter_triggers d))"
definition pd_summary :: "procedure_diff \<Rightarrow> string" where
  "pd_summary d = (if pd_parts d = [] then ''No changes'' else join '', '' (pd_parts d))"

definition change_if :: "bool \<Rightarrow> procedure_change \<Rightarrow> procedure_change list" where
  "change_if b c = (if b then [c] else [])"
definition detect_procedure_changes :: "procedure_def \<Rightarrow> procedure_def \<Rightarrow> procedure_change list" where
  "detect_procedure_changes p q =
     change_if (pf_body p \<noteq> pf_body q) ChBody
     @ change_if (pf_parameters p \<noteq> pf_parameters q) ChParameters
     @ change_if (pf_return_type p \<noteq> pf_return_type q \<or> pf_returns_set p \<noteq> pf_returns_set q) ChReturnType
     @ change_if (pf_language p \<noteq> pf_language q) ChLanguage
     @ change_if (pf_volatility p \<noteq> pf_volatility q) ChVolatility
     @ change_if (pf_security_definer p \<noteq> pf_security_definer q) ChSecurityDefiner
     @ change_if (pf_cost p \<noteq> pf_cost q) ChCost
     @ change_if (pf_parallel p \<noteq> pf_parallel q) ChParallel"

definition alter_procedure_diff :: "procedure_def \<Rightarrow> procedure_def \<Rightarrow> procedure_alter option" where
  "alter_procedure_diff p q = (if pf_has_changed p q
     then Some \<lparr>pa_old = p, pa_new = q, pa_changes = detect_procedure_changes p q\<rparr> else None)"

definition pd_diff :: "procedure_def list \<Rightarrow> procedure_def list \<Rightarrow> procedure_diff" where
  "pd_diff from to =
     (let src = collect_by pf_qualified_name from; tgt = collect_by pf_qualified_name to
      in pd_empty\<lparr>pd_create := map snd (created src tgt), pd_drop := dropped src tgt,
        pd_alter := map snd (altered alter_procedure_diff src tgt)\<rparr>)"

definition alter_trigger_diff :: "trigger_def \<Rightarrow> trigger_def \<Rightarrow> trigger_alter option" where
  "alter_trigger_diff t u = (if t \<noteq> u then Some \<lparr>ta_old = t, ta_new = u\<rparr> else None)"

definition pd_diff_triggers :: "trigger_def list \<Rightarrow> trigger_def list \<Rightarrow> procedure_diff" where
  "pd_diff_triggers from to =
     (let src = collect_by tg_qualified_name from; tgt = collect_by tg_qualified_name to
      in pd_empty\<lparr>pd_create_triggers := map snd (created src tgt), pd_drop_triggers := dropped src tgt,
        pd_alter_triggers := map snd (altered alter_trigger_diff src tgt)\<rparr>)"

end
