(* ===== verification/Diff_Types.thy ===== *)
theory Diff_Types
  imports Schema_Ast Procedure_Diff
begin

text \<open>
  The difference between two schemas as data (\<^verbatim>\<open>prax-migrate/src/diff.rs\<close>): what to create, drop
  and alter, with the summary of a diff.
\<close>

record extension_diff =
  xd_name :: string
  xd_schema :: "string option"
  xd_version :: "string option"

record foreign_key =
  fk_name :: string
  fk_columns :: "string list"
  fk_table :: string
  fk_ref_columns :: "string list"
  fk_on_delete :: "string option"
  fk_on_update :: "string option"

datatype vector_element = ElFloat2 | ElFloat4 | ElFloat8 | ElInt1 | ElInt2 | ElInt4
datatype vector_metric = MetricCosine | MetricL2 | MetricInner
datatype vector_index_kind = KindHnsw

fun element_sql :: "vector_element \<Rightarrow> string" where
  "element_sql ElFloat2 = ''float2''"
| "element_sql ElFloat4 = ''float4''"
| "element_sql ElFloat8 = ''float8''"
| "element_sql ElInt1 = ''int1''"
| "element_sql ElInt2 = ''int2''"
| "element_sql ElInt4 = ''int4''"

fun metric_sql :: "vector_metric \<Rightarrow> string" where
  "metric_sql MetricCosine = ''cosine''"
| "metric_sql MetricL2 = ''l2''"
| "metric_sql MetricInner = ''inner''"

record vector_column =
  vc_dimensions :: u32
  vc_element :: vector_element
  vc_metric :: vector_metric
  vc_index :: "vector_index_kind option"

record field_diff =
  fd_name :: string
  fd_column :: string
  fd_type :: string
  fd_nullable :: bool
  fd_default :: "string option"
  fd_primary :: bool
  fd_auto :: bool
  fd_unique :: bool
  fd_vector :: "vector_column option"
  fd_enum :: "string option"
  fd_generated :: "generated_attr option"

record field_alter =
  fl_name :: string
  fl_column :: string
  fl_old_type :: "string option"
  fl_new_type :: "string option"
  fl_old_nullable :: "bool option"
  fl_new_nullable :: "bool option"
  fl_old_default :: "string option"
  fl_new_default :: "string option"

record enum_diff =
  ed_name :: string
  ed_values :: "string list"

record enum_alter =
  el_name :: string
  el_add :: "string list"
  el_remove :: "string list"

record index_diff =
  ix_name :: string
  ix_table :: string
  ix_columns :: "string list"
  ix_unique :: bool
  ix_type :: "index_type option"
  ix_ops :: "vector_ops option"
  ix_hnsw_m :: "u32 option"
  ix_hnsw_ef :: "u32 option"
  ix_lists :: "u32 option"

definition ix_new :: "string \<Rightarrow> string \<Rightarrow> string list \<Rightarrow> index_diff" where
  "ix_new n t cols = \<lparr>ix_name = n, ix_table = t, ix_columns = cols, ix_unique = False, ix_type = None,
     ix_ops = None, ix_hnsw_m = None, ix_hnsw_ef = None, ix_lists = None\<rparr>"
definition ix_set_unique :: "index_diff \<Rightarrow> index_diff" where
  "ix_set_unique i = i\<lparr>ix_unique := True\<rparr>"
definition ix_with_type :: "index_type \<Rightarrow> index_diff \<Rightarrow> index_diff" where
  "ix_with_type t i = i\<lparr>ix_type := Some t\<rparr>"
definition ix_with_ops :: "vector_ops \<Rightarrow> index_diff \<Rightarrow> index_diff" where
  "ix_with_ops v i = i\<lparr>ix_ops := Some v\<rparr>"
definition ix_with_m :: "u32 \<Rightarrow> index_diff \<Rightarrow> index_diff" where
  "ix_with_m v i = i\<lparr>ix_hnsw_m := Some v\<rparr>"
definition ix_with_ef :: "u32 \<Rightarrow> index_diff \<Rightarrow> index_diff" where
  "ix_with_ef v i = i\<lparr>ix_hnsw_ef := Some v\<rparr>"
definition ix_with_lists :: "u32 \<Rightarrow> index_diff \<Rightarrow> index_diff" where
  "ix_with_lists v i = i\<lparr>ix_lists := Some v\<rparr>"
definition ix_is_vector :: "index_diff \<Rightarrow> bool" where
  "ix_is_vector i = (case ix_type i of Some t \<Rightarrow> is_vector_index_type t | None \<Rightarrow> False)"

record unique_constraint =
  uq_name :: "string option"
  uq_columns :: "string list"

record model_diff =
  md_name :: string
  md_table :: string
  md_fields :: "field_diff list"
  md_primary_key :: "string list"
  md_indexes :: "index_diff list"
  md_uniques :: "unique_constraint list"
  md_foreign_keys :: "foreign_key list"

record model_alter =
  ma_name :: string
  ma_table :: string
  ma_add_fields :: "field_diff list"
  ma_drop_fields :: "string list"
  ma_alter_fields :: "field_alter list"
  ma_add_indexes :: "index_diff list"
  ma_drop_indexes :: "string list"
  ma_add_foreign_keys :: "foreign_key list"
  ma_drop_foreign_keys :: "string list"

record view_field_diff =
  vf_name :: string
  vf_column :: string
  vf_type :: string
  vf_nullable :: bool

record view_diff =
  vd_name :: string
  vd_view :: string
  vd_sql :: string
  vd_materialized :: bool
  vd_refresh :: "string option"
  vd_fields :: "view_field_diff list"

record schema_diff =
  sd_create_extensions :: "extension_diff list"
  sd_drop_extensions :: "string list"
  sd_create_models :: "model_diff list"
  sd_drop_models :: "string list"
  sd_alter_models :: "model_alter list"
  sd_create_enums :: "enum_diff list"
  sd_drop_enums :: "string list"
  sd_alter_enums :: "enum_alter list"
  sd_create_views :: "view_diff list"
  sd_drop_views :: "string list"
  sd_alter_views :: "view_diff list"
  sd_create_indexes :: "index_diff list"
  sd_drop_indexes :: "index_diff list"
  sd_procedures :: "procedure_diff option"

definition sd_empty :: schema_diff where
  "sd_empty = \<lparr>sd_create_extensions = [], sd_drop_extensions = [], sd_create_models = [],
     sd_drop_models = [], sd_alter_models = [], sd_create_enums = [], sd_drop_enums = [],
     sd_alter_enums = [], sd_create_views = [], sd_drop_views = [], sd_alter_views = [],
     sd_create_indexes = [], sd_drop_indexes = [], sd_procedures = None\<rparr>"

definition sd_is_empty :: "schema_diff \<Rightarrow> bool" where
  "sd_is_empty d \<longleftrightarrow> sd_create_extensions d = [] \<and> sd_drop_extensions d = [] \<and> sd_create_models d = []
     \<and> sd_drop_models d = [] \<and> sd_alter_models d = [] \<and> sd_create_enums d = [] \<and> sd_drop_enums d = []
     \<and> sd_alter_enums d = [] \<and> sd_create_views d = [] \<and> sd_drop_views d = [] \<and> sd_alter_views d = []
     \<and> sd_create_indexes d = [] \<and> sd_drop_indexes d = []
     \<and> (case sd_procedures d of None \<Rightarrow> True | Some p \<Rightarrow> pd_is_empty p)"

definition sd_summary :: "schema_diff \<Rightarrow> string" where
  "sd_summary d =
     (let parts =
        count_part ''Create '' '' extensions'' (length (sd_create_extensions d))
        @ count_part ''Drop '' '' extensions'' (length (sd_drop_extensions d))
        @ count_part ''Create '' '' models'' (length (sd_create_models d))
        @ count_part ''Drop '' '' models'' (length (sd_drop_models d))
        @ count_part ''Alter '' '' models'' (length (sd_alter_models d))
        @ count_part ''Create '' '' enums'' (length (sd_create_enums d))
        @ count_part ''Drop '' '' enums'' (length (sd_drop_enums d))
        @ count_part ''Create '' '' views'' (length (sd_create_views d))
        @ count_part ''Drop '' '' views'' (length (sd_drop_views d))
        @ count_part ''Alter '' '' views'' (length (sd_alter_views d))
        @ count_part ''Create '' '' indexes'' (length (sd_create_indexes d))
        @ count_part ''Drop '' '' indexes'' (length (sd_drop_indexes d))
        @ (case sd_procedures d of None \<Rightarrow> [] | Some p \<Rightarrow> pd_parts p)
      in if parts = [] then ''No changes'' else join '', '' parts)"

end
