(* ===== verification/Model_Ordering.thy ===== *)
theory Model_Ordering
  imports Diff_Types "HOL-Library.Multiset"
begin

text \<open>
  The order in which the tables of a migration are created (\<^verbatim>\<open>SchemaDiff::ordered_create_models\<close>
  in \<^verbatim>\<open>prax-migrate/src/diff.rs\<close>): Kahn's algorithm over the foreign keys between the tables of
  the batch.  The maps of the code are the association lists of \<open>Hash_Maps\<close>, the work list is
  \<open>ready\<close>; the loop terminates because every round emits a new table or shortens the work list.
\<close>

subsection \<open>The algorithm\<close>

text \<open>The tables of the batch that a table references, each once; \<open>seen\<close> is the set of the inner
  loop.\<close>

fun batch_targets :: "string list \<Rightarrow> string \<Rightarrow> string list \<Rightarrow> foreign_key list \<Rightarrow> string list" where
  "batch_targets batch self seen [] = []"
| "batch_targets batch self seen (fk # fks) =
     (let target = fk_table fk in
      if target = self then batch_targets batch self seen fks
      else if target \<notin> set batch then batch_targets batch self seen fks
      else if target \<in> set seen then batch_targets batch self seen fks
      else target # batch_targets batch self (target # seen) fks)"

definition targets_of :: "string list \<Rightarrow> model_diff \<Rightarrow> string list" where
  "targets_of batch m = batch_targets batch (md_table m) [] (md_foreign_keys m)"

type_synonym edges = "(string, string list) hash_map"
type_synonym degrees = "(string, nat) hash_map"

definition add_edge :: "string \<Rightarrow> edges \<times> degrees \<Rightarrow> string \<Rightarrow> edges \<times> degrees" where
  "add_edge self = (\<lambda>(deps, deg) target.
     (entry_modify target [] (\<lambda>cs. cs @ [self]) deps, entry_modify self 0 (\<lambda>n. n + 1) deg))"

definition add_model_edges :: "string list \<Rightarrow> edges \<times> degrees \<Rightarrow> model_diff \<Rightarrow> edges \<times> degrees" where
  "add_model_edges batch s m = foldl (add_edge (md_table m)) s (targets_of batch m)"

definition build_graph :: "model_diff list \<Rightarrow> edges \<times> degrees" where
  "build_graph ms = foldl (add_model_edges (map md_table ms))
     ([], foldl (\<lambda>d m. AList.update (md_table m) 0 d) [] ms) ms"

definition children :: "edges \<Rightarrow> string \<Rightarrow> string list" where
  "children deps n = (case map_of deps n of Some cs \<Rightarrow> cs | None \<Rightarrow> [])"

definition release :: "degrees \<times> string list \<Rightarrow> string \<Rightarrow> degrees \<times> string list" where
  "release = (\<lambda>(deg, ready) child. case map_of deg child of
     Some d \<Rightarrow> (AList.update child (d - 1) deg, if d - 1 = 0 then ready @ [child] else ready)
   | None \<Rightarrow> (deg, ready))"

lemma set_release: "set (snd (foldl release s cs)) \<subseteq> set (snd s) \<union> set cs"
proof (induction cs arbitrary: s)
  case (Cons c cs)
  have "set (snd (release s c)) \<subseteq> set (snd s) \<union> {c}"
    by (auto simp: release_def split: prod.splits option.splits if_splits)
  with Cons [of "release s c"] show ?case by auto
qed simp

lemma finite_children: "finite (\<Union>n. set (children deps n))"
proof -
  have "(\<Union>n. set (children deps n)) \<subseteq> (\<Union>p\<in>set deps. set (snd p))"
    unfolding children_def by (auto split: option.splits) (metis map_of_SomeD snd_conv)
  then show ?thesis by (rule finite_subset) simp
qed

function kahn ::
  "(string, model_diff) hash_map \<Rightarrow> edges \<Rightarrow> string list \<Rightarrow> string list \<Rightarrow> degrees \<Rightarrow> model_diff list
    \<Rightarrow> model_diff list \<times> string list" where
  "kahn by_name deps [] emitted deg ordered = (ordered, emitted)"
| "kahn by_name deps (n # ready) emitted deg ordered =
     (if n \<in> set emitted then kahn by_name deps ready emitted deg ordered
      else
        let ordered = (case map_of by_name n of Some m \<Rightarrow> ordered @ [m] | None \<Rightarrow> ordered);
            s = foldl release (deg, ready) (children deps n)
        in kahn by_name deps (snd s) (n # emitted) (fst s) ordered)"
  by pat_completeness auto

termination
proof (relation "measures [\<lambda>(by_name, deps, ready, emitted, deg, ordered).
      card ((set ready \<union> (\<Union>n. set (children deps n))) - set emitted),
    \<lambda>(by_name, deps, ready, emitted, deg, ordered). length ready]", goal_cases)
  case 1
  show ?case by simp
next
  case (2 by_name deps n ready emitted deg ordered)
  let ?U = "\<Union>n. set (children deps n)"
  have "card (set ready \<union> ?U - set emitted) \<le> card (set (n # ready) \<union> ?U - set emitted)"
    by (intro card_mono) (auto simp: finite_children)
  then show ?case by auto
next
  case (3 by_name deps n ready emitted deg ordered x s)
  let ?U = "\<Union>n. set (children deps n)"
  have "set (snd s) \<subseteq> set ready \<union> ?U"
    using set_release [of "(deg, ready)" "children deps n"] 3 by auto
  then have "set (snd s) \<union> ?U - set (n # emitted) \<subset> set (n # ready) \<union> ?U - set emitted"
    using 3 by auto
  then show ?case by (auto intro!: psubset_card_mono simp: finite_children)
qed

definition ordered_create_models :: "model_diff list \<Rightarrow> model_diff list" where
  "ordered_create_models ms =
     (let (deps, deg) = build_graph ms;
          by_name = collect_by md_table ms;
          ready = map md_table (List.filter (\<lambda>m. (case map_of deg (md_table m) of Some d \<Rightarrow> d | None \<Rightarrow> 0) = 0) ms);
          (ordered, emitted) = kahn by_name deps ready [] deg []
      in if length ordered < length ms
         then ordered @ List.filter (\<lambda>m. md_table m \<notin> set emitted) ms
         else ordered)"


subsection \<open>The reference graph\<close>

definition tables :: "model_diff list \<Rightarrow> string list" where
  "tables ms = map md_table ms"

definition refs :: "model_diff list \<Rightarrow> model_diff \<Rightarrow> string set" where
  "refs ms m = fk_table ` set (md_foreign_keys m) \<inter> set (tables ms) - {md_table m}"

lemma batch_targets_props:
  "set (batch_targets batch self seen fks) = fk_table ` set fks \<inter> set batch - {self} - set seen
   \<and> distinct (batch_targets batch self seen fks)"
  by (induction batch self seen fks rule: batch_targets.induct) (auto simp: Let_def)

lemma set_targets_of [simp]: "set (targets_of (tables ms) m) = refs ms m"
  using batch_targets_props by (auto simp: targets_of_def refs_def)

lemma distinct_targets_of [simp]: "distinct (targets_of batch m)"
  using batch_targets_props by (simp add: targets_of_def)

lemma children_entry_modify [simp]:
  "children (entry_modify u [] (\<lambda>cs. cs @ [x]) deps) t
     = (if t = u then children deps t @ [x] else children deps t)"
  by (auto simp: children_def hash_map_simps split: option.splits)

lemma add_edges_children:
  "children (fst (foldl (add_edge self) s ts)) t = children (fst s) t @ replicate (count_list ts t) self"
  by (induction ts arbitrary: s) (auto simp: add_edge_def split: prod.splits)

lemma add_edges_degree:
  "map_of (snd (foldl (add_edge self) s ts)) n
     = (if n = self \<and> ts \<noteq> [] then Some ((case map_of (snd s) self of Some d \<Rightarrow> d | None \<Rightarrow> 0) + length ts)
        else map_of (snd s) n)"
  by (induction ts arbitrary: s) (auto simp: add_edge_def hash_map_simps split: prod.splits option.splits)

lemma count_list_distinct: "distinct xs \<Longrightarrow> count_list xs x = (if x \<in> set xs then 1 else 0)"
  by (induction xs) auto

lemma children_of_model:
  "children (fst (add_model_edges (tables ms) s m)) t
     = children (fst s) t @ (if t \<in> refs ms m then [md_table m] else [])"
proof -
  have "count_list (targets_of (tables ms) m) t = (if t \<in> refs ms m then 1 else 0)"
    using distinct_targets_of [of "tables ms" m] by (simp add: count_list_distinct)
  then show ?thesis by (simp add: add_model_edges_def add_edges_children)
qed

lemma degree_of_model:
  "map_of (snd (add_model_edges (tables ms) s m)) n =
     (if n = md_table m \<and> refs ms m \<noteq> {}
      then Some ((case map_of (snd s) n of Some d \<Rightarrow> d | None \<Rightarrow> 0) + card (refs ms m))
      else map_of (snd s) n)"
proof -
  have "length (targets_of (tables ms) m) = card (refs ms m)"
    using distinct_targets_of [of "tables ms" m] by (metis distinct_card set_targets_of)
  moreover have "targets_of (tables ms) m = [] \<longleftrightarrow> refs ms m = {}"
    by (metis set_empty set_targets_of)
  ultimately show ?thesis by (auto simp: add_model_edges_def add_edges_degree)
qed

lemma graph_children:
  "children (fst (foldl (add_model_edges (tables ms)) s ps)) t
     = children (fst s) t @ map md_table (List.filter (\<lambda>m. t \<in> refs ms m) ps)"
  by (induction ps arbitrary: s) (simp_all add: children_of_model)

lemma graph_degrees:
  assumes "distinct (map md_table ps)"
  shows "map_of (snd (foldl (add_model_edges (tables ms)) s ps)) n =
     (case find (\<lambda>m. md_table m = n) ps of
        Some m \<Rightarrow> if refs ms m = {} then map_of (snd s) n
                  else Some ((case map_of (snd s) n of Some d \<Rightarrow> d | None \<Rightarrow> 0) + card (refs ms m))
      | None \<Rightarrow> map_of (snd s) n)"
  using assms
proof (induction ps arbitrary: s)
  case (Cons m ps)
  have "find (\<lambda>x. md_table x = n) ps = None" if "n = md_table m"
    unfolding find_None_iff using Cons.prems that by (metis distinct.simps(2) imageI list.set_map list.simps(9))
  with Cons show ?case by (auto simp: degree_of_model split: option.splits)
qed simp

lemma initial_degrees:
  "map_of (foldl (\<lambda>d m. AList.update (md_table m) 0 d) d0 ms) n
     = (if n \<in> set (tables ms) then Some 0 else map_of d0 n)"
  by (induction ms arbitrary: d0) (auto simp: tables_def hash_map_simps)

lemma build_graph_children:
  "children (fst (build_graph ms)) t = map md_table (List.filter (\<lambda>m. t \<in> refs ms m) ms)"
  using graph_children [of ms "([], foldl (\<lambda>d m. AList.update (md_table m) 0 d) [] ms)" ms t]
  by (simp add: build_graph_def tables_def children_def)

lemma find_by_table:
  "distinct (tables ms) \<Longrightarrow> m \<in> set ms \<Longrightarrow> find (\<lambda>x. md_table x = md_table m) ms = Some m"
  by (induction ms) (auto simp: tables_def)

lemma build_graph_degrees:
  assumes "distinct (tables ms)" and "m \<in> set ms"
  shows "map_of (snd (build_graph ms)) (md_table m) = Some (card (refs ms m))"
  using graph_degrees [of ms ms "([], foldl (\<lambda>d m. AList.update (md_table m) 0 d) [] ms)" "md_table m"] assms
  by (auto simp: build_graph_def initial_degrees find_by_table simp flip: tables_def) (auto simp: tables_def)


subsection \<open>The invariant of the loop\<close>

text \<open>\<open>R\<close> gives the tables a table references, \<open>T\<close> is the batch.\<close>

definition topological :: "model_diff list \<Rightarrow> model_diff list \<Rightarrow> bool" where
  "topological ms xs \<longleftrightarrow>
     (\<forall>i<length xs. refs ms (xs ! i) \<subseteq> set (tables (take i xs)))"

definition kahn_inv ::
  "model_diff list \<Rightarrow> string list \<Rightarrow> string list \<Rightarrow> degrees \<Rightarrow> model_diff list \<Rightarrow> bool" where
  "kahn_inv ms ready emitted deg ordered \<longleftrightarrow>
     set emitted = set (tables ordered) \<and> distinct (tables ordered) \<and> set ordered \<subseteq> set ms \<and>
     topological ms ordered \<and>
     distinct ready \<and> set ready \<inter> set emitted = {} \<and> set ready \<subseteq> set (tables ms) \<and>
     (\<forall>m\<in>set ms. map_of deg (md_table m) = Some (card (refs ms m - set emitted))) \<and>
     (\<forall>m\<in>set ms. refs ms m \<subseteq> set emitted \<longleftrightarrow> md_table m \<in> set ready \<union> set emitted)"

lemma finite_refs [simp]: "finite (refs ms m)"
  by (simp add: refs_def)

lemma self_notin_refs [simp]: "md_table m \<notin> refs ms m"
  by (simp add: refs_def)

lemma topological_snoc:
  "topological ms xs \<Longrightarrow> refs ms m \<subseteq> set (tables xs) \<Longrightarrow> topological ms (xs @ [m])"
  by (auto simp: topological_def nth_append less_Suc_eq)

lemma release_all:
  assumes "distinct cs" and "\<And>c. c \<in> set cs \<Longrightarrow> map_of deg c = Some (d c)"
  shows "snd (foldl release (deg, ready) cs) = ready @ List.filter (\<lambda>c. d c - 1 = 0) cs"
    and "map_of (fst (foldl release (deg, ready) cs)) n = (if n \<in> set cs then Some (d n - 1) else map_of deg n)"
proof -
  have "snd (foldl release (deg, ready) cs) = ready @ List.filter (\<lambda>c. d c - 1 = 0) cs \<and>
    (\<forall>n. map_of (fst (foldl release (deg, ready) cs)) n = (if n \<in> set cs then Some (d n - 1) else map_of deg n))"
    using assms
  proof (induction cs arbitrary: deg ready)
    case (Cons c cs)
    let ?deg = "AList.update c (d c - 1) deg"
    have "release (deg, ready) c = (?deg, if d c - 1 = 0 then ready @ [c] else ready)"
      using Cons.prems(2) [of c] by (simp add: release_def)
    moreover have "map_of ?deg x = Some (d x)" if "x \<in> set cs" for x
      using Cons.prems that by (auto simp: hash_map_simps)
    ultimately show ?case using Cons.prems(1) Cons.IH [of ?deg] by (auto simp: hash_map_simps)
  qed simp
  then show "snd (foldl release (deg, ready) cs) = ready @ List.filter (\<lambda>c. d c - 1 = 0) cs"
    and "map_of (fst (foldl release (deg, ready) cs)) n = (if n \<in> set cs then Some (d n - 1) else map_of deg n)"
    by simp_all
qed

lemma table_inj: "distinct (tables ms) \<Longrightarrow> m \<in> set ms \<Longrightarrow> m' \<in> set ms \<Longrightarrow> md_table m = md_table m' \<Longrightarrow> m = m'"
  by (simp add: tables_def distinct_map inj_on_def)

lemma kahn_step:
  assumes dist: "distinct (tables ms)" and inv: "kahn_inv ms (md_table m # ready) emitted deg ordered"
    and m: "m \<in> set ms"
    and cs: "cs = map md_table (List.filter (\<lambda>x. md_table m \<in> refs ms x) ms)"
  shows "kahn_inv ms (snd (foldl release (deg, ready) cs)) (md_table m # emitted)
           (fst (foldl release (deg, ready) cs)) (ordered @ [m])"
proof -
  let ?n = "md_table m" and ?E = "set emitted"
  define left where "left c = card (refs ms (SOME x. x \<in> set ms \<and> md_table x = c) - ?E)" for c
  have left: "left (md_table x) = card (refs ms x - ?E)" if "x \<in> set ms" for x
    unfolding left_def using table_inj [OF dist] that by (metis (mono_tags, lifting) someI_ex)
  have new: "?n \<notin> ?E" "?n \<notin> set ready" and dr: "distinct ready"
    using inv unfolding kahn_inv_def by auto
  have deg0: "\<forall>x\<in>set ms. map_of deg (md_table x) = Some (card (refs ms x - ?E))"
    using inv unfolding kahn_inv_def by (elim conjE)
  have closed0: "\<forall>x\<in>set ms. refs ms x \<subseteq> ?E \<longleftrightarrow> md_table x \<in> set (?n # ready) \<union> ?E"
    using inv unfolding kahn_inv_def by (elim conjE)
  have deg: "map_of deg (md_table x) = Some (card (refs ms x - ?E))"
    and closed: "refs ms x \<subseteq> ?E \<longleftrightarrow> md_table x = ?n \<or> md_table x \<in> set ready \<union> ?E" if "x \<in> set ms" for x
    using deg0 closed0 that by simp_all
  have in_cs: "md_table x \<in> set cs \<longleftrightarrow> ?n \<in> refs ms x" if "x \<in> set ms" for x
    using that table_inj [OF dist] by (auto simp: cs)
  have dcs: "distinct cs" using dist by (simp add: cs tables_def distinct_map_filter)
  have dleft: "map_of deg c = Some (left c)" if "c \<in> set cs" for c
    using that deg left by (auto simp: cs)
  have rel: "snd (foldl release (deg, ready) cs) = ready @ List.filter (\<lambda>c. left c - 1 = 0) cs"
    "map_of (fst (foldl release (deg, ready) cs)) n = (if n \<in> set cs then Some (left n - 1) else map_of deg n)" for n
    using release_all [OF dcs, of deg left ready] dleft by blast+
  have drop1: "card (refs ms x - set (?n # emitted)) = left (md_table x) - (if ?n \<in> refs ms x then 1 else 0)"
    if "x \<in> set ms" for x
  proof -
    have "refs ms x - set (?n # emitted) = refs ms x - ?E - {?n}" by auto
    then show ?thesis using left [OF that] new(1) by (simp add: card_Diff_singleton_if)
  qed
  have deg': "map_of (fst (foldl release (deg, ready) cs)) (md_table x) = Some (card (refs ms x - set (?n # emitted)))"
    if "x \<in> set ms" for x
    using rel(2) [where n = "md_table x"] in_cs [OF that] drop1 [OF that] deg [OF that] left [OF that] by simp
  have sub: "refs ms x \<subseteq> set (?n # emitted) \<longleftrightarrow> card (refs ms x - set (?n # emitted)) = 0" for x
    by (auto simp: card_eq_0_iff)
  have ready': "md_table x \<in> set (snd (foldl release (deg, ready) cs)) \<longleftrightarrow>
      md_table x \<in> set ready \<or> ?n \<in> refs ms x \<and> left (md_table x) - 1 = 0" if "x \<in> set ms" for x
    using in_cs [OF that] by (auto simp: rel(1))
  have closed': "refs ms x \<subseteq> set (?n # emitted) \<longleftrightarrow>
      md_table x \<in> set (snd (foldl release (deg, ready) cs)) \<union> set (?n # emitted)" if x: "x \<in> set ms" for x
  proof (cases "?n \<in> refs ms x")
    case True
    with closed [OF x] new have "md_table x \<notin> set ready \<union> ?E" "md_table x \<noteq> ?n" by auto
    with True show ?thesis unfolding sub drop1 [OF x] using ready' [OF x] by simp
  next
    case False
    with closed [OF x] show ?thesis using ready' [OF x] by auto
  qed
  have notready: "c \<notin> set ready \<union> ?E \<and> c \<noteq> ?n" if "c \<in> set cs" for c
    using that closed new by (fastforce simp: cs)
  have E: "?E = set (tables ordered)" and od: "distinct (tables ordered)" "set ordered \<subseteq> set ms"
    "topological ms ordered" and rd: "set ready \<inter> ?E = {}" "set ready \<subseteq> set (tables ms)"
    using inv unfolding kahn_inv_def by auto
  have top: "refs ms m \<subseteq> set (tables ordered)" using closed [OF m] E by simp
  have cs_ms: "set cs \<subseteq> set (tables ms)" by (auto simp: cs tables_def)
  show ?thesis
    unfolding kahn_inv_def
  proof (intro conjI)
    show "set (?n # emitted) = set (tables (ordered @ [m]))" by (simp add: tables_def E)
    show "distinct (tables (ordered @ [m]))" using od new(1) E by (simp add: tables_def)
    show "topological ms (ordered @ [m])" using od(3) top by (rule topological_snoc)
    show "distinct (snd (foldl release (deg, ready) cs))" unfolding rel(1)
      using dr dcs notready by auto
    show "set (snd (foldl release (deg, ready) cs)) \<inter> set (?n # emitted) = {}" unfolding rel(1)
      using rd new notready by auto
    show "set (snd (foldl release (deg, ready) cs)) \<subseteq> set (tables ms)" unfolding rel(1)
      using rd cs_ms by auto
    show "\<forall>x\<in>set ms. map_of (fst (foldl release (deg, ready) cs)) (md_table x)
        = Some (card (refs ms x - set (?n # emitted)))" using deg' by blast
    show "\<forall>x\<in>set ms. refs ms x \<subseteq> set (?n # emitted) \<longleftrightarrow>
        md_table x \<in> set (snd (foldl release (deg, ready) cs)) \<union> set (?n # emitted)" using closed' by blast
  qed (use od m in auto)
qed

lemma kahn_result:
  assumes dist: "distinct (tables ms)"
    and inv: "kahn_inv ms ready emitted deg ordered"
    and deps: "\<And>t. children deps t = map md_table (List.filter (\<lambda>m. t \<in> refs ms m) ms)"
  shows "\<exists>deg'. kahn_inv ms [] (snd (kahn (collect_by md_table ms) deps ready emitted deg ordered)) deg'
    (fst (kahn (collect_by md_table ms) deps ready emitted deg ordered))"
  using inv deps
proof (induction "collect_by md_table ms" deps ready emitted deg ordered rule: kahn.induct)
  case (1 deps emitted deg ordered)
  then show ?case by auto
next
  case (2 deps n ready emitted deg ordered)
  from "2.prems" have n: "n \<notin> set emitted" "n \<in> set (tables ms)" by (auto simp: kahn_inv_def)
  then obtain m where m: "m \<in> set ms" "n = md_table m" by (auto simp: tables_def)
  have by_name: "map_of (collect_by md_table ms) n = Some m"
    using m dist find_by_table [of "rev ms" m] by (simp add: map_of_collect tables_def flip: rev_map)
  have cs: "children deps n = map md_table (List.filter (\<lambda>x. md_table m \<in> refs ms x) ms)"
    using "2.prems"(2) m(2) by simp
  from kahn_step [OF dist _ m(1) cs] "2.prems"(1) m(2)
  have "kahn_inv ms (snd (foldl release (deg, ready) (children deps n))) (n # emitted)
      (fst (foldl release (deg, ready) (children deps n))) (ordered @ [m])" by simp
  from "2.hyps"(2) [OF n(1) refl refl _ "2.prems"(2)] this n(1) by_name show ?case by (simp add: Let_def)
qed


subsection \<open>Correctness\<close>

definition ref_rel :: "model_diff list \<Rightarrow> (string \<times> string) set" where
  "ref_rel ms = (\<Union>m\<in>set ms. Pair (md_table m) ` refs ms m)"

lemma finite_ref_rel: "finite (ref_rel ms)"
  by (simp add: ref_rel_def)

definition initial_ready :: "degrees \<Rightarrow> model_diff list \<Rightarrow> string list" where
  "initial_ready deg ms = map md_table (List.filter
     (\<lambda>m. (case map_of deg (md_table m) of Some d \<Rightarrow> d | None \<Rightarrow> 0) = 0) ms)"

lemma kahn_initial:
  assumes dist: "distinct (tables ms)"
  shows "kahn_inv ms (initial_ready (snd (build_graph ms)) ms) [] (snd (build_graph ms)) []"
proof -
  note deg = build_graph_degrees [OF dist]
  have set_ready: "set (initial_ready (snd (build_graph ms)) ms) = md_table ` {x \<in> set ms. refs ms x = {}}"
    by (auto simp: initial_ready_def deg)
  have inj: "inj_on md_table (set ms)" using dist by (simp add: tables_def distinct_map)
  have "md_table m \<in> set (initial_ready (snd (build_graph ms)) ms) \<longleftrightarrow> refs ms m = {}" if "m \<in> set ms" for m
    unfolding set_ready using inj_on_image_mem_iff [OF inj that, of "{x \<in> set ms. refs ms x = {}}"] that by auto
  moreover have "distinct (initial_ready (snd (build_graph ms)) ms)"
    using dist by (simp add: initial_ready_def tables_def distinct_map_filter)
  moreover have "set (initial_ready (snd (build_graph ms)) ms) \<subseteq> set (tables ms)"
    by (auto simp: initial_ready_def tables_def)
  ultimately show ?thesis using deg by (simp add: kahn_inv_def topological_def tables_def)
qed

lemma ordered_create_models_parts:
  assumes dist: "distinct (tables ms)"
  shows "\<exists>pre. ordered_create_models ms = pre @ List.filter (\<lambda>m. md_table m \<notin> set (tables pre)) ms \<and>
    topological ms pre \<and> distinct (tables pre) \<and> set pre \<subseteq> set ms \<and>
    (\<forall>m\<in>set ms. refs ms m \<subseteq> set (tables pre) \<longleftrightarrow> md_table m \<in> set (tables pre))"
proof -
  obtain pre em where k: "kahn (collect_by md_table ms) (fst (build_graph ms))
      (initial_ready (snd (build_graph ms)) ms) [] (snd (build_graph ms)) [] = (pre, em)"
    by (metis surj_pair)
  obtain deg' where inv: "kahn_inv ms [] em deg' pre"
    using kahn_result [OF dist kahn_initial [OF dist] build_graph_children] unfolding k by auto
  then have E: "set em = set (tables pre)" and pre: "distinct (tables pre)" "set pre \<subseteq> set ms"
    "topological ms pre" unfolding kahn_inv_def by simp_all
  have "\<forall>m\<in>set ms. refs ms m \<subseteq> set em \<longleftrightarrow> md_table m \<in> set [] \<union> set em"
    using inv unfolding kahn_inv_def by (elim conjE)
  then have closed: "\<forall>m\<in>set ms. refs ms m \<subseteq> set (tables pre) \<longleftrightarrow> md_table m \<in> set (tables pre)"
    by (simp add: E)
  have "List.filter (\<lambda>m. md_table m \<notin> set (tables pre)) ms = []" if "\<not> length pre < length ms"
  proof -
    have "card (set (tables pre)) = length pre" "card (set (tables ms)) = length ms"
      using distinct_card [OF pre(1)] distinct_card [OF dist] by (simp_all add: tables_def)
    moreover have "set (tables pre) \<subseteq> set (tables ms)" using pre(2) by (auto simp: tables_def)
    ultimately have "set (tables pre) = set (tables ms)" using that by (intro card_seteq) auto
    then show ?thesis by (simp add: filter_empty_conv tables_def)
  qed
  moreover have "ordered_create_models ms = (if length pre < length ms
      then pre @ List.filter (\<lambda>m. md_table m \<notin> set em) ms else pre)"
    by (simp add: ordered_create_models_def k case_prod_unfold Let_def flip: initial_ready_def)
  ultimately have "ordered_create_models ms = pre @ List.filter (\<lambda>m. md_table m \<notin> set (tables pre)) ms"
    by (simp add: E)
  with pre closed show ?thesis by blast
qed

text \<open>A table with foreign keys and nothing else.\<close>

definition fk_only_model :: "string \<Rightarrow> string list \<Rightarrow> model_diff" where
  "fk_only_model t targets = \<lparr>md_name = t, md_table = t, md_fields = [], md_primary_key = [], md_indexes = [],
     md_uniques = [], md_foreign_keys = map (\<lambda>r. \<lparr>fk_name = ''fk_'' @ t @ ''_'' @ r, fk_columns = [r @ ''_id''],
       fk_table = r, fk_ref_columns = [''id''], fk_on_delete = None, fk_on_update = None\<rparr>) targets\<rparr>"

lemma fk_only_model_simps [simp]:
  "md_table (fk_only_model t rs) = t" "refs ms (fk_only_model t rs) = set rs \<inter> set (tables ms) - {t}"
  by (auto simp: fk_only_model_def refs_def image_image)

lemma ordered_split:
  assumes "distinct (tables ms)"
  shows "\<exists>pre rest. ordered_create_models ms = pre @ rest \<and> mset (pre @ rest) = mset ms \<and>
    topological ms pre \<and> subseq rest ms \<and> list_all (\<lambda>m. \<not> disjnt (refs ms m) (set (tables rest))) rest"
proof -
  obtain pre where pre: "ordered_create_models ms = pre @ List.filter (\<lambda>m. md_table m \<notin> set (tables pre)) ms"
    "topological ms pre" "distinct (tables pre)" "set pre \<subseteq> set ms"
    and closed: "\<forall>m\<in>set ms. refs ms m \<subseteq> set (tables pre) \<longleftrightarrow> md_table m \<in> set (tables pre)"
    using ordered_create_models_parts [OF assms] by blast
  let ?rest = "List.filter (\<lambda>m. md_table m \<notin> set (tables pre)) ms"
  have "distinct ms" "distinct pre" using assms pre(3) by (simp_all add: tables_def distinct_map)
  moreover have "set (pre @ ?rest) = set ms" using pre(4) table_inj [OF assms] by (auto simp: tables_def)
  ultimately have "mset (pre @ ?rest) = mset ms"
    by (subst set_eq_iff_mset_eq_distinct [symmetric]) (auto simp: tables_def)
  moreover have "\<not> disjnt (refs ms m) (set (tables ?rest))" if m: "m \<in> set ?rest" for m
  proof -
    obtain t where t: "t \<in> refs ms m" "t \<notin> set (tables pre)" using closed m by auto
    then have "t \<in> set (tables ms)" by (simp add: refs_def)
    with t show ?thesis by (auto simp: disjnt_iff tables_def)
  qed
  ultimately show ?thesis using pre(1,2)
    by (intro exI [of _ pre] exI [of _ ?rest]) (auto simp: list_all_iff)
qed

text \<open>
  Whatever foreign keys the new tables have, the creation order contains every table exactly
  once: a first part in which every table comes after all the tables of the batch that it
  references, and a second part, in the original order, in which every table references another
  table of that part, that is, which consists of reference cycles and what depends on them.
\<close>

theorem ordered_models_split:
  assumes "distinct (tables ms)"
  shows "\<exists>pre rest. ordered_create_models ms = pre @ rest \<and> mset (pre @ rest) = mset ms \<and>
    topological ms pre \<and> subseq rest ms \<and> list_all (\<lambda>m. \<not> disjnt (refs ms m) (set (tables rest))) rest"
  using assms by (rule ordered_split)

lemma ordered_models_split_witness:
  "\<exists>pre rest. ordered_create_models [fk_only_model ''a'' [''b''], fk_only_model ''b'' [''a''], fk_only_model ''c'' []]
      = pre @ rest \<and> list_all (\<lambda>m. \<not> disjnt (refs [fk_only_model ''a'' [''b''], fk_only_model ''b'' [''a''],
          fk_only_model ''c'' []] m) (set (tables rest))) rest"
  using ordered_models_split [of "[fk_only_model ''a'' [''b''], fk_only_model ''b'' [''a''], fk_only_model ''c'' []]"]
  by (auto simp: tables_def)

lemma ordered_topological:
  assumes dist: "distinct (tables ms)" and "acyclic (ref_rel ms)"
  shows "mset (ordered_create_models ms) = mset ms \<and> topological ms (ordered_create_models ms)"
proof -
  obtain pre rest where *: "ordered_create_models ms = pre @ rest" "mset (pre @ rest) = mset ms"
    "topological ms pre" "list_all (\<lambda>m. \<not> disjnt (refs ms m) (set (tables rest))) rest"
    using ordered_split [OF dist] by blast
  have "rest = []"
  proof (rule ccontr)
    assume "rest \<noteq> []"
    then have "set (tables rest) \<noteq> {}" by (simp add: tables_def)
    moreover have "wf ((ref_rel ms)\<inverse>)" using finite_ref_rel assms(2) by (rule finite_acyclic_wf_converse)
    ultimately obtain t where t: "t \<in> set (tables rest)" "\<And>u. (t, u) \<in> ref_rel ms \<Longrightarrow> u \<notin> set (tables rest)"
      by (metis converse.intros ex_in_conv wfE_min)
    then obtain m where m: "m \<in> set rest" "t = md_table m" by (auto simp: tables_def)
    then have "m \<in> set ms" using *(2) by (metis Un_iff mset_eq_setD set_append)
    with *(4) m t(2) show False by (auto simp: list_all_iff disjnt_iff ref_rel_def)
  qed
  with * show ?thesis by simp
qed

text \<open>
  C4: When the foreign keys between the new tables form no cycle, the creation order is a
  reordering of the tables in which every table comes after all the tables of the batch that it
  references.
\<close>

theorem ordered_models_topological:
  assumes dist: "distinct (tables ms)" and "acyclic (ref_rel ms)"
  shows "mset (ordered_create_models ms) = mset ms \<and> topological ms (ordered_create_models ms)"
  using assms by (rule ordered_topological)

text \<open>Posts reference users and are listed first.\<close>

definition blog_tables :: "model_diff list" where
  "blog_tables = [fk_only_model ''posts'' [''users''], fk_only_model ''users'' []]"

lemma blog_tables_ok: "distinct (tables blog_tables) \<and> acyclic (ref_rel blog_tables)"
proof -
  have "ref_rel blog_tables = {(''posts'', ''users'')}" by (auto simp: blog_tables_def ref_rel_def tables_def)
  then have "acyclic (ref_rel blog_tables)" by (simp add: acyclic_insert) (simp add: acyclic_def)
  then show ?thesis by (simp add: blog_tables_def tables_def)
qed

lemma ordered_models_topological_witness:
  "mset (ordered_create_models blog_tables) = mset blog_tables \<and> topological blog_tables (ordered_create_models blog_tables)"
  using ordered_models_topological [of blog_tables] blog_tables_ok by blast

end
