(* ===== verification/Ddl_Catalogue.thy ===== *)
theory Ddl_Catalogue
  imports Model_Ordering
begin

text \<open>
  The abstract specification the scripts of a migration are measured by: a catalogue of database
  objects with what each depends on, and the rule (SQL's \<^verbatim>\<open>RESTRICT\<close>) that an object is created
  after everything it depends on and removed only when nothing else depends on it.  An index
  belongs to its table and goes with it.
\<close>

datatype db_object = Table string | EnumType string | Index string string

fun owner :: "db_object \<Rightarrow> db_object option" where
  "owner (Index i t) = Some (Table t)"
| "owner _ = None"

type_synonym catalogue = "(db_object \<times> db_object list) list"

datatype ddl_op =
    Make db_object "db_object list"
  | Drop db_object
  | DropIfExists db_object

definition blocked :: "db_object \<Rightarrow> catalogue \<Rightarrow> bool" where
  "blocked x c = list_ex (\<lambda>(y, deps). y \<noteq> x \<and> owner y \<noteq> Some x \<and> x \<in> set deps) c"

definition remove :: "db_object \<Rightarrow> catalogue \<Rightarrow> catalogue" where
  "remove x c = List.filter (\<lambda>(y, deps). y \<noteq> x \<and> owner y \<noteq> Some x) c"

fun step :: "ddl_op \<Rightarrow> catalogue \<Rightarrow> catalogue option" where
  "step (Make x deps) c =
     (if x \<notin> fst ` set c \<and> list_all (\<lambda>d. d = x \<or> d \<in> fst ` set c) deps then Some ((x, deps) # c) else None)"
| "step (Drop x) c = (if x \<in> fst ` set c \<and> \<not> blocked x c then Some (remove x c) else None)"
| "step (DropIfExists x) c = (if blocked x c then None else Some (remove x c))"

fun run :: "ddl_op list \<Rightarrow> catalogue \<Rightarrow> catalogue option" where
  "run [] c = Some c"
| "run (s # ss) c = Option.bind (step s c) (run ss)"

lemma run_append: "run (xs @ ys) c = Option.bind (run xs c) (run ys)"
  by (induction xs arbitrary: c) (auto split: bind_splits)

lemma run_append_None: "run xs c = None \<Longrightarrow> run (xs @ ys) c = None"
  by (simp add: run_append)

text \<open>A catalogue in which every object occurs once, with everything it depends on and with its owner.\<close>

definition closed :: "catalogue \<Rightarrow> bool" where
  "closed c \<longleftrightarrow> distinct (map fst c) \<and>
     list_all (\<lambda>(x, deps). set deps \<subseteq> fst ` set c \<and> (\<forall>t. owner x = Some t \<longrightarrow> t \<in> fst ` set c)) c"

subsection \<open>New tables\<close>

text \<open>A table depends on the tables its foreign keys reference and, where columns have enum types, on
  those types; a foreign key to the table itself depends on nothing else.\<close>

definition table_deps :: "bool \<Rightarrow> model_diff \<Rightarrow> db_object list" where
  "table_deps types m = map Table (map fk_table (md_foreign_keys m))
     @ (if types then map EnumType (List.map_filter fd_enum (md_fields m)) else [])"

definition table_entry :: "bool \<Rightarrow> model_diff \<Rightarrow> db_object \<times> db_object list" where
  "table_entry types m = (Table (md_table m), table_deps types m)"

definition make_table :: "bool \<Rightarrow> model_diff \<Rightarrow> ddl_op" where
  "make_table types m = Make (Table (md_table m)) (table_deps types m)"

definition drop_table :: "model_diff \<Rightarrow> ddl_op" where
  "drop_table m = DropIfExists (Table (md_table m))"

lemma fst_table_entry [simp]: "fst (table_entry types m) = Table (md_table m)"
  by (simp add: table_entry_def)

lemma table_deps_Table: "Table t \<in> set (table_deps types m) \<longleftrightarrow> t \<in> fk_table ` set (md_foreign_keys m)"
  by (auto simp: table_deps_def)

text \<open>What a batch of new tables may rely on: their names are new, their foreign keys form no cycle,
  every referenced table is new, too, or there already, and so are the enum types.\<close>

definition batch_ok :: "bool \<Rightarrow> model_diff list \<Rightarrow> catalogue \<Rightarrow> bool" where
  "batch_ok types ms c \<longleftrightarrow> distinct (tables ms) \<and> acyclic (ref_rel ms) \<and> closed c \<and>
     list_all (\<lambda>m. Table (md_table m) \<notin> fst ` set c \<and>
       set (table_deps types m) \<subseteq> Table ` set (tables ms) \<union> fst ` set c) ms"

lemma make_tables:
  assumes ok: "batch_ok types ms c" and xs: "mset (pre @ post) = mset ms" "topological ms (pre @ post)"
  shows "run (map (make_table types) post) (rev (map (table_entry types) pre) @ c)
    = Some (rev (map (table_entry types) (pre @ post)) @ c)"
  using xs
proof (induction post arbitrary: pre)
  case (Cons m post)
  have m: "m \<in> set ms" using Cons.prems(1) by (metis in_set_conv_decomp mset_eq_setD)
  have "distinct (tables (pre @ m # post))"
    using ok Cons.prems(1) by (metis batch_ok_def mset_eq_imp_distinct_iff mset_map tables_def)
  then have new: "md_table m \<notin> set (tables pre)" by (auto simp: tables_def)
  have "refs ms m \<subseteq> set (tables pre)"
    using Cons.prems(2) unfolding topological_def by (drule_tac x = "length pre" in spec) simp
  then have refd: "t = md_table m \<or> t \<in> set (tables pre)"
    if "Table t \<in> set (table_deps types m)" "t \<in> set (tables ms)" for t
    using that by (auto simp: refs_def table_deps_Table)
  have "set (table_deps types m) \<subseteq> Table ` set (tables ms) \<union> fst ` set c"
    using ok m by (simp add: batch_ok_def list_all_iff)
  with refd have deps: "d = Table (md_table m) \<or> d \<in> Table ` set (tables pre) \<or> d \<in> fst ` set c"
    if "d \<in> set (table_deps types m)" for d
    using that by blast
  have fresh: "Table (md_table m) \<notin> fst ` set c" using ok m by (simp add: batch_ok_def list_all_iff)
  have names: "fst ` set (rev (map (table_entry types) pre) @ c) = Table ` set (tables pre) \<union> fst ` set c"
    by (simp add: tables_def image_image image_Un)
  have "step (make_table types m) (rev (map (table_entry types) pre) @ c)
      = Some (rev (map (table_entry types) (pre @ [m])) @ c)"
    unfolding make_table_def step.simps names using new deps fresh
    by (auto simp: table_entry_def list_all_iff)
  with Cons.IH [of "pre @ [m]"] Cons.prems show ?case by simp
qed simp

lemma topological_snoc_iff:
  "topological ms (xs @ [m]) \<longleftrightarrow> topological ms xs \<and> refs ms m \<subseteq> set (tables xs)"
  by (auto simp: topological_def nth_append less_Suc_eq)

lemma closed_unused:
  assumes "closed c" "x \<notin> fst ` set c" "(y, deps) \<in> set c"
  shows "y \<noteq> x \<and> owner y \<noteq> Some x \<and> x \<notin> set deps"
proof -
  have "y \<in> fst ` set c" using assms(3) by force
  moreover have "set deps \<subseteq> fst ` set c \<and> (\<forall>t. owner y = Some t \<longrightarrow> t \<in> fst ` set c)"
    using assms(1,3) by (auto simp: closed_def list_all_iff)
  ultimately show ?thesis using assms(2) by auto
qed

lemma drop_tables:
  assumes c: "closed c" "\<And>m. m \<in> set xs \<Longrightarrow> Table (md_table m) \<notin> fst ` set c"
    and xs: "distinct (tables xs)" "set (tables xs) \<subseteq> set (tables ms)" "topological ms xs"
  shows "run (map drop_table (rev xs)) (rev (map (table_entry types) xs) @ c) = Some c"
  using c(2) xs
proof (induction xs rule: rev_induct)
  case (snoc m xs)
  let ?x = "Table (md_table m)" and ?c = "rev (map (table_entry types) xs) @ c"
  have "?x \<notin> fst ` set c" using snoc.prems(1) by simp
  from closed_unused [OF c(1) this]
  have old: "\<not> blocked ?x c" "remove ?x c = c"
    by (auto simp: blocked_def remove_def list_ex_iff filter_id_conv)
  have "?x \<notin> set (table_deps types x)" if x: "x \<in> set xs" for x
  proof
    assume "?x \<in> set (table_deps types x)"
    moreover have "md_table m \<noteq> md_table x" "md_table m \<in> set (tables ms)"
      using snoc.prems(2,3) x by (auto simp: tables_def)
    ultimately have "md_table m \<in> refs ms x" by (simp add: refs_def table_deps_Table)
    moreover obtain i where "i < length xs" "xs ! i = x" using x by (metis in_set_conv_nth)
    moreover have "topological ms xs" using snoc.prems(4) by (simp only: topological_snoc_iff)
    ultimately have "md_table m \<in> set (tables (take i xs))" unfolding topological_def by auto
    then have "md_table m \<in> set (tables xs)" by (auto simp: tables_def dest: in_set_takeD)
    with snoc.prems(2) show False by (simp add: tables_def)
  qed
  then have "\<not> blocked ?x (table_entry types m # ?c)"
    using old(1) by (auto simp: blocked_def list_ex_iff table_entry_def)
  moreover have "remove ?x (table_entry types m # ?c) = ?c"
    using old(2) snoc.prems(2) by (auto simp: remove_def table_entry_def tables_def filter_id_conv) (metis image_eqI)
  ultimately have "step (drop_table m) (table_entry types m # ?c) = Some ?c" by (simp add: drop_table_def)
  with snoc show ?case by (simp add: topological_snoc_iff tables_def)
qed simp

subsection \<open>What is removed too early\<close>

text \<open>An object cannot be removed while another one depends on it: a script that removes \<open>x\<close> before
  \<open>y\<close> (and before the owner of \<open>y\<close>) fails.\<close>

lemma drops_survivor:
  assumes "run (map DropIfExists os) c = Some c'" and "(y, deps) \<in> set c"
    and "y \<notin> set os" "owner y \<notin> Some ` set os"
  shows "(y, deps) \<in> set c'"
  using assms by (induction os arbitrary: c) (auto simp: remove_def split: if_splits)

lemma dropped_too_early:
  assumes "(y, deps) \<in> set c" "x \<in> set deps" "y \<noteq> x" "owner y \<noteq> Some x"
    and "y \<notin> set pre" "owner y \<notin> Some ` set pre"
  shows "run (map DropIfExists (pre @ x # post) @ rest) c = None"
proof (cases "run (map DropIfExists pre) c")
  case (Some c')
  then have "(y, deps) \<in> set c'" using drops_survivor assms by blast
  then have "blocked x c'" using assms by (auto simp: blocked_def list_ex_iff)
  with Some show ?thesis by (simp add: run_append)
qed (simp add: run_append)

text \<open>An index goes with its table, and then it cannot be dropped any more.\<close>

lemma drops_names: "run (map Drop os) c = Some c' \<Longrightarrow> set os \<subseteq> fst ` set c"
  by (induction os arbitrary: c) (fastforce simp: remove_def split: if_splits)+

lemma drops_if_exist_subset:
  "run (map DropIfExists os) c = Some c' \<Longrightarrow> set c' \<subseteq> {p \<in> set c. fst p \<notin> set os \<and> owner (fst p) \<notin> Some ` set os}"
proof (induction os arbitrary: c)
  case (Cons x os)
  then have "run (map DropIfExists os) (remove x c) = Some c'" by (simp split: if_splits)
  from Cons.IH [OF this] show ?case by (auto simp: remove_def)
qed simp

lemma index_dropped_with_table:
  assumes "Index i t \<in> set is" "Table t \<in> set os"
  shows "run (map DropIfExists os @ map Drop is) c = None"
proof (cases "run (map DropIfExists os) c")
  case (Some c')
  then have "Index i t \<notin> fst ` set c'" using drops_if_exist_subset assms(2) by fastforce
  then have "run (map Drop is) c' = None" using drops_names assms(1) by (metis not_None_eq subsetD)
  with Some show ?thesis by (simp add: run_append)
qed (simp add: run_append)

end
