(* ===== verification/Procedure_Sql.thy ===== *)
theory Procedure_Sql
  imports Procedure_Diff
begin

text \<open>
  The SQL the migration engine writes for procedures and triggers on PostgreSQL, MySQL, SQLite and
  SQL Server (\<^verbatim>\<open>ProcedureSqlGenerator\<close> in \<^verbatim>\<open>prax-migrate/src/procedure.rs\<close>), and what the differ
  guarantees.
\<close>

datatype database_type = DbPostgres | DbMySql | DbSqlite | DbMssql

definition object_type :: "procedure_def \<Rightarrow> string" where
  "object_type p = (if pf_is_function p then ''FUNCTION'' else ''PROCEDURE'')"

definition opt_text :: "('a \<Rightarrow> string) \<Rightarrow> 'a option \<Rightarrow> string" where
  "opt_text f x = (case x of Some v \<Rightarrow> f v | None \<Rightarrow> [])"

subsection \<open>PostgreSQL\<close>

definition pg_parameter :: "procedure_parameter \<Rightarrow> string" where
  "pg_parameter p =
     (case pp_mode p of ModeIn \<Rightarrow> [] | ModeOut \<Rightarrow> ''OUT '' | ModeInOut \<Rightarrow> ''INOUT '' | ModeVariadic \<Rightarrow> ''VARIADIC '')
     @ pp_name p @ '' '' @ pp_type p @ opt_text (\<lambda>d. '' DEFAULT '' @ d) (pp_default p)"

definition create_postgres_procedure :: "procedure_def \<Rightarrow> string" where
  "create_postgres_procedure p =
     ''CREATE '' @ (if pf_or_replace p then ''OR REPLACE '' else []) @ object_type p @ ''  ''
     @ pf_qualified_name p @ '' ('' @ join '', '' (map pg_parameter (pf_parameters p)) @ '')'' @ NL
     @ (case pf_return_type p of
          Some ret \<Rightarrow> (if pf_returns_set p then ''RETURNS SETOF '' else ''RETURNS '') @ ret @ NL
        | None \<Rightarrow>
            if pf_return_columns p \<noteq> []
            then ''RETURNS TABLE ('' @ join '', '' (map (\<lambda>c. rt_name c @ '' '' @ rt_type c) (pf_return_columns p))
              @ '')'' @ NL
            else if pf_is_function p then ''RETURNS void'' @ NL else [])
     @ ''LANGUAGE '' @ language_sql (pf_language p) @ NL
     @ volatility_sql (pf_volatility p) @ NL
     @ (if pf_security_definer p then ''SECURITY DEFINER'' @ NL else [])
     @ opt_text (\<lambda>c. ''COST '' @ show_int (sint c) @ NL) (pf_cost p)
     @ (if pf_parallel p \<noteq> ParUnsafe then parallel_sql (pf_parallel p) @ NL else [])
     @ ''AS $$'' @ NL @ pf_body p @ NL @ ''$$;''
     @ opt_text (\<lambda>t. NL @ NL @ ''COMMENT ON '' @ object_type p @ '' '' @ pf_qualified_name p @ '' IS ''
         @ [SQUOTE] @ replace_char SQUOTE [SQUOTE, SQUOTE] t @ [SQUOTE] @ '';'') (pf_comment p)"

definition create_postgres_trigger :: "trigger_def \<Rightarrow> string" where
  "create_postgres_trigger t =
     ''CREATE '' @ (if tg_or_replace t then ''OR REPLACE '' else []) @ ''TRIGGER '' @ tg_name t @ NL
     @ timing_sql (tg_timing t) @ '' '' @ join '' OR '' (map trigger_event_sql (tg_events t))
     @ NL @ ''ON '' @ tg_table t @ NL @ trigger_level_sql (tg_level t) @ NL
     @ opt_text (\<lambda>c. ''WHEN ('' @ c @ '')'' @ NL) (tg_condition t)
     @ ''EXECUTE FUNCTION '' @ tg_function t @ ''('' @ join '', '' (tg_args t) @ '');''"

subsection \<open>MySQL\<close>

definition mysql_parameter :: "procedure_parameter \<Rightarrow> string" where
  "mysql_parameter p =
     (case pp_mode p of ModeIn \<Rightarrow> ''IN '' | ModeOut \<Rightarrow> ''OUT '' | ModeInOut \<Rightarrow> ''INOUT '' | ModeVariadic \<Rightarrow> [])
     @ pp_name p @ '' '' @ pp_type p"

definition returns_clause :: "procedure_def \<Rightarrow> string" where
  "returns_clause p = (if pf_is_function p then opt_text (\<lambda>r. ''RETURNS '' @ r @ NL) (pf_return_type p) else [])"

definition create_mysql_procedure :: "procedure_def \<Rightarrow> string" where
  "create_mysql_procedure p =
     ''CREATE '' @ object_type p @ '' '' @ pf_qualified_name p @ '' (''
     @ join '', '' (map mysql_parameter (pf_parameters p)) @ '')'' @ NL @ returns_clause p
     @ (if pf_volatility p = VolImmutable then ''DETERMINISTIC'' else ''NOT DETERMINISTIC'') @ NL
     @ (if pf_security_definer p then ''SQL SECURITY DEFINER'' @ NL else [])
     @ ''BEGIN'' @ NL @ pf_body p @ NL @ ''END;''"

definition create_mysql_trigger :: "trigger_def \<Rightarrow> string" where
  "create_mysql_trigger t =
     ''CREATE TRIGGER '' @ tg_name t @ NL @ timing_sql (tg_timing t) @ '' ''
     @ (case tg_events t of e # _ \<Rightarrow> trigger_event_sql e @ NL | [] \<Rightarrow> [])
     @ ''ON '' @ tg_table t @ NL @ trigger_level_sql (tg_level t) @ NL
     @ ''BEGIN'' @ NL @ ''    CALL '' @ tg_function t @ ''();'' @ NL @ ''END;''"

subsection \<open>SQLite\<close>

definition create_sqlite_udf :: "procedure_def \<Rightarrow> string" where
  "create_sqlite_udf p =
     ''-- SQLite UDF: '' @ pf_name p @ '' must be registered via rusqlite::create_scalar_function'' @ NL
     @ ''-- Parameters: '' @ join '', '' (map (\<lambda>q. pp_name q @ '': '' @ pp_type q) (pf_parameters p)) @ NL
     @ ''-- Body:'' @ NL @ ''-- '' @ replace_char (CHR 0x0A) (NL @ ''-- '') (pf_body p)"

definition create_sqlite_trigger :: "trigger_def \<Rightarrow> string" where
  "create_sqlite_trigger t =
     ''CREATE TRIGGER IF NOT EXISTS '' @ tg_name t @ NL @ timing_sql (tg_timing t) @ '' ''
     @ join '' OR '' (map trigger_event_sql (tg_events t)) @ NL @ ''ON '' @ tg_table t @ NL
     @ ''FOR EACH ROW'' @ NL @ opt_text (\<lambda>c. ''WHEN '' @ c @ NL) (tg_condition t)
     @ ''BEGIN'' @ NL @ ''    SELECT '' @ tg_function t @ ''();'' @ NL @ ''END;''"

subsection \<open>SQL Server\<close>

definition create_mssql_procedure :: "procedure_def \<Rightarrow> string" where
  "create_mssql_procedure p =
     ''CREATE '' @ object_type p @ '' '' @ pf_qualified_name p @ '' (''
     @ join '', '' (map (\<lambda>q. ''@'' @ pp_name q @ '' '' @ pp_type q
         @ (if pp_mode q = ModeOut \<or> pp_mode q = ModeInOut then '' OUTPUT'' else [])) (pf_parameters p))
     @ '')'' @ NL @ returns_clause p @ ''AS'' @ NL @ ''BEGIN'' @ NL @ pf_body p @ NL @ ''END;''"

text \<open>\<^verbatim>\<open>str::replacen(pat, r, 1)\<close>\<close>

fun replace_first :: "string \<Rightarrow> string \<Rightarrow> string \<Rightarrow> string" where
  "replace_first pat r [] = (if pat = [] then r else [])"
| "replace_first pat r (c # cs) =
     (if prefix pat (c # cs) then r @ drop (length pat) (c # cs) else c # replace_first pat r cs)"

definition alter_mssql_procedure :: "procedure_def \<Rightarrow> string" where
  "alter_mssql_procedure p = replace_first ''CREATE'' ''ALTER'' (create_mssql_procedure p)"

definition create_mssql_trigger :: "trigger_def \<Rightarrow> string" where
  "create_mssql_trigger t =
     ''CREATE TRIGGER '' @ tg_qualified_name t @ NL @ ''ON '' @ tg_table t @ NL
     @ timing_sql (tg_timing t) @ '' '' @ join '', '' (map trigger_event_sql (tg_events t))
     @ NL @ ''AS'' @ NL @ ''BEGIN'' @ NL @ ''    EXEC '' @ tg_function t @ '';'' @ NL @ ''END;''"

subsection \<open>The generator\<close>

fun create_procedure :: "database_type \<Rightarrow> procedure_def \<Rightarrow> string" where
  "create_procedure DbPostgres p = create_postgres_procedure p"
| "create_procedure DbMySql p = create_mysql_procedure p"
| "create_procedure DbSqlite p = create_sqlite_udf p"
| "create_procedure DbMssql p = create_mssql_procedure p"

fun drop_procedure :: "database_type \<Rightarrow> procedure_def \<Rightarrow> string" where
  "drop_procedure DbPostgres p = ''DROP '' @ object_type p @ '' IF EXISTS '' @ pf_qualified_name p
     @ ''('' @ join '', '' (map pp_type (pf_parameters p)) @ '');''"
| "drop_procedure DbMySql p = ''DROP '' @ object_type p @ '' IF EXISTS '' @ pf_qualified_name p @ '';''"
| "drop_procedure DbSqlite p = ''-- SQLite: Remove UDF registration for '' @ pf_qualified_name p"
| "drop_procedure DbMssql p = ''IF OBJECT_ID('' @ [SQUOTE] @ pf_qualified_name p @ [SQUOTE] @ '', ''
     @ [SQUOTE] @ (if pf_is_function p then ''FN'' else ''P'') @ [SQUOTE] @ '') IS NOT NULL DROP ''
     @ object_type p @ '' '' @ pf_qualified_name p @ '';''"

fun alter_procedure :: "database_type \<Rightarrow> procedure_alter \<Rightarrow> string" where
  "alter_procedure DbPostgres d = create_postgres_procedure (pa_new d)"
| "alter_procedure DbMySql d = drop_procedure DbMySql (pa_old d) @ NL @ create_mysql_procedure (pa_new d)"
| "alter_procedure DbSqlite d = create_sqlite_udf (pa_new d)"
| "alter_procedure DbMssql d = alter_mssql_procedure (pa_new d)"

fun create_trigger :: "database_type \<Rightarrow> trigger_def \<Rightarrow> string" where
  "create_trigger DbPostgres t = create_postgres_trigger t"
| "create_trigger DbMySql t = create_mysql_trigger t"
| "create_trigger DbSqlite t = create_sqlite_trigger t"
| "create_trigger DbMssql t = create_mssql_trigger t"

fun drop_trigger :: "database_type \<Rightarrow> trigger_def \<Rightarrow> string" where
  "drop_trigger DbPostgres t = ''DROP TRIGGER IF EXISTS '' @ tg_name t @ '' ON '' @ tg_table t @ '';''"
| "drop_trigger DbMySql t = ''DROP TRIGGER IF EXISTS '' @ tg_name t @ '';''"
| "drop_trigger DbSqlite t = ''DROP TRIGGER IF EXISTS '' @ tg_name t @ '';''"
| "drop_trigger DbMssql t = ''DROP TRIGGER IF EXISTS '' @ tg_qualified_name t @ '';''"

record procedure_sql =
  ps_up :: string
  ps_down :: string

definition procedure_up :: "database_type \<Rightarrow> procedure_diff \<Rightarrow> string list" where
  "procedure_up db d =
     map (create_procedure db) (pd_create d)
     @ map (\<lambda>n. ''DROP FUNCTION IF EXISTS '' @ n @ '';'') (pd_drop d)
     @ map (alter_procedure db) (pd_alter d)
     @ map (create_trigger db) (pd_create_triggers d)
     @ map (\<lambda>n. ''DROP TRIGGER IF EXISTS '' @ n @ '';'') (pd_drop_triggers d)
     @ concat (map (\<lambda>a. [drop_trigger db (ta_old a), create_trigger db (ta_new a)]) (pd_alter_triggers d))"

definition procedure_down :: "database_type \<Rightarrow> procedure_diff \<Rightarrow> string list" where
  "procedure_down db d =
     map (drop_procedure db) (pd_create d)
     @ map (\<lambda>n. ''-- Recreate '' @ n @ '' (original definition needed)'') (pd_drop d)
     @ map (\<lambda>a. create_procedure db (pa_old a)) (pd_alter d)
     @ map (drop_trigger db) (pd_create_triggers d)
     @ map (\<lambda>n. ''-- Recreate trigger '' @ n @ '' (original definition needed)'') (pd_drop_triggers d)
     @ concat (map (\<lambda>a. [drop_trigger db (ta_new a), create_trigger db (ta_old a)]) (pd_alter_triggers d))"

definition procedure_migration :: "database_type \<Rightarrow> procedure_diff \<Rightarrow> procedure_sql" where
  "procedure_migration db d =
     \<lparr>ps_up = join (NL @ NL) (procedure_up db d), ps_down = join (NL @ NL) (procedure_down db d)\<rparr>"

subsection \<open>What the differ guarantees\<close>

text \<open>The part of a procedure that \<open>has_changed\<close> compares, checksums apart.\<close>

definition pf_observed ::
  "procedure_def \<Rightarrow> string \<times> procedure_parameter list \<times> string option \<times> bool \<times> procedure_language
     \<times> volatility \<times> bool" where
  "pf_observed p = (pf_body p, pf_parameters p, pf_return_type p, pf_returns_set p, pf_language p,
     pf_volatility p, pf_security_definer p)"

interpretation procedures: keyed_diff alter_procedure_diff pf_observed pf_observed "\<lambda>d _. pf_observed (pa_new d)"
  by unfold_locales (auto simp: alter_procedure_diff_def pf_has_changed_def pf_observed_def split: if_splits)

interpretation triggers: keyed_diff alter_trigger_diff id id "\<lambda>d _. ta_new d"
  by unfold_locales (auto simp: alter_trigger_diff_def split: if_splits)

definition pf_named :: "procedure_def list \<Rightarrow> string \<Rightarrow> procedure_def option" where
  "pf_named ps n = find (\<lambda>p. pf_qualified_name p = n) (rev ps)"

definition apply_procedure_diff ::
  "procedure_diff \<Rightarrow> (string \<rightharpoonup> 'o) \<Rightarrow> (procedure_def \<Rightarrow> 'o) \<Rightarrow> (string \<rightharpoonup> 'o)" where
  "apply_procedure_diff d m obs = apply_changes obs (\<lambda>a _. obs (pa_new a))
     (rekey pf_qualified_name (pd_create d)) (pd_drop d) (rekey (\<lambda>a. pf_qualified_name (pa_new a)) (pd_alter d)) m"

lemma procedure_diff_self: "pd_is_empty (pd_diff from from)"
proof -
  have "alter_procedure_diff x x = None" for x
    by (auto simp: alter_procedure_diff_def pf_has_changed_def split: option.splits)
  then show ?thesis
    using procedures.no_changes_iff 
        [where tgt = "collect_by pf_qualified_name from" and src = "collect_by pf_qualified_name from"]
    by (simp add: pd_diff_def Let_def pd_is_empty_def pd_empty_def option.rel_sel)
qed

text \<open>
  The procedure differ is correct: dropping, creating and replacing what it lists turns the
  procedures of the source into those of the target, name by name, in everything \<open>has_changed\<close>
  compares; and comparing a list with itself finds nothing.
\<close>

theorem procedure_diff_applies:
  "apply_procedure_diff (pd_diff from to) (\<lambda>n. map_option pf_observed (pf_named from n)) pf_observed n
     = map_option pf_observed (pf_named to n) \<and>
   pd_is_empty (pd_diff from from)"
proof
  have key: "alter_procedure_diff x y = Some d \<Longrightarrow> pf_qualified_name (pa_new d) = pf_qualified_name y" for x y d
    by (auto simp: alter_procedure_diff_def split: if_splits)
  show "apply_procedure_diff (pd_diff from to) (\<lambda>n. map_option pf_observed (pf_named from n)) pf_observed n
      = map_option pf_observed (pf_named to n)"
    using procedures.changes_lead_to_target 
        [where tgt = "collect_by pf_qualified_name to" and src = "collect_by pf_qualified_name from"]
    by (simp add: apply_procedure_diff_def pd_diff_def Let_def pf_named_def map_of_collect rekey_altered [OF key])
  show "pd_is_empty (pd_diff from from)" by (rule procedure_diff_self)
qed

text \<open>
  The comparison is blind to the cost, the parallel safety, the comment and to whether a
  definition is a function or a procedure: when only these differ nothing is altered, although
  \<open>detect_procedure_changes\<close> has entries for the first two.
\<close>

theorem procedure_diff_blind:
  "pd_is_empty (pd_diff [p] [p\<lparr>pf_cost := c, pf_parallel := s, pf_comment := t, pf_is_function := b\<rparr>])"
proof -
  let ?q = "p\<lparr>pf_cost := c, pf_parallel := s, pf_comment := t, pf_is_function := b\<rparr>"
  have "alter_procedure_diff p ?q = None"
    by (simp add: alter_procedure_diff_def pf_has_changed_def split: option.splits)
  moreover have "pf_qualified_name ?q = pf_qualified_name p" by (simp add: pf_qualified_name_def)
  ultimately have "rel_option (\<lambda>x y. alter_procedure_diff x y = None)
      (map_of (collect_by pf_qualified_name [p]) k) (map_of (collect_by pf_qualified_name [?q]) k)" for k
    by (simp add: map_of_collect)
  then show ?thesis
    using procedures.no_changes_iff
      [where tgt = "collect_by pf_qualified_name [?q]" and src = "collect_by pf_qualified_name [p]"]
    by (simp add: pd_diff_def Let_def pd_is_empty_def pd_empty_def)
qed

end
