(* ===== verification/Ddl_Common.thy ===== *)
theory Ddl_Common
  imports Model_Ordering Procedure_Sql
begin

text \<open>
  What the five DDL generators of \<^verbatim>\<open>prax-migrate/src/sql.rs\<close> have in common: the result of
  a generation, the quoting of identifiers, the clauses of a table and the warnings.  A generator
  writes an identifier between its quotes as it is (nothing is doubled), so the clauses take the
  quoting function of the dialect as an argument.
\<close>

record migration_sql =
  ms_up :: string
  ms_down :: string
  ms_warnings :: "string list"

definition ms_is_empty :: "migration_sql \<Rightarrow> bool" where
  "ms_is_empty s \<longleftrightarrow> trim (ms_up s) = []"

subsection \<open>Clauses\<close>

definition column_list :: "(string \<Rightarrow> string) \<Rightarrow> string list \<Rightarrow> string" where
  "column_list q cs = ''('' @ join '', '' (map q cs) @ '')''"

subsection \<open>Clauses of a table\<close>

definition foreign_key_clause :: "(string \<Rightarrow> string) \<Rightarrow> foreign_key \<Rightarrow> string" where
  "foreign_key_clause q fk =
     ''CONSTRAINT '' @ q (fk_name fk) @ '' FOREIGN KEY '' @ column_list q (fk_columns fk)
     @ '' REFERENCES '' @ q (fk_table fk) @ '' '' @ column_list q (fk_ref_columns fk)
     @ opt_text (\<lambda>a. '' ON DELETE '' @ a) (fk_on_delete fk)
     @ opt_text (\<lambda>a. '' ON UPDATE '' @ a) (fk_on_update fk)"

definition unique_clause :: "(string \<Rightarrow> string) \<Rightarrow> unique_constraint \<Rightarrow> string" where
  "unique_clause q u = opt_text (\<lambda>n. ''CONSTRAINT '' @ q n @ '' '') (uq_name u)
     @ ''UNIQUE '' @ column_list q (uq_columns u)"

definition primary_key_clause :: "(string \<Rightarrow> string) \<Rightarrow> string list \<Rightarrow> string list" where
  "primary_key_clause q cs = (if cs = [] then [] else [''PRIMARY KEY '' @ column_list q cs])"

definition create_table_text :: "(string \<Rightarrow> string) \<Rightarrow> string \<Rightarrow> string list \<Rightarrow> string \<Rightarrow> string" where
  "create_table_text q table clauses ending =
     ''CREATE TABLE '' @ q table @ '' ('' @ NL @ ''    '' @ join ('','' @ NL @ ''    '') clauses @ NL @ '')'' @ ending"

text \<open>The constraints every column definition ends with.\<close>

definition column_flags :: "field_diff \<Rightarrow> string list" where
  "column_flags f =
     (if \<not> fd_nullable f \<and> \<not> fd_primary f then [''NOT NULL''] else [])
     @ (if fd_unique f \<and> \<not> fd_primary f then [''UNIQUE''] else [])"

definition default_clause :: "field_diff \<Rightarrow> string list" where
  "default_clause f = (case fd_default f of Some d \<Rightarrow> [''DEFAULT '' @ d] | None \<Rightarrow> [])"

definition generated_text :: "string \<Rightarrow> string \<Rightarrow> generated_attr \<Rightarrow> string \<Rightarrow> string" where
  "generated_text column type g keyword =
     column @ '' '' @ type @ '' GENERATED ALWAYS AS ('' @ gen_expression g @ '') '' @ keyword"

definition stored_keyword :: "generated_attr \<Rightarrow> string" where
  "stored_keyword g = (if gen_stored g then ''STORED'' else ''VIRTUAL'')"

definition alter_table_text :: "(string \<Rightarrow> string) \<Rightarrow> string \<Rightarrow> string \<Rightarrow> string" where
  "alter_table_text q table action = ''ALTER TABLE '' @ q table @ '' '' @ action @ '';''"

definition index_text :: "(string \<Rightarrow> string) \<Rightarrow> string \<Rightarrow> string \<Rightarrow> index_diff \<Rightarrow> string" where
  "index_text q kind using_clause i =
     ''CREATE '' @ (if ix_unique i then ''UNIQUE '' else []) @ kind @ ''INDEX '' @ q (ix_name i)
     @ '' ON '' @ q (ix_table i) @ using_clause @ column_list q (ix_columns i) @ '';''"

definition view_text :: "string \<Rightarrow> (string \<Rightarrow> string) \<Rightarrow> view_diff \<Rightarrow> string" where
  "view_text verb q v = verb @ '' '' @ q (vd_view v) @ '' AS'' @ NL @ vd_sql v @ '';''"

subsection \<open>Warnings\<close>

definition dropped_table_warning :: "string \<Rightarrow> string" where
  "dropped_table_warning t =
     ''Dropping table '' @ sq t @ '' - all data will be lost and cannot be recovered''"
definition dropped_column_warning :: "string \<Rightarrow> string \<Rightarrow> string" where
  "dropped_column_warning t c =
     ''Dropping column '' @ sq c @ '' from table '' @ sq t @ '' - data in this column will be lost''"
definition changed_type_warning :: "string \<Rightarrow> string \<Rightarrow> string" where
  "changed_type_warning t c = ''Changing column '' @ sq c @ '' type in table '' @ sq t
     @ '' - reverse migration may fail if data is incompatible''"

definition type_changed :: "field_alter \<Rightarrow> bool" where
  "type_changed a \<longleftrightarrow> fl_new_type a \<noteq> None \<and> fl_old_type a \<noteq> None"

definition alter_warnings :: "model_alter \<Rightarrow> string list" where
  "alter_warnings a =
     map (dropped_column_warning (ma_table a)) (ma_drop_fields a)
     @ map (\<lambda>f. changed_type_warning (ma_table a) (fl_name f)) (List.filter type_changed (ma_alter_fields a))"

definition loss_warnings :: "schema_diff \<Rightarrow> string list" where
  "loss_warnings d = map dropped_table_warning (sd_drop_models d) @ concat (map alter_warnings (sd_alter_models d))"

subsection \<open>The parts of a script\<close>

text \<open>\<^verbatim>\<open>SchemaDiff::ordered_create_models\<close> of a diff, and the text of its procedures.\<close>

definition ordered_creates :: "schema_diff \<Rightarrow> model_diff list" where
  "ordered_creates d = ordered_create_models (sd_create_models d)"

definition nonempty_text :: "string \<Rightarrow> string list" where
  "nonempty_text t = (if t = [] then [] else [t])"

definition procedures_up :: "database_type \<Rightarrow> schema_diff \<Rightarrow> string list" where
  "procedures_up db d = (case sd_procedures d of None \<Rightarrow> []
     | Some p \<Rightarrow> nonempty_text (ps_up (procedure_migration db p)))"
definition procedures_down :: "database_type \<Rightarrow> schema_diff \<Rightarrow> string list" where
  "procedures_down db d = (case sd_procedures d of None \<Rightarrow> []
     | Some p \<Rightarrow> nonempty_text (ps_down (procedure_migration db p)))"

definition script :: "string \<Rightarrow> string list \<Rightarrow> string list \<Rightarrow> string list \<Rightarrow> migration_sql" where
  "script sep up down warnings = \<lparr>ms_up = join sep up, ms_down = join sep down, ms_warnings = warnings\<rparr>"

abbreviation (input) BLANK_LINE :: string where "BLANK_LINE \<equiv> [CHR 0x0A, CHR 0x0A]"

lemma script_simps [simp]:
  "ms_up (script sep up down ws) = join sep up" "ms_down (script sep up down ws) = join sep down"
  "ms_warnings (script sep up down ws) = ws"
  by (simp_all add: script_def)

end
