(* ===== verification/Ddl_Postgres.thy ===== *)
theory Ddl_Postgres
  imports Ddl_Common
begin

text \<open>
  The PostgreSQL generator (\<^verbatim>\<open>PostgresSqlGenerator\<close> in \<^verbatim>\<open>prax-migrate/src/sql.rs\<close>).  The
  statements a \<^verbatim>\<open>generate\<close> pushes are the lists \<open>pg_up\<close>, \<open>pg_down\<close> and \<open>pg_warnings\<close>, one summand
  for each of its loops.
\<close>

subsection \<open>Extensions and enums\<close>

definition pg_create_extension :: "extension_diff \<Rightarrow> string" where
  "pg_create_extension x = ''CREATE EXTENSION IF NOT EXISTS '' @ dq (xd_name x)
     @ opt_text (\<lambda>s. '' SCHEMA '' @ dq s) (xd_schema x)
     @ opt_text (\<lambda>v. '' VERSION '' @ sq v) (xd_version x) @ '';''"
definition pg_drop_extension :: "string \<Rightarrow> string" where
  "pg_drop_extension n = ''DROP EXTENSION IF EXISTS '' @ dq n @ '' CASCADE;''"

definition pg_create_enum :: "enum_diff \<Rightarrow> string" where
  "pg_create_enum e = ''CREATE TYPE '' @ dq (ed_name e) @ '' AS ENUM ('' @ join '', '' (map sq (ed_values e)) @ '');''"
definition pg_drop_enum :: "string \<Rightarrow> string" where
  "pg_drop_enum n = ''DROP TYPE IF EXISTS '' @ dq n @ '';''"
definition pg_alter_enum :: "enum_alter \<Rightarrow> string list" where
  "pg_alter_enum a =
     map (\<lambda>v. ''ALTER TYPE '' @ dq (el_name a) @ '' ADD VALUE IF NOT EXISTS '' @ sq v @ '';'') (el_add a)"

subsection \<open>Tables\<close>

definition pg_column_type :: "field_diff \<Rightarrow> string" where
  "pg_column_type f = (case fd_enum f of Some e \<Rightarrow> dq e | None \<Rightarrow> fd_type f)"

definition pg_serial :: "string \<Rightarrow> string" where
  "pg_serial t = (if t = ''INTEGER'' then ''SERIAL'' else if t = ''BIGINT'' then ''BIGSERIAL'' else t)"

definition pg_column_definition :: "field_diff \<Rightarrow> string" where
  "pg_column_definition f =
     (case fd_generated f of
        Some g \<Rightarrow> generated_text (dq (fd_column f)) (pg_column_type f) g ''STORED''
      | None \<Rightarrow> join '' '' ([dq (fd_column f), if fd_auto f then pg_serial (pg_column_type f) else pg_column_type f]
          @ column_flags f @ default_clause f))"

definition pg_foreign_key_constraint :: "foreign_key \<Rightarrow> string" where
  "pg_foreign_key_constraint = foreign_key_clause dq"

definition pg_create_table :: "model_diff \<Rightarrow> string" where
  "pg_create_table m = create_table_text dq (md_table m)
     (map pg_column_definition (md_fields m) @ primary_key_clause dq (md_primary_key m)
      @ map (unique_clause dq) (md_uniques m) @ map pg_foreign_key_constraint (md_foreign_keys m)) '';''"

definition pg_drop_table :: "string \<Rightarrow> string" where
  "pg_drop_table n = ''DROP TABLE IF EXISTS '' @ dq n @ '' CASCADE;''"

subsection \<open>Indexes\<close>

definition index_parameters :: "index_diff \<Rightarrow> string list" where
  "index_parameters i =
     (case ix_hnsw_m i of Some m \<Rightarrow> [''m = '' @ show_nat (unat m)] | None \<Rightarrow> [])
     @ (case ix_hnsw_ef i of Some e \<Rightarrow> [''ef_construction = '' @ show_nat (unat e)] | None \<Rightarrow> [])"

definition with_clause :: "index_type \<Rightarrow> index_diff \<Rightarrow> string" where
  "with_clause t i =
     (case t of
        IxHnsw \<Rightarrow> if index_parameters i = [] then [] else '' WITH ('' @ join '', '' (index_parameters i) @ '')''
      | IxIvfFlat \<Rightarrow> opt_text (\<lambda>n. '' WITH (lists = '' @ show_nat (unat n) @ '')'') (ix_lists i)
      | _ \<Rightarrow> [])"

text \<open>\<open>None\<close> is the panic of the \<^verbatim>\<open>unwrap\<close> on an index without a type.\<close>

definition pg_create_vector_index :: "index_diff \<Rightarrow> string option" where
  "pg_create_vector_index i = map_option (\<lambda>t.
     let ops = (case ix_ops i of Some v \<Rightarrow> ops_class v | None \<Rightarrow> ''vector_cosine_ops'')
     in ''CREATE INDEX '' @ dq (ix_name i) @ '' ON '' @ dq (ix_table i) @ '' USING '' @ index_type_sql t
        @ '' ('' @ join '', '' (map (\<lambda>c. dq c @ '' '' @ ops) (ix_columns i)) @ '')'' @ with_clause t i @ '';'')
     (ix_type i)"

definition pg_create_index_checked :: "index_diff \<Rightarrow> string option" where
  "pg_create_index_checked i =
     (if ix_is_vector i then pg_create_vector_index i
      else Some (index_text dq [] (opt_text (\<lambda>t. '' USING '' @ index_type_sql t) (ix_type i)) i))"

text \<open>The panic is unreachable: a vector index has a type.\<close>

lemma pg_create_index_total: "\<exists>s. pg_create_index_checked i = Some s"
  by (auto simp: pg_create_index_checked_def pg_create_vector_index_def ix_is_vector_def split: option.splits)

definition pg_create_index :: "index_diff \<Rightarrow> string" where
  "pg_create_index i = the (pg_create_index_checked i)"

definition pg_drop_index :: "string \<Rightarrow> string \<Rightarrow> string" where
  "pg_drop_index n table = ''DROP INDEX IF EXISTS '' @ dq n @ '';''"

subsection \<open>Alterations\<close>

definition pg_alter_column :: "string \<Rightarrow> field_alter \<Rightarrow> string list" where
  "pg_alter_column table f =
     (let stmt = (\<lambda>action. alter_table_text dq table (''ALTER COLUMN '' @ dq (fl_column f) @ '' '' @ action))
      in (case fl_new_type f of
            Some t \<Rightarrow> [stmt (''TYPE '' @ t @ '' USING '' @ dq (fl_column f) @ ''::'' @ t)] | None \<Rightarrow> [])
         @ (case fl_new_nullable f of
              Some n \<Rightarrow> [stmt (if n then ''DROP NOT NULL'' else ''SET NOT NULL'')] | None \<Rightarrow> [])
         @ (case fl_new_default f of Some v \<Rightarrow> [stmt (''SET DEFAULT '' @ v)] | None \<Rightarrow> []))"

definition pg_alter_table :: "model_alter \<Rightarrow> string list" where
  "pg_alter_table a =
     (let stmt = alter_table_text dq (ma_table a)
      in map (\<lambda>f. stmt (''ADD COLUMN '' @ pg_column_definition f)) (ma_add_fields a)
         @ map (\<lambda>n. stmt (''DROP COLUMN IF EXISTS '' @ dq n)) (ma_drop_fields a)
         @ concat (map (pg_alter_column (ma_table a)) (ma_alter_fields a))
         @ map pg_create_index (ma_add_indexes a)
         @ map (\<lambda>n. ''DROP INDEX IF EXISTS '' @ dq n @ '';'') (ma_drop_indexes a)
         @ map (\<lambda>n. stmt (''DROP CONSTRAINT IF EXISTS '' @ dq n)) (ma_drop_foreign_keys a)
         @ map (\<lambda>k. stmt (''ADD '' @ pg_foreign_key_constraint k)) (ma_add_foreign_keys a))"

subsection \<open>Views\<close>

definition pg_create_view :: "view_diff \<Rightarrow> string" where
  "pg_create_view v =
     view_text (if vd_materialized v then ''CREATE MATERIALIZED VIEW'' else ''CREATE OR REPLACE VIEW'') dq v"
definition pg_drop_view :: "string \<Rightarrow> bool \<Rightarrow> string" where
  "pg_drop_view n materialized =
     (if materialized then ''DROP MATERIALIZED VIEW IF EXISTS '' else ''DROP VIEW IF EXISTS '') @ dq n @ '' CASCADE;''"
definition pg_refresh_materialized_view :: "string \<Rightarrow> bool \<Rightarrow> string" where
  "pg_refresh_materialized_view n concurrently =
     ''REFRESH MATERIALIZED VIEW '' @ (if concurrently then ''CONCURRENTLY '' else []) @ dq n @ '';''"

subsection \<open>The script\<close>

definition virtual_warning :: "string \<Rightarrow> field_diff \<Rightarrow> string list" where
  "virtual_warning table f =
     (case fd_generated f of
        Some g \<Rightarrow> if gen_stored g then []
          else [''Column '' @ sq (fd_column f) @ '' on table '' @ sq table
            @ '' is @virtual but Postgres does not support virtual generated columns; emitted as STORED instead.'']
      | None \<Rightarrow> [])"

definition virtual_warnings :: "schema_diff \<Rightarrow> string list" where
  "virtual_warnings d =
     concat (map (\<lambda>m. concat (map (virtual_warning (md_table m)) (md_fields m))) (sd_create_models d))
     @ concat (map (\<lambda>a. concat (map (virtual_warning (ma_table a)) (ma_add_fields a))) (sd_alter_models d))"

definition pg_up :: "schema_diff \<Rightarrow> string list" where
  "pg_up d =
     map pg_create_extension (sd_create_extensions d)
     @ map pg_drop_extension (sd_drop_extensions d)
     @ map pg_create_enum (sd_create_enums d)
     @ map pg_drop_enum (sd_drop_enums d)
     @ concat (map pg_alter_enum (sd_alter_enums d))
     @ map pg_create_table (ordered_creates d)
     @ map pg_drop_table (sd_drop_models d)
     @ concat (map pg_alter_table (sd_alter_models d))
     @ map pg_create_index (sd_create_indexes d)
     @ map (\<lambda>i. pg_drop_index (ix_name i) (ix_table i)) (sd_drop_indexes d)
     @ map pg_create_view (sd_create_views d)
     @ map (\<lambda>n. pg_drop_view n False) (sd_drop_views d)
     @ concat (map (\<lambda>v. [pg_drop_view (vd_view v) (vd_materialized v), pg_create_view v]) (sd_alter_views d))
     @ procedures_up DbPostgres d"

definition pg_down :: "schema_diff \<Rightarrow> string list" where
  "pg_down d =
     map (\<lambda>x. pg_drop_extension (xd_name x)) (sd_create_extensions d)
     @ map (\<lambda>e. pg_drop_enum (ed_name e)) (sd_create_enums d)
     @ map (\<lambda>m. pg_drop_table (md_table m)) (rev (ordered_creates d))
     @ map (\<lambda>i. pg_drop_index (ix_name i) (ix_table i)) (sd_create_indexes d)
     @ map (\<lambda>v. pg_drop_view (vd_view v) (vd_materialized v)) (sd_create_views d)
     @ procedures_down DbPostgres d"

definition pg_warnings :: "schema_diff \<Rightarrow> string list" where
  "pg_warnings d = virtual_warnings d @ loss_warnings d"

definition pg_generate :: "schema_diff \<Rightarrow> migration_sql" where
  "pg_generate d = script BLANK_LINE (pg_up d) (pg_down d) (pg_warnings d)"

end
