(* ===== verification/Ddl_Mysql.thy ===== *)
theory Ddl_Mysql
  imports Ddl_Common
begin

text \<open>The MySQL generator (\<^verbatim>\<open>MySqlGenerator\<close> in \<^verbatim>\<open>prax-migrate/src/sql.rs\<close>).\<close>

subsection \<open>Columns and tables\<close>

definition my_type :: "field_diff \<Rightarrow> string" where
  "my_type f =
     (let t = fd_type f in
      if t = ''INTEGER'' then (if fd_auto f then ''INT AUTO_INCREMENT'' else ''INT'')
      else if t = ''BIGINT'' \<and> fd_auto f then ''BIGINT AUTO_INCREMENT''
      else if t = ''TEXT'' then ''VARCHAR(255)''
      else if t = ''DOUBLE PRECISION'' then ''DOUBLE''
      else if t = ''TIMESTAMP WITH TIME ZONE'' then ''DATETIME''
      else if t = ''BOOLEAN'' then ''TINYINT(1)''
      else if t = ''BYTEA'' then ''BLOB''
      else if t = ''JSONB'' \<or> t = ''JSON'' then ''JSON''
      else t)"

definition my_column_definition :: "field_diff \<Rightarrow> string" where
  "my_column_definition f =
     (case fd_generated f of
        Some g \<Rightarrow> bt (fd_column f) @ '' '' @ my_type f @ '' AS ('' @ gen_expression g @ '') '' @ stored_keyword g
      | None \<Rightarrow> join '' '' ([bt (fd_column f), my_type f] @ column_flags f @ default_clause f))"

definition my_create_table :: "model_diff \<Rightarrow> string" where
  "my_create_table m = create_table_text bt (md_table m)
     (map my_column_definition (md_fields m) @ primary_key_clause bt (md_primary_key m)
      @ map (unique_clause bt) (md_uniques m) @ map (foreign_key_clause bt) (md_foreign_keys m))
     '' ENGINE=InnoDB DEFAULT CHARSET=utf8mb4;''"

definition my_drop_table :: "string \<Rightarrow> string" where
  "my_drop_table n = ''DROP TABLE IF EXISTS '' @ bt n @ '';''"

subsection \<open>Alterations\<close>

definition my_alter_column :: "string \<Rightarrow> field_alter \<Rightarrow> string list" where
  "my_alter_column table f =
     (if fl_new_type f = None \<and> fl_new_nullable f = None \<and> fl_new_default f = None then []
      else (case (case fl_new_type f of Some t \<Rightarrow> Some t | None \<Rightarrow> fl_old_type f) of
        None \<Rightarrow> [''-- Column '' @ bt (fl_column f) @ '' on table '' @ bt table
          @ '' was not altered: column type unknown, and MySQL MODIFY COLUMN requires the full column definition'']
      | Some t \<Rightarrow>
          [alter_table_text bt table (''MODIFY COLUMN '' @ bt (fl_column f) @ '' '' @ t
            @ (case (case fl_new_nullable f of Some n \<Rightarrow> Some n | None \<Rightarrow> fl_old_nullable f) of
                 Some n \<Rightarrow> if n then '' NULL'' else '' NOT NULL'' | None \<Rightarrow> [])
            @ opt_text (\<lambda>v. '' DEFAULT '' @ v) (fl_new_default f))]))"

definition my_alter_table :: "model_alter \<Rightarrow> string list" where
  "my_alter_table a =
     (let stmt = alter_table_text bt (ma_table a)
      in map (\<lambda>f. stmt (''ADD COLUMN '' @ my_column_definition f)) (ma_add_fields a)
         @ map (\<lambda>n. stmt (''DROP COLUMN '' @ bt n)) (ma_drop_fields a)
         @ concat (map (my_alter_column (ma_table a)) (ma_alter_fields a))
         @ map (\<lambda>n. stmt (''DROP FOREIGN KEY '' @ bt n)) (ma_drop_foreign_keys a)
         @ map (\<lambda>k. stmt (''ADD '' @ foreign_key_clause bt k)) (ma_add_foreign_keys a))"

subsection \<open>Indexes and views\<close>

definition my_create_index :: "index_diff \<Rightarrow> string" where
  "my_create_index i = index_text bt (if ix_type i = Some IxFullText then ''FULLTEXT '' else []) [] i"
definition my_drop_index :: "string \<Rightarrow> string \<Rightarrow> string" where
  "my_drop_index n table = ''DROP INDEX '' @ bt n @ '' ON '' @ bt table @ '';''"
definition my_create_view :: "view_diff \<Rightarrow> string" where
  "my_create_view = view_text ''CREATE OR REPLACE VIEW'' bt"
definition my_drop_view :: "string \<Rightarrow> string" where
  "my_drop_view n = ''DROP VIEW IF EXISTS '' @ bt n @ '';''"

subsection \<open>The script\<close>

definition my_up :: "schema_diff \<Rightarrow> string list" where
  "my_up d =
     map my_create_table (ordered_creates d)
     @ map my_drop_table (sd_drop_models d)
     @ concat (map my_alter_table (sd_alter_models d))
     @ map my_create_index (sd_create_indexes d)
     @ map (\<lambda>i. my_drop_index (ix_name i) (ix_table i)) (sd_drop_indexes d)
     @ map my_create_view (sd_create_views d)
     @ map my_drop_view (sd_drop_views d)
     @ concat (map (\<lambda>v. [my_drop_view (vd_view v), my_create_view v]) (sd_alter_views d))
     @ procedures_up DbMySql d"

definition my_down :: "schema_diff \<Rightarrow> string list" where
  "my_down d =
     map (\<lambda>m. my_drop_table (md_table m)) (rev (ordered_creates d))
     @ map (\<lambda>i. my_drop_index (ix_name i) (ix_table i)) (sd_create_indexes d)
     @ map (\<lambda>v. my_drop_view (vd_view v)) (sd_create_views d)
     @ procedures_down DbMySql d"

definition my_generate :: "schema_diff \<Rightarrow> migration_sql" where
  "my_generate d = script BLANK_LINE (my_up d) (my_down d) (loss_warnings d)"

end
