(* ===== verification/Ddl_Sqlite.thy ===== *)
theory Ddl_Sqlite
  imports Ddl_Common
begin

text \<open>
  The SQLite generator (\<^verbatim>\<open>SqliteGenerator\<close> in \<^verbatim>\<open>prax-migrate/src/sql.rs\<close>).  Vector columns live in
  a companion virtual table.
\<close>

subsection \<open>Columns and tables\<close>

definition lite_type :: "string \<Rightarrow> string" where
  "lite_type t =
     (if t = ''BIGINT'' then ''INTEGER''
      else if t = ''DOUBLE PRECISION'' then ''REAL''
      else if t = ''TIMESTAMP WITH TIME ZONE'' \<or> t = ''DATETIME'' then ''TEXT''
      else if t = ''BOOLEAN'' then ''INTEGER''
      else if t = ''BYTEA'' \<or> t = ''BLOB'' then ''BLOB''
      else if t = ''JSONB'' \<or> t = ''JSON'' then ''TEXT''
      else t)"

text \<open>Booleans are 1 and 0: exactly the tokens \<^verbatim>\<open>TRUE\<close> and \<^verbatim>\<open>FALSE\<close> are rewritten.\<close>

definition lite_default :: "string \<Rightarrow> string" where
  "lite_default d = (if trim d = ''TRUE'' then ''1'' else if trim d = ''FALSE'' then ''0'' else d)"

definition lite_column_definition :: "field_diff \<Rightarrow> string" where
  "lite_column_definition f =
     (if fd_type f = ''INTEGER'' \<and> fd_primary f \<and> fd_auto f
      then join '' '' [dq (fd_column f), ''INTEGER PRIMARY KEY'']
      else (case fd_generated f of
          Some g \<Rightarrow> generated_text (dq (fd_column f)) (lite_type (fd_type f)) g (stored_keyword g)
        | None \<Rightarrow> join '' '' ([dq (fd_column f), lite_type (fd_type f)] @ column_flags f
            @ (case fd_default f of Some d \<Rightarrow> [''DEFAULT '' @ lite_default d] | None \<Rightarrow> []))))"

definition has_integer_pk :: "model_diff \<Rightarrow> bool" where
  "has_integer_pk m = list_ex (\<lambda>f. fd_primary f \<and> fd_type f = ''INTEGER'' \<and> fd_auto f) (md_fields m)"

definition lite_create_table :: "model_diff \<Rightarrow> string" where
  "lite_create_table m = create_table_text dq (md_table m)
     (map lite_column_definition (List.filter (\<lambda>f. fd_vector f = None) (md_fields m))
      @ (if has_integer_pk m then [] else primary_key_clause dq (md_primary_key m))
      @ map (unique_clause dq) (md_uniques m) @ map (foreign_key_clause dq) (md_foreign_keys m)) '';''"

definition lite_drop_table :: "string \<Rightarrow> string" where
  "lite_drop_table n = ''DROP TABLE IF EXISTS '' @ dq n @ '';''"

definition lite_alter_table :: "model_alter \<Rightarrow> string list" where
  "lite_alter_table a =
     (let stmt = alter_table_text dq (ma_table a)
      in map (\<lambda>f. stmt (''ADD COLUMN '' @ lite_column_definition f)) (ma_add_fields a)
         @ map (\<lambda>n. stmt (''DROP COLUMN '' @ dq n)) (ma_drop_fields a))"

subsection \<open>The companion table of vector columns\<close>

definition singularize :: "string \<Rightarrow> string" where
  "singularize n = (if suffix ''s'' n \<and> \<not> suffix ''ss'' n then take (length n - 1) n else n)"

definition lite_quote_ident :: "string \<Rightarrow> string" where
  "lite_quote_ident n = [DQUOTE] @ replace_char DQUOTE [DQUOTE, DQUOTE] n @ [DQUOTE]"
definition escape_sql_literal :: "string \<Rightarrow> string" where
  "escape_sql_literal s = replace_char SQUOTE [SQUOTE, SQUOTE] s"

fun index_kind_sql :: "vector_index_kind \<Rightarrow> string" where
  "index_kind_sql KindHnsw = ''hnsw''"

definition vector_clause :: "field_diff \<Rightarrow> vector_column \<Rightarrow> string" where
  "vector_clause f v = lite_quote_ident (fd_column f) @ ''=''
     @ sq (element_sql (vc_element v) @ ''['' @ show_nat (unat (vc_dimensions v)) @ ''] '' @ metric_sql (vc_metric v)
       @ opt_text (\<lambda>k. '' '' @ index_kind_sql k) (vc_index v))"

definition vector_clauses :: "model_diff \<Rightarrow> string list" where
  "vector_clauses m = List.map_filter (\<lambda>f. map_option (vector_clause f) (fd_vector f)) (md_fields m)"

definition vector_table_name :: "model_diff \<Rightarrow> string" where
  "vector_table_name m = md_table m @ ''_vectors''"

definition create_vector_virtual_table :: "model_diff \<Rightarrow> string option" where
  "create_vector_virtual_table m =
     (if vector_clauses m = [] then None
      else Some (''CREATE VIRTUAL TABLE '' @ lite_quote_ident (vector_table_name m) @ '' USING vector('' @ NL @ ''    ''
        @ join ('','' @ NL @ ''    '')
            ((''rowid_column='' @ sq (escape_sql_literal (singularize (md_table m) @ ''_id''))) # vector_clauses m)
        @ NL @ '');''))"

definition drop_vector_virtual_table :: "model_diff \<Rightarrow> string option" where
  "drop_vector_virtual_table m =
     (if list_ex (\<lambda>f. fd_vector f \<noteq> None) (md_fields m)
      then Some (''DROP TABLE IF EXISTS '' @ lite_quote_ident (vector_table_name m) @ '';'') else None)"

subsection \<open>Indexes and views\<close>

definition lite_create_index :: "index_diff \<Rightarrow> string" where
  "lite_create_index = index_text dq [] []"
definition lite_drop_index :: "string \<Rightarrow> string" where
  "lite_drop_index n = ''DROP INDEX IF EXISTS '' @ dq n @ '';''"
definition lite_create_view :: "view_diff \<Rightarrow> string" where
  "lite_create_view = view_text ''CREATE VIEW IF NOT EXISTS'' dq"
definition lite_drop_view :: "string \<Rightarrow> string" where
  "lite_drop_view n = ''DROP VIEW IF EXISTS '' @ dq n @ '';''"

subsection \<open>The script\<close>

definition option_list :: "'a option \<Rightarrow> 'a list" where
  "option_list x = (case x of Some y \<Rightarrow> [y] | None \<Rightarrow> [])"

definition lite_create_model :: "model_diff \<Rightarrow> string list" where
  "lite_create_model m = lite_create_table m # option_list (create_vector_virtual_table m)"
definition lite_drop_model :: "model_diff \<Rightarrow> string list" where
  "lite_drop_model m = option_list (drop_vector_virtual_table m) @ [lite_drop_table (md_table m)]"

definition rebuild_warning :: "string \<Rightarrow> foreign_key \<Rightarrow> string" where
  "rebuild_warning table k = ''Adding foreign key '' @ sq (fk_name k) @ '' to table '' @ sq table
     @ '' requires a table rebuild - SQLite cannot add constraints to an existing table''"

definition lite_warnings :: "schema_diff \<Rightarrow> string list" where
  "lite_warnings d = map dropped_table_warning (sd_drop_models d)
     @ concat (map (\<lambda>a. alter_warnings a @ map (rebuild_warning (ma_table a)) (ma_add_foreign_keys a)) (sd_alter_models d))"

definition lite_up :: "schema_diff \<Rightarrow> string list" where
  "lite_up d =
     concat (map lite_create_model (ordered_creates d))
     @ map lite_drop_table (sd_drop_models d)
     @ concat (map lite_alter_table (sd_alter_models d))
     @ map lite_create_index (sd_create_indexes d)
     @ map (\<lambda>i. lite_drop_index (ix_name i)) (sd_drop_indexes d)
     @ map lite_create_view (sd_create_views d)
     @ map lite_drop_view (sd_drop_views d)
     @ concat (map (\<lambda>v. [lite_drop_view (vd_view v), lite_create_view v]) (sd_alter_views d))
     @ procedures_up DbSqlite d"

definition lite_down :: "schema_diff \<Rightarrow> string list" where
  "lite_down d =
     concat (map lite_drop_model (rev (ordered_creates d)))
     @ map (\<lambda>i. lite_drop_index (ix_name i)) (sd_create_indexes d)
     @ map (\<lambda>v. lite_drop_view (vd_view v)) (sd_create_views d)
     @ procedures_down DbSqlite d"

definition lite_generate :: "schema_diff \<Rightarrow> migration_sql" where
  "lite_generate d = script BLANK_LINE (lite_up d) (lite_down d) (lite_warnings d)"

end
