(* ===== verification/Ddl_Mssql.thy ===== *)
theory Ddl_Mssql
  imports Ddl_Common
begin

text \<open>The SQL Server generator (\<^verbatim>\<open>MssqlGenerator\<close> in \<^verbatim>\<open>prax-migrate/src/sql.rs\<close>).\<close>

subsection \<open>Columns and tables\<close>

definition ms_type :: "string \<Rightarrow> string" where
  "ms_type t =
     (if t = ''INTEGER'' then ''INT''
      else if t = ''BIGINT'' then ''BIGINT''
      else if t = ''TEXT'' then ''NVARCHAR(MAX)''
      else if t = ''DOUBLE PRECISION'' then ''FLOAT''
      else if t = ''TIMESTAMP WITH TIME ZONE'' then ''DATETIMEOFFSET''
      else if t = ''BOOLEAN'' then ''BIT''
      else if t = ''BYTEA'' then ''VARBINARY(MAX)''
      else if t = ''JSONB'' \<or> t = ''JSON'' then ''NVARCHAR(MAX)''
      else if t = ''UUID'' then ''UNIQUEIDENTIFIER''
      else if t = ''DECIMAL'' then ''DECIMAL(18,2)''
      else t)"

text \<open>The branch for unique fields pushes nothing.\<close>

definition ms_column_definition :: "field_diff \<Rightarrow> string" where
  "ms_column_definition f =
     (case fd_generated f of
        Some g \<Rightarrow> br (fd_column f) @ '' AS ('' @ gen_expression g @ '')'' @ (if gen_stored g then '' PERSISTED'' else [])
      | None \<Rightarrow> join '' '' ([br (fd_column f), ms_type (fd_type f)]
          @ (if fd_auto f then [''IDENTITY(1,1)''] else [])
          @ (if \<not> fd_nullable f \<and> \<not> fd_primary f then [''NOT NULL''] else [])
          @ default_clause f))"

definition ms_unique_clause :: "string \<Rightarrow> unique_constraint \<Rightarrow> string" where
  "ms_unique_clause table u =
     ''CONSTRAINT '' @ br (case uq_name u of Some n \<Rightarrow> n
        | None \<Rightarrow> ''UQ_'' @ table @ ''_'' @ join ''_'' (uq_columns u))
     @ '' UNIQUE '' @ column_list br (uq_columns u)"

definition ms_create_table :: "model_diff \<Rightarrow> string" where
  "ms_create_table m = create_table_text br (md_table m)
     (map ms_column_definition (md_fields m)
      @ map (\<lambda>c. ''CONSTRAINT '' @ br (''PK_'' @ md_table m) @ '' '' @ c) (primary_key_clause br (md_primary_key m))
      @ map (ms_unique_clause (md_table m)) (md_uniques m)
      @ map (foreign_key_clause br) (md_foreign_keys m)) '';''"

definition ms_drop_table :: "string \<Rightarrow> string" where
  "ms_drop_table n = ''DROP TABLE IF EXISTS '' @ br n @ '';''"

subsection \<open>Alterations\<close>

definition ms_alter_column :: "string \<Rightarrow> field_alter \<Rightarrow> string list" where
  "ms_alter_column table f =
     (if fl_new_type f \<noteq> None \<or> fl_new_nullable f \<noteq> None
      then (case (case fl_new_type f of Some t \<Rightarrow> Some t | None \<Rightarrow> fl_old_type f) of
          Some t \<Rightarrow> [alter_table_text br table (''ALTER COLUMN '' @ br (fl_column f) @ '' '' @ t
            @ (case (case fl_new_nullable f of Some n \<Rightarrow> Some n | None \<Rightarrow> fl_old_nullable f) of
                 Some n \<Rightarrow> if n then '' NULL'' else '' NOT NULL'' | None \<Rightarrow> []))]
        | None \<Rightarrow> [''-- Column '' @ br (fl_column f) @ '' on table '' @ br table
            @ '' was not altered: column type unknown, and T-SQL ALTER COLUMN requires the column type''])
      else [])
     @ (case fl_new_default f of
          Some v \<Rightarrow>
            [''-- Drop any existing default constraint on '' @ br table @ ''.'' @ br (fl_column f)
               @ '' before applying the new default'',
             alter_table_text br table (''ADD CONSTRAINT '' @ br (''DF_'' @ table @ ''_'' @ fl_column f)
               @ '' DEFAULT '' @ v @ '' FOR '' @ br (fl_column f))]
        | None \<Rightarrow> [])"

definition ms_alter_table :: "model_alter \<Rightarrow> string list" where
  "ms_alter_table a =
     (let stmt = alter_table_text br (ma_table a)
      in map (\<lambda>f. stmt (''ADD '' @ ms_column_definition f)) (ma_add_fields a)
         @ map (\<lambda>n. stmt (''DROP COLUMN '' @ br n)) (ma_drop_fields a)
         @ concat (map (ms_alter_column (ma_table a)) (ma_alter_fields a))
         @ map (\<lambda>n. stmt (''DROP CONSTRAINT '' @ br n)) (ma_drop_foreign_keys a)
         @ map (\<lambda>k. stmt (''ADD '' @ foreign_key_clause br k)) (ma_add_foreign_keys a))"

subsection \<open>Indexes and views\<close>

definition ms_create_index :: "index_diff \<Rightarrow> string" where
  "ms_create_index = index_text br [] []"
definition ms_drop_index :: "string \<Rightarrow> string \<Rightarrow> string" where
  "ms_drop_index n table = ''DROP INDEX '' @ br n @ '' ON '' @ br table @ '';''"

definition ms_create_view :: "view_diff \<Rightarrow> string" where
  "ms_create_view v =
     (if vd_materialized v
      then ''CREATE VIEW '' @ br (vd_view v) @ '' WITH SCHEMABINDING AS'' @ NL @ vd_sql v @ '';'' @ NL @ NL
        @ ''-- Create unique clustered index for indexed view'' @ NL
        @ ''-- CREATE UNIQUE CLUSTERED INDEX '' @ br (''IX_'' @ vd_view v @ ''_Clustered'') @ '' ON ''
        @ br (vd_view v) @ '' ([id]);''
      else view_text ''CREATE OR ALTER VIEW'' br v)"
definition ms_drop_view :: "string \<Rightarrow> string" where
  "ms_drop_view n = ''DROP VIEW IF EXISTS '' @ br n @ '';''"
definition ms_refresh_view :: "string \<Rightarrow> string" where
  "ms_refresh_view n = ''EXEC sp_refreshview N'' @ sq n @ '';''"

subsection \<open>The script\<close>

definition mssql_up :: "schema_diff \<Rightarrow> string list" where
  "mssql_up d =
     map ms_create_table (ordered_creates d)
     @ map ms_drop_table (sd_drop_models d)
     @ concat (map ms_alter_table (sd_alter_models d))
     @ map ms_create_index (sd_create_indexes d)
     @ map (\<lambda>i. ms_drop_index (ix_name i) (ix_table i)) (sd_drop_indexes d)
     @ map ms_create_view (sd_create_views d)
     @ map ms_drop_view (sd_drop_views d)
     @ concat (map (\<lambda>v. [ms_drop_view (vd_view v), ms_create_view v]) (sd_alter_views d))
     @ procedures_up DbMssql d"

definition mssql_down :: "schema_diff \<Rightarrow> string list" where
  "mssql_down d =
     map (\<lambda>m. ms_drop_table (md_table m)) (rev (ordered_creates d))
     @ map (\<lambda>i. ms_drop_index (ix_name i) (ix_table i)) (sd_create_indexes d)
     @ map (\<lambda>v. ms_drop_view (vd_view v)) (sd_create_views d)
     @ procedures_down DbMssql d"

definition mssql_generate :: "schema_diff \<Rightarrow> migration_sql" where
  "mssql_generate d = script (NL @ NL @ ''GO'' @ NL @ NL) (mssql_up d) (mssql_down d) (loss_warnings d)"

end
