(* ===== verification/Ddl_Duckdb.thy ===== *)
theory Ddl_Duckdb
  imports Ddl_Common
begin

text \<open>The DuckDB generator (\<^verbatim>\<open>DuckDbSqlGenerator\<close> in \<^verbatim>\<open>prax-migrate/src/sql.rs\<close>).\<close>

subsection \<open>Extensions and enums\<close>

definition duck_install_extension :: "string \<Rightarrow> string" where
  "duck_install_extension n = ''INSTALL '' @ sq n @ '';'' @ NL @ ''LOAD '' @ sq n @ '';''"
definition duck_drop_extension :: "string \<Rightarrow> string" where
  "duck_drop_extension n = ''-- Extension '' @ n @ '' cannot be uninstalled''"
definition duck_create_enum :: "enum_diff \<Rightarrow> string" where
  "duck_create_enum e = ''CREATE TYPE '' @ dq (ed_name e) @ '' AS ENUM ('' @ join '', '' (map sq (ed_values e)) @ '');''"
definition duck_drop_enum :: "string \<Rightarrow> string" where
  "duck_drop_enum n = ''DROP TYPE IF EXISTS '' @ dq n @ '';''"
definition duck_alter_enum :: "enum_alter \<Rightarrow> string list" where
  "duck_alter_enum a = map (\<lambda>v. ''ALTER TYPE '' @ dq (el_name a) @ '' ADD VALUE '' @ sq v @ '';'') (el_add a)"

subsection \<open>Columns and tables\<close>

definition map_field_type :: "string \<Rightarrow> string" where
  "map_field_type t =
     (if t = ''INTEGER'' then ''INTEGER''
      else if t = ''BIGINT'' then ''BIGINT''
      else if t = ''VARCHAR'' \<or> t = ''TEXT'' then ''VARCHAR''
      else if t = ''BOOLEAN'' then ''BOOLEAN''
      else if t = ''TIMESTAMP WITH TIME ZONE'' \<or> t = ''TIMESTAMPTZ'' \<or> t = ''DATETIME'' then ''TIMESTAMP WITH TIME ZONE''
      else if t = ''JSON'' \<or> t = ''JSONB'' then ''JSON''
      else if t = ''DOUBLE PRECISION'' then ''DOUBLE''
      else if t = ''REAL'' then ''REAL''
      else if t = ''DECIMAL'' then ''DECIMAL''
      else if t = ''BLOB'' \<or> t = ''BYTEA'' then ''BLOB''
      else if t = ''UUID'' then ''UUID''
      else t)"

definition duck_column_definition :: "field_diff \<Rightarrow> string" where
  "duck_column_definition f =
     (case fd_generated f of
        Some g \<Rightarrow> generated_text (dq (fd_column f)) (map_field_type (fd_type f)) g (stored_keyword g)
      | None \<Rightarrow> join '' '' ([dq (fd_column f), map_field_type (fd_type f)] @ column_flags f @ default_clause f))"

text \<open>The columns of a new table: primary keys are declared inline.\<close>

definition duck_table_column :: "field_diff \<Rightarrow> string" where
  "duck_table_column f =
     (if fd_generated f \<noteq> None then duck_column_definition f
      else dq (fd_column f) @ '' '' @ map_field_type (fd_type f)
        @ (if fd_primary f \<and> fd_auto f then '' GENERATED BY DEFAULT AS IDENTITY PRIMARY KEY''
           else if fd_primary f then '' PRIMARY KEY'' else [])
        @ (if \<not> fd_nullable f \<and> \<not> fd_primary f then '' NOT NULL'' else [])
        @ (if fd_unique f \<and> \<not> fd_primary f then '' UNIQUE'' else [])
        @ opt_text (\<lambda>d. '' DEFAULT '' @ d) (fd_default f))"

definition duck_foreign_key_constraint :: "foreign_key \<Rightarrow> string" where
  "duck_foreign_key_constraint = foreign_key_clause dq"

definition duck_create_table :: "model_diff \<Rightarrow> string" where
  "duck_create_table m = create_table_text dq (md_table m)
     (map duck_table_column (md_fields m)
      @ (if list_ex fd_primary (md_fields m) then [] else primary_key_clause dq (md_primary_key m))
      @ map (unique_clause dq) (md_uniques m) @ map duck_foreign_key_constraint (md_foreign_keys m)) '';''"

definition duck_drop_table :: "string \<Rightarrow> string" where
  "duck_drop_table n = ''DROP TABLE IF EXISTS '' @ dq n @ '';''"

subsection \<open>Indexes and views\<close>

definition duck_create_index :: "index_diff \<Rightarrow> string" where
  "duck_create_index = index_text dq [] []"
definition duck_drop_index :: "string \<Rightarrow> string" where
  "duck_drop_index n = ''DROP INDEX IF EXISTS '' @ dq n @ '';''"
definition duck_create_view :: "view_diff \<Rightarrow> string" where
  "duck_create_view = view_text ''CREATE VIEW'' dq"
definition duck_drop_view :: "string \<Rightarrow> string" where
  "duck_drop_view n = ''DROP VIEW IF EXISTS '' @ dq n @ '';''"

subsection \<open>Alterations\<close>

definition duck_alter_column :: "string \<Rightarrow> field_alter \<Rightarrow> string list" where
  "duck_alter_column table f =
     (let stmt = (\<lambda>action. alter_table_text dq table (''ALTER COLUMN '' @ dq (fl_column f) @ '' '' @ action))
      in (case fl_new_type f of Some t \<Rightarrow> [stmt (''TYPE '' @ t)] | None \<Rightarrow> [])
         @ (case fl_new_nullable f of
              Some n \<Rightarrow> [stmt (if n then ''DROP NOT NULL'' else ''SET NOT NULL'')] | None \<Rightarrow> [])
         @ (case fl_new_default f of Some v \<Rightarrow> [stmt (''SET DEFAULT '' @ v)] | None \<Rightarrow> []))"

definition duck_alter_table :: "model_alter \<Rightarrow> string list" where
  "duck_alter_table a =
     (let stmt = alter_table_text dq (ma_table a)
      in map (\<lambda>f. stmt (''ADD COLUMN '' @ duck_column_definition f)) (ma_add_fields a)
         @ map (\<lambda>n. stmt (''DROP COLUMN '' @ dq n)) (ma_drop_fields a)
         @ concat (map (duck_alter_column (ma_table a)) (ma_alter_fields a))
         @ map duck_create_index (ma_add_indexes a)
         @ map duck_drop_index (ma_drop_indexes a)
         @ map (\<lambda>n. stmt (''DROP CONSTRAINT '' @ dq n)) (ma_drop_foreign_keys a)
         @ map (\<lambda>k. stmt (''ADD '' @ duck_foreign_key_constraint k)) (ma_add_foreign_keys a))"

subsection \<open>The script\<close>

definition unenforced_warning :: string where
  "unenforced_warning = ''Foreign keys defined but not enforced unless SET check_fk_violation = '' @ sq ''error''"
definition materialized_warning :: "string \<Rightarrow> string" where
  "materialized_warning v =
     ''DuckDB does not support materialized views - generating regular view '' @ sq v @ '' instead''"

definition duck_warnings :: "schema_diff \<Rightarrow> string list" where
  "duck_warnings d = loss_warnings d
     @ (if list_ex (\<lambda>a. ma_add_foreign_keys a \<noteq> []) (sd_alter_models d) then [unenforced_warning] else [])
     @ map (\<lambda>v. materialized_warning (vd_view v)) (List.filter vd_materialized (sd_create_views d))"

definition duck_up :: "schema_diff \<Rightarrow> string list" where
  "duck_up d =
     map (\<lambda>x. duck_install_extension (xd_name x)) (sd_create_extensions d)
     @ map duck_drop_extension (sd_drop_extensions d)
     @ map duck_create_enum (sd_create_enums d)
     @ map duck_drop_enum (sd_drop_enums d)
     @ concat (map duck_alter_enum (sd_alter_enums d))
     @ map duck_create_table (ordered_creates d)
     @ map duck_drop_table (sd_drop_models d)
     @ concat (map duck_alter_table (sd_alter_models d))
     @ map duck_create_index (sd_create_indexes d)
     @ map (\<lambda>i. duck_drop_index (ix_name i)) (sd_drop_indexes d)
     @ map duck_create_view (sd_create_views d)
     @ map duck_drop_view (sd_drop_views d)
     @ concat (map (\<lambda>v. [duck_drop_view (vd_view v), duck_create_view v]) (sd_alter_views d))"

text \<open>The list of down statements as it is collected; the script is its reversal.\<close>

definition duck_down_collected :: "schema_diff \<Rightarrow> string list" where
  "duck_down_collected d =
     map (\<lambda>x. ''-- Extension '' @ xd_name x @ '' cannot be uninstalled (DuckDB limitation)'') (sd_create_extensions d)
     @ map (\<lambda>e. duck_drop_enum (ed_name e)) (sd_create_enums d)
     @ map (\<lambda>m. duck_drop_table (md_table m)) (rev (ordered_creates d))
     @ map (\<lambda>i. duck_drop_index (ix_name i)) (sd_create_indexes d)
     @ map (\<lambda>v. duck_drop_view (vd_view v)) (sd_create_views d)"

definition duck_down :: "schema_diff \<Rightarrow> string list" where
  "duck_down d = rev (duck_down_collected d)"

definition duck_generate :: "schema_diff \<Rightarrow> migration_sql" where
  "duck_generate d = script BLANK_LINE (duck_up d) (duck_down d) (duck_warnings d)"

end
