(* ===== verification/Schema_Diff.thy ===== *)
theory Schema_Diff
  imports Diff_Types "HOL-Library.List_Lexorder" "HOL-Library.Product_Lexorder"
begin

text \<open>
  The schema differ (\<^verbatim>\<open>SchemaDiffer\<close> in \<^verbatim>\<open>prax-migrate/src/diff.rs\<close>): from the schema a database
  has and the schema it should have, the tables, columns, indexes, foreign keys, enums and views to
  create, drop and alter.  A hash map that the code fills and iterates is the list of its entries in
  the order of insertion, one of the orders its iteration can take.
\<close>

subsection \<open>Columns\<close>

definition field_column_name :: "field \<Rightarrow> string" where
  "field_column_name f = unwrap_or (attribute_string ''map'' (f_attributes f)) (f_name f)"

definition index_column_name :: "model \<Rightarrow> string \<Rightarrow> string" where
  "index_column_name m n =
     unwrap_or (Option.bind (map_of (mo_fields m) n) (\<lambda>f. attribute_string ''map'' (f_attributes f))) n"

text \<open>The field names an \<^verbatim>\<open>@@id\<close>, \<^verbatim>\<open>@@index\<close> or \<^verbatim>\<open>@@unique\<close> lists; \<open>None\<close> for another value.\<close>

fun field_names :: "attr_value \<Rightarrow> string list option" where
  "field_names (FieldRef c) = Some [c]"
| "field_names (FieldRefList cs) = Some cs"
| "field_names _ = None"

definition primary_key_columns :: "model \<Rightarrow> string list" where
  "primary_key_columns m =
     (let named = (case Option.bind (find_attribute ''id'' (mo_attributes m)) first_arg of
                     Some v \<Rightarrow> unwrap_or (field_names v) [] | None \<Rightarrow> [])
      in if named \<noteq> [] then map (index_column_name m) named
         else map field_column_name (List.filter f_is_id (map_values (mo_fields m))))"

definition index_of_attribute :: "model \<Rightarrow> attribute \<Rightarrow> string list \<Rightarrow> index_diff" where
  "index_of_attribute m a columns =
     (let column_names = map (index_column_name m) columns;
          custom = Option.bind (case get_arg ''map'' a of Some v \<Rightarrow> Some v | None \<Rightarrow> get_arg ''name'' a) val_as_string;
          name = (case custom of Some s \<Rightarrow> s
            | None \<Rightarrow> (if at_name a = ''unique'' then ''uq'' else ''idx'') @ ''_'' @ table_name m @ ''_''
                @ join ''_'' column_names)
      in \<lparr>ix_name = name, ix_table = table_name m, ix_columns = column_names,
           ix_unique = (at_name a = ''unique''), ix_type = None, ix_ops = None, ix_hnsw_m = None,
           ix_hnsw_ef = None, ix_lists = None\<rparr>)"

definition extract_index :: "model \<Rightarrow> attribute \<Rightarrow> index_diff option" where
  "extract_index m a =
     (if at_name a \<noteq> ''index'' \<and> at_name a \<noteq> ''unique'' then None
      else map_option (index_of_attribute m a) (Option.bind (first_arg a) field_names))"

definition extract_index_diffs :: "model \<Rightarrow> index_diff list" where
  "extract_index_diffs m = List.map_filter (extract_index m) (mo_attributes m)"

definition index_def_eq :: "index_diff \<Rightarrow> index_diff \<Rightarrow> bool" where
  "index_def_eq a b \<longleftrightarrow> ix_table a = ix_table b \<and> ix_columns a = ix_columns b \<and> ix_unique a = ix_unique b
     \<and> ix_type a = ix_type b \<and> ix_ops a = ix_ops b \<and> ix_hnsw_m a = ix_hnsw_m b
     \<and> ix_hnsw_ef a = ix_hnsw_ef b \<and> ix_lists a = ix_lists b"

subsection \<open>Foreign keys\<close>

definition extract_foreign_key :: "schema \<Rightarrow> model \<Rightarrow> field \<Rightarrow> foreign_key option" where
  "extract_foreign_key s m f =
     (if \<not> f_is_relation f then None
      else (case fa_relation (extract_attributes f) of
        None \<Rightarrow> None
      | Some rel \<Rightarrow>
          if rel_fields rel = [] \<or> rel_references rel = [] then None
          else (case f_type f of
            TyModel name \<Rightarrow>
              let referenced = map_of (sm_models s) name;
                  columns = map (index_column_name m) (rel_fields rel)
              in Some \<lparr>fk_name = unwrap_or (rel_map rel) (''fk_'' @ table_name m @ ''_'' @ join ''_'' columns),
                   fk_columns = columns,
                   fk_table = (case referenced of Some r \<Rightarrow> table_name r | None \<Rightarrow> name),
                   fk_ref_columns = map (\<lambda>r. case referenced of Some x \<Rightarrow> index_column_name x r | None \<Rightarrow> r)
                     (rel_references rel),
                   fk_on_delete = map_option action_as_str (rel_on_delete rel),
                   fk_on_update = map_option action_as_str (rel_on_update rel)\<rparr>
          | _ \<Rightarrow> None)))"

definition extract_foreign_keys :: "model \<Rightarrow> schema \<Rightarrow> foreign_key list" where
  "extract_foreign_keys m s = List.map_filter (extract_foreign_key s m) (map_values (mo_fields m))"

subsection \<open>Types and defaults\<close>

fun render_default :: "attr_value \<Rightarrow> string option" where
  "render_default (ValInt i) = Some (show_int (sint i))"
| "render_default (ValFloat t) = Some t"
| "render_default (ValBool b) = Some (if b then ''TRUE'' else ''FALSE'')"
| "render_default (ValString s) = Some ([SQUOTE] @ replace_char SQUOTE [SQUOTE, SQUOTE] s @ [SQUOTE])"
| "render_default (ValIdent n) = Some ([SQUOTE] @ n @ [SQUOTE])"
| "render_default (ValFunction n args) =
     (if n = ''now'' \<and> args = [] then Some ''CURRENT_TIMESTAMP''
      else if n = ''uuid'' \<and> args = [] then Some ''gen_random_uuid()''
      else Some (n @ ''('' @ join '', '' (concat (map (\<lambda>a. case render_default a of Some s \<Rightarrow> [s] | None \<Rightarrow> []) args))
        @ '')''))"
| "render_default (ValArray vs) = None"
| "render_default (FieldRef c) = None"
| "render_default (FieldRefList cs) = None"

definition field_default_sql :: "field \<Rightarrow> string option" where
  "field_default_sql f =
     Option.bind (Option.bind (find_attribute ''default'' (f_attributes f)) first_arg) render_default"

definition eq_ignore_case :: "string \<Rightarrow> string \<Rightarrow> bool" where
  "eq_ignore_case a b \<longleftrightarrow> lower a = lower b"

definition arg_i :: "attribute \<Rightarrow> nat \<Rightarrow> int option" where
  "arg_i a i = (if i < length (at_args a)
     then (case arg_value (at_args a ! i) of ValInt n \<Rightarrow> Some (sint n) | _ \<Rightarrow> None) else None)"

definition sized :: "string \<Rightarrow> int option \<Rightarrow> string" where
  "sized t n = (case n of Some len \<Rightarrow> t @ ''('' @ show_int len @ '')'' | None \<Rightarrow> t)"

definition native_type_to_sql :: "field \<Rightarrow> string option" where
  "native_type_to_sql f =
     (case find (\<lambda>a. prefix ''db.'' (at_name a)) (f_attributes f) of
        None \<Rightarrow> None
      | Some a \<Rightarrow>
          let n = drop 3 (at_name a) in
          if eq_ignore_case n ''Uuid'' then Some ''UUID''
          else if eq_ignore_case n ''Text'' then Some ''TEXT''
          else if eq_ignore_case n ''VarChar'' \<or> eq_ignore_case n ''VarChar2'' then Some (sized ''VARCHAR'' (arg_i a 0))
          else if eq_ignore_case n ''Char'' then Some (sized ''CHAR'' (arg_i a 0))
          else if eq_ignore_case n ''Boolean'' \<or> eq_ignore_case n ''Bool'' then Some ''BOOLEAN''
          else if eq_ignore_case n ''SmallInt'' then Some ''SMALLINT''
          else if eq_ignore_case n ''Integer'' \<or> eq_ignore_case n ''Int'' then Some ''INTEGER''
          else if eq_ignore_case n ''BigInt'' then Some ''BIGINT''
          else if eq_ignore_case n ''Real'' then Some ''REAL''
          else if eq_ignore_case n ''DoublePrecision'' then Some ''DOUBLE PRECISION''
          else if eq_ignore_case n ''Decimal'' \<or> eq_ignore_case n ''Numeric'' then
            (case (arg_i a 0, arg_i a 1) of
               (Some p, Some s) \<Rightarrow> Some (''DECIMAL('' @ show_int p @ '', '' @ show_int s @ '')'')
             | _ \<Rightarrow> Some ''DECIMAL'')
          else if eq_ignore_case n ''Json'' \<or> eq_ignore_case n ''JsonB'' then Some ''JSONB''
          else if eq_ignore_case n ''Date'' then Some ''DATE''
          else if eq_ignore_case n ''Time'' then Some ''TIME''
          else if eq_ignore_case n ''Timestamp'' then Some ''TIMESTAMP''
          else if eq_ignore_case n ''Timestamptz'' then Some ''TIMESTAMP WITH TIME ZONE''
          else if eq_ignore_case n ''Bytea'' then Some ''BYTEA''
          else None)"

fun scalar_sql :: "scalar_type \<Rightarrow> string" where
  "scalar_sql ScInt = ''INTEGER''"
| "scalar_sql ScBigInt = ''BIGINT''"
| "scalar_sql ScFloat = ''DOUBLE PRECISION''"
| "scalar_sql ScDecimal = ''DECIMAL''"
| "scalar_sql ScString = ''TEXT''"
| "scalar_sql ScBoolean = ''BOOLEAN''"
| "scalar_sql ScDateTime = ''TIMESTAMP WITH TIME ZONE''"
| "scalar_sql ScDate = ''DATE''"
| "scalar_sql ScTime = ''TIME''"
| "scalar_sql ScJson = ''JSONB''"
| "scalar_sql ScBytes = ''BYTEA''"
| "scalar_sql ScUuid = ''UUID''"
| "scalar_sql ScCuid = ''TEXT''"
| "scalar_sql ScCuid2 = ''TEXT''"
| "scalar_sql ScNanoId = ''TEXT''"
| "scalar_sql ScUlid = ''TEXT''"
| "scalar_sql (ScVector d) = with_dim ''vector'' d"
| "scalar_sql (ScHalfVector d) = with_dim ''halfvec'' d"
| "scalar_sql (ScSparseVector d) = with_dim ''sparsevec'' d"
| "scalar_sql (ScBit d) = with_dim ''bit'' d"

fun field_type_to_sql :: "field_type \<Rightarrow> string" where
  "field_type_to_sql (TyScalar s) = scalar_sql s"
| "field_type_to_sql (TyModel n) = n"
| "field_type_to_sql (TyEnum n) = ''TEXT''"
| "field_type_to_sql (TyComposite n) = n"
| "field_type_to_sql (TyUnsupported n) = n"

definition field_sql_type :: "field \<Rightarrow> string" where
  "field_sql_type f = (case native_type_to_sql f of Some t \<Rightarrow> t | None \<Rightarrow> field_type_to_sql (f_type f))"

subsection \<open>Vector columns\<close>

definition parse_vector_element :: "string \<Rightarrow> vector_element" where
  "parse_vector_element s =
     (if s = ''float2'' then ElFloat2 else if s = ''float4'' then ElFloat4
      else if s = ''float8'' then ElFloat8 else if s = ''int1'' then ElInt1
      else if s = ''int2'' then ElInt2 else if s = ''int4'' then ElInt4 else ElFloat4)"
definition parse_vector_metric :: "string \<Rightarrow> vector_metric" where
  "parse_vector_metric s =
     (if s = ''cosine'' then MetricCosine else if s = ''l2'' then MetricL2
      else if s = ''inner'' then MetricInner else MetricCosine)"
definition parse_vector_index_kind :: "string \<Rightarrow> vector_index_kind option" where
  "parse_vector_index_kind s = (if s = ''hnsw'' then Some KindHnsw else None)"

definition u32_of_i64 :: "i64 \<Rightarrow> u32 option" where
  "u32_of_i64 i = (if 0 \<le> sint i \<and> sint i < 2 ^ 32 then Some (of_int (sint i)) else None)"

definition attr_ident :: "string \<Rightarrow> field \<Rightarrow> string option" where
  "attr_ident n f = Option.bind (find_attribute n (f_attributes f)) first_ident_arg"

definition extract_vector_info :: "field \<Rightarrow> vector_column option" where
  "extract_vector_info f =
     (let info = (\<lambda>type_dim default_element.
        (let dim = (case Option.bind (Option.bind (Option.bind (find_attribute ''dim'' (f_attributes f)) first_arg)
                       val_as_int) u32_of_i64 of Some d \<Rightarrow> Some d | None \<Rightarrow> type_dim)
         in map_option (\<lambda>d. \<lparr>vc_dimensions = d,
              vc_element = (case attr_ident ''vectorType'' f of Some s \<Rightarrow> parse_vector_element s | None \<Rightarrow> default_element),
              vc_metric = (case attr_ident ''metric'' f of Some s \<Rightarrow> parse_vector_metric s | None \<Rightarrow> MetricCosine),
              vc_index = Option.bind (attr_ident ''index'' f) parse_vector_index_kind\<rparr>) dim))
      in case f_type f of
           TyScalar (ScVector d) \<Rightarrow> info d ElFloat4
         | TyScalar (ScHalfVector d) \<Rightarrow> info d ElFloat2
         | _ \<Rightarrow> None)"

subsection \<open>Fields, models\<close>

definition field_to_diff :: "field \<Rightarrow> field_diff" where
  "field_to_diff f =
     \<lparr>fd_name = f_name f, fd_column = field_column_name f, fd_type = field_sql_type f,
      fd_nullable = f_is_optional f, fd_default = field_default_sql f, fd_primary = f_is_id f,
      fd_auto = has_attribute ''auto'' (f_attributes f), fd_unique = f_is_unique f,
      fd_vector = extract_vector_info f,
      fd_enum = (case f_type f of TyEnum n \<Rightarrow> Some n | _ \<Rightarrow> None), fd_generated = f_generated f\<rparr>"

definition model_to_diff :: "model \<Rightarrow> schema \<Rightarrow> model_diff" where
  "model_to_diff m s =
     \<lparr>md_name = mo_name m, md_table = table_name m, md_fields = map field_to_diff (mo_scalar_fields m),
      md_primary_key = primary_key_columns m,
      md_indexes = List.filter (\<lambda>i. \<not> ix_unique i) (extract_index_diffs m),
      md_uniques = map (\<lambda>i. \<lparr>uq_name = Some (ix_name i), uq_columns = ix_columns i\<rparr>)
        (List.filter ix_unique (extract_index_diffs m)),
      md_foreign_keys = extract_foreign_keys m s\<rparr>"

definition changed :: "bool \<Rightarrow> 'a option \<Rightarrow> 'a option" where
  "changed b x = (if b then x else None)"

definition diff_fields :: "field \<Rightarrow> field \<Rightarrow> field_alter option" where
  "diff_fields src tgt =
     (let type_changed = field_sql_type src \<noteq> field_sql_type tgt;
          nullable_changed = f_is_optional src \<noteq> f_is_optional tgt;
          default_changed = field_default_sql src \<noteq> field_default_sql tgt
      in if \<not> type_changed \<and> \<not> nullable_changed \<and> \<not> default_changed then None
         else Some \<lparr>fl_name = f_name tgt, fl_column = field_column_name tgt,
           fl_old_type = changed type_changed (Some (field_sql_type src)),
           fl_new_type = changed type_changed (Some (field_sql_type tgt)),
           fl_old_nullable = Some (f_is_optional src),
           fl_new_nullable = changed nullable_changed (Some (f_is_optional tgt)),
           fl_old_default = changed default_changed (field_default_sql src),
           fl_new_default = changed default_changed (field_default_sql tgt)\<rparr>)"

text \<open>A \<^verbatim>\<open>BTreeMap\<close> iterates in the order of its keys.\<close>

type_synonym index_sig = "bool \<times> string list"

definition index_signature :: "index_diff \<Rightarrow> index_sig" where
  "index_signature i = (ix_unique i, ix_columns i)"
definition by_signature :: "index_diff list \<Rightarrow> (index_sig \<times> index_diff) list" where
  "by_signature is = sort_key fst (collect_by index_signature is)"

definition add_indexes :: "(index_sig \<times> index_diff) list \<Rightarrow> (index_sig \<times> index_diff) list \<Rightarrow> index_diff list" where
  "add_indexes src tgt = List.map_filter (\<lambda>(sig, t). case map_of src sig of
     None \<Rightarrow> Some t
   | Some s \<Rightarrow> if \<not> index_def_eq s t then Some t else None) tgt"

definition drop_indexes :: "(index_sig \<times> index_diff) list \<Rightarrow> (index_sig \<times> index_diff) list \<Rightarrow> string list" where
  "drop_indexes src tgt =
     List.map_filter (\<lambda>(sig, t). case map_of src sig of
         None \<Rightarrow> None
       | Some s \<Rightarrow> if \<not> index_def_eq s t then Some (ix_name s) else None) tgt
     @ List.map_filter (\<lambda>(sig, s). if map_of tgt sig = None then Some (ix_name s) else None) src"

definition scalar_columns :: "model \<Rightarrow> (string, field) hash_map" where
  "scalar_columns m = collect_by field_column_name (mo_scalar_fields m)"

definition diff_models :: "schema \<Rightarrow> schema \<Rightarrow> model \<Rightarrow> model \<Rightarrow> model_alter option" where
  "diff_models src_schema tgt_schema src tgt =
     (let sf = scalar_columns src; tf = scalar_columns tgt;
          si = by_signature (extract_index_diffs src); ti = by_signature (extract_index_diffs tgt);
          sk = extract_foreign_keys src src_schema; tk = extract_foreign_keys tgt tgt_schema;
          d = \<lparr>ma_name = mo_name tgt, ma_table = table_name tgt,
             ma_add_fields = map field_to_diff (map snd (created sf tf)),
             ma_drop_fields = dropped sf tf,
             ma_alter_fields = map snd (altered diff_fields sf tf),
             ma_add_indexes = add_indexes si ti,
             ma_drop_indexes = drop_indexes si ti,
             ma_add_foreign_keys = List.filter (\<lambda>k. fk_name k \<notin> set (map fk_name sk)) tk,
             ma_drop_foreign_keys = map fk_name (List.filter (\<lambda>k. fk_name k \<notin> set (map fk_name tk)) sk)\<rparr>
      in if ma_add_fields d = [] \<and> ma_drop_fields d = [] \<and> ma_alter_fields d = [] \<and> ma_add_indexes d = []
            \<and> ma_drop_indexes d = [] \<and> ma_add_foreign_keys d = [] \<and> ma_drop_foreign_keys d = []
         then None else Some d)"


subsection \<open>Enums\<close>

definition enum_values :: "enum_def \<Rightarrow> string list" where
  "enum_values e = map ev_name (en_variants e)"

definition diff_enums :: "enum_def \<Rightarrow> enum_def \<Rightarrow> (string list \<times> string list) option" where
  "diff_enums src tgt =
     (if enum_values src = enum_values tgt then None
      else
        let add = List.filter (\<lambda>v. v \<notin> set (enum_values src)) (enum_values tgt);
            remove = List.filter (\<lambda>v. v \<notin> set (enum_values tgt)) (enum_values src)
        in if add \<noteq> [] \<or> remove \<noteq> [] then Some (add, remove) else None)"

subsection \<open>Views\<close>

definition resolve_view_sql :: "view \<Rightarrow> schema \<Rightarrow> string option" where
  "resolve_view_sql v s =
     (case vi_sql_query v of Some sql \<Rightarrow> Some sql
      | None \<Rightarrow> map_option rq_sql (find (\<lambda>r. rq_name r = vi_view_name v \<or> rq_name r = vi_name v) (sm_raw_sql s)))"

definition view_to_diff :: "view \<Rightarrow> schema \<Rightarrow> view_diff option" where
  "view_to_diff v s =
     map_option (\<lambda>sql.
       \<lparr>vd_name = vi_name v, vd_view = vi_view_name v, vd_sql = sql, vd_materialized = vi_is_materialized v,
        vd_refresh = vi_refresh_interval v,
        vd_fields = map (\<lambda>f. \<lparr>vf_name = f_name f, vf_column = field_column_name f,
          vf_type = field_type_to_sql (f_type f), vf_nullable = f_is_optional f\<rparr>) (map_values (vi_fields v))\<rparr>)
     (resolve_view_sql v s)"

definition diff_views :: "schema option \<Rightarrow> schema \<Rightarrow> view \<Rightarrow> view \<Rightarrow> view_diff option" where
  "diff_views src_schema tgt_schema src tgt =
     (let sql_changed = Option.bind src_schema (resolve_view_sql src) \<noteq> resolve_view_sql tgt tgt_schema;
          materialized_changed = vi_is_materialized src \<noteq> vi_is_materialized tgt
      in if sql_changed \<or> materialized_changed then view_to_diff tgt tgt_schema else None)"

subsection \<open>Procedures\<close>

definition ast_procedure_to_definition :: "procedure \<Rightarrow> procedure_def" where
  "ast_procedure_to_definition p =
     \<lparr>pf_name = pr_name p, pf_schema = None, pf_is_function = pr_is_function p, pf_parameters = [],
      pf_return_type = None, pf_returns_set = False, pf_return_columns = [], pf_language = LangSql,
      pf_body = pr_body p, pf_volatility = VolVolatile, pf_security_definer = False, pf_cost = None,
      pf_rows = None, pf_parallel = ParUnsafe, pf_or_replace = True, pf_comment = None,
      pf_checksum = None, pf_version = None\<rparr>"

subsection \<open>The differ\<close>

record schema_differ =
  df_source :: "schema option"
  df_target :: schema

definition df_new :: "schema \<Rightarrow> schema_differ" where
  "df_new t = \<lparr>df_source = None, df_target = t\<rparr>"
definition df_with_source :: "schema \<Rightarrow> schema_differ \<Rightarrow> schema_differ" where
  "df_with_source s d = d\<lparr>df_source := Some s\<rparr>"

definition source_items :: "(schema \<Rightarrow> 'v index_map) \<Rightarrow> ('v \<Rightarrow> string) \<Rightarrow> schema_differ \<Rightarrow> (string, 'v) hash_map" where
  "source_items part key d = (case df_source d of Some s \<Rightarrow> collect_by key (map_values (part s)) | None \<Rightarrow> [])"
definition target_items :: "(schema \<Rightarrow> 'v index_map) \<Rightarrow> ('v \<Rightarrow> string) \<Rightarrow> schema_differ \<Rightarrow> (string, 'v) hash_map" where
  "target_items part key d = collect_by key (map_values (part (df_target d)))"

text \<open>The normalisation at the end: schema names of enums become database names.\<close>

definition resolve_enum :: "schema \<Rightarrow> string \<Rightarrow> string" where
  "resolve_enum t n = unwrap_or (map_option database_name (map_of (collect_by en_name (map_values (sm_enums t))) n)) n"
definition fix_field :: "schema \<Rightarrow> field_diff \<Rightarrow> field_diff" where
  "fix_field t f = f\<lparr>fd_enum := map_option (resolve_enum t) (fd_enum f)\<rparr>"

definition normalize_enums :: "schema \<Rightarrow> schema_diff \<Rightarrow> schema_diff" where
  "normalize_enums t r = r\<lparr>
     sd_alter_enums := map (\<lambda>e. e\<lparr>el_name := resolve_enum t (el_name e)\<rparr>) (sd_alter_enums r),
     sd_drop_enums := map (resolve_enum t) (sd_drop_enums r),
     sd_create_models := map (\<lambda>m. m\<lparr>md_fields := map (fix_field t) (md_fields m)\<rparr>) (sd_create_models r),
     sd_alter_models := map (\<lambda>m. m\<lparr>ma_add_fields := map (fix_field t) (ma_add_fields m)\<rparr>) (sd_alter_models r)\<rparr>"

definition schema_diff_raw :: "schema_differ \<Rightarrow> schema_diff" where
  "schema_diff_raw d =
     (let t = df_target d;
          sm = source_items sm_models table_name d; tm = target_items sm_models table_name d;
          se = source_items sm_enums en_name d; te = target_items sm_enums en_name d;
          sv = source_items sm_views vi_name d; tv = target_items sm_views vi_name d;
          new = map (\<lambda>(k, m). model_to_diff m t) (created sm tm);
          sp = (case df_source d of Some s \<Rightarrow> map ast_procedure_to_definition (map_values (sm_procedures s)) | None \<Rightarrow> []);
          tp = map ast_procedure_to_definition (map_values (sm_procedures t));
          procs = pd_diff sp tp
      in sd_empty\<lparr>
        sd_create_models := new,
        sd_create_indexes := concat (map md_indexes new),
        sd_drop_models := dropped sm tm,
        sd_alter_models := map snd (altered (diff_models (unwrap_or (df_source d) t) t) sm tm),
        sd_create_enums := map (\<lambda>(k, e). \<lparr>ed_name = database_name e, ed_values = enum_values e\<rparr>) (created se te),
        sd_alter_enums := sort_key el_name
          (map (\<lambda>(k, (add, remove)). \<lparr>el_name = k, el_add = add, el_remove = remove\<rparr>) (altered diff_enums se te)),
        sd_drop_enums := dropped se te,
        sd_create_views := List.map_filter (\<lambda>(k, v). view_to_diff v t) (created sv tv),
        sd_drop_views := dropped sv tv,
        sd_alter_views := map snd (altered (diff_views (df_source d) t) sv tv),
        sd_procedures := (if pd_is_empty procs then None else Some procs)\<rparr>)"

definition schema_differ_diff :: "schema_differ \<Rightarrow> schema_diff" where
  "schema_differ_diff d = normalize_enums (df_target d) (schema_diff_raw d)"

end
