(* ===== verification/Schema_Diff_Laws.thy ===== *)
theory Schema_Diff_Laws
  imports Schema_Diff Model_Ordering Procedure_Sql
begin

text \<open>
  What the schema differ guarantees.  Its three comparisons (of columns, of tables, of enums) are
  interpretations of the locale \<open>keyed_diff\<close>; the abstract specification of a table is the map from
  column names to what a migration can change of a column.
\<close>

subsection \<open>Columns\<close>

type_synonym column_spec = "string \<times> bool \<times> string option"

definition column_of_field :: "field \<Rightarrow> column_spec" where
  "column_of_field f = (field_sql_type f, f_is_optional f, field_default_sql f)"
definition column_of_diff :: "field_diff \<Rightarrow> column_spec" where
  "column_of_diff d = (fd_type d, fd_nullable d, fd_default d)"

text \<open>The meaning of an alteration; a default changed when either side of it is given.\<close>

definition alter_column_spec :: "field_alter \<Rightarrow> column_spec \<Rightarrow> column_spec" where
  "alter_column_spec a = (\<lambda>(t, n, d).
     (unwrap_or (fl_new_type a) t, unwrap_or (fl_new_nullable a) n,
      if fl_old_default a = None \<and> fl_new_default a = None then d else fl_new_default a))"

interpretation columns: keyed_diff diff_fields column_of_field column_of_field alter_column_spec
proof (unfold_locales, goal_cases)
  case (1 x y)
  then show ?case by (auto simp: diff_fields_def column_of_field_def Let_def split: if_splits)
next
  case (2 x y d)
  then show ?case
    by (auto simp: diff_fields_def column_of_field_def alter_column_spec_def Let_def changed_def
      unwrap_or_def split: if_splits)
qed

lemma column_of_field_to_diff [simp]: "column_of_diff (field_to_diff f) = column_of_field f"
  by (simp add: column_of_diff_def field_to_diff_def column_of_field_def)

lemma field_to_diff_column [simp]: "fd_column (field_to_diff f) = field_column_name f"
  by (simp add: field_to_diff_def)

text \<open>The columns of a table, and an alteration of a table as a function on them.\<close>

definition table_columns :: "model \<Rightarrow> string \<Rightarrow> column_spec option" where
  "table_columns m c = map_option column_of_field (map_of (scalar_columns m) c)"

definition alter_columns :: "model_alter option \<Rightarrow> (string \<rightharpoonup> column_spec) \<Rightarrow> (string \<rightharpoonup> column_spec)" where
  "alter_columns a cols = (case a of None \<Rightarrow> cols
     | Some d \<Rightarrow> apply_changes column_of_diff alter_column_spec (rekey fd_column (ma_add_fields d))
         (ma_drop_fields d) (rekey fl_column (ma_alter_fields d)) cols)"

lemma diff_fields_column: "diff_fields x y = Some d \<Longrightarrow> fl_column d = field_column_name y"
  by (auto simp: diff_fields_def Let_def split: if_splits)

lemma apply_changes_map:
  "apply_changes build app (rekey key (map f xs)) dr al m
     = apply_changes (\<lambda>x. build (f x)) app (rekey (\<lambda>x. key (f x)) xs) dr al m"
proof -
  have "map_of (rekey key (map f xs)) k = map_option f (map_of (rekey (\<lambda>x. key (f x)) xs) k)" for k
    by (induction xs) (auto simp: rekey_def)
  then show ?thesis by (auto simp: apply_changes_def fun_eq_iff split: option.splits)
qed

lemma apply_changes_none [simp]: "apply_changes build app [] [] [] m = m"
  by (simp add: apply_changes_def)

lemma rekey_Nil [simp]: "rekey key [] = []"
  by (simp add: rekey_def)

lemma diff_columns:
  "alter_columns (diff_models ss ts src tgt) (table_columns src) = table_columns tgt"
proof
  fix c
  let ?sf = "scalar_columns src" and ?tf = "scalar_columns tgt"
  have keys: "rekey (\<lambda>x. fd_column (field_to_diff x)) (map snd (created ?sf ?tf)) = created ?sf ?tf"
    "rekey fl_column (map snd (altered diff_fields ?sf ?tf)) = altered diff_fields ?sf ?tf"
    by (simp_all add: scalar_columns_def rekey_altered [OF diff_fields_column])
  have "apply_changes column_of_field alter_column_spec (created ?sf ?tf) (dropped ?sf ?tf)
      (altered diff_fields ?sf ?tf) (table_columns src) c = table_columns tgt c"
    using columns.changes_lead_to_target [where src = ?sf and tgt = ?tf and k = c]
    by (simp add: table_columns_def [abs_def] scalar_columns_def)
  moreover have "apply_changes column_of_diff alter_column_spec
      (rekey fd_column (map field_to_diff (map snd (created ?sf ?tf)))) (dropped ?sf ?tf)
      (rekey fl_column (map snd (altered diff_fields ?sf ?tf))) (table_columns src)
    = apply_changes column_of_field alter_column_spec (created ?sf ?tf) (dropped ?sf ?tf)
      (altered diff_fields ?sf ?tf) (table_columns src)"
    unfolding apply_changes_map keys by simp
  ultimately show "alter_columns (diff_models ss ts src tgt) (table_columns src) c = table_columns tgt c"
    by (auto simp: alter_columns_def diff_models_def Let_def)
qed

text \<open>
  Comparing two models finds every difference between their columns and nothing else: adding,
  dropping and altering the columns that \<open>diff_models\<close> lists turns the columns of the first table
  into those of the second, in type, nullability and default; when it reports no difference the
  columns agree.
\<close>

theorem diff_models_columns:
  "alter_columns (diff_models ss ts src tgt) (table_columns src) = table_columns tgt"
  by (rule diff_columns)

subsection \<open>Indexes and foreign keys\<close>

definition index_shapes :: "model \<Rightarrow> index_sig set" where
  "index_shapes m = set (map index_signature (extract_index_diffs m))"

definition foreign_key_names :: "schema \<Rightarrow> model \<Rightarrow> string set" where
  "foreign_key_names s m = set (map fk_name (extract_foreign_keys m s))"

lemma extract_index_plain:
  "i \<in> set (extract_index_diffs m) \<Longrightarrow> ix_table i = table_name m \<and> ix_type i = None \<and> ix_ops i = None
     \<and> ix_hnsw_m i = None \<and> ix_hnsw_ef i = None \<and> ix_lists i = None"
  by (auto simp: extract_index_diffs_def List.map_filter_def extract_index_def index_of_attribute_def Let_def
    split: if_splits)

lemma set_by_signature: "set (by_signature is) = set (collect_by index_signature is)"
  by (simp add: by_signature_def)

lemma keys_distinct_by_signature [simp]: "keys_distinct (by_signature is)"
proof -
  have "mset (map fst (by_signature is)) = mset (map fst (collect_by index_signature is))"
    by (simp add: by_signature_def)
  then show ?thesis
    using keys_distinct_collect [of index_signature "is"] unfolding keys_distinct_def
    by (metis mset_eq_imp_distinct_iff)
qed

lemma by_signature_keys: "map_of (by_signature is) sig = None \<longleftrightarrow> sig \<notin> set (map index_signature is)"
proof -
  have "map_of (by_signature is) sig = map_of (collect_by index_signature is) sig"
    using keys_distinct_by_signature [of "is"] keys_distinct_collect [of index_signature "is"] set_by_signature
    unfolding keys_distinct_def by (metis map_of_inject_set)
  then show ?thesis by (auto simp: map_of_collect find_None_iff)
qed

lemma by_signature_entry: "(sig, i) \<in> set (by_signature is) \<Longrightarrow> sig = index_signature i \<and> i \<in> set is"
  by (auto simp: set_by_signature dest: set_collect_by)

text \<open>Two indexes of one shape on one table are never told apart.\<close>

lemma same_shape_eq:
  assumes "table_name src = table_name tgt"
    and "map_of (by_signature (extract_index_diffs src)) sig = Some s"
    and "(sig, t) \<in> set (by_signature (extract_index_diffs tgt))"
  shows "index_def_eq s t"
proof -
  have "sig = index_signature s" "s \<in> set (extract_index_diffs src)"
    using by_signature_entry [OF map_of_SomeD [OF assms(2)]] by simp_all
  moreover have "sig = index_signature t" "t \<in> set (extract_index_diffs tgt)"
    using by_signature_entry [OF assms(3)] by simp_all
  ultimately show ?thesis
    using extract_index_plain [of s src] extract_index_plain [of t tgt] assms(1)
    by (simp add: index_def_eq_def index_signature_def)
qed

lemma map_filter_if:
  "List.map_filter (\<lambda>(k, x). if P k then Some (f x) else None) xs = map (\<lambda>p. f (snd p)) (List.filter (\<lambda>p. P (fst p)) xs)"
  by (induction xs) (auto simp: List.map_filter_simps)

lemma add_indexes_same:
  assumes "\<And>sig s t. map_of src sig = Some s \<Longrightarrow> (sig, t) \<in> set tgt \<Longrightarrow> index_def_eq s t"
  shows "add_indexes src tgt = map snd (created src tgt)"
  using assms
proof (induction tgt)
  case (Cons p tgt)
  obtain sig t where p: "p = (sig, t)" by (cases p)
  have "add_indexes src tgt = map snd (created src tgt)" using Cons.prems by (intro Cons.IH) auto
  moreover have "map_of src sig = Some s \<Longrightarrow> index_def_eq s t" for s using Cons.prems [of sig s t] p by simp
  ultimately show ?case by (auto simp: p add_indexes_def created_def List.map_filter_simps split: option.splits)
qed (simp add: add_indexes_def created_def List.map_filter_simps)

lemma drop_indexes_same:
  assumes "\<And>sig s t. map_of src sig = Some s \<Longrightarrow> (sig, t) \<in> set tgt \<Longrightarrow> index_def_eq s t"
  shows "drop_indexes src tgt = map (\<lambda>p. ix_name (snd p)) (List.filter (\<lambda>p. map_of tgt (fst p) = None) src)"
proof -
  let ?f = "\<lambda>(sig, t). case map_of src sig of None \<Rightarrow> None
       | Some s \<Rightarrow> if \<not> index_def_eq s t then Some (ix_name s) else None"
  have "List.map_filter ?f ts = []" if "set ts \<subseteq> set tgt" for ts
    using that assms by (induction ts) (auto simp: List.map_filter_simps split: option.splits)
  then show ?thesis by (simp add: drop_indexes_def map_filter_if)
qed

definition added_indexes :: "model_alter option \<Rightarrow> index_diff list" where
  "added_indexes a = (case a of None \<Rightarrow> [] | Some d \<Rightarrow> ma_add_indexes d)"
definition dropped_indexes :: "model_alter option \<Rightarrow> string list" where
  "dropped_indexes a = (case a of None \<Rightarrow> [] | Some d \<Rightarrow> ma_drop_indexes d)"
definition added_foreign_keys :: "model_alter option \<Rightarrow> foreign_key list" where
  "added_foreign_keys a = (case a of None \<Rightarrow> [] | Some d \<Rightarrow> ma_add_foreign_keys d)"
definition dropped_foreign_keys :: "model_alter option \<Rightarrow> string list" where
  "dropped_foreign_keys a = (case a of None \<Rightarrow> [] | Some d \<Rightarrow> ma_drop_foreign_keys d)"

lemma diff_models_parts:
  fixes src tgt :: model
  defines "si \<equiv> by_signature (extract_index_diffs src)" and "ti \<equiv> by_signature (extract_index_diffs tgt)"
  shows "added_indexes (diff_models ss ts src tgt) = add_indexes si ti"
    and "dropped_indexes (diff_models ss ts src tgt) = drop_indexes si ti"
    and "added_foreign_keys (diff_models ss ts src tgt) = List.filter (\<lambda>k. fk_name k \<notin> foreign_key_names ss src)
       (extract_foreign_keys tgt ts)"
    and "dropped_foreign_keys (diff_models ss ts src tgt) = map fk_name
       (List.filter (\<lambda>k. fk_name k \<notin> foreign_key_names ts tgt) (extract_foreign_keys src ss))"
  by (auto simp: diff_models_def Let_def added_indexes_def dropped_indexes_def added_foreign_keys_def
    dropped_foreign_keys_def si_def ti_def foreign_key_names_def)


lemma by_signature_shapes: "fst ` set (by_signature is) = set (map index_signature is)"
proof (intro set_eqI)
  show "sig \<in> fst ` set (by_signature is) \<longleftrightarrow> sig \<in> set (map index_signature is)" for sig
    using by_signature_keys [of "is" sig] unfolding map_of_eq_None_iff by blast
qed

lemma fst_created: "fst ` set (created src tgt) = fst ` set tgt - fst ` set src"
  by (force simp: created_def map_of_eq_None_iff)

lemma image_filter_notin: "f ` set (List.filter (\<lambda>x. f x \<notin> A) xs) = f ` set xs - A"
  by auto

lemma created_shapes:
  "index_signature ` snd ` set (created src (by_signature is)) = fst ` set (created src (by_signature is))"
proof -
  have "\<forall>p\<in>set (created src (by_signature is)). index_signature (snd p) = fst p"
    using by_signature_entry by (auto simp: created_def)
  then show ?thesis by (simp add: image_image)
qed

text \<open>A table with one index.\<close>

definition indexed_model :: "string \<Rightarrow> string list \<Rightarrow> model" where
  "indexed_model n cols = \<lparr>mo_name = n, mo_fields = [],
     mo_attributes = [\<lparr>at_name = ''index'', at_args = [arg_positional (FieldRefList cols)]\<rparr>]\<rparr>"

text \<open>
  Indexes are identified by their shape, uniqueness and columns, not by their names: the
  shapes added to a table are exactly those only the target has, and each is added from the target's
  definition; a dropped index is one of the source whose shape the target lacks, and every lost
  shape has one dropped.
\<close>

theorem diff_models_indexes:
  assumes "table_name src = table_name tgt"
  shows "index_signature ` set (added_indexes (diff_models ss ts src tgt)) = index_shapes tgt - index_shapes src \<and>
    set (added_indexes (diff_models ss ts src tgt)) \<subseteq> set (extract_index_diffs tgt) \<and>
    set (dropped_indexes (diff_models ss ts src tgt))
      \<subseteq> ix_name ` {i \<in> set (extract_index_diffs src). index_signature i \<notin> index_shapes tgt} \<and>
    index_signature ` {i \<in> set (extract_index_diffs src).
       ix_name i \<in> set (dropped_indexes (diff_models ss ts src tgt)) \<and> index_signature i \<notin> index_shapes tgt}
      = index_shapes src - index_shapes tgt"
proof -
  let ?si = "by_signature (extract_index_diffs src)" and ?ti = "by_signature (extract_index_diffs tgt)"
  have add: "added_indexes (diff_models ss ts src tgt) = map snd (created ?si ?ti)"
    using add_indexes_same same_shape_eq [OF assms] unfolding diff_models_parts by blast
  have drop: "set (dropped_indexes (diff_models ss ts src tgt))
      = (\<lambda>p. ix_name (snd p)) ` {p \<in> set ?si. fst p \<notin> index_shapes tgt}"
    using drop_indexes_same same_shape_eq [OF assms]
    unfolding diff_models_parts by (auto simp: index_shapes_def by_signature_keys)
  have "index_signature ` set (added_indexes (diff_models ss ts src tgt)) = index_shapes tgt - index_shapes src"
    unfolding add set_map created_shapes fst_created by_signature_shapes index_shapes_def by simp
  moreover have "set (added_indexes (diff_models ss ts src tgt)) \<subseteq> set (extract_index_diffs tgt)"
    unfolding add by (auto simp: created_def dest: by_signature_entry)
  moreover have "set (dropped_indexes (diff_models ss ts src tgt))
      \<subseteq> ix_name ` {i \<in> set (extract_index_diffs src). index_signature i \<notin> index_shapes tgt}"
    unfolding drop using by_signature_entry by fastforce
  moreover have "sig \<in> index_signature ` {i \<in> set (extract_index_diffs src).
       ix_name i \<in> set (dropped_indexes (diff_models ss ts src tgt)) \<and> index_signature i \<notin> index_shapes tgt}"
    if sig: "sig \<in> index_shapes src" "sig \<notin> index_shapes tgt" for sig
  proof -
    from sig(1) have "sig \<in> fst ` set ?si" unfolding by_signature_shapes index_shapes_def .
    then obtain i where "(sig, i) \<in> set ?si" by auto
    with sig(2) by_signature_entry [OF this] show ?thesis unfolding drop by force
  qed
  moreover have "index_signature i \<in> index_shapes src" if "i \<in> set (extract_index_diffs src)" for i
    using that by (simp add: index_shapes_def)
  ultimately show ?thesis by blast
qed

lemma diff_models_indexes_witness:
  "index_signature ` set (added_indexes (diff_models sm_new sm_new (indexed_model ''User'' [''name'']) (indexed_model ''User'' [''email''])))
     = {(False, [''email''])}"
proof -
  have "index_shapes (indexed_model ''User'' [c]) = {(False, [c])}" for c
    by (simp add: index_shapes_def extract_index_diffs_def extract_index_def index_of_attribute_def indexed_model_def
      index_signature_def first_arg_def arg_positional_def List.map_filter_simps index_column_name_def unwrap_or_def Let_def)
  moreover have "table_name (indexed_model ''User'' [''name'']) = table_name (indexed_model ''User'' [''email''])"
    by (simp add: table_name_def indexed_model_def attribute_string_def find_attribute_def unwrap_or_def)
  ultimately show ?thesis using diff_models_indexes [of "indexed_model ''User'' [''name'']" "indexed_model ''User'' [''email'']"]
    by auto
qed

text \<open>
  Foreign keys are identified by their constraint names alone: after the drops and additions
  the constraint names are those of the target, what is added is defined by the target, and a
  constraint whose name both sides have is neither dropped nor added, however its columns, its table
  or its actions changed.
\<close>

theorem diff_models_foreign_keys:
  "foreign_key_names ts tgt =
     (foreign_key_names ss src - set (dropped_foreign_keys (diff_models ss ts src tgt)))
     \<union> fk_name ` set (added_foreign_keys (diff_models ss ts src tgt)) \<and>
   set (added_foreign_keys (diff_models ss ts src tgt)) \<subseteq> set (extract_foreign_keys tgt ts) \<and>
   (set (dropped_foreign_keys (diff_models ss ts src tgt)) \<union> fk_name ` set (added_foreign_keys (diff_models ss ts src tgt)))
     \<inter> (foreign_key_names ss src \<inter> foreign_key_names ts tgt) = {}"
  unfolding diff_models_parts set_map image_filter_notin foreign_key_names_def by auto

lemma no_diff_iff:
  assumes "table_name src = table_name tgt"
  shows "diff_models ss ts src tgt = None \<longleftrightarrow>
    table_columns src = table_columns tgt \<and> index_shapes src = index_shapes tgt \<and>
    foreign_key_names ss src = foreign_key_names ts tgt"
proof -
  let ?sf = "scalar_columns src" and ?tf = "scalar_columns tgt"
  let ?si = "by_signature (extract_index_diffs src)" and ?ti = "by_signature (extract_index_diffs tgt)"
  have cols: "created ?sf ?tf = [] \<and> dropped ?sf ?tf = [] \<and> altered diff_fields ?sf ?tf = []
      \<longleftrightarrow> table_columns src = table_columns tgt"
  proof -
    have "diff_fields x y = None \<longleftrightarrow> column_of_field x = column_of_field y" for x y
      by (auto simp: diff_fields_def column_of_field_def Let_def)
    then have "rel_option (\<lambda>x y. diff_fields x y = None) u v
        \<longleftrightarrow> map_option column_of_field u = map_option column_of_field v" for u v
      by (cases u; cases v) auto
    then show ?thesis
      using columns.no_changes_iff [where src = ?sf and tgt = ?tf]
      by (simp add: scalar_columns_def table_columns_def [abs_def] fun_eq_iff)
  qed
  have add: "add_indexes ?si ?ti = [] \<longleftrightarrow> index_shapes tgt \<subseteq> index_shapes src"
  proof -
    have "add_indexes ?si ?ti = map snd (created ?si ?ti)" using add_indexes_same same_shape_eq [OF assms] by blast
    then have "add_indexes ?si ?ti = [] \<longleftrightarrow> fst ` set (created ?si ?ti) = {}" by simp
    then show ?thesis unfolding fst_created by_signature_shapes index_shapes_def by blast
  qed
  have drop: "drop_indexes ?si ?ti = [] \<longleftrightarrow> index_shapes src \<subseteq> index_shapes tgt"
  proof -
    have "drop_indexes ?si ?ti = map (\<lambda>p. ix_name (snd p)) (List.filter (\<lambda>p. map_of ?ti (fst p) = None) ?si)"
      using drop_indexes_same same_shape_eq [OF assms] by blast
    then have "drop_indexes ?si ?ti = [] \<longleftrightarrow> (\<forall>sig\<in>fst ` set ?si. map_of ?ti sig \<noteq> None)"
      by (simp add: filter_empty_conv)
    then show ?thesis unfolding by_signature_shapes by_signature_keys index_shapes_def by blast
  qed
  have fks: "List.filter (\<lambda>k. fk_name k \<notin> fk_name ` set (extract_foreign_keys src ss)) (extract_foreign_keys tgt ts) = []
      \<and> List.filter (\<lambda>k. fk_name k \<notin> fk_name ` set (extract_foreign_keys tgt ts)) (extract_foreign_keys src ss) = []
      \<longleftrightarrow> foreign_key_names ss src = foreign_key_names ts tgt"
    by (auto simp: foreign_key_names_def filter_empty_conv)
  show ?thesis using cols add drop fks by (auto simp: diff_models_def Let_def)
qed

text \<open>
  Two models of the same table differ for the migration exactly when their columns, the shapes
  of their indexes or the names of their foreign keys differ.
\<close>

theorem diff_models_None_iff:
  assumes "table_name src = table_name tgt"
  shows "diff_models ss ts src tgt = None \<longleftrightarrow>
    table_columns src = table_columns tgt \<and> index_shapes src = index_shapes tgt \<and>
    foreign_key_names ss src = foreign_key_names ts tgt"
  using assms by (rule no_diff_iff)

lemma diff_models_None_iff_witness:
  "diff_models sm_new sm_new (indexed_model ''User'' [''email'']) (indexed_model ''User'' [''email'']) = None"
  using diff_models_None_iff [of "indexed_model ''User'' [''email'']" "indexed_model ''User'' [''email'']"] by simp

subsection \<open>Tables\<close>

definition schema_tables :: "schema \<Rightarrow> string \<Rightarrow> (string \<rightharpoonup> column_spec) option" where
  "schema_tables s t = map_option table_columns (map_of (collect_by table_name (map_values (sm_models s))) t)"

definition source_tables :: "schema_differ \<Rightarrow> string \<Rightarrow> (string \<rightharpoonup> column_spec) option" where
  "source_tables d = (case df_source d of Some s \<Rightarrow> schema_tables s | None \<Rightarrow> Map.empty)"

definition columns_of_model_diff :: "model_diff \<Rightarrow> string \<Rightarrow> column_spec option" where
  "columns_of_model_diff md c = map_option column_of_diff (map_of (collect_by fd_column (md_fields md)) c)"

text \<open>A schema diff as a function on the tables of a database.\<close>

definition apply_schema_diff ::
  "schema_diff \<Rightarrow> (string \<rightharpoonup> (string \<rightharpoonup> column_spec)) \<Rightarrow> (string \<rightharpoonup> (string \<rightharpoonup> column_spec))" where
  "apply_schema_diff d tabs = apply_changes columns_of_model_diff (\<lambda>a. alter_columns (Some a))
     (rekey md_table (sd_create_models d)) (sd_drop_models d) (rekey ma_table (sd_alter_models d)) tabs"

interpretation models: keyed_diff "diff_models ss ts" table_columns table_columns "\<lambda>a. alter_columns (Some a)"
proof (unfold_locales, goal_cases)
  case (1 x y)
  then show ?case using diff_columns [of ss ts x y] by (simp add: alter_columns_def)
next
  case (2 x y d)
  then show ?case using diff_columns [of ss ts x y] by simp
qed

lemma map_of_collect_map:
  assumes "\<And>x. key (f x) = key' x"
  shows "map_of (collect_by key (map f xs)) k = map_option f (map_of (collect_by key' xs) k)"
proof -
  have "find (\<lambda>x. key x = k) (map f ys) = map_option f (find (\<lambda>x. key' x = k) ys)" for ys
    by (induction ys) (simp_all add: assms)
  then show ?thesis unfolding map_of_collect rev_map .
qed

lemma columns_of_model_to_diff: "columns_of_model_diff (model_to_diff m s) = table_columns m"
  by (simp add: columns_of_model_diff_def [abs_def] table_columns_def [abs_def] model_to_diff_def scalar_columns_def
    map_of_collect_map [of fd_column field_to_diff, OF field_to_diff_column] option.map_comp comp_def)

lemma fix_field_simps [simp]:
  "fd_column (fix_field t f) = fd_column f" "column_of_diff (fix_field t f) = column_of_diff f"
  by (simp_all add: fix_field_def column_of_diff_def)

lemma columns_of_fixed: "columns_of_model_diff (m\<lparr>md_fields := map (fix_field t) (md_fields m)\<rparr>) = columns_of_model_diff m"
  by (simp add: columns_of_model_diff_def [abs_def] map_of_collect_map [of fd_column "fix_field t" fd_column]
    option.map_comp comp_def)

lemma alter_fixed: "alter_columns (Some (a\<lparr>ma_add_fields := map (fix_field t) (ma_add_fields a)\<rparr>)) = alter_columns (Some a)"
  by (simp add: alter_columns_def apply_changes_map fun_eq_iff)

lemma apply_changes_map_alter:
  "apply_changes build app cr dr (rekey key (map g xs)) m
     = apply_changes build (\<lambda>x. app (g x)) cr dr (rekey (\<lambda>x. key (g x)) xs) m"
proof -
  have "map_of (rekey key (map g xs)) k = map_option g (map_of (rekey (\<lambda>x. key (g x)) xs) k)" for k
    by (induction xs) (auto simp: rekey_def)
  then show ?thesis by (auto simp: apply_changes_def fun_eq_iff split: option.splits)
qed

lemma apply_normalized: "apply_schema_diff (normalize_enums t d) = apply_schema_diff d"
  by (simp add: fun_eq_iff apply_schema_diff_def normalize_enums_def apply_changes_map apply_changes_map_alter
    columns_of_fixed alter_fixed)

lemma alter_table_name: "diff_models ss ts x y = Some d \<Longrightarrow> ma_table d = table_name y"
  by (auto simp: diff_models_def Let_def split: if_splits)

lemma model_to_diff_table [simp]: "md_table (model_to_diff m s) = table_name m"
  by (simp add: model_to_diff_def)

lemma schema_diff_raw_models:
  "sd_create_models (schema_diff_raw d) = map (\<lambda>m. model_to_diff m (df_target d))
     (map snd (created (source_items sm_models table_name d) (target_items sm_models table_name d)))"
  "sd_drop_models (schema_diff_raw d) = dropped (source_items sm_models table_name d) (target_items sm_models table_name d)"
  "sd_alter_models (schema_diff_raw d) = map snd (altered (diff_models (unwrap_or (df_source d) (df_target d)) (df_target d))
     (source_items sm_models table_name d) (target_items sm_models table_name d))"
  by (simp_all add: schema_diff_raw_def Let_def case_prod_unfold comp_def)

lemma schema_diff_columns:
  "apply_schema_diff (schema_differ_diff d) (source_tables d) = schema_tables (df_target d)"
proof
  fix t
  let ?src = "source_items sm_models table_name d" and ?tgt = "target_items sm_models table_name d"
  let ?alter = "diff_models (unwrap_or (df_source d) (df_target d)) (df_target d)"
  have src: "source_tables d = (\<lambda>t. map_option table_columns (map_of ?src t))"
    by (auto simp: source_tables_def source_items_def schema_tables_def [abs_def] split: option.splits)
  have "rekey (\<lambda>x. md_table (model_to_diff x (df_target d))) (map snd (created ?src ?tgt)) = created ?src ?tgt"
    by (simp add: target_items_def)
  moreover have "rekey ma_table (map snd (altered ?alter ?src ?tgt)) = altered ?alter ?src ?tgt"
    unfolding target_items_def by (rule rekey_altered [OF alter_table_name])
  ultimately have "apply_schema_diff (schema_differ_diff d) (source_tables d) t
      = apply_changes table_columns (\<lambda>a. alter_columns (Some a)) (created ?src ?tgt) (dropped ?src ?tgt)
          (altered ?alter ?src ?tgt) (source_tables d) t"
    unfolding schema_differ_diff_def apply_normalized apply_schema_diff_def schema_diff_raw_models
    by (subst apply_changes_map) (simp add: columns_of_model_to_diff)
  also have "\<dots> = map_option table_columns (map_of ?tgt t)"
    unfolding src by (rule models.changes_lead_to_target) (simp add: target_items_def)
  finally show "apply_schema_diff (schema_differ_diff d) (source_tables d) t = schema_tables (df_target d) t"
    by (simp add: schema_tables_def target_items_def)
qed

subsection \<open>Columns of an enum type\<close>

text \<open>
  PostgreSQL gives a column the type of its enum (\<open>pg_column_type\<close>), which \<open>field_sql_type\<close>,
  \<open>TEXT\<close> for every enum, does not tell.  A typed column has the database name of its enum
  beside what \<open>column_spec\<close> holds; an altered column takes the type that is written, so that it
  keeps its enum when no type is.
\<close>

type_synonym typed_column = "column_spec \<times> string option"

definition column_enum :: "schema \<Rightarrow> field \<Rightarrow> string option" where
  "column_enum s f = (case f_type f of TyEnum n \<Rightarrow> Some (resolve_enum s n) | _ \<Rightarrow> None)"
definition typed_of_field :: "schema \<Rightarrow> field \<Rightarrow> typed_column" where
  "typed_of_field s f = (column_of_field f, column_enum s f)"
definition typed_of_diff :: "field_diff \<Rightarrow> typed_column" where
  "typed_of_diff d = (column_of_diff d, fd_enum d)"
definition alter_typed :: "field_alter \<Rightarrow> typed_column \<Rightarrow> typed_column" where
  "alter_typed a = (\<lambda>(c, e). (alter_column_spec a c, if fl_new_type a = None then e else None))"

definition typed_columns :: "schema \<Rightarrow> model \<Rightarrow> string \<Rightarrow> typed_column option" where
  "typed_columns s m c = map_option (typed_of_field s) (map_of (scalar_columns m) c)"
definition typed_columns_of_diff :: "model_diff \<Rightarrow> string \<Rightarrow> typed_column option" where
  "typed_columns_of_diff md c = map_option typed_of_diff (map_of (collect_by fd_column (md_fields md)) c)"

definition alter_typed_columns ::
  "model_alter option \<Rightarrow> (string \<rightharpoonup> typed_column) \<Rightarrow> (string \<rightharpoonup> typed_column)" where
  "alter_typed_columns a cols = (case a of None \<Rightarrow> cols
     | Some d \<Rightarrow> apply_changes typed_of_diff alter_typed (rekey fd_column (ma_add_fields d))
         (ma_drop_fields d) (rekey fl_column (ma_alter_fields d)) cols)"

definition typed_tables :: "schema \<Rightarrow> string \<Rightarrow> (string \<rightharpoonup> typed_column) option" where
  "typed_tables s t = map_option (typed_columns s) (map_of (collect_by table_name (map_values (sm_models s))) t)"
definition typed_source :: "schema_differ \<Rightarrow> string \<Rightarrow> (string \<rightharpoonup> typed_column) option" where
  "typed_source d = (case df_source d of Some s \<Rightarrow> typed_tables s | None \<Rightarrow> Map.empty)"

definition apply_typed_diff ::
  "schema_diff \<Rightarrow> (string \<rightharpoonup> (string \<rightharpoonup> typed_column)) \<Rightarrow> (string \<rightharpoonup> (string \<rightharpoonup> typed_column))" where
  "apply_typed_diff d tabs = apply_changes typed_columns_of_diff (\<lambda>a. alter_typed_columns (Some a))
     (rekey md_table (sd_create_models d)) (sd_drop_models d) (rekey ma_table (sd_alter_models d)) tabs"

text \<open>
  The columns for which the differ finds the enum of the target: those that keep their \<open>TEXT\<close> and
  their enum, and those whose type changes to one that is no enum.
\<close>

definition enum_kept :: "schema \<Rightarrow> schema \<Rightarrow> field \<Rightarrow> field \<Rightarrow> bool" where
  "enum_kept ss ts x y \<longleftrightarrow>
     column_enum ts y = (if field_sql_type x = field_sql_type y then column_enum ss x else None)"

definition enums_kept :: "schema_differ \<Rightarrow> bool" where
  "enums_kept d \<longleftrightarrow>
     (\<forall>t m n c x y.
        map_of (source_items sm_models table_name d) t = Some m
        \<and> map_of (target_items sm_models table_name d) t = Some n
        \<and> map_of (scalar_columns m) c = Some x \<and> map_of (scalar_columns n) c = Some y
        \<longrightarrow> enum_kept (unwrap_or (df_source d) (df_target d)) (df_target d) x y)"

text \<open>What the changes of the differ come to, key by key, whatever the comparison misses.\<close>

lemma apply_changes_pointwise:
  assumes "keys_distinct tgt"
  shows "apply_changes build app (created src tgt) (dropped src tgt) (altered alter src tgt)
      (\<lambda>k. map_option obs (map_of src k)) k
    = map_option (\<lambda>y. case map_of src k of None \<Rightarrow> build y
        | Some x \<Rightarrow> (case alter x y of None \<Rightarrow> obs x | Some d \<Rightarrow> app d (obs x))) (map_of tgt k)"
  using assms
  by (auto simp: apply_changes_def map_of_created set_dropped map_of_altered split: option.splits)

definition fix_alter :: "schema \<Rightarrow> model_alter \<Rightarrow> model_alter" where
  "fix_alter t a = a\<lparr>ma_add_fields := map (fix_field t) (ma_add_fields a)\<rparr>"

lemma typed_of_created: "typed_of_diff (fix_field t (field_to_diff f)) = typed_of_field t f"
  by (simp add: typed_of_diff_def typed_of_field_def column_enum_def fix_field_def field_to_diff_def
      column_of_diff_def column_of_field_def split: field_type.split)

lemma alter_typed_field:
  "(case diff_fields x y of None \<Rightarrow> typed_of_field ss x | Some d \<Rightarrow> alter_typed d (typed_of_field ss x))
   = (column_of_field y, if field_sql_type x = field_sql_type y then column_enum ss x else None)"
proof (cases "diff_fields x y")
  case None
  with columns.alter_None [OF None] show ?thesis
    by (simp add: typed_of_field_def column_of_field_def)
next
  case (Some d)
  moreover have "fl_new_type d = None \<longleftrightarrow> field_sql_type x = field_sql_type y"
    using Some by (auto simp: diff_fields_def Let_def changed_def split: if_splits)
  ultimately show ?thesis
    using columns.alter_Some [OF Some] by (simp add: alter_typed_def typed_of_field_def)
qed

definition migrated_columns :: "schema \<Rightarrow> schema \<Rightarrow> model \<Rightarrow> model \<Rightarrow> string \<Rightarrow> typed_column option" where
  "migrated_columns ss ts m n c =
     map_option (\<lambda>y. case map_of (scalar_columns m) c of None \<Rightarrow> typed_of_field ts y
       | Some x \<Rightarrow> (column_of_field y, if field_sql_type x = field_sql_type y then column_enum ss x else None))
       (map_of (scalar_columns n) c)"

lemma typed_diff_columns:
  "alter_typed_columns (map_option (fix_alter ts) (diff_models ss ts src tgt)) (typed_columns ss src)
     = migrated_columns ss ts src tgt"
proof
  fix c
  let ?sf = "scalar_columns src" and ?tf = "scalar_columns tgt"
  have keys: "rekey (\<lambda>x. fd_column (fix_field ts (field_to_diff x))) (map snd (created ?sf ?tf)) = created ?sf ?tf"
    "rekey fl_column (map snd (altered diff_fields ?sf ?tf)) = altered diff_fields ?sf ?tf"
    by (simp_all add: scalar_columns_def rekey_altered [OF diff_fields_column])
  have "alter_typed_columns (map_option (fix_alter ts) (diff_models ss ts src tgt)) (typed_columns ss src) c
    = apply_changes typed_of_diff alter_typed (rekey fd_column (map (\<lambda>x. fix_field ts (field_to_diff x)) (map snd (created ?sf ?tf))))
       (dropped ?sf ?tf) (rekey fl_column (map snd (altered diff_fields ?sf ?tf))) (typed_columns ss src) c"
    by (auto simp: alter_typed_columns_def diff_models_def fix_alter_def Let_def comp_def)
  also have "\<dots> = migrated_columns ss ts src tgt c"
    unfolding apply_changes_map keys typed_columns_def [abs_def] typed_of_created
    using apply_changes_pointwise [of ?tf "typed_of_field ts" alter_typed ?sf diff_fields "typed_of_field ss" c]
    by (simp add: scalar_columns_def migrated_columns_def alter_typed_field cong: option.case_cong)
  finally show "alter_typed_columns (map_option (fix_alter ts) (diff_models ss ts src tgt)) (typed_columns ss src) c
      = migrated_columns ss ts src tgt c" .
qed

lemma typed_columns_of_created:
  "typed_columns_of_diff (md\<lparr>md_fields := map (fix_field t) (md_fields md)\<rparr>) = typed_columns t m"
  if "md = model_to_diff m t"
proof
  fix c
  have "map_of (collect_by fd_column (map (\<lambda>f. fix_field t (field_to_diff f)) fs)) c
      = map_option (\<lambda>f. fix_field t (field_to_diff f)) (map_of (collect_by field_column_name fs) c)" for fs
    by (rule map_of_collect_map) simp
  then show "typed_columns_of_diff (md\<lparr>md_fields := map (fix_field t) (md_fields md)\<rparr>) c = typed_columns t m c"
    using that typed_of_created
    by (simp add: typed_columns_of_diff_def typed_columns_def model_to_diff_def scalar_columns_def
        option.map_comp comp_def)
qed

lemma migrated_tables:
  "apply_typed_diff (schema_differ_diff d) (typed_source d) t
   = map_option (\<lambda>n. case map_of (source_items sm_models table_name d) t of
         None \<Rightarrow> typed_columns (df_target d) n
       | Some m \<Rightarrow> migrated_columns (unwrap_or (df_source d) (df_target d)) (df_target d) m n)
     (map_of (target_items sm_models table_name d) t)"
proof -
  let ?src = "source_items sm_models table_name d" and ?tgt = "target_items sm_models table_name d"
  let ?s = "unwrap_or (df_source d) (df_target d)" and ?t = "df_target d"
  let ?alter = "diff_models ?s ?t"
  let ?new = "\<lambda>m. (model_to_diff m ?t)\<lparr>md_fields := map (fix_field ?t) (md_fields (model_to_diff m ?t))\<rparr>"
  have src: "typed_source d = (\<lambda>t. map_option (typed_columns ?s) (map_of ?src t))"
    by (auto simp: typed_source_def source_items_def typed_tables_def [abs_def] unwrap_or_def split: option.splits)
  have cr: "sd_create_models (schema_differ_diff d) = map ?new (map snd (created ?src ?tgt))"
    and al: "sd_alter_models (schema_differ_diff d) = map (fix_alter ?t) (map snd (altered ?alter ?src ?tgt))"
    and dr: "sd_drop_models (schema_differ_diff d) = dropped ?src ?tgt"
    by (simp_all add: schema_differ_diff_def normalize_enums_def schema_diff_raw_models fix_alter_def [abs_def])
  have keys: "rekey (\<lambda>x. md_table (?new x)) (map snd (created ?src ?tgt)) = created ?src ?tgt"
    "rekey (\<lambda>x. ma_table (fix_alter ?t x)) (map snd (altered ?alter ?src ?tgt)) = altered ?alter ?src ?tgt"
    unfolding target_items_def
    by (simp, rule rekey_altered) (auto simp: fix_alter_def dest: alter_table_name)
  have "apply_typed_diff (schema_differ_diff d) (typed_source d) t
    = apply_changes (typed_columns ?t) (\<lambda>a. alter_typed_columns (Some (fix_alter ?t a)))
        (created ?src ?tgt) (dropped ?src ?tgt) (altered ?alter ?src ?tgt)
        (\<lambda>t. map_option (typed_columns ?s) (map_of ?src t)) t"
    unfolding apply_typed_diff_def cr al dr src apply_changes_map apply_changes_map_alter keys
      typed_columns_of_created [OF refl] by (rule refl)
  also have "\<dots> = map_option (\<lambda>n. case map_of ?src t of None \<Rightarrow> typed_columns ?t n
        | Some m \<Rightarrow> (case ?alter m n of None \<Rightarrow> typed_columns ?s m
           | Some a \<Rightarrow> alter_typed_columns (Some (fix_alter ?t a)) (typed_columns ?s m))) (map_of ?tgt t)"
    by (rule apply_changes_pointwise) (simp add: target_items_def)
  also have "\<dots> = map_option (\<lambda>n. case map_of ?src t of None \<Rightarrow> typed_columns ?t n
        | Some m \<Rightarrow> migrated_columns ?s ?t m n) (map_of ?tgt t)"
  proof -
    have "(case ?alter m n of None \<Rightarrow> typed_columns ?s m
        | Some a \<Rightarrow> alter_typed_columns (Some (fix_alter ?t a)) (typed_columns ?s m)) = migrated_columns ?s ?t m n" for m n
      using typed_diff_columns [of ?t ?s m n] by (auto simp: alter_typed_columns_def split: option.splits)
    then show ?thesis by (simp cong: option.case_cong)
  qed
  finally show ?thesis .
qed

lemma migrated_columns_iff:
  "migrated_columns ss ts m n = typed_columns ts n
   \<longleftrightarrow> (\<forall>c x y. map_of (scalar_columns m) c = Some x \<and> map_of (scalar_columns n) c = Some y \<longrightarrow> enum_kept ss ts x y)"
proof -
  have "migrated_columns ss ts m n c = typed_columns ts n c
    \<longleftrightarrow> (\<forall>x y. map_of (scalar_columns m) c = Some x \<and> map_of (scalar_columns n) c = Some y \<longrightarrow> enum_kept ss ts x y)" for c
    by (cases "map_of (scalar_columns n) c"; cases "map_of (scalar_columns m) c")
       (auto simp: migrated_columns_def typed_columns_def typed_of_field_def enum_kept_def)
  then show ?thesis unfolding fun_eq_iff by blast
qed

text \<open>
  C2: The schema differ is correct for tables: creating, dropping and altering the tables that the
  diff lists turns the tables of the source schema (none, when there is no source) into those of the
  target schema, with the SQL type, nullability and default of every column, where \<open>TEXT\<close> is the SQL
  type of every enum.  The enum types that PostgreSQL gives columns become those of the target
  exactly when no column of both schemas changes its enum or becomes one of an enum type: such a change
  is not found.
\<close>

theorem schema_diff_tables:
  "apply_schema_diff (schema_differ_diff d) (source_tables d) = schema_tables (df_target d)
 \<and> (apply_typed_diff (schema_differ_diff d) (typed_source d) = typed_tables (df_target d) \<longleftrightarrow> enums_kept d)"
proof
  show "apply_schema_diff (schema_differ_diff d) (source_tables d) = schema_tables (df_target d)"
    by (rule schema_diff_columns)
  let ?s = "unwrap_or (df_source d) (df_target d)" and ?t = "df_target d"
  have "apply_typed_diff (schema_differ_diff d) (typed_source d) t = typed_tables ?t t
    \<longleftrightarrow> (\<forall>m n. map_of (source_items sm_models table_name d) t = Some m
          \<and> map_of (target_items sm_models table_name d) t = Some n
          \<longrightarrow> migrated_columns ?s ?t m n = typed_columns ?t n)" for t
    unfolding migrated_tables
    by (cases "map_of (target_items sm_models table_name d) t"; cases "map_of (source_items sm_models table_name d) t")
       (simp_all add: typed_tables_def target_items_def [symmetric])
  then show "apply_typed_diff (schema_differ_diff d) (typed_source d) = typed_tables ?t \<longleftrightarrow> enums_kept d"
    unfolding fun_eq_iff [of "apply_typed_diff _ _"] migrated_columns_iff enums_kept_def by blast
qed

text \<open>A text column that becomes one of an enum: nothing is found.\<close>

definition role_model :: "field_type \<Rightarrow> model" where
  "role_model ty = \<lparr>mo_name = ''User'',
     mo_fields = [(''role'', \<lparr>f_name = ''role'', f_type = ty, f_modifier = Required, f_attributes = []\<rparr>)], mo_attributes = []\<rparr>"

lemma enum_change_lost:
  "diff_models ss ts (role_model (TyScalar ScString)) (role_model (TyEnum ''Role'')) = None
   \<and> column_enum ts (snd (hd (mo_fields (role_model (TyEnum ''Role''))))) = Some (resolve_enum ts ''Role'')"
proof -
  let ?x = "role_model (TyScalar ScString)" and ?y = "role_model (TyEnum ''Role'')"
  have "scalar_columns ?x = [(''role'', snd (hd (mo_fields ?x)))]" "scalar_columns ?y = [(''role'', snd (hd (mo_fields ?y)))]"
    by code_simp+
  moreover have "column_of_field (snd (hd (mo_fields ?x))) = column_of_field (snd (hd (mo_fields ?y)))"
    by code_simp
  ultimately have "table_columns ?x = table_columns ?y"
    by (simp add: table_columns_def [abs_def] fun_eq_iff)
  moreover have "index_shapes ?x = index_shapes ?y" "table_name ?x = table_name ?y"
    by (simp_all add: index_shapes_def extract_index_diffs_def role_model_def table_name_def)
  moreover have "extract_foreign_keys ?x ss = []" "extract_foreign_keys ?y ts = []"
    by (simp_all add: extract_foreign_keys_def extract_foreign_key_def role_model_def map_values_def
      f_is_relation_def has_attribute_def find_attribute_def List.map_filter_simps)
  ultimately show ?thesis
    by (simp add: no_diff_iff foreign_key_names_def) (simp add: role_model_def column_enum_def)
qed

lemma created_keys_distinct: "keys_distinct tgt \<Longrightarrow> keys_distinct (created src tgt)"
  by (simp add: created_def)

lemma created_models_distinct: "distinct (tables (sd_create_models (schema_differ_diff d)))"
proof -
  let ?src = "source_items sm_models table_name d" and ?tgt = "target_items sm_models table_name d"
  have tab: "md_table (m\<lparr>md_fields := fs\<rparr>) = md_table m" for m :: model_diff and fs by simp
  have "map md_table (sd_create_models (schema_differ_diff d)) = map table_name (map snd (created ?src ?tgt))"
    by (simp add: schema_differ_diff_def normalize_enums_def schema_diff_raw_models)
  also have "\<dots> = map fst (rekey table_name (map snd (created ?src ?tgt)))" by (simp add: rekey_def)
  also have "\<dots> = map fst (created ?src ?tgt)" by (simp add: target_items_def)
  finally show ?thesis
    using created_keys_distinct [of ?tgt ?src, unfolded target_items_def, OF keys_distinct_collect]
    by (simp add: tables_def keys_distinct_def target_items_def)
qed

text \<open>
  The tables a diff creates have pairwise different names, so the creation order contains each
  of them exactly once.
\<close>

theorem created_tables_ordered:
  "distinct (tables (ordered_create_models (sd_create_models (schema_differ_diff d)))) \<and>
   mset (ordered_create_models (sd_create_models (schema_differ_diff d))) = mset (sd_create_models (schema_differ_diff d))"
proof -
  let ?ms = "sd_create_models (schema_differ_diff d)"
  obtain pre rest where "ordered_create_models ?ms = pre @ rest" "mset (pre @ rest) = mset ?ms"
    using ordered_split [OF created_models_distinct [of d]] by blast
  then have m: "mset (ordered_create_models ?ms) = mset ?ms" by simp
  then have "mset (tables (ordered_create_models ?ms)) = mset (tables ?ms)" by (simp add: tables_def)
  with m created_models_distinct [of d] show ?thesis by (metis mset_eq_imp_distinct_iff)
qed

subsection \<open>Enums\<close>

definition apply_enum_change :: "string list \<times> string list \<Rightarrow> string set \<Rightarrow> string set" where
  "apply_enum_change c s = (s - set (snd c)) \<union> set (fst c)"

interpretation enums: keyed_diff diff_enums "\<lambda>e. set (enum_values e)" "\<lambda>e. set (enum_values e)" apply_enum_change
proof (unfold_locales, goal_cases)
  case (1 x y)
  then show ?case by (auto simp: diff_enums_def Let_def filter_empty_conv split: if_splits)
next
  case (2 x y d)
  then show ?case by (auto simp: diff_enums_def apply_enum_change_def Let_def split: if_splits)
qed

lemma diff_enums_None_iff: "diff_enums x y = None \<longleftrightarrow> set (enum_values x) = set (enum_values y)"
proof -
  have "diff_enums x y \<noteq> None" if "set (enum_values x) \<noteq> set (enum_values y)"
    using that enums.alter_None by blast
  moreover have "diff_enums x y = None" if "set (enum_values x) = set (enum_values y)"
    using that by (auto simp: diff_enums_def Let_def filter_empty_conv)
  ultimately show ?thesis by blast
qed

lemma resolve_enum_target:
  "(k, e) \<in> set (target_items sm_enums en_name d) \<Longrightarrow> resolve_enum (df_target d) k = database_name e"
  using keys_distinct_collect [of en_name "map_values (sm_enums (df_target d))"]
  by (simp add: resolve_enum_def target_items_def unwrap_or_def keys_distinct_def)

lemma set_altered:
  "(k, x) \<in> set (altered f src tgt) \<longleftrightarrow> (\<exists>y a. (k, y) \<in> set tgt \<and> map_of src k = Some a \<and> f a y = Some x)"
  by (force simp: altered_def List.map_filter_def split: option.splits)

definition enum_value_set :: "enum_def \<Rightarrow> string set" where
  "enum_value_set e = set (enum_values e)"

lemma diff_enums_sets:
  "(\<exists>add remove. diff_enums x y = Some (add, remove) \<and> A = set add \<and> R = set remove) \<longleftrightarrow>
     enum_value_set x \<noteq> enum_value_set y \<and> A = enum_value_set y - enum_value_set x \<and> R = enum_value_set x - enum_value_set y"
  using diff_enums_None_iff [of x y]
  by (auto simp: diff_enums_def Let_def enum_value_set_def filter_empty_conv split: if_splits)

text \<open>
  Enums: the diff has one alteration, under the database name, for every enum of both schemas
  whose set of values changed, with exactly the values to add and to remove; a reordering of the
  values is no change.
\<close>

theorem enum_alterations:
  "(\<lambda>a. (el_name a, set (el_add a), set (el_remove a))) ` set (sd_alter_enums (schema_differ_diff d)) =
     {(database_name y, enum_value_set y - enum_value_set x, enum_value_set x - enum_value_set y) | k x y.
        map_of (source_items sm_enums en_name d) k = Some x \<and> map_of (target_items sm_enums en_name d) k = Some y \<and>
        enum_value_set x \<noteq> enum_value_set y}" (is "?L = ?R")
proof -
  let ?src = "source_items sm_enums en_name d" and ?tgt = "target_items sm_enums en_name d"
  have tgt: "map_of ?tgt k = Some y \<longleftrightarrow> (k, y) \<in> set ?tgt" for k y
    using keys_distinct_collect [of en_name "map_values (sm_enums (df_target d))"]
    by (simp add: target_items_def keys_distinct_def)
  have L: "?L = (\<lambda>(k, (add, remove)). (resolve_enum (df_target d) k, set add, set remove)) ` set (altered diff_enums ?src ?tgt)"
    by (simp add: schema_differ_diff_def normalize_enums_def schema_diff_raw_def Let_def image_image case_prod_unfold)
  have "t \<in> ?L \<longleftrightarrow> t \<in> ?R" for t
  proof -
    obtain n A R where t: "t = (n, A, R)" by (cases t)
    have "t \<in> ?L \<longleftrightarrow> (\<exists>k add remove. (k, (add, remove)) \<in> set (altered diff_enums ?src ?tgt) \<and>
        n = resolve_enum (df_target d) k \<and> A = set add \<and> R = set remove)"
      unfolding L t by force
    also have "\<dots> \<longleftrightarrow> (\<exists>k x y. map_of ?src k = Some x \<and> (k, y) \<in> set ?tgt \<and> n = resolve_enum (df_target d) k \<and>
        (\<exists>add remove. diff_enums x y = Some (add, remove) \<and> A = set add \<and> R = set remove))"
      unfolding set_altered by blast
    also have "\<dots> \<longleftrightarrow> t \<in> ?R"
      unfolding diff_enums_sets tgt t using resolve_enum_target [of _ _ d] by (auto simp: tgt [symmetric]) metis+
    finally show ?thesis .
  qed
  then show ?thesis by (rule set_eqI)
qed

text \<open>
  Dropped enums keep their schema names: the normalisation looks the database name up among
  the enums of the target, which a dropped enum does not belong to, so the \<^verbatim>\<open>@@map\<close> of a dropped enum
  is never used and its database type is not the one that is dropped.
\<close>

theorem dropped_enums_schema_names:
  "sd_drop_enums (schema_differ_diff d)
     = dropped (source_items sm_enums en_name d) (target_items sm_enums en_name d)"
proof -
  have "resolve_enum (df_target d) n = n"
    if "n \<in> set (dropped (source_items sm_enums en_name d) (target_items sm_enums en_name d))" for n
    using that by (simp add: set_dropped resolve_enum_def target_items_def unwrap_or_def)
  then show ?thesis
    by (simp add: schema_differ_diff_def normalize_enums_def schema_diff_raw_def Let_def map_idI)
qed

subsection \<open>Comparing a schema with itself\<close>

lemma same_items: "df_source d = Some (df_target d) \<Longrightarrow> source_items part key d = target_items part key d"
  by (simp add: source_items_def target_items_def)

lemma created_self [simp]: "created m m = []"
  by (auto simp: created_def filter_empty_conv map_of_eq_None_iff image_iff)

lemma dropped_self [simp]: "dropped m m = []"
  by (auto simp: dropped_def filter_empty_conv map_of_eq_None_iff)

lemma altered_self:
  assumes "\<And>x. f x x = None" and "keys_distinct m"
  shows "altered f m m = []"
proof -
  have "map_of m k = Some y" if "(k, y) \<in> set m" for k y
    using assms(2) that by (simp add: keys_distinct_def)
  then have "(k, d) \<notin> set (altered f m m)" for k d
    using assms(1) by (metis option.inject option.simps(3) set_altered)
  then show ?thesis by (metis list.set_intros(1) neq_Nil_conv surj_pair)
qed

lemma diff_views_self: "diff_views (Some s) s v v = None"
  by (simp add: diff_views_def Let_def)

text \<open>
  A database that already matches its schema needs no migration: the diff of a schema with
  itself is empty, whatever the schema contains.
\<close>

theorem schema_diff_self: "sd_is_empty (schema_differ_diff (df_with_source s (df_new s)))"
proof -
  let ?d = "df_with_source s (df_new s)"
  have d: "df_source ?d = Some s" "df_target ?d = s" by (simp_all add: df_with_source_def df_new_def)
  have same: "source_items part key ?d = target_items part key ?d" for part and key :: "'v \<Rightarrow> string"
    by (rule same_items) (simp add: d)
  have m: "altered (diff_models s s) (target_items sm_models table_name ?d) (target_items sm_models table_name ?d) = []"
    by (rule altered_self) (simp_all add: no_diff_iff target_items_def)
  have e: "altered diff_enums (target_items sm_enums en_name ?d) (target_items sm_enums en_name ?d) = []"
    by (rule altered_self) (simp_all add: diff_enums_None_iff target_items_def)
  have v: "altered (diff_views (Some s) s) (target_items sm_views vi_name ?d) (target_items sm_views vi_name ?d) = []"
    by (rule altered_self) (simp_all add: diff_views_self target_items_def)
  have p: "pd_is_empty (pd_diff ps ps)" for ps using procedure_diff_self .
  show ?thesis
    by (simp add: schema_differ_diff_def normalize_enums_def schema_diff_raw_def Let_def d same m e v p
      unwrap_or_def sd_is_empty_def sd_empty_def List.map_filter_simps)
qed

end
