(* ===== verification/Ddl_Rollback.thy ===== *)
theory Ddl_Rollback
  imports Ddl_Catalogue Ddl_Postgres Ddl_Mysql Ddl_Sqlite Ddl_Mssql Ddl_Duckdb Schema_Diff_Laws
begin

text \<open>
  The dispatch over the five generators (\<^verbatim>\<open>SqlDialect::generate_with\<close> in
  \<^verbatim>\<open>prax-migrate/src/dialect.rs\<close>), and what the up and down scripts do to a catalogue of objects.
\<close>

datatype sql_backend = BackPostgres | BackMySql | BackSqlite | BackMssql | BackDuckDb

fun generate_with :: "sql_backend \<Rightarrow> schema_diff \<Rightarrow> migration_sql" where
  "generate_with BackPostgres d = pg_generate d"
| "generate_with BackMySql d = my_generate d"
| "generate_with BackSqlite d = lite_generate d"
| "generate_with BackMssql d = mssql_generate d"
| "generate_with BackDuckDb d = duck_generate d"

subsection \<open>Tables\<close>

lemma ordered_creates_props:
  assumes "batch_ok types (sd_create_models d) c"
  shows "mset (ordered_creates d) = mset (sd_create_models d)" "topological (sd_create_models d) (ordered_creates d)"
  using assms ordered_topological [of "sd_create_models d"] unfolding ordered_creates_def batch_ok_def by blast+

lemma tables_made:
  assumes "batch_ok types (sd_create_models d) c"
  shows "run (map (make_table types) (ordered_creates d)) c
    = Some (rev (map (table_entry types) (ordered_creates d)) @ c)"
  using make_tables [where pre = "[]" and post = "ordered_creates d", OF assms] ordered_creates_props [OF assms] by simp

lemma sublist_skip: "sublist xs ys \<Longrightarrow> sublist xs (ps @ ys)"
  by (simp add: sublist_append)

lemma pg_creates_in_up: "sublist (map pg_create_table (ordered_creates d)) (pg_up d)"
  unfolding pg_up_def by (rule sublist_append_rightI | rule sublist_skip)+

lemma pg_drops_in_down: "sublist (map (\<lambda>m. pg_drop_table (md_table m)) (rev (ordered_creates d))) (pg_down d)"
  unfolding pg_down_def by (rule sublist_append_rightI | rule sublist_skip)+

definition only_creates_tables :: "schema_diff \<Rightarrow> bool" where
  "only_creates_tables d \<longleftrightarrow> d = sd_empty\<lparr>sd_create_models := sd_create_models d\<rparr>"

lemma table_scripts:
  assumes "only_creates_tables d"
  shows "my_up d = map my_create_table (ordered_creates d)"
    "my_down d = map (\<lambda>m. my_drop_table (md_table m)) (rev (ordered_creates d))"
    "mssql_up d = map ms_create_table (ordered_creates d)"
    "mssql_down d = map (\<lambda>m. ms_drop_table (md_table m)) (rev (ordered_creates d))"
    "pg_up d = map pg_create_table (ordered_creates d)"
    "pg_down d = map (\<lambda>m. pg_drop_table (md_table m)) (rev (ordered_creates d))"
    "lite_up d = concat (map lite_create_model (ordered_creates d))"
    "lite_down d = concat (map lite_drop_model (rev (ordered_creates d)))"
  by (subst (1) assms [unfolded only_creates_tables_def],
      simp add: my_up_def my_down_def mssql_up_def mssql_down_def pg_up_def pg_down_def lite_up_def lite_down_def
        sd_empty_def ordered_creates_def procedures_up_def procedures_down_def)+

text \<open>
  C7: Let a migration create tables whose references have no cycle (but for references of a table to
  itself) and lead to tables of the migration or of the catalogue, under names the catalogue does not
  have (\<open>batch_ok\<close>).  Then they come in an order in which every table is created after all it
  depends on, and removing them in the reverse order gives back the catalogue there was before; this
  is the order of the creations in the up scripts and of the drops in the down scripts of MySQL, SQL
  Server, PostgreSQL and, companion tables of vector columns apart, SQLite.  Of a migration that only
  creates tables these are the whole scripts; the other statements of a down script are not
  considered here (the drops of indexes and of enum types can fail, as shown below).
\<close>

theorem rollback_restores_tables:
  assumes ok: "batch_ok types (sd_create_models d) c"
  shows "(\<exists>c'. run (map (make_table types) (ordered_creates d)) c = Some c' \<and>
      run (map drop_table (rev (ordered_creates d))) c' = Some c) \<and>
    prefix (map my_create_table (ordered_creates d)) (my_up d) \<and>
    prefix (map (\<lambda>m. my_drop_table (md_table m)) (rev (ordered_creates d))) (my_down d) \<and>
    prefix (map ms_create_table (ordered_creates d)) (mssql_up d) \<and>
    prefix (map (\<lambda>m. ms_drop_table (md_table m)) (rev (ordered_creates d))) (mssql_down d) \<and>
    sublist (map pg_create_table (ordered_creates d)) (pg_up d) \<and>
    sublist (map (\<lambda>m. pg_drop_table (md_table m)) (rev (ordered_creates d))) (pg_down d) \<and>
    prefix (concat (map lite_create_model (ordered_creates d))) (lite_up d) \<and>
    prefix (concat (map lite_drop_model (rev (ordered_creates d)))) (lite_down d) \<and>
    (only_creates_tables d \<longrightarrow>
       my_up d = map my_create_table (ordered_creates d) \<and>
       my_down d = map (\<lambda>m. my_drop_table (md_table m)) (rev (ordered_creates d)) \<and>
       mssql_up d = map ms_create_table (ordered_creates d) \<and>
       mssql_down d = map (\<lambda>m. ms_drop_table (md_table m)) (rev (ordered_creates d)) \<and>
       pg_up d = map pg_create_table (ordered_creates d) \<and>
       pg_down d = map (\<lambda>m. pg_drop_table (md_table m)) (rev (ordered_creates d)) \<and>
       lite_up d = concat (map lite_create_model (ordered_creates d)) \<and>
       lite_down d = concat (map lite_drop_model (rev (ordered_creates d))))"
proof -
  note props = ordered_creates_props [OF ok]
  have sets: "set (ordered_creates d) = set (sd_create_models d)" using props(1) by (rule mset_eq_setD)
  have "mset (tables (ordered_creates d)) = mset (tables (sd_create_models d))"
    using props(1) by (simp add: tables_def)
  then have "distinct (tables (ordered_creates d))" "set (tables (ordered_creates d)) = set (tables (sd_create_models d))"
    using ok by (auto simp: batch_ok_def dest: mset_eq_setD mset_eq_imp_distinct_iff)
  moreover have "Table (md_table m) \<notin> fst ` set c" if "m \<in> set (ordered_creates d)" for m
    using ok that sets by (simp add: batch_ok_def list_all_iff)
  ultimately have "run (map drop_table (rev (ordered_creates d)))
      (rev (map (table_entry types) (ordered_creates d)) @ c) = Some c"
    using ok props(2) by (intro drop_tables [where ms = "sd_create_models d"]) (simp_all add: batch_ok_def)
  then have restored: "\<exists>c'. run (map (make_table types) (ordered_creates d)) c = Some c' \<and>
      run (map drop_table (rev (ordered_creates d))) c' = Some c"
    using tables_made [OF ok] by simp
  show ?thesis
    by (intro conjI impI restored pg_creates_in_up pg_drops_in_down table_scripts)
      (simp_all add: my_up_def my_down_def mssql_up_def mssql_down_def lite_up_def lite_down_def)
qed

definition blog_diff :: schema_diff where
  "blog_diff = sd_empty\<lparr>sd_create_models := blog_tables\<rparr>"

lemma blog_diff_ok: "batch_ok False (sd_create_models blog_diff) []"
  using blog_tables_ok by (auto simp: batch_ok_def blog_diff_def closed_def table_deps_def list_all_iff)
    (auto simp: blog_tables_def fk_only_model_def tables_def)

lemma rollback_restores_tables_witness:
  "\<exists>c'. run (map (make_table False) (ordered_creates blog_diff)) [] = Some c' \<and>
     run (map drop_table (rev (ordered_creates blog_diff))) c' = Some []
   \<and> my_down blog_diff = map (\<lambda>m. my_drop_table (md_table m)) (rev (ordered_creates blog_diff))"
proof -
  have "only_creates_tables blog_diff" by (simp add: only_creates_tables_def blog_diff_def sd_empty_def)
  then show ?thesis using rollback_restores_tables [OF blog_diff_ok] by blast
qed

text \<open>
  DuckDB: the collected statements are reversed once more, so the down script drops the tables in
  the order of their creation; as soon as one new table references another, the referenced one is to
  be dropped while the reference still exists, and the rollback fails.
\<close>

theorem duckdb_rollback_fails:
  assumes ok: "batch_ok False (sd_create_models d) c"
    and m: "m \<in> set (sd_create_models d)" "refs (sd_create_models d) m \<noteq> {}"
  shows "sublist (map (\<lambda>m. duck_drop_table (md_table m)) (ordered_creates d)) (duck_down d) \<and>
    (\<exists>c'. run (map (make_table False) (ordered_creates d)) c = Some c' \<and>
       run (map drop_table (ordered_creates d)) c' = None)"
proof -
  let ?ms = "sd_create_models d" and ?xs = "ordered_creates d"
  note props = ordered_creates_props [OF ok]
  have sub: "sublist (map (\<lambda>m. duck_drop_table (md_table m)) ?xs) (duck_down d)"
    unfolding duck_down_def duck_down_collected_def rev_append rev_map [symmetric] rev_rev_ident
    by (simp add: rev_map) (rule sublist_append_rightI | rule sublist_skip)+
  obtain i where i: "i < length ?xs" "?xs ! i = m"
    using m(1) props(1) by (metis in_set_conv_nth mset_eq_setD)
  obtain r where r: "r \<in> refs ?ms m" using m(2) by blast
  then have "r \<in> set (tables (take i ?xs))" using props(2) i unfolding topological_def by blast
  then obtain k where k: "k < i" "md_table (?xs ! k) = r"
    using i(1) by (auto simp: tables_def in_set_conv_nth)
  have xs: "?xs = take k ?xs @ ?xs ! k # drop (Suc k) ?xs" using k(1) i(1) by (simp add: id_take_nth_drop)
  have "mset (tables ?xs) = mset (tables ?ms)" using props(1) by (simp add: tables_def)
  then have dist: "distinct (tables ?xs)" using ok by (metis batch_ok_def mset_eq_imp_distinct_iff)
  have "Table (md_table m) \<notin> set (map (\<lambda>m. Table (md_table m)) (take k ?xs))"
  proof
    assume "Table (md_table m) \<in> set (map (\<lambda>m. Table (md_table m)) (take k ?xs))"
    then obtain j where "j < k" "md_table (?xs ! j) = md_table (?xs ! i)"
      using i k(1) by (auto simp: in_set_conv_nth)
    with dist i(1) k(1) show False by (simp add: tables_def distinct_conv_nth)
  qed
  moreover have "Table r \<in> set (table_deps False m)" "r \<noteq> md_table m"
    using r by (auto simp: refs_def table_deps_Table)
  moreover have "(Table (md_table m), table_deps False m) \<in> set (rev (map (table_entry False) ?xs) @ c)"
    using m(1) props(1) by (auto simp: table_entry_def dest: mset_eq_setD)
  ultimately have "run (map DropIfExists (map (\<lambda>m. Table (md_table m)) (take k ?xs) @ Table r #
      map (\<lambda>m. Table (md_table m)) (drop (Suc k) ?xs)) @ []) (rev (map (table_entry False) ?xs) @ c) = None"
    by (intro dropped_too_early) auto
  then have "run (map drop_table (take k ?xs @ ?xs ! k # drop (Suc k) ?xs)) (rev (map (table_entry False) ?xs) @ c) = None"
    by (simp add: drop_table_def [abs_def] k(2) comp_def)
  then have "run (map drop_table ?xs) (rev (map (table_entry False) ?xs) @ c) = None" using xs by simp
  with sub show ?thesis using tables_made [OF ok] by blast
qed

lemma duckdb_rollback_fails_witness:
  "\<exists>c'. run (map (make_table False) (ordered_creates blog_diff)) [] = Some c' \<and>
     run (map drop_table (ordered_creates blog_diff)) c' = None"
  using duckdb_rollback_fails [OF blog_diff_ok, of "fk_only_model ''posts'' [''users'']"]
  by (auto simp: blog_diff_def blog_tables_def tables_def)

subsection \<open>Enum types and indexes\<close>

text \<open>
  PostgreSQL: the down script drops the new enum types before the new tables, so rolling back a
  migration that creates a type and a table with a column of that type fails at the type.
\<close>

theorem postgres_rollback_drops_types_first:
  assumes "e \<in> set (sd_create_enums d)" "m \<in> set (sd_create_models d)"
    and "f \<in> set (md_fields m)" "fd_enum f = Some (ed_name e)" and "table_entry True m \<in> set c"
  shows "(\<exists>exts rest. pg_down d = map pg_drop_extension exts @ map (\<lambda>e. pg_drop_enum (ed_name e)) (sd_create_enums d)
       @ map (\<lambda>m. pg_drop_table (md_table m)) (rev (ordered_creates d)) @ rest) \<and>
    run (map (\<lambda>e. DropIfExists (EnumType (ed_name e))) (sd_create_enums d)) c = None"
proof
  have "pg_down d = map pg_drop_extension (map xd_name (sd_create_extensions d))
      @ map (\<lambda>e. pg_drop_enum (ed_name e)) (sd_create_enums d)
      @ map (\<lambda>m. pg_drop_table (md_table m)) (rev (ordered_creates d))
      @ (map (\<lambda>i. pg_drop_index (ix_name i) (ix_table i)) (sd_create_indexes d)
         @ map (\<lambda>v. pg_drop_view (vd_view v) (vd_materialized v)) (sd_create_views d)
         @ procedures_down DbPostgres d)" by (simp add: pg_down_def)
  then show "\<exists>exts rest. pg_down d = map pg_drop_extension exts @ map (\<lambda>e. pg_drop_enum (ed_name e)) (sd_create_enums d)
       @ map (\<lambda>m. pg_drop_table (md_table m)) (rev (ordered_creates d)) @ rest" by blast
  obtain pre post where es: "sd_create_enums d = pre @ e # post" using assms(1) by (metis split_list)
  have "EnumType (ed_name e) \<in> set (table_deps True m)"
    using assms(3,4) by (force simp: table_deps_def List.map_filter_def)
  then have "run (map DropIfExists (map (\<lambda>e. EnumType (ed_name e)) pre @ EnumType (ed_name e) #
      map (\<lambda>e. EnumType (ed_name e)) post) @ []) c = None"
    using assms(5) by (intro dropped_too_early) (auto simp: table_entry_def)
  then show "run (map (\<lambda>e. DropIfExists (EnumType (ed_name e))) (sd_create_enums d)) c = None"
    by (simp add: es comp_def)
qed

definition enum_column :: "string \<Rightarrow> string \<Rightarrow> field_diff" where
  "enum_column n e = \<lparr>fd_name = n, fd_column = n, fd_type = ''TEXT'', fd_nullable = False, fd_default = None,
     fd_primary = False, fd_auto = False, fd_unique = False, fd_vector = None, fd_enum = Some e, fd_generated = None\<rparr>"

lemma postgres_rollback_drops_types_first_witness:
  "run (map (\<lambda>e. DropIfExists (EnumType (ed_name e))) [\<lparr>ed_name = ''role'', ed_values = [''ADMIN'']\<rparr>])
     [table_entry True ((fk_only_model ''users'' [])\<lparr>md_fields := [enum_column ''role'' ''role'']\<rparr>),
      (EnumType ''role'', [])] = None"
  using postgres_rollback_drops_types_first [of "\<lparr>ed_name = ''role'', ed_values = [''ADMIN'']\<rparr>"
      "sd_empty\<lparr>sd_create_enums := [\<lparr>ed_name = ''role'', ed_values = [''ADMIN'']\<rparr>],
         sd_create_models := [(fk_only_model ''users'' [])\<lparr>md_fields := [enum_column ''role'' ''role'']\<rparr>]\<rparr>"]
  by (simp add: enum_column_def)

text \<open>The statements of the down scripts of MySQL and SQL Server that remove tables and indexes.\<close>

definition table_index_drops :: "schema_diff \<Rightarrow> ddl_op list" where
  "table_index_drops d = map drop_table (rev (ordered_creates d))
     @ map (\<lambda>i. Drop (Index (ix_name i) (ix_table i))) (sd_create_indexes d)"

fun my_removal :: "ddl_op \<Rightarrow> string" where
  "my_removal (DropIfExists (Table t)) = my_drop_table t"
| "my_removal (Drop (Index i t)) = my_drop_index i t"
| "my_removal _ = []"

fun ms_removal :: "ddl_op \<Rightarrow> string" where
  "ms_removal (DropIfExists (Table t)) = ms_drop_table t"
| "ms_removal (Drop (Index i t)) = ms_drop_index i t"
| "ms_removal _ = []"

lemma created_index_tables:
  assumes "i \<in> set (sd_create_indexes (schema_differ_diff df))"
  shows "ix_table i \<in> set (tables (ordered_creates (schema_differ_diff df)))"
proof -
  let ?d = "schema_differ_diff df"
  obtain pre rest where "ordered_create_models (sd_create_models ?d) = pre @ rest" "mset (pre @ rest) = mset (sd_create_models ?d)"
    using ordered_split [OF created_models_distinct [of df]] by blast
  then have "set (ordered_creates ?d) = set (sd_create_models ?d)" by (metis mset_eq_setD ordered_creates_def)
  then have "set (tables (ordered_creates ?d)) = set (map md_table (sd_create_models ?d))" by (simp add: tables_def)
  moreover have "map md_table (sd_create_models ?d) = map md_table (sd_create_models (schema_diff_raw df))"
    by (simp add: schema_differ_diff_def normalize_enums_def)
  moreover obtain m s where "m \<in> set (sd_create_models (schema_diff_raw df))" "i \<in> set (md_indexes m)"
    "\<exists>x. m = model_to_diff x s"
    using assms by (auto simp: schema_differ_diff_def normalize_enums_def schema_diff_raw_def Let_def)
  moreover from this have "ix_table i = md_table m"
    using extract_index_plain by (auto simp: model_to_diff_def)
  ultimately show ?thesis by simp
qed

text \<open>
  MySQL and SQL Server: a migration generated from two schemas in which a new table has an index
  has a down script that drops the index after its table; the index went with the table, and
  \<^verbatim>\<open>DROP INDEX ... ON\<close> has no \<^verbatim>\<open>IF EXISTS\<close>, so the rollback fails on every database.
\<close>

theorem index_rollback_fails:
  assumes "i \<in> set (sd_create_indexes (schema_differ_diff df))"
  shows "run (table_index_drops (schema_differ_diff df)) c = None \<and>
    prefix (map my_removal (table_index_drops (schema_differ_diff df))) (my_down (schema_differ_diff df)) \<and>
    prefix (map ms_removal (table_index_drops (schema_differ_diff df))) (mssql_down (schema_differ_diff df))"
proof (intro conjI)
  let ?d = "schema_differ_diff df"
  have "run (map DropIfExists (map Table (tables (rev (ordered_creates ?d))))
      @ map Drop (map (\<lambda>i. Index (ix_name i) (ix_table i)) (sd_create_indexes ?d))) c = None"
    using assms created_index_tables [OF assms] by (intro index_dropped_with_table [of "ix_name i" "ix_table i"])
      (auto simp: tables_def)
  then show "run (table_index_drops ?d) c = None"
    by (simp add: table_index_drops_def drop_table_def [abs_def] tables_def comp_def)
qed (simp_all add: table_index_drops_def my_down_def mssql_down_def drop_table_def comp_def)

definition indexed_schema :: schema where
  "indexed_schema = sm_add_model (indexed_model ''User'' [''email'']) sm_new"

lemma indexed_schema_indexes:
  "sd_create_indexes (schema_differ_diff (df_new indexed_schema)) = [ix_new ''idx_User_email'' ''User'' [''email'']]"
  by (simp add: schema_differ_diff_def normalize_enums_def schema_diff_raw_def Let_def df_new_def indexed_schema_def
    source_items_def target_items_def sm_add_model_def sm_new_def map_values_def collect_by_def created_def
    model_to_diff_def extract_index_diffs_def extract_index_def index_of_attribute_def indexed_model_def first_arg_def
    arg_positional_def List.map_filter_simps index_column_name_def unwrap_or_def get_arg_def ix_new_def
    table_name_def attribute_string_def find_attribute_def)

lemma index_rollback_fails_witness:
  "run (table_index_drops (schema_differ_diff (df_new indexed_schema))) [] = None"
  using index_rollback_fails [of "ix_new ''idx_User_email'' ''User'' [''email'']" "df_new indexed_schema"]
  by (simp add: indexed_schema_indexes)

end
