(* ===== verification/Ddl_Laws.thy ===== *)
theory Ddl_Laws
  imports Ddl_Rollback Sql_Lexing
begin

text \<open>
  What the DDL scripts say about the changes the differ found: which statements destroy data and
  that each is announced, and which changes never reach a statement.
\<close>

subsection \<open>Warnings\<close>

lemma alter_warnings_Nil:
  "alter_warnings a = [] \<longleftrightarrow> ma_drop_fields a = [] \<and> list_all (\<lambda>f. \<not> type_changed f) (ma_alter_fields a)"
  by (auto simp: alter_warnings_def filter_empty_conv list_all_iff)

lemma loss_warnings_Nil:
  "loss_warnings d = [] \<longleftrightarrow> sd_drop_models d = [] \<and> list_all (\<lambda>a. alter_warnings a = []) (sd_alter_models d)"
  by (simp add: loss_warnings_def list_all_iff)

lemma loss_warnings_emitted: "set (loss_warnings d) \<subseteq> set (ms_warnings (generate_with b d))"
  by (cases b) (auto simp: pg_generate_def my_generate_def lite_generate_def mssql_generate_def duck_generate_def
    pg_warnings_def lite_warnings_def duck_warnings_def loss_warnings_def)

fun up_statements :: "sql_backend \<Rightarrow> schema_diff \<Rightarrow> string list" where
  "up_statements BackPostgres d = pg_up d"
| "up_statements BackMySql d = my_up d"
| "up_statements BackSqlite d = lite_up d"
| "up_statements BackMssql d = mssql_up d"
| "up_statements BackDuckDb d = duck_up d"

fun drop_table_text :: "sql_backend \<Rightarrow> string \<Rightarrow> string" where
  "drop_table_text BackPostgres t = pg_drop_table t"
| "drop_table_text BackMySql t = my_drop_table t"
| "drop_table_text BackSqlite t = lite_drop_table t"
| "drop_table_text BackMssql t = ms_drop_table t"
| "drop_table_text BackDuckDb t = duck_drop_table t"

subsection \<open>Statements that destroy data\<close>

text \<open>
  Which statement destroys data is read off its text, however it came about: a table is dropped or
  emptied, or \<^verbatim>\<open>ALTER TABLE\<close>, a quoted name and an action that drops a column or
  gives one another type.  Names are quoted without escaping, so the reading presumes names without
  the closing quote of the dialect (\<open>plain_names\<close>); the validator makes sure of it for mapped names.
\<close>

fun name_quote :: "sql_backend \<Rightarrow> string \<Rightarrow> string" where
  "name_quote BackMySql = bt"
| "name_quote BackMssql = br"
| "name_quote _ = dq"

fun name_close :: "sql_backend \<Rightarrow> char" where
  "name_close BackMySql = BTICK"
| "name_close BackMssql = CHR '']''"
| "name_close _ = DQUOTE"

text \<open>The text after a quoted name and the blank that follows it.\<close>

definition after_name :: "sql_backend \<Rightarrow> string \<Rightarrow> string" where
  "after_name b s = drop 2 (dropWhile (\<lambda>c. c \<noteq> name_close b) (drop 1 s))"

definition drops_data :: "string \<Rightarrow> bool" where
  "drops_data s \<longleftrightarrow> list_ex (\<lambda>p. prefix p s)
     [''DROP TABLE'', ''DROP SCHEMA'', ''DROP DATABASE'', ''TRUNCATE'', ''DELETE'', ''UPDATE'']"

definition changes_type :: "sql_backend \<Rightarrow> string \<Rightarrow> bool" where
  "changes_type b act \<longleftrightarrow> (case b of
     BackMySql \<Rightarrow> prefix ''MODIFY COLUMN '' act \<or> prefix ''CHANGE COLUMN '' act
   | BackMssql \<Rightarrow> prefix ''ALTER COLUMN '' act
   | _ \<Rightarrow> prefix ''ALTER COLUMN '' act \<and> prefix ''TYPE '' (after_name b (drop 13 act)))"

definition destructive :: "sql_backend \<Rightarrow> string \<Rightarrow> bool" where
  "destructive b s \<longleftrightarrow> drops_data s \<or> prefix ''ALTER TABLE '' s
     \<and> (prefix ''DROP COLUMN '' (after_name b (drop 12 s)) \<or> changes_type b (after_name b (drop 12 s)))"

definition plain_names :: "sql_backend \<Rightarrow> schema_diff \<Rightarrow> bool" where
  "plain_names b d \<longleftrightarrow> list_all (\<lambda>a. name_close b \<notin> set (ma_table a)
     \<and> list_all (\<lambda>f. name_close b \<notin> set (fl_column f)) (ma_alter_fields a)) (sd_alter_models d)"

text \<open>What announces a statement: the drop of a table or a column the diff lists, or the change of
  type of a column, each with its warning.\<close>

definition drop_column_text :: "sql_backend \<Rightarrow> string \<Rightarrow> string \<Rightarrow> string" where
  "drop_column_text b t c = alter_table_text (name_quote b) t
     ((if b = BackPostgres then ''DROP COLUMN IF EXISTS '' else ''DROP COLUMN '') @ name_quote b c)"

fun column_statements :: "sql_backend \<Rightarrow> string \<Rightarrow> field_alter \<Rightarrow> string list" where
  "column_statements BackPostgres t f = pg_alter_column t f"
| "column_statements BackMySql t f = my_alter_column t f"
| "column_statements BackSqlite t f = []"
| "column_statements BackMssql t f = ms_alter_column t f"
| "column_statements BackDuckDb t f = duck_alter_column t f"

definition announced :: "sql_backend \<Rightarrow> schema_diff \<Rightarrow> string list \<Rightarrow> string \<Rightarrow> bool" where
  "announced b d ws s \<longleftrightarrow>
     (\<exists>t\<in>set (sd_drop_models d). s = drop_table_text b t \<and> dropped_table_warning t \<in> set ws) \<or>
     (\<exists>a\<in>set (sd_alter_models d).
        (\<exists>c\<in>set (ma_drop_fields a). s = drop_column_text b (ma_table a) c
           \<and> dropped_column_warning (ma_table a) c \<in> set ws) \<or>
        (\<exists>f\<in>set (ma_alter_fields a). s \<in> set (column_statements b (ma_table a) f) \<and> type_changed f
           \<and> changed_type_warning (ma_table a) (fl_name f) \<in> set ws))"

lemma dropWhile_name: "c \<notin> set n \<Longrightarrow> dropWhile (\<lambda>x. x \<noteq> c) (n @ c # s) = c # s"
  by (induction n) auto

lemma after_name_quote:
  "name_close b \<notin> set n \<Longrightarrow> after_name b (name_quote b n @ CHR '' '' # s) = s"
  by (cases b) (simp_all add: after_name_def dq_def bt_def br_def dropWhile_name)

lemma destructive_alter:
  assumes "name_close b \<notin> set t"
  shows "destructive b (alter_table_text (name_quote b) t act)
    \<longleftrightarrow> prefix ''DROP COLUMN '' (act @ '';'') \<or> changes_type b (act @ '';'')"
proof -
  have "drop 12 (alter_table_text (name_quote b) t act) = name_quote b t @ CHR '' '' # act @ '';''"
    by (simp add: alter_table_text_def)
  moreover have "\<not> drops_data (alter_table_text (name_quote b) t act)"
    "prefix ''ALTER TABLE '' (alter_table_text (name_quote b) t act)"
    by (simp_all add: drops_data_def alter_table_text_def)
  ultimately show ?thesis
    using after_name_quote [OF assms] by (simp add: destructive_def)
qed

lemma changes_type_column:
  assumes "name_close b \<notin> set c" and "b \<notin> {BackMySql, BackMssql}"
  shows "changes_type b (''ALTER COLUMN '' @ name_quote b c @ CHR '' '' # act) \<longleftrightarrow> prefix ''TYPE '' act"
  using after_name_quote [OF assms(1), of act] assms(2) by (cases b) (simp_all add: changes_type_def)

text \<open>The statements other than the drops and the alterations of tables.\<close>

definition harmless :: "string \<Rightarrow> bool" where
  "harmless s \<longleftrightarrow> \<not> drops_data s \<and> \<not> prefix ''ALTER TABLE '' s"

lemma harmless_not: "harmless s \<Longrightarrow> \<not> destructive b s"
  by (simp add: harmless_def destructive_def)

lemma harmless_text [simp]:
  "harmless (index_text q k u i)" "harmless (create_table_text q t cs e)"
  by (simp_all add: harmless_def drops_data_def index_text_def create_table_text_def)

lemma pg_harmless:
  "harmless (pg_create_extension x)" "harmless (pg_drop_extension n)"
  "harmless (pg_create_enum e)" "harmless (pg_drop_enum n)"
  "s \<in> set (pg_alter_enum a) \<Longrightarrow> harmless s"
  "harmless (pg_create_table m)" "harmless (pg_create_index i)"
  "harmless (pg_drop_index n t)" "harmless (pg_create_view v)" "harmless (pg_drop_view n bb)"
  by (auto simp: pg_create_extension_def pg_drop_extension_def pg_create_enum_def pg_drop_enum_def pg_alter_enum_def
    pg_create_table_def pg_drop_index_def pg_create_view_def view_text_def pg_drop_view_def
    pg_create_index_def pg_create_index_checked_def pg_create_vector_index_def ix_is_vector_def Let_def
    harmless_def drops_data_def index_text_def create_table_text_def split: option.splits)

lemma my_harmless:
  "harmless (my_create_table m)" "harmless (my_create_index i)" "harmless (my_drop_index n t)"
  "harmless (my_create_view v)" "harmless (my_drop_view n)"
  by (simp_all add: my_create_table_def my_create_index_def)
     (simp_all add: my_drop_index_def my_create_view_def view_text_def my_drop_view_def harmless_def drops_data_def)

lemma ms_harmless:
  "harmless (ms_create_table m)" "harmless (ms_create_index i)" "harmless (ms_drop_index n t)"
  "harmless (ms_create_view v)" "harmless (ms_drop_view n)"
  by (simp_all add: ms_create_table_def ms_create_index_def)
     (simp_all add: ms_drop_index_def ms_create_view_def view_text_def ms_drop_view_def harmless_def drops_data_def)

lemma lite_harmless:
  "s \<in> set (lite_create_model m) \<Longrightarrow> harmless s" "harmless (lite_create_index i)" "harmless (lite_drop_index n)"
  "harmless (lite_create_view v)" "harmless (lite_drop_view n)"
  by (auto simp: lite_create_model_def lite_create_table_def option_list_def create_vector_virtual_table_def
      lite_create_index_def lite_drop_index_def lite_create_view_def view_text_def lite_drop_view_def
      harmless_def drops_data_def create_table_text_def index_text_def split: option.splits if_splits)

lemma duck_harmless:
  "harmless (duck_install_extension n)" "harmless (duck_drop_extension n)" "harmless (duck_create_enum e)"
  "harmless (duck_drop_enum n)" "s \<in> set (duck_alter_enum a) \<Longrightarrow> harmless s" "harmless (duck_create_table m)"
  "harmless (duck_create_index i)" "harmless (duck_drop_index n)" "harmless (duck_create_view v)"
  "harmless (duck_drop_view n)"
  by (auto simp: duck_install_extension_def duck_drop_extension_def duck_create_enum_def duck_drop_enum_def
    duck_alter_enum_def duck_create_table_def duck_drop_index_def duck_create_view_def view_text_def
    duck_drop_view_def duck_create_index_def harmless_def drops_data_def create_table_text_def index_text_def)

fun backend_procedures :: "sql_backend \<Rightarrow> schema_diff \<Rightarrow> string list" where
  "backend_procedures BackPostgres d = procedures_up DbPostgres d"
| "backend_procedures BackMySql d = procedures_up DbMySql d"
| "backend_procedures BackSqlite d = procedures_up DbSqlite d"
| "backend_procedures BackMssql d = procedures_up DbMssql d"
| "backend_procedures BackDuckDb d = []"

text \<open>The parts of an up script: the drops of tables, the alterations, the procedure texts and
  statements that do no harm.\<close>

fun alter_statements :: "sql_backend \<Rightarrow> model_alter \<Rightarrow> string list" where
  "alter_statements BackPostgres a = pg_alter_table a"
| "alter_statements BackMySql a = my_alter_table a"
| "alter_statements BackSqlite a = lite_alter_table a"
| "alter_statements BackMssql a = ms_alter_table a"
| "alter_statements BackDuckDb a = duck_alter_table a"

lemma up_statement_cases:
  assumes "s \<in> set (up_statements b d)"
  shows "s \<in> set (backend_procedures b d) \<or> s \<in> drop_table_text b ` set (sd_drop_models d)
    \<or> (\<exists>a\<in>set (sd_alter_models d). s \<in> set (alter_statements b a)) \<or> harmless s"
  using assms
  by (cases b) (auto simp: pg_up_def my_up_def lite_up_def mssql_up_def duck_up_def
      pg_harmless my_harmless lite_harmless ms_harmless duck_harmless)

text \<open>An alteration that destroys data drops a column the diff lists or writes a new type.\<close>

lemmas destructive_alter_text =
  destructive_alter [of BackPostgres, simplified] destructive_alter [of BackMySql, simplified]
  destructive_alter [of BackSqlite, simplified] destructive_alter [of BackMssql, simplified]
  destructive_alter [of BackDuckDb, simplified]

lemma column_statement_type:
  assumes "s \<in> set (column_statements b t f)" and "destructive b s"
    and "name_close b \<notin> set t" and "name_close b \<notin> set (fl_column f)"
    and "fl_old_type f \<noteq> None \<Longrightarrow> fl_new_type f \<noteq> None"
  shows "fl_new_type f \<noteq> None"
proof
  assume none: "fl_new_type f = None"
  with assms(5) have old: "fl_old_type f = None" by (cases "fl_old_type f") auto
  show False
  proof (cases b)
    case BackPostgres
    then show ?thesis
      using assms(1-4) changes_type_column [of BackPostgres "fl_column f"]
      by (auto simp: none old pg_alter_column_def Let_def destructive_alter_text split: option.splits if_splits)
  next
    case BackMySql
    then show ?thesis
      using assms(1-4)
      by (auto simp: none old my_alter_column_def destructive_def drops_data_def split: option.splits if_splits)
  next
    case BackSqlite
    then show ?thesis using assms(1) by simp
  next
    case BackMssql
    then show ?thesis
      using assms(1-4)
      by (auto simp: none old ms_alter_column_def destructive_alter_text changes_type_def split: option.splits if_splits)
         (simp_all add: destructive_def drops_data_def)
  next
    case BackDuckDb
    then show ?thesis
      using assms(1-4) changes_type_column [of BackDuckDb "fl_column f"]
      by (auto simp: none old duck_alter_column_def Let_def destructive_alter_text split: option.splits if_splits)
  qed
qed

lemma drop_index_text: "\<not> destructive b (''DROP INDEX IF EXISTS '' @ x)"
  by (simp add: destructive_def drops_data_def)

lemma alter_statement_cases:
  assumes "s \<in> set (alter_statements b a)" and "destructive b s" and "name_close b \<notin> set (ma_table a)"
  shows "(\<exists>c\<in>set (ma_drop_fields a). s = drop_column_text b (ma_table a) c)
    \<or> (\<exists>f\<in>set (ma_alter_fields a). s \<in> set (column_statements b (ma_table a) f))"
proof (cases b)
  case BackPostgres
  then show ?thesis
    using assms
    by (auto simp: pg_alter_table_def Let_def destructive_alter_text changes_type_def drop_column_text_def
        drop_index_text [simplified] pg_harmless harmless_not pg_foreign_key_constraint_def foreign_key_clause_def)
next
  case BackMySql
  then show ?thesis
    using assms
    by (auto simp: my_alter_table_def Let_def destructive_alter_text changes_type_def drop_column_text_def
        foreign_key_clause_def)
next
  case BackSqlite
  then show ?thesis
    using assms
    by (auto simp: lite_alter_table_def Let_def destructive_alter_text changes_type_def drop_column_text_def)
next
  case BackMssql
  then show ?thesis
    using assms
    by (auto simp: ms_alter_table_def Let_def destructive_alter_text changes_type_def drop_column_text_def
        foreign_key_clause_def)
next
  case BackDuckDb
  then show ?thesis
    using assms
    by (auto simp: duck_alter_table_def Let_def destructive_alter_text changes_type_def drop_column_text_def
        duck_harmless harmless_not duck_foreign_key_constraint_def foreign_key_clause_def)
qed

lemma diff_models_Some:
  "diff_models ss ts x y = Some a \<Longrightarrow> ma_drop_fields a = dropped (scalar_columns x) (scalar_columns y) \<and>
     ma_alter_fields a = map snd (altered diff_fields (scalar_columns x) (scalar_columns y))"
  unfolding diff_models_def Let_def by (auto split: if_splits)

lemma map_of_values: "map_of m k = Some v \<Longrightarrow> v \<in> set (map snd m)"
  by (force dest: map_of_SomeD)

lemma columns_kept:
  assumes alter: "diff_models ss ts x y = Some a"
    and keeps: "ma_drop_fields a = []" "list_all (\<lambda>f. \<not> type_changed f) (ma_alter_fields a)"
    and c: "table_columns x c = Some spec"
  shows "\<exists>spec'. table_columns y c = Some spec' \<and> fst spec' = fst spec"
proof -
  obtain fx where fx: "map_of (scalar_columns x) c = Some fx" "spec = column_of_field fx"
    using c by (auto simp: table_columns_def)
  have "dropped (scalar_columns x) (scalar_columns y) = []"
    using diff_models_Some [OF alter] keeps(1) by simp
  then obtain fy where fy: "map_of (scalar_columns y) c = Some fy"
    using fx(1) by (metis equals0D list.set(1) not_None_eq option.distinct(1) set_dropped)
  have "field_sql_type fx = field_sql_type fy"
  proof (cases "diff_fields fx fy")
    case None
    then show ?thesis by (auto simp: diff_fields_def Let_def split: if_splits)
  next
    case (Some e)
    then have "map_of (altered diff_fields (scalar_columns x) (scalar_columns y)) c = Some e"
      using fx(1) fy by (simp add: map_of_altered scalar_columns_def)
    then have "e \<in> set (ma_alter_fields a)"
      using diff_models_Some [OF alter] map_of_values by metis
    then have "\<not> type_changed e" using keeps(2) by (simp add: list_all_iff)
    with Some show ?thesis by (auto simp: diff_fields_def Let_def type_changed_def changed_def split: if_splits)
  qed
  then show ?thesis using fx(2) fy by (simp add: table_columns_def column_of_field_def)
qed

text \<open>In a diff of the differ an alteration gives the old type of a column exactly when it gives a
  new one.\<close>

lemma differ_alterations:
  assumes "a \<in> set (sd_alter_models (schema_differ_diff d))" and "f \<in> set (ma_alter_fields a)"
  shows "fl_old_type f = None \<longleftrightarrow> fl_new_type f = None"
proof -
  obtain ss ts x y a' where "diff_models ss ts x y = Some a'" "ma_alter_fields a = ma_alter_fields a'"
    using assms(1)
    by (fastforce simp: schema_differ_diff_def normalize_enums_def schema_diff_raw_models altered_def
        List.map_filter_def split: option.splits)
  with assms(2) obtain u v where "diff_fields u v = Some f"
    by (fastforce simp: altered_def List.map_filter_def dest!: diff_models_Some split: option.splits)
  then show ?thesis by (auto simp: diff_fields_def Let_def changed_def split: if_splits)
qed

lemma entries_announced:
  "dropped_table_warning ` set (sd_drop_models d) \<subseteq> set (ms_warnings (generate_with b d))"
  "(\<Union>a\<in>set (sd_alter_models d). dropped_column_warning (ma_table a) ` set (ma_drop_fields a)
     \<union> changed_type_warning (ma_table a) ` fl_name ` {f \<in> set (ma_alter_fields a). type_changed f})
    \<subseteq> set (ms_warnings (generate_with b d))"
proof -
  show "dropped_table_warning ` set (sd_drop_models d) \<subseteq> set (ms_warnings (generate_with b d))"
    using loss_warnings_emitted [of d b] by (auto simp: loss_warnings_def)
  have "(\<Union>a\<in>set (sd_alter_models d). dropped_column_warning (ma_table a) ` set (ma_drop_fields a)
       \<union> changed_type_warning (ma_table a) ` fl_name ` {f \<in> set (ma_alter_fields a). type_changed f})
      \<subseteq> set (loss_warnings d)"
    by (auto simp: loss_warnings_def alter_warnings_def)
  then show "(\<Union>a\<in>set (sd_alter_models d). dropped_column_warning (ma_table a) ` set (ma_drop_fields a)
       \<union> changed_type_warning (ma_table a) ` fl_name ` {f \<in> set (ma_alter_fields a). type_changed f})
      \<subseteq> set (ms_warnings (generate_with b d))"
    using loss_warnings_emitted by (rule order_trans)
qed

lemma announced_or_procedure:
  fixes df :: schema_differ and b :: sql_backend
  defines "d \<equiv> schema_differ_diff df"
  defines "ws \<equiv> ms_warnings (generate_with b d)"
  assumes plain: "plain_names b d" and s: "s \<in> set (up_statements b d)" "destructive b s"
  shows "s \<in> set (backend_procedures b d) \<or> announced b d ws s"
  using up_statement_cases [OF s(1)]
proof (elim disjE bexE)
  assume "s \<in> drop_table_text b ` set (sd_drop_models d)"
  with entries_announced(1) [of d b] show ?thesis unfolding announced_def ws_def by blast
next
  fix a assume a: "a \<in> set (sd_alter_models d)" "s \<in> set (alter_statements b a)"
  then have names: "name_close b \<notin> set (ma_table a)"
    "f \<in> set (ma_alter_fields a) \<Longrightarrow> name_close b \<notin> set (fl_column f)" for f
    using plain by (auto simp: plain_names_def list_all_iff)
  from alter_statement_cases [OF a(2) s(2) names(1)] show ?thesis
  proof (elim disjE bexE)
    fix c assume c: "c \<in> set (ma_drop_fields a)" "s = drop_column_text b (ma_table a) c"
    with a(1) entries_announced(2) [of d b] have "dropped_column_warning (ma_table a) c \<in> set ws"
      unfolding ws_def by blast
    with a(1) c show ?thesis unfolding announced_def by blast
  next
    fix f assume f: "f \<in> set (ma_alter_fields a)" "s \<in> set (column_statements b (ma_table a) f)"
    have "fl_old_type f = None \<longleftrightarrow> fl_new_type f = None"
      using differ_alterations a(1) f(1) unfolding d_def by blast
    with column_statement_type [OF f(2) s(2) names(1) names(2) [OF f(1)]] have "type_changed f"
      by (simp add: type_changed_def)
    moreover from this a(1) f(1) entries_announced(2) [of d b]
    have "changed_type_warning (ma_table a) (fl_name f) \<in> set ws" unfolding ws_def by blast
    ultimately show ?thesis using a(1) f unfolding announced_def by blast
  qed
qed (use harmless_not s(2) in auto)

text \<open>
  C38: On every database a statement of the up script that destroys data (the user's own procedure
  texts apart), that is, one that drops or empties a table, or alters one and drops a column or gives
  one another type, is the drop of a table or a column the diff lists or the change of type of a
  column it lists, and the migration carries the warning for it, provided the names of the altered
  tables and columns do not have the dialect's closing quote.  Whatever the names, every dropped
  table, every dropped column and every changed type of the diff has its warning.
\<close>

theorem destructive_statements_announced:
  "(plain_names b (schema_differ_diff df) \<longrightarrow>
      list_all (\<lambda>s. s \<in> set (backend_procedures b (schema_differ_diff df))
          \<or> announced b (schema_differ_diff df) (ms_warnings (generate_with b (schema_differ_diff df))) s)
        (List.filter (destructive b) (up_statements b (schema_differ_diff df))))
   \<and> dropped_table_warning ` set (sd_drop_models (schema_differ_diff df))
       \<subseteq> set (ms_warnings (generate_with b (schema_differ_diff df)))
   \<and> (\<Union>a\<in>set (sd_alter_models (schema_differ_diff df)).
        dropped_column_warning (ma_table a) ` set (ma_drop_fields a)
        \<union> changed_type_warning (ma_table a) ` fl_name ` {f \<in> set (ma_alter_fields a). type_changed f})
       \<subseteq> set (ms_warnings (generate_with b (schema_differ_diff df)))"
  using entries_announced announced_or_procedure [of b df] by (auto simp: list_all_iff)

text \<open>A table of one column, before and after a column is added, dropped and given another type.\<close>

definition user_model_of :: "field list \<Rightarrow> model" where
  "user_model_of fs = \<lparr>mo_name = ''User'', mo_fields = map (\<lambda>f. (f_name f, f)) fs, mo_attributes = []\<rparr>"
definition user_change :: "field list \<Rightarrow> field list \<Rightarrow> schema_differ" where
  "user_change old new = df_with_source (sm_add_model (user_model_of old) sm_new)
     (df_new (sm_add_model (user_model_of new) sm_new))"
definition column_field :: "string \<Rightarrow> scalar_type \<Rightarrow> field" where
  "column_field n ty = \<lparr>f_name = n, f_type = TyScalar ty, f_modifier = Optional, f_attributes = []\<rparr>"

definition shrinking :: schema_differ where
  "shrinking = user_change [column_field ''role'' ScString, column_field ''age'' ScInt] [column_field ''age'' ScBigInt]"

lemma destructive_statements_announced_witness:
  "list_all (announced BackMySql (schema_differ_diff shrinking) (ms_warnings (generate_with BackMySql (schema_differ_diff shrinking))))
     (List.filter (destructive BackMySql) (up_statements BackMySql (schema_differ_diff shrinking)))
   \<and> length (List.filter (destructive BackMySql) (up_statements BackMySql (schema_differ_diff shrinking))) = 2"
proof -
  have "plain_names BackMySql (schema_differ_diff shrinking)" by code_simp
  moreover have "backend_procedures BackMySql (schema_differ_diff shrinking) = []" by code_simp
  moreover have "length (List.filter (destructive BackMySql) (up_statements BackMySql (schema_differ_diff shrinking))) = 2"
    by code_simp
  ultimately show ?thesis
    using destructive_statements_announced [of BackMySql shrinking] by simp
qed

text \<open>Every table and column of a database is still there, with its SQL type.\<close>

definition tables_kept ::
  "(string \<rightharpoonup> (string \<rightharpoonup> column_spec)) \<Rightarrow> (string \<rightharpoonup> (string \<rightharpoonup> column_spec)) \<Rightarrow> bool" where
  "tables_kept old new \<longleftrightarrow> (\<forall>t cols. old t = Some cols \<longrightarrow> (\<exists>cols'. new t = Some cols'
     \<and> (\<forall>c spec. cols c = Some spec \<longrightarrow> (\<exists>spec'. cols' c = Some spec' \<and> fst spec' = fst spec))))"

lemma silent_tables_kept:
  assumes "ms_warnings (generate_with b (schema_differ_diff d)) = []"
  shows "tables_kept (source_tables d) (schema_tables (df_target d))"
  unfolding tables_kept_def
proof (intro allI impI)
  fix t cols assume src: "source_tables d t = Some cols"
  let ?src = "source_items sm_models table_name d" and ?tgt = "target_items sm_models table_name d"
  let ?alter = "diff_models (unwrap_or (df_source d) (df_target d)) (df_target d)"
  have "loss_warnings (schema_differ_diff d) = []"
    using loss_warnings_emitted [of "schema_differ_diff d" b] assms by simp
  then have drops: "dropped ?src ?tgt = []"
    and alters: "\<And>a. a \<in> set (map snd (altered ?alter ?src ?tgt)) \<Longrightarrow>
      ma_drop_fields a = [] \<and> list_all (\<lambda>f. \<not> type_changed f) (ma_alter_fields a)"
    by (auto simp: loss_warnings_Nil alter_warnings_Nil schema_differ_diff_def normalize_enums_def
      schema_diff_raw_models list_all_iff)
  obtain x where x: "map_of ?src t = Some x" "cols = table_columns x"
    using src by (auto simp: source_tables_def source_items_def schema_tables_def split: option.splits)
  then obtain y where y: "map_of ?tgt t = Some y"
    using drops by (metis equals0D list.set(1) not_None_eq option.distinct(1) set_dropped)
  have same: "table_name x = table_name y"
    using x(1) y by (auto simp: source_items_def target_items_def dest!: map_of_SomeD set_collect_by split: option.splits)
  have "\<exists>spec'. table_columns y c = Some spec' \<and> fst spec' = fst spec" if c: "table_columns x c = Some spec" for c spec
  proof (cases "?alter x y")
    case None
    with no_diff_iff [OF same] c show ?thesis by simp
  next
    case (Some a)
    have "map_of (altered ?alter ?src ?tgt) t = Some a"
      using x(1) y Some by (simp add: map_of_altered target_items_def)
    then have a: "ma_drop_fields a = []" "list_all (\<lambda>f. \<not> type_changed f) (ma_alter_fields a)"
      using alters [OF map_of_values] by simp_all
    show ?thesis using columns_kept [OF Some a c] .
  qed
  then show "\<exists>cols'. schema_tables (df_target d) t = Some cols'
     \<and> (\<forall>c spec. cols c = Some spec \<longrightarrow> (\<exists>spec'. cols' c = Some spec' \<and> fst spec' = fst spec))"
    using x(2) y by (auto simp: schema_tables_def target_items_def)
qed

text \<open>
  C3: A migration without warnings destroys nothing, whatever the database: apart from the user's own
  procedure texts, no statement of its up script drops or empties a table, drops a column or gives
  one another type (the names of the altered tables and columns not having the dialect's closing
  quote), and every table of the source schema is in the target schema, with all its columns and
  with unchanged SQL types, where \<open>TEXT\<close> is the SQL type of every enum.
\<close>

theorem silent_migration_keeps_data:
  assumes silent: "ms_warnings (generate_with b (schema_differ_diff d)) = []"
  shows "(plain_names b (schema_differ_diff d) \<longrightarrow>
      set (List.filter (destructive b) (up_statements b (schema_differ_diff d)))
        \<subseteq> set (backend_procedures b (schema_differ_diff d)))
    \<and> tables_kept (source_tables d) (schema_tables (df_target d))"
proof (intro conjI impI)
  assume plain: "plain_names b (schema_differ_diff d)"
  have "s \<in> set (backend_procedures b (schema_differ_diff d))"
    if s: "s \<in> set (up_statements b (schema_differ_diff d))" "destructive b s" for s
    using announced_or_procedure [OF plain s] silent by (simp add: announced_def)
  then show "set (List.filter (destructive b) (up_statements b (schema_differ_diff d)))
        \<subseteq> set (backend_procedures b (schema_differ_diff d))" by auto
qed (rule silent_tables_kept [OF silent])

definition growing :: schema_differ where
  "growing = user_change [column_field ''role'' ScString] [column_field ''role'' ScString, column_field ''age'' ScInt]"

lemma silent_migration_keeps_data_witness:
  "List.filter (destructive BackPostgres) (up_statements BackPostgres (schema_differ_diff growing)) = []
   \<and> length (up_statements BackPostgres (schema_differ_diff growing)) = 1
   \<and> (\<exists>cols'. schema_tables (df_target growing) ''User'' = Some cols' \<and> map_option fst (cols' ''role'') = Some ''TEXT'')"
proof -
  have silent: "ms_warnings (generate_with BackPostgres (schema_differ_diff growing)) = []" by code_simp
  have "plain_names BackPostgres (schema_differ_diff growing)" by code_simp
  moreover have "backend_procedures BackPostgres (schema_differ_diff growing) = []" by code_simp
  moreover have one: "length (up_statements BackPostgres (schema_differ_diff growing)) = 1" by code_simp
  moreover obtain cols where "source_tables growing ''User'' = Some cols" "cols ''role'' = Some (''TEXT'', True, None)"
  proof -
    have "map_option (\<lambda>cols. cols ''role'') (source_tables growing ''User'') = Some (Some (''TEXT'', True, None))"
      by code_simp
    with that show ?thesis by (cases "source_tables growing ''User''") auto
  qed
  ultimately show ?thesis
    using silent_migration_keeps_data [OF silent] by (fastforce simp: tables_kept_def)
qed

subsection \<open>Changes that reach no statement\<close>

text \<open>
  A change of nullability alone is lost on MySQL and SQL Server: both need the type of the column and
  take the old type when it did not change, but the differ fills in the old type only when it changed;
  so MySQL gets a comment instead of a statement for every alteration that keeps the type (a new
  default is lost with it), and SQL Server for every one that keeps the type and the default.
\<close>

theorem nullability_change_lost:
  assumes "diff_fields x y = Some a" "field_sql_type x = field_sql_type y"
  shows "list_all (prefix ''-- Column '') (my_alter_column t a) \<and>
    (field_default_sql x = field_default_sql y \<longrightarrow> list_all (prefix ''-- Column '') (ms_alter_column t a) \<and>
       ms_alter_column t a \<noteq> [])"
proof -
  have a: "fl_new_type a = None" "fl_old_type a = None"
    "fl_new_nullable a = changed (f_is_optional x \<noteq> f_is_optional y) (Some (f_is_optional y))"
    "fl_new_default a = changed (field_default_sql x \<noteq> field_default_sql y) (field_default_sql y)"
    using assms by (auto simp: diff_fields_def Let_def changed_def split: if_splits)
  have "f_is_optional x \<noteq> f_is_optional y" if "field_default_sql x = field_default_sql y"
    using assms that by (auto simp: diff_fields_def Let_def split: if_splits)
  then show ?thesis by (simp add: a my_alter_column_def ms_alter_column_def changed_def)
qed

definition int_field :: "string \<Rightarrow> type_modifier \<Rightarrow> attribute list \<Rightarrow> field" where
  "int_field n md as = \<lparr>f_name = n, f_type = TyScalar ScInt, f_modifier = md, f_attributes = as\<rparr>"

lemma int_field_type [simp]: "f_type (int_field n md as) = TyScalar ScInt" "f_attributes (int_field n md as) = as"
  by (simp_all add: int_field_def)

lemma int_field_simps [simp]:
  "field_sql_type (int_field n md as) = (case native_type_to_sql (int_field n md as) of Some t \<Rightarrow> t | None \<Rightarrow> ''INTEGER'')"
  "f_is_optional (int_field n md as) = modifier_is_optional md"
proof -
  show "field_sql_type (int_field n md as) = (case native_type_to_sql (int_field n md as) of Some t \<Rightarrow> t | None \<Rightarrow> ''INTEGER'')"
    by (simp add: field_sql_type_def split: option.splits)
qed (simp add: f_is_optional_def int_field_def)

lemma int_field_plain [simp]:
  "field_default_sql (int_field n md []) = None" "native_type_to_sql (int_field n md []) = None"
  by (simp_all add: field_default_sql_def find_attribute_def native_type_to_sql_def)

lemma nullability_change_lost_witness:
  "\<exists>a. diff_fields (int_field ''age'' Required []) (int_field ''age'' Optional []) = Some a \<and>
     list_all (prefix ''-- Column '') (my_alter_column ''users'' a) \<and>
     list_all (prefix ''-- Column '') (ms_alter_column ''users'' a)"
proof -
  obtain a where "diff_fields (int_field ''age'' Required []) (int_field ''age'' Optional []) = Some a"
    by (simp add: diff_fields_def Let_def)
  with nullability_change_lost [OF this, of "''users''"] show ?thesis by simp
qed

text \<open>
  MySQL, SQL Server and SQLite write no statement for the indexes a migration adds to or drops from
  an existing table, and SQLite none for changed columns and foreign keys.
\<close>

theorem index_changes_lost:
  "my_alter_table (a\<lparr>ma_add_indexes := new, ma_drop_indexes := old\<rparr>) = my_alter_table a \<and>
   ms_alter_table (a\<lparr>ma_add_indexes := new, ma_drop_indexes := old\<rparr>) = ms_alter_table a \<and>
   lite_alter_table (a\<lparr>ma_add_indexes := new, ma_drop_indexes := old, ma_alter_fields := fs,
     ma_add_foreign_keys := fks, ma_drop_foreign_keys := names\<rparr>) = lite_alter_table a \<and>
   my_alter_table (a\<lparr>ma_add_fields := [], ma_drop_fields := [], ma_alter_fields := [],
     ma_add_foreign_keys := [], ma_drop_foreign_keys := []\<rparr>) = [] \<and>
   ms_alter_table (a\<lparr>ma_add_fields := [], ma_drop_fields := [], ma_alter_fields := [],
     ma_add_foreign_keys := [], ma_drop_foreign_keys := []\<rparr>) = [] \<and>
   lite_alter_table (a\<lparr>ma_add_fields := [], ma_drop_fields := []\<rparr>) = []"
  by (simp add: my_alter_table_def ms_alter_table_def lite_alter_table_def Let_def)

text \<open>
  PostgreSQL and DuckDB write one statement for a changed type, one for a changed nullability and one
  for a new default, and nothing else: an alteration found by the differ gives no statement exactly
  when all it does is to remove the default of a column.
\<close>

theorem default_removal_lost:
  assumes "diff_fields x y = Some a"
  shows "length (pg_alter_column t a) = of_bool (field_sql_type x \<noteq> field_sql_type y)
      + of_bool (f_is_optional x \<noteq> f_is_optional y)
      + of_bool (field_default_sql x \<noteq> field_default_sql y \<and> field_default_sql y \<noteq> None) \<and>
    length (duck_alter_column t a) = length (pg_alter_column t a) \<and>
    (pg_alter_column t a = [] \<longleftrightarrow> field_sql_type x = field_sql_type y \<and> f_is_optional x = f_is_optional y \<and>
       field_default_sql x \<noteq> None \<and> field_default_sql y = None)"
proof -
  have a: "fl_new_type a = changed (field_sql_type x \<noteq> field_sql_type y) (Some (field_sql_type y))"
    "fl_new_nullable a = changed (f_is_optional x \<noteq> f_is_optional y) (Some (f_is_optional y))"
    "fl_new_default a = changed (field_default_sql x \<noteq> field_default_sql y) (field_default_sql y)"
    and diff: "field_sql_type x \<noteq> field_sql_type y \<or> f_is_optional x \<noteq> f_is_optional y
      \<or> field_default_sql x \<noteq> field_default_sql y"
    using assms by (auto simp: diff_fields_def Let_def split: if_splits)
  from diff show ?thesis
    by (auto simp: a pg_alter_column_def duck_alter_column_def changed_def Let_def split: option.splits)
qed

lemma default_removal_lost_witness:
  "\<exists>a. diff_fields (int_field ''n'' Required [\<lparr>at_name = ''default'', at_args = [arg_positional (ValInt 1)]\<rparr>])
       (int_field ''n'' Required []) = Some a \<and> pg_alter_column ''t'' a = []"
proof -
  let ?x = "int_field ''n'' Required [\<lparr>at_name = ''default'', at_args = [arg_positional (ValInt 1)]\<rparr>]"
  have x: "field_default_sql ?x = Some ''1''" "native_type_to_sql ?x = None"
    by (simp_all add: field_default_sql_def find_attribute_def first_arg_def arg_positional_def
      native_type_to_sql_def show_int_def digit_char_def show_nat.simps [of "Suc 0"])
  then obtain a where "diff_fields ?x (int_field ''n'' Required []) = Some a"
    by (simp add: diff_fields_def Let_def)
  with default_removal_lost [OF this, of "''t''"] x show ?thesis by simp
qed

subsection \<open>Defaults\<close>

lemma lite_default_other:
  assumes "\<not> is_space c" "c \<noteq> CHR ''T''" "c \<noteq> CHR ''F''"
  shows "lite_default (c # cs) = c # cs"
proof -
  have "trim (c # cs) = c # rev (dropWhile is_space (rev cs))"
    using assms(1) by (simp add: trim_def dropWhile_append3)
  then show ?thesis using assms by (simp add: lite_default_def)
qed

lemma lite_default_number: "lite_default (show_int i) = show_int i"
proof (cases "i < 0")
  case True
  then show ?thesis using lite_default_other [of "CHR ''-''"] by (simp add: show_int_def is_space_def)
next
  case False
  obtain c cs where n: "show_nat (nat i) = c # cs" using show_nat_nonempty by (meson neq_Nil_conv)
  then have "is_digit c" by (metis list.set_intros(1) show_nat_set_digits)
  then have "\<not> is_space c \<and> c \<noteq> CHR ''T'' \<and> c \<noteq> CHR ''F''"
    by (auto simp: is_digit_def is_space_def less_eq_char_def)
  with lite_default_other False n show ?thesis by (simp add: show_int_def)
qed

text \<open>
  SQLite: a boolean default becomes 1 or 0, and every string default, whatever it contains, and every
  integer default is written as it is.
\<close>

theorem sqlite_defaults:
  "map_option lite_default (render_default (ValBool b)) = Some (if b then ''1'' else ''0'') \<and>
   map_option lite_default (render_default (ValString s)) = render_default (ValString s) \<and>
   map_option lite_default (render_default (ValInt i)) = render_default (ValInt i)"
proof -
  have "lite_default (if b then ''TRUE'' else ''FALSE'') = (if b then ''1'' else ''0'')"
    by (simp add: lite_default_def trim_def is_space_def)
  then show ?thesis
    using lite_default_other [of SQUOTE] by (simp add: is_space_def lite_default_number)
qed

lemma scan_string_replace:
  "scan_string False (replace_char SQUOTE [SQUOTE, SQUOTE] s @ [SQUOTE]) = Some (s, [])"
  by (induction s) auto

text \<open>
  A string default, whatever bytes it contains, is one literal that denotes exactly the string for the
  lexers of PostgreSQL, DuckDB, SQLite and SQL Server; for MySQL, where a backslash escapes, a default
  that ends in a backslash leaves the literal open.
\<close>

theorem string_default_literal:
  "list_all (\<lambda>lx. Option.bind (render_default (ValString s)) (lex_sql lx) = Some [TStr s])
     [postgres_lexis, sqlite_lexis, mssql_lexis] \<and>
   Option.bind (render_default (ValString [BSLASH])) (lex_sql mysql_lexis) = None"
  by (simp add: lex_sql.simps(2) scan_string_replace lexis_defs)

end
