(* ===== verification/Row_Policies.thy ===== *)
theory Row_Policies
  imports Schema_Ast
begin

text \<open>
  Row-level security policies (\<^verbatim>\<open>prax-schema/src/ast/policy.rs\<close>): the record, its builders, and
  the statements it is turned into for PostgreSQL and for SQL Server.  Also the small blocks of a
  schema that stand beside the models: the data source with its extensions
  (\<^verbatim>\<open>datasource.rs\<close>) and the generators (\<^verbatim>\<open>generator.rs\<close>).  The process environment is an
  argument.  The laws at the end compare the statements with the commands and the expressions the
  policy names.
\<close>

subsection \<open>Text helpers\<close>

text \<open>\<^verbatim>\<open>str::to_uppercase\<close> on ASCII letters (the names compared with are ASCII).\<close>

definition upper_char :: "char \<Rightarrow> char" where
  "upper_char c = (if CHR ''a'' \<le> c \<and> c \<le> CHR ''z'' then char_of (of_char c - (32 :: nat)) else c)"
definition upper :: "string \<Rightarrow> string" where
  "upper s = map upper_char s"

text \<open>\<^verbatim>\<open>str::replace\<close> with a string pattern: the matches that do not overlap, left to right.\<close>

function replace_str :: "string \<Rightarrow> string \<Rightarrow> string \<Rightarrow> string" where
  "replace_str p r [] = []"
| "replace_str p r (x # xs) =
     (if p \<noteq> [] \<and> take (length p) (x # xs) = p then r @ replace_str p r (List.drop (length p) (x # xs))
      else x # replace_str p r xs)"
  by pat_completeness auto
termination
  by (relation "measure (\<lambda>(p, r, s). length s)") auto

subsection \<open>Policies\<close>

datatype policy_type = Permissive | Restrictive

definition policy_type_from_str :: "string \<Rightarrow> policy_type option" where
  "policy_type_from_str s =
     (if upper s = ''PERMISSIVE'' then Some Permissive
      else if upper s = ''RESTRICTIVE'' then Some Restrictive
      else None)"

fun policy_type_str :: "policy_type \<Rightarrow> string" where
  "policy_type_str Permissive = ''PERMISSIVE''"
| "policy_type_str Restrictive = ''RESTRICTIVE''"

datatype policy_command = CmdAll | CmdSelect | CmdInsert | CmdUpdate | CmdDelete

definition policy_command_from_str :: "string \<Rightarrow> policy_command option" where
  "policy_command_from_str s0 = (let s = upper s0 in
     if s = ''ALL'' then Some CmdAll
     else if s = ''SELECT'' then Some CmdSelect
     else if s = ''INSERT'' then Some CmdInsert
     else if s = ''UPDATE'' then Some CmdUpdate
     else if s = ''DELETE'' then Some CmdDelete
     else None)"

fun policy_command_str :: "policy_command \<Rightarrow> string" where
  "policy_command_str CmdAll = ''ALL''"
| "policy_command_str CmdSelect = ''SELECT''"
| "policy_command_str CmdInsert = ''INSERT''"
| "policy_command_str CmdUpdate = ''UPDATE''"
| "policy_command_str CmdDelete = ''DELETE''"

fun requires_using :: "policy_command \<Rightarrow> bool" where
  "requires_using CmdInsert = False"
| "requires_using _ = True"

fun requires_check :: "policy_command \<Rightarrow> bool" where
  "requires_check CmdAll = True"
| "requires_check CmdInsert = True"
| "requires_check CmdUpdate = True"
| "requires_check _ = False"

datatype block_operation = AfterInsert | AfterUpdate | BeforeUpdate | BeforeDelete

definition block_operation_from_str :: "string \<Rightarrow> block_operation option" where
  "block_operation_from_str s0 =
     (let s = List.filter (\<lambda>c. c \<noteq> CHR '' '' \<and> c \<noteq> CHR ''_'') (upper s0) in
      if s = ''AFTERINSERT'' then Some AfterInsert
      else if s = ''AFTERUPDATE'' then Some AfterUpdate
      else if s = ''BEFOREUPDATE'' then Some BeforeUpdate
      else if s = ''BEFOREDELETE'' then Some BeforeDelete
      else None)"

fun block_operation_str :: "block_operation \<Rightarrow> string" where
  "block_operation_str AfterInsert = ''AFTER INSERT''"
| "block_operation_str AfterUpdate = ''AFTER UPDATE''"
| "block_operation_str BeforeUpdate = ''BEFORE UPDATE''"
| "block_operation_str BeforeDelete = ''BEFORE DELETE''"

record policy =
  po_name :: string
  po_table :: string
  po_type :: policy_type
  po_commands :: "policy_command list"
  po_roles :: "string list"
  po_using :: "string option"
  po_check :: "string option"
  po_mssql_schema :: "string option"
  po_block_operations :: "block_operation list"

definition po_new :: "string \<Rightarrow> string \<Rightarrow> policy" where
  "po_new n t = \<lparr>po_name = n, po_table = t, po_type = Permissive, po_commands = [CmdAll],
     po_roles = [], po_using = None, po_check = None, po_mssql_schema = None,
     po_block_operations = []\<rparr>"

definition po_with_type :: "policy_type \<Rightarrow> policy \<Rightarrow> policy" where
  "po_with_type t p = p\<lparr>po_type := t\<rparr>"
definition po_with_commands :: "policy_command list \<Rightarrow> policy \<Rightarrow> policy" where
  "po_with_commands cs p = p\<lparr>po_commands := cs\<rparr>"
definition po_add_command :: "policy_command \<Rightarrow> policy \<Rightarrow> policy" where
  "po_add_command c p = p\<lparr>po_commands := po_commands p @ [c]\<rparr>"
definition po_with_roles :: "string list \<Rightarrow> policy \<Rightarrow> policy" where
  "po_with_roles rs p = p\<lparr>po_roles := rs\<rparr>"
definition po_add_role :: "string \<Rightarrow> policy \<Rightarrow> policy" where
  "po_add_role r p = p\<lparr>po_roles := po_roles p @ [r]\<rparr>"
definition po_with_using :: "string \<Rightarrow> policy \<Rightarrow> policy" where
  "po_with_using e p = p\<lparr>po_using := Some e\<rparr>"
definition po_with_check :: "string \<Rightarrow> policy \<Rightarrow> policy" where
  "po_with_check e p = p\<lparr>po_check := Some e\<rparr>"
definition po_with_mssql_schema :: "string \<Rightarrow> policy \<Rightarrow> policy" where
  "po_with_mssql_schema s p = p\<lparr>po_mssql_schema := Some s\<rparr>"
definition po_with_block_operations :: "block_operation list \<Rightarrow> policy \<Rightarrow> policy" where
  "po_with_block_operations os p = p\<lparr>po_block_operations := os\<rparr>"
definition po_add_block_operation :: "block_operation \<Rightarrow> policy \<Rightarrow> policy" where
  "po_add_block_operation x p = p\<lparr>po_block_operations := po_block_operations p @ [x]\<rparr>"

definition applies_to :: "policy \<Rightarrow> policy_command \<Rightarrow> bool" where
  "applies_to p c \<longleftrightarrow> CmdAll \<in> set (po_commands p) \<or> c \<in> set (po_commands p)"
definition is_restrictive :: "policy \<Rightarrow> bool" where
  "is_restrictive p \<longleftrightarrow> po_type p = Restrictive"
definition is_permissive :: "policy \<Rightarrow> bool" where
  "is_permissive p \<longleftrightarrow> po_type p = Permissive"
definition effective_roles :: "policy \<Rightarrow> string list" where
  "effective_roles p = (if po_roles p = [] then [''PUBLIC''] else po_roles p)"
definition mssql_schema :: "policy \<Rightarrow> string" where
  "mssql_schema p = unwrap_or (po_mssql_schema p) ''Security''"
definition predicate_function_name :: "policy \<Rightarrow> string" where
  "predicate_function_name p = ''fn_'' @ po_name p @ ''_predicate''"

text \<open>The clauses of \<^verbatim>\<open>to_postgres_sql\<close>, in order.\<close>

definition policy_for_clause :: "policy \<Rightarrow> string" where
  "policy_for_clause p = (case po_commands p of
     [] \<Rightarrow> []
   | c # _ \<Rightarrow> if CmdAll \<in> set (po_commands p) then [] else '' FOR '' @ policy_command_str c)"

definition to_postgres_sql :: "string \<Rightarrow> policy \<Rightarrow> string" where
  "to_postgres_sql tbl p =
     ''CREATE POLICY '' @ po_name p @ '' ON '' @ tbl
     @ (case po_type p of Permissive \<Rightarrow> [] | Restrictive \<Rightarrow> '' AS RESTRICTIVE'')
     @ policy_for_clause p
     @ '' TO '' @ join '', '' (effective_roles p)
     @ (case po_using p of Some e \<Rightarrow> '' USING ('' @ e @ '')'' | None \<Rightarrow> [])
     @ (case po_check p of Some e \<Rightarrow> '' WITH CHECK ('' @ e @ '')'' | None \<Rightarrow> [])"

definition policy_to_sql :: "string \<Rightarrow> policy \<Rightarrow> string" where
  "policy_to_sql tbl p = to_postgres_sql tbl p"

subsection \<open>SQL Server\<close>

record policy_statements =
  ps_schema :: string
  ps_function :: string
  ps_policy :: string

definition default_block_operations :: "policy \<Rightarrow> block_operation list" where
  "default_block_operations p =
     (if applies_to p CmdInsert then [AfterInsert] else [])
     @ (if applies_to p CmdUpdate then [AfterUpdate, BeforeUpdate] else [])
     @ (if applies_to p CmdDelete then [BeforeDelete] else [])"

definition user_id_cast :: string where
  "user_id_cast = ''CAST(SESSION_CONTEXT(N'' @ [SQUOTE] @ ''UserId'' @ [SQUOTE] @ '') AS INT)''"

definition filter_expr :: "policy \<Rightarrow> string" where
  "filter_expr p =
     replace_str (''current_setting('' @ [SQUOTE] @ ''app.current_org'' @ [SQUOTE] @ '')'')
       (''SESSION_CONTEXT(N'' @ [SQUOTE] @ ''OrgId'' @ [SQUOTE] @ '')'')
       (replace_str ''auth.uid()'' user_id_cast
         (replace_str ''current_user_id()'' user_id_cast (unwrap_or (po_using p) ''1 = 1'')))"

definition predicate_call :: "string \<Rightarrow> string \<Rightarrow> policy \<Rightarrow> string" where
  "predicate_call tbl col p =
     mssql_schema p @ ''.'' @ predicate_function_name p @ ''('' @ col @ '') ON '' @ tbl"

definition function_sql :: "string \<Rightarrow> policy \<Rightarrow> string" where
  "function_sql col p =
     ''CREATE FUNCTION '' @ mssql_schema p @ ''.'' @ predicate_function_name p @ ''(@'' @ col
     @ '' AS INT)\<newline>    RETURNS TABLE\<newline>WITH SCHEMABINDING\<newline>AS\<newline>    RETURN SELECT 1 AS fn_securitypredicate_result\<newline>    WHERE ''
     @ filter_expr p"

text \<open>The operations the block predicates are for, and the predicates in the order they are written.\<close>

definition block_operations :: "policy \<Rightarrow> block_operation list" where
  "block_operations p =
     (if po_block_operations p = [] then default_block_operations p else po_block_operations p)"

definition block_predicate :: "string \<Rightarrow> string \<Rightarrow> policy \<Rightarrow> block_operation \<Rightarrow> string" where
  "block_predicate tbl col p x =
     ''ADD BLOCK PREDICATE '' @ predicate_call tbl col p @ '' '' @ block_operation_str x"

definition security_predicates :: "string \<Rightarrow> string \<Rightarrow> policy \<Rightarrow> string list" where
  "security_predicates tbl col p =
     (if po_using p = None then [] else [''ADD FILTER PREDICATE '' @ predicate_call tbl col p])
     @ (if po_check p = None then []
        else map (block_predicate tbl col p) (block_operations p))"

definition policy_sql :: "string \<Rightarrow> string \<Rightarrow> policy \<Rightarrow> string" where
  "policy_sql tbl col p =
     ''CREATE SECURITY POLICY '' @ mssql_schema p @ ''.'' @ po_name p @ ''\<newline>''
     @ join '',\<newline>'' (security_predicates tbl col p)
     @ ''\<newline>WITH (STATE = ON)''"

definition to_mssql_sql :: "string \<Rightarrow> string \<Rightarrow> policy \<Rightarrow> policy_statements" where
  "to_mssql_sql tbl col p =
     \<lparr>ps_schema = ''CREATE SCHEMA '' @ mssql_schema p, ps_function = function_sql col p,
      ps_policy = policy_sql tbl col p\<rparr>"

definition all_statements :: "policy_statements \<Rightarrow> string list" where
  "all_statements s = [ps_schema s, ps_function s, ps_policy s]"

definition statements_to_sql :: "policy_statements \<Rightarrow> string" where
  "statements_to_sql s = ps_schema s @ '';\<newline>GO\<newline>\<newline>'' @ ps_function s @ '';\<newline>GO\<newline>\<newline>'' @ ps_policy s @ '';''"

subsection \<open>Data source\<close>

datatype database_provider = PvPostgreSQL | PvMySQL | PvSQLite | PvMongoDB

definition provider_from_str :: "string \<Rightarrow> database_provider option" where
  "provider_from_str s0 = (let s = lower s0 in
     if s = ''postgresql'' \<or> s = ''postgres'' then Some PvPostgreSQL
     else if s = ''mysql'' then Some PvMySQL
     else if s = ''sqlite'' then Some PvSQLite
     else if s = ''mongodb'' then Some PvMongoDB
     else None)"

fun provider_as_str :: "database_provider \<Rightarrow> string" where
  "provider_as_str PvPostgreSQL = ''postgresql''"
| "provider_as_str PvMySQL = ''mysql''"
| "provider_as_str PvSQLite = ''sqlite''"
| "provider_as_str PvMongoDB = ''mongodb''"

definition supports_extensions :: "database_provider \<Rightarrow> bool" where
  "supports_extensions p \<longleftrightarrow> p = PvPostgreSQL"

record pg_extension =
  px_name :: string
  px_schema :: "string option"
  px_version :: "string option"

definition px_create_sql :: "pg_extension \<Rightarrow> string" where
  "px_create_sql x =
     ''CREATE EXTENSION IF NOT EXISTS '' @ [DQUOTE] @ px_name x @ [DQUOTE]
     @ (case px_schema x of Some s \<Rightarrow> '' SCHEMA '' @ [DQUOTE] @ s @ [DQUOTE] | None \<Rightarrow> [])
     @ (case px_version x of Some v \<Rightarrow> '' VERSION '' @ [SQUOTE] @ v @ [SQUOTE] | None \<Rightarrow> [])
     @ '';''"

definition px_drop_sql :: "pg_extension \<Rightarrow> string" where
  "px_drop_sql x = ''DROP EXTENSION IF EXISTS '' @ [DQUOTE] @ px_name x @ [DQUOTE] @ '' CASCADE;''"

definition provides_custom_types :: "pg_extension \<Rightarrow> bool" where
  "provides_custom_types x \<longleftrightarrow>
     px_name x \<in> {''vector'', ''pgvector'', ''postgis'', ''hstore'', ''ltree'', ''cube'', ''citext''}"

record datasource =
  ds_name :: string
  ds_provider :: database_provider
  ds_url :: "string option"
  ds_url_env :: "string option"
  ds_extensions :: "pg_extension list"
  ds_properties :: "(string \<times> string) list"

definition ds_new :: "string \<Rightarrow> database_provider \<Rightarrow> datasource" where
  "ds_new n p = \<lparr>ds_name = n, ds_provider = p, ds_url = None, ds_url_env = None,
     ds_extensions = [], ds_properties = []\<rparr>"
definition ds_add_extension :: "pg_extension \<Rightarrow> datasource \<Rightarrow> datasource" where
  "ds_add_extension x d = d\<lparr>ds_extensions := ds_extensions d @ [x]\<rparr>"
definition ds_has_extension :: "string \<Rightarrow> datasource \<Rightarrow> bool" where
  "ds_has_extension n d = list_ex (\<lambda>x. px_name x = n) (ds_extensions d)"
definition ds_get_extension :: "string \<Rightarrow> datasource \<Rightarrow> pg_extension option" where
  "ds_get_extension n d = find (\<lambda>x. px_name x = n) (ds_extensions d)"
definition ds_has_vector_support :: "datasource \<Rightarrow> bool" where
  "ds_has_vector_support d \<longleftrightarrow> ds_has_extension ''vector'' d \<or> ds_has_extension ''pgvector'' d"
definition extensions_create_sql :: "datasource \<Rightarrow> string list" where
  "extensions_create_sql d = map px_create_sql (ds_extensions d)"

subsection \<open>Generators\<close>

datatype generator_toggle = GtAlways | GtNever | GtLiteral bool | GtEnv string
datatype generator_value = GvString string | GvBool bool | GvEnv string | GvIdent string

record generator =
  ge_name :: string
  ge_provider :: "string option"
  ge_output :: "string option"
  ge_generate :: generator_toggle
  ge_properties :: "generator_value index_map"

text \<open>\<open>env\<close> is the process environment.\<close>

fun toggle_enabled :: "(string \<Rightarrow> string option) \<Rightarrow> generator_toggle \<Rightarrow> bool" where
  "toggle_enabled env GtAlways = True"
| "toggle_enabled env GtNever = False"
| "toggle_enabled env (GtLiteral b) = b"
| "toggle_enabled env (GtEnv v) = (case env v of
     Some x \<Rightarrow> lower (trim x) \<in> {''true'', ''1'', ''yes''} | None \<Rightarrow> False)"

definition ge_is_enabled :: "(string \<Rightarrow> string option) \<Rightarrow> generator \<Rightarrow> bool" where
  "ge_is_enabled env g = toggle_enabled env (ge_generate g)"

fun gv_resolve :: "(string \<Rightarrow> string option) \<Rightarrow> generator_value \<Rightarrow> string option" where
  "gv_resolve env (GvString s) = Some s"
| "gv_resolve env (GvBool b) = Some (if b then ''true'' else ''false'')"
| "gv_resolve env (GvIdent s) = Some s"
| "gv_resolve env (GvEnv v) = env v"

subsection \<open>Laws\<close>

lemma replace_str_absent:
  "(\<And>a b. s \<noteq> a @ p @ b) \<Longrightarrow> replace_str p r s = s"
proof (induction s)
  case (Cons x xs)
  have "\<not> (p \<noteq> [] \<and> take (length p) (x # xs) = p)"
  proof
    assume a: "p \<noteq> [] \<and> take (length p) (x # xs) = p"
    then have "x # xs = [] @ p @ List.drop (length p) (x # xs)"
      using append_take_drop_id [of "length p" "x # xs"] by simp
    with Cons.prems show False by blast
  qed
  moreover have "xs \<noteq> a @ p @ b" for a b using Cons.prems [of "x # a" b] by simp
  ultimately show ?case using Cons.IH by auto
qed simp

text \<open>The commands a statement with this \<^verbatim>\<open>FOR\<close> clause restricts in PostgreSQL.\<close>

definition postgres_scope :: "policy \<Rightarrow> policy_command set" where
  "postgres_scope p = (case po_commands p of
     [] \<Rightarrow> UNIV | c # _ \<Rightarrow> if CmdAll \<in> set (po_commands p) then UNIV else {c})"

text \<open>The command that a block predicate of this kind guards.\<close>

fun guarded_command :: "block_operation \<Rightarrow> policy_command" where
  "guarded_command AfterInsert = CmdInsert"
| "guarded_command AfterUpdate = CmdUpdate"
| "guarded_command BeforeUpdate = CmdUpdate"
| "guarded_command BeforeDelete = CmdDelete"

lemma default_block_operations_iff:
  "x \<in> set (default_block_operations p) \<longleftrightarrow> applies_to p (guarded_command x)"
  by (cases x) (auto simp: default_block_operations_def)

lemma block_operation_str_inj: "block_operation_str x = block_operation_str y \<longleftrightarrow> x = y"
  by (cases x; cases y) simp_all

named_theorems check_irrelevant \<open>what does not read the \<^verbatim>\<open>CHECK\<close> expression\<close>

lemma mssql_parts_check [check_irrelevant]:
  "mssql_schema (p\<lparr>po_check := c\<rparr>) = mssql_schema p"
  "predicate_function_name (p\<lparr>po_check := c\<rparr>) = predicate_function_name p"
  "filter_expr (p\<lparr>po_check := c\<rparr>) = filter_expr p"
  "applies_to (p\<lparr>po_check := c\<rparr>) = applies_to p"
  by (simp_all add: mssql_schema_def predicate_function_name_def filter_expr_def applies_to_def fun_eq_iff)

lemma predicates_check [check_irrelevant]:
  "predicate_call tbl col (p\<lparr>po_check := c\<rparr>) = predicate_call tbl col p"
  "block_predicate tbl col (p\<lparr>po_check := c\<rparr>) = block_predicate tbl col p"
  "block_operations (p\<lparr>po_check := c\<rparr>) = block_operations p"
  by (simp_all add: predicate_call_def block_predicate_def block_operations_def
      default_block_operations_def check_irrelevant fun_eq_iff)

lemma no_predicate_iff:
  "security_predicates tbl col p = [] \<longleftrightarrow>
   po_using p = None \<and> (po_check p = None \<or> block_operations p = [])"
  by (auto simp: security_predicates_def)

text \<open>
  A PostgreSQL policy restricts every command it applies to exactly when it names one
  command, or \<^verbatim>\<open>ALL\<close>: of a list of several commands the statement keeps the first, and the
  statement is the same whatever follows it.
\<close>

theorem postgres_policy_commands:
  assumes "po_commands p = c # cs" and "CmdAll \<notin> set (po_commands p)"
  shows "to_postgres_sql tbl p = to_postgres_sql tbl (p\<lparr>po_commands := [c]\<rparr>) \<and>
    ((\<forall>d. applies_to p d \<longrightarrow> d \<in> postgres_scope p) \<longleftrightarrow> set cs \<subseteq> {c})"
  using assms
  by (auto simp: to_postgres_sql_def policy_for_clause_def effective_roles_def applies_to_def
      postgres_scope_def)

definition write_policy :: policy where
  "write_policy = po_with_check ''owner = me()'' (po_with_commands [CmdInsert, CmdUpdate, CmdDelete]
     (po_new ''own_rows'' ''User''))"

theorem postgres_policy_commands_witness:
  "to_postgres_sql ''users'' write_policy
     = ''CREATE POLICY own_rows ON users FOR INSERT TO PUBLIC WITH CHECK (owner = me())'' \<and>
   to_postgres_sql ''users'' write_policy
     = to_postgres_sql ''users'' (write_policy\<lparr>po_commands := [CmdInsert]\<rparr>) \<and>
   applies_to write_policy CmdDelete \<and> CmdDelete \<notin> postgres_scope write_policy"
  using postgres_policy_commands [of write_policy CmdInsert "[CmdUpdate, CmdDelete]" "''users''"]
  by (simp add: write_policy_def po_new_def po_with_commands_def po_with_check_def applies_to_def
      postgres_scope_def to_postgres_sql_def policy_for_clause_def effective_roles_def)

text \<open>
  For SQL Server the block predicates, one per command that writes and that the policy applies
  to when none are chosen, call the predicate function of the \<^verbatim>\<open>USING\<close> expression: the text of
  the \<^verbatim>\<open>CHECK\<close> expression reaches no statement, and without a \<^verbatim>\<open>USING\<close> expression the
  function accepts every row.
\<close>

theorem mssql_policy_check:
  "to_mssql_sql tbl col (p\<lparr>po_check := Some a\<rparr>) = to_mssql_sql tbl col (p\<lparr>po_check := Some b\<rparr>) \<and>
   filter_expr (p\<lparr>po_using := None\<rparr>) = ''1 = 1'' \<and>
   (\<forall>x. (block_predicate tbl col p x
         \<in> set (security_predicates tbl col (p\<lparr>po_using := None, po_check := Some a,
                                              po_block_operations := []\<rparr>)))
        = applies_to p (guarded_command x))"
proof -
  have eq: "block_predicate tbl col (p\<lparr>po_using := u, po_check := c, po_block_operations := os\<rparr>)
      = block_predicate tbl col p" for u c os
    by (simp add: block_predicate_def predicate_call_def mssql_schema_def predicate_function_name_def fun_eq_iff)
  have inj: "inj (block_predicate tbl col p)"
    by (auto simp: inj_def block_predicate_def block_operation_str_inj)
  have "to_mssql_sql tbl col (p\<lparr>po_check := Some a\<rparr>) = to_mssql_sql tbl col (p\<lparr>po_check := Some b\<rparr>)"
    by (simp add: to_mssql_sql_def function_sql_def policy_sql_def security_predicates_def
        check_irrelevant)
  moreover have "filter_expr (p\<lparr>po_using := None\<rparr>) = ''1 = 1''"
    by (simp add: filter_expr_def unwrap_or_def)
  moreover have "(block_predicate tbl col p x
         \<in> set (security_predicates tbl col (p\<lparr>po_using := None, po_check := Some a,
                                              po_block_operations := []\<rparr>)))
        = applies_to p (guarded_command x)" for x
    using default_block_operations_iff [of x p]
    by (simp add: security_predicates_def eq block_operations_def inj_image_mem_iff [OF inj]
        default_block_operations_def applies_to_def)
  ultimately show ?thesis by blast
qed

end
