(* ===== verification/Schema_Full.thy ===== *)
theory Schema_Full
  imports Row_Policies Complex_Main "HOL-Library.Multiset"
begin

text \<open>
  The whole schema: the parts a migration reads (\<^theory_text>\<open>schema\<close> of \<open>Schema_Ast\<close>), extended by
  composite types, server groups (\<^verbatim>\<open>ast/server_group.rs\<close>), policies, generators, the data
  source and the relations found by the validator (\<^verbatim>\<open>ast/relation.rs\<close>); the error type of the
  crate (\<^verbatim>\<open>error.rs\<close>); and the merging of schemas that come from several files
  (\<^verbatim>\<open>Schema::try_merge\<close>, \<^verbatim>\<open>loader/merge.rs\<close>).  Where an item was written (its span and
  source file) is left out: only messages show it.  A number literal is finite and stands for the
  rational it denotes.
\<close>

subsection \<open>Composite types and relations\<close>

record composite_type =
  cy_name :: string
  cy_fields :: "field index_map"

definition cy_new :: "string \<Rightarrow> composite_type" where
  "cy_new n = \<lparr>cy_name = n, cy_fields = []\<rparr>"
definition cy_add_field :: "field \<Rightarrow> composite_type \<Rightarrow> composite_type" where
  "cy_add_field f t = t\<lparr>cy_fields := AList.update (f_name f) f (cy_fields t)\<rparr>"
definition cy_get_field :: "string \<Rightarrow> composite_type \<Rightarrow> field option" where
  "cy_get_field n t = map_of (cy_fields t) n"

datatype relation_type = OneToOne | OneToMany | ManyToOne | ManyToMany

fun rt_is_to_one :: "relation_type \<Rightarrow> bool" where
  "rt_is_to_one t \<longleftrightarrow> t = OneToOne \<or> t = ManyToOne"
fun rt_is_to_many :: "relation_type \<Rightarrow> bool" where
  "rt_is_to_many t \<longleftrightarrow> t = OneToMany \<or> t = ManyToMany"
fun rt_is_from_many :: "relation_type \<Rightarrow> bool" where
  "rt_is_from_many t \<longleftrightarrow> t = ManyToOne \<or> t = ManyToMany"

record relation =
  re_name :: "string option"
  re_from_model :: string
  re_from_field :: string
  re_from_fields :: "string list"
  re_to_model :: string
  re_to_field :: "string option"
  re_to_fields :: "string list"
  re_type :: relation_type
  re_on_delete :: "referential_action option"
  re_on_update :: "referential_action option"
  re_map :: "string option"

definition re_new :: "string \<Rightarrow> string \<Rightarrow> string \<Rightarrow> relation_type \<Rightarrow> relation" where
  "re_new m f t ty = \<lparr>re_name = None, re_from_model = m, re_from_field = f, re_from_fields = [],
     re_to_model = t, re_to_field = None, re_to_fields = [], re_type = ty, re_on_delete = None,
     re_on_update = None, re_map = None\<rparr>"

definition is_implicit_many_to_many :: "relation \<Rightarrow> bool" where
  "is_implicit_many_to_many r \<longleftrightarrow> re_type r = ManyToMany \<and> re_from_fields r = []"

text \<open>The order of Rust's strings is the order of their bytes.\<close>

fun str_less :: "string \<Rightarrow> string \<Rightarrow> bool" where
  "str_less [] ys = (ys \<noteq> [])"
| "str_less (x # xs) [] = False"
| "str_less (x # xs) (y # ys) = (x < y \<or> (x = y \<and> str_less xs ys))"

definition join_table_name :: "relation \<Rightarrow> string option" where
  "join_table_name r =
     (if re_type r \<noteq> ManyToMany then None
      else let (a, b) = (if str_less (re_to_model r) (re_from_model r)
                         then (re_to_model r, re_from_model r) else (re_from_model r, re_to_model r))
           in Some (''_'' @ a @ ''_to_'' @ b))"

subsection \<open>Server groups\<close>

datatype server_value =
    SvString string | SvNumber rat | SvBoolean bool | SvIdent string | SvEnv string
  | SvArray "server_value list"

datatype server_role = RolePrimary | RoleReplica | RoleAnalytics | RoleArchive | RoleShard

definition role_parse :: "string \<Rightarrow> server_role option" where
  "role_parse s0 = (let s = lower s0 in
     if s \<in> {''primary'', ''master'', ''writer''} then Some RolePrimary
     else if s \<in> {''replica'', ''slave'', ''reader'', ''read''} then Some RoleReplica
     else if s \<in> {''analytics'', ''reporting'', ''olap''} then Some RoleAnalytics
     else if s \<in> {''archive'', ''historical''} then Some RoleArchive
     else if s = ''shard'' then Some RoleShard
     else None)"

fun role_as_str :: "server_role \<Rightarrow> string" where
  "role_as_str RolePrimary = ''primary''"
| "role_as_str RoleReplica = ''replica''"
| "role_as_str RoleAnalytics = ''analytics''"
| "role_as_str RoleArchive = ''archive''"
| "role_as_str RoleShard = ''shard''"

text \<open>\<^verbatim>\<open>s.to_lowercase().replace(['-', '_'], "")\<close>.\<close>

definition squash :: "string \<Rightarrow> string" where
  "squash s = List.filter (\<lambda>c. c \<noteq> CHR ''-'' \<and> c \<noteq> CHR ''_'') (lower s)"

datatype group_strategy = ReadReplica | Sharding | MultiRegion | HighAvailability | CustomStrategy

definition strategy_parse :: "string \<Rightarrow> group_strategy option" where
  "strategy_parse s0 = (let s = squash s0 in
     if s \<in> {''readreplica'', ''replication''} then Some ReadReplica
     else if s \<in> {''sharding'', ''shard'', ''partition''} then Some Sharding
     else if s \<in> {''multiregion'', ''georeplica'', ''geographic''} then Some MultiRegion
     else if s \<in> {''highavailability'', ''ha'', ''failover''} then Some HighAvailability
     else if s = ''custom'' then Some CustomStrategy
     else None)"

fun strategy_as_str :: "group_strategy \<Rightarrow> string" where
  "strategy_as_str ReadReplica = ''ReadReplica''"
| "strategy_as_str Sharding = ''Sharding''"
| "strategy_as_str MultiRegion = ''MultiRegion''"
| "strategy_as_str HighAvailability = ''HighAvailability''"
| "strategy_as_str CustomStrategy = ''Custom''"

datatype load_balance = RoundRobin | Random | LeastConnections | Weighted | Nearest | Sticky

definition balance_parse :: "string \<Rightarrow> load_balance option" where
  "balance_parse s0 = (let s = squash s0 in
     if s \<in> {''roundrobin'', ''rr''} then Some RoundRobin
     else if s \<in> {''random'', ''rand''} then Some Random
     else if s \<in> {''leastconnections'', ''leastconn'', ''least''} then Some LeastConnections
     else if s \<in> {''weighted'', ''weight''} then Some Weighted
     else if s \<in> {''nearest'', ''latency'', ''geo''} then Some Nearest
     else if s \<in> {''sticky'', ''affinity'', ''session''} then Some Sticky
     else None)"

fun balance_as_str :: "load_balance \<Rightarrow> string" where
  "balance_as_str RoundRobin = ''RoundRobin''"
| "balance_as_str Random = ''Random''"
| "balance_as_str LeastConnections = ''LeastConnections''"
| "balance_as_str Weighted = ''Weighted''"
| "balance_as_str Nearest = ''Nearest''"
| "balance_as_str Sticky = ''Sticky''"

record server =
  sv_name :: string
  sv_properties :: "server_value index_map"

definition sv_add_property :: "string \<Rightarrow> server_value \<Rightarrow> server \<Rightarrow> server" where
  "sv_add_property n v s = s\<lparr>sv_properties := AList.update n v (sv_properties s)\<rparr>"
definition sv_get_property :: "string \<Rightarrow> server \<Rightarrow> server_value option" where
  "sv_get_property n s = map_of (sv_properties s) n"

definition sv_url :: "server \<Rightarrow> string option" where
  "sv_url s = (case sv_get_property ''url'' s of
     Some (SvString u) \<Rightarrow> Some u | Some (SvEnv v) \<Rightarrow> Some v | _ \<Rightarrow> None)"
definition sv_role :: "server \<Rightarrow> server_role option" where
  "sv_role s = (case sv_get_property ''role'' s of
     Some (SvString r) \<Rightarrow> role_parse r | Some (SvIdent r) \<Rightarrow> role_parse r | _ \<Rightarrow> None)"

text \<open>\<^verbatim>\<open>f64 as u32\<close> saturates and drops the fraction.\<close>

definition u32_of_rat :: "rat \<Rightarrow> u32" where
  "u32_of_rat q = (if q < 0 then 0 else if 4294967295 \<le> q then 4294967295 else of_int \<lfloor>q\<rfloor>)"

definition sv_number :: "string \<Rightarrow> server \<Rightarrow> u32 option" where
  "sv_number n s = (case sv_get_property n s of Some (SvNumber q) \<Rightarrow> Some (u32_of_rat q) | _ \<Rightarrow> None)"
definition sv_string :: "string \<Rightarrow> server \<Rightarrow> string option" where
  "sv_string n s = (case sv_get_property n s of Some (SvString x) \<Rightarrow> Some x | _ \<Rightarrow> None)"
definition sv_weight :: "server \<Rightarrow> u32 option" where "sv_weight s = sv_number ''weight'' s"
definition sv_priority :: "server \<Rightarrow> u32 option" where "sv_priority s = sv_number ''priority'' s"
definition sv_max_connections :: "server \<Rightarrow> u32 option" where
  "sv_max_connections s = sv_number ''maxConnections'' s"
definition sv_region :: "server \<Rightarrow> string option" where "sv_region s = sv_string ''region'' s"
definition sv_health_check :: "server \<Rightarrow> string option" where
  "sv_health_check s = sv_string ''healthCheck'' s"
definition sv_is_read_only :: "server \<Rightarrow> bool" where
  "sv_is_read_only s = (case sv_get_property ''readOnly'' s of
     Some (SvBoolean b) \<Rightarrow> b | _ \<Rightarrow> sv_role s = Some RoleReplica)"

record server_group =
  sg_name :: string
  sg_servers :: "server index_map"
  sg_attributes :: "attribute list"

definition sg_add_server :: "server \<Rightarrow> server_group \<Rightarrow> server_group" where
  "sg_add_server s g = g\<lparr>sg_servers := AList.update (sv_name s) s (sg_servers g)\<rparr>"
definition sg_add_attribute :: "attribute \<Rightarrow> server_group \<Rightarrow> server_group" where
  "sg_add_attribute a g = g\<lparr>sg_attributes := sg_attributes g @ [a]\<rparr>"

text \<open>The text of a setting: a string or an identifier.\<close>

definition setting_text :: "attr_value \<Rightarrow> string option" where
  "setting_text v = (case val_as_string v of Some s \<Rightarrow> Some s | None \<Rightarrow> val_as_ident v)"

text \<open>The first attribute of this name that has an argument decides, even when its value is unknown.\<close>

fun group_setting :: "string \<Rightarrow> (string \<Rightarrow> 'a option) \<Rightarrow> attribute list \<Rightarrow> 'a option" where
  "group_setting n parse [] = None"
| "group_setting n parse (a # as) =
     (if at_name a = n \<and> first_arg a \<noteq> None
      then Option.bind (Option.bind (first_arg a) setting_text) parse
      else group_setting n parse as)"

definition sg_strategy :: "server_group \<Rightarrow> group_strategy option" where
  "sg_strategy g = group_setting ''strategy'' strategy_parse (sg_attributes g)"
definition sg_load_balance :: "server_group \<Rightarrow> load_balance option" where
  "sg_load_balance g = group_setting ''loadBalance'' balance_parse (sg_attributes g)"
definition sg_primary :: "server_group \<Rightarrow> server option" where
  "sg_primary g = find (\<lambda>s. sv_role s = Some RolePrimary) (map_values (sg_servers g))"
definition sg_replicas :: "server_group \<Rightarrow> server list" where
  "sg_replicas g = List.filter (\<lambda>s. sv_role s = Some RoleReplica) (map_values (sg_servers g))"
definition sg_in_region :: "string \<Rightarrow> server_group \<Rightarrow> server list" where
  "sg_in_region r g = List.filter (\<lambda>s. sv_region s = Some r) (map_values (sg_servers g))"

definition failover_rank :: "server \<Rightarrow> u32" where
  "failover_rank s = unwrap_or (sv_priority s) (- 1)"
definition failover_order :: "server_group \<Rightarrow> server list" where
  "failover_order g = sort_key failover_rank (map_values (sg_servers g))"

end
