(* ===== verification/Schema_Merge.thy ===== *)
theory Schema_Merge
  imports Schema_Full
begin

text \<open>
  The whole schema and the merging of schemas that come from several files
  (\<^verbatim>\<open>ast/schema.rs\<close>, \<^verbatim>\<open>loader/merge.rs\<close>), with the error type of the crate
  (\<^verbatim>\<open>error.rs\<close>).  The specification of a merge is on lookups: \<open>try_merge\<close> reports a name
  exactly when both sides define it, keeps what the first side has, and adds the rest.
\<close>

subsection \<open>Errors\<close>

datatype duplicate_kind =
    DkModel | DkEnum | DkType | DkView | DkServerGroup | DkPolicy | DkGenerator | DkRawSql | DkProcedure

datatype schema_error =
    IoError string
  | SyntaxError string
  | InvalidModel string string
  | InvalidField string string string
  | InvalidRelation string string string
  | DuplicateDef string string
  | UnknownType string string string
  | InvalidAttribute string string
  | MissingId string
  | ConfigError string
  | TomlError string
  | ValidationFailed nat "schema_error list"
  | MissingVectorDimension string
  | InvalidVectorType string
  | InvalidVectorMetric string
  | InvalidVectorIndex string
  | ParseInFile u32 schema_error
  | DuplicateAcrossFiles duplicate_kind string
  | MultipleDatasourceError
  | EmptySchemaDirectory string

subsection \<open>The schema\<close>

record full_schema = schema +
  fs_datasource :: "datasource option"
  fs_generators :: "generator index_map"
  fs_types :: "composite_type index_map"
  fs_server_groups :: "server_group index_map"
  fs_policies :: "policy list"
  fs_relations :: "relation list"

definition fs_new :: full_schema where
  "fs_new = \<lparr>sm_models = [], sm_enums = [], sm_views = [], sm_procedures = [], sm_raw_sql = [],
     fs_datasource = None, fs_generators = [], fs_types = [], fs_server_groups = [],
     fs_policies = [], fs_relations = []\<rparr>"

definition fs_set_datasource :: "datasource \<Rightarrow> full_schema \<Rightarrow> full_schema" where
  "fs_set_datasource d s = s\<lparr>fs_datasource := Some d\<rparr>"
definition fs_has_vector_support :: "full_schema \<Rightarrow> bool" where
  "fs_has_vector_support s = (case fs_datasource s of Some d \<Rightarrow> ds_has_vector_support d | None \<Rightarrow> False)"
definition fs_required_extensions :: "full_schema \<Rightarrow> pg_extension list" where
  "fs_required_extensions s = (case fs_datasource s of Some d \<Rightarrow> ds_extensions d | None \<Rightarrow> [])"
definition fs_add_generator :: "generator \<Rightarrow> full_schema \<Rightarrow> full_schema" where
  "fs_add_generator g s = s\<lparr>fs_generators := AList.update (ge_name g) g (fs_generators s)\<rparr>"
definition fs_enabled_generators :: "(string \<Rightarrow> string option) \<Rightarrow> full_schema \<Rightarrow> generator list" where
  "fs_enabled_generators env s = List.filter (ge_is_enabled env) (map_values (fs_generators s))"
definition fs_add_type :: "composite_type \<Rightarrow> full_schema \<Rightarrow> full_schema" where
  "fs_add_type t s = s\<lparr>fs_types := AList.update (cy_name t) t (fs_types s)\<rparr>"
definition fs_add_server_group :: "server_group \<Rightarrow> full_schema \<Rightarrow> full_schema" where
  "fs_add_server_group g s = s\<lparr>fs_server_groups := AList.update (sg_name g) g (fs_server_groups s)\<rparr>"
definition fs_add_policy :: "policy \<Rightarrow> full_schema \<Rightarrow> full_schema" where
  "fs_add_policy p s = s\<lparr>fs_policies := fs_policies s @ [p]\<rparr>"
definition fs_get_policy :: "string \<Rightarrow> full_schema \<Rightarrow> policy option" where
  "fs_get_policy n s = find (\<lambda>p. po_name p = n) (fs_policies s)"
definition fs_policies_for :: "string \<Rightarrow> full_schema \<Rightarrow> policy list" where
  "fs_policies_for m s = List.filter (\<lambda>p. po_table p = m) (fs_policies s)"
definition fs_has_policies :: "string \<Rightarrow> full_schema \<Rightarrow> bool" where
  "fs_has_policies m s = list_ex (\<lambda>p. po_table p = m) (fs_policies s)"

definition has_key :: "'v index_map \<Rightarrow> string \<Rightarrow> bool" where
  "has_key m k \<longleftrightarrow> map_of m k \<noteq> None"

definition fs_type_exists :: "string \<Rightarrow> full_schema \<Rightarrow> bool" where
  "fs_type_exists n s \<longleftrightarrow> has_key (sm_models s) n \<or> has_key (sm_enums s) n
     \<or> has_key (fs_types s) n \<or> has_key (sm_views s) n"
definition fs_relations_for :: "string \<Rightarrow> full_schema \<Rightarrow> relation list" where
  "fs_relations_for m s = List.filter (\<lambda>r. re_from_model r = m \<or> re_to_model r = m) (fs_relations s)"
definition fs_relations_from :: "string \<Rightarrow> full_schema \<Rightarrow> relation list" where
  "fs_relations_from m s = List.filter (\<lambda>r. re_from_model r = m) (fs_relations s)"

record schema_stats =
  st_models :: nat
  st_enums :: nat
  st_types :: nat
  st_views :: nat
  st_server_groups :: nat
  st_procedures :: nat
  st_policies :: nat
  st_fields :: nat
  st_relations :: nat

definition fs_stats :: "full_schema \<Rightarrow> schema_stats" where
  "fs_stats s =
     \<lparr>st_models = length (sm_models s), st_enums = length (sm_enums s), st_types = length (fs_types s),
      st_views = length (sm_views s), st_server_groups = length (fs_server_groups s),
      st_procedures = length (sm_procedures s), st_policies = length (fs_policies s),
      st_fields = sum_list (map (\<lambda>m. length (mo_fields m)) (map_values (sm_models s))),
      st_relations = length (fs_relations s)\<rparr>"

subsection \<open>Merging\<close>

text \<open>\<^verbatim>\<open>IndexMap::extend\<close>, and the merge that overwrites.\<close>

definition extend_map :: "'v index_map \<Rightarrow> 'v index_map \<Rightarrow> 'v index_map" where
  "extend_map m x = foldl (\<lambda>m (k, v). AList.update k v m) m x"

definition merge_overwrite :: "full_schema \<Rightarrow> full_schema \<Rightarrow> full_schema" where
  "merge_overwrite s t = s\<lparr>
     sm_models := extend_map (sm_models s) (sm_models t),
     sm_enums := extend_map (sm_enums s) (sm_enums t),
     fs_types := extend_map (fs_types s) (fs_types t),
     sm_views := extend_map (sm_views s) (sm_views t),
     fs_server_groups := extend_map (fs_server_groups s) (fs_server_groups t),
     fs_policies := fs_policies s @ fs_policies t,
     sm_raw_sql := sm_raw_sql s @ sm_raw_sql t\<rparr>"

datatype merge_conflict = DuplicateItem duplicate_kind string | MultipleDatasource

text \<open>One loop of \<^verbatim>\<open>try_merge\<close> over an index map, and one over a list of named items.\<close>

fun merge_map :: "duplicate_kind \<Rightarrow> 'v index_map \<Rightarrow> 'v index_map \<Rightarrow> 'v index_map \<times> merge_conflict list" where
  "merge_map k m [] = (m, [])"
| "merge_map k m ((n, v) # ys) =
     (if has_key m n then let (m', cs) = merge_map k m ys in (m', DuplicateItem k n # cs)
      else merge_map k (AList.update n v m) ys)"

fun merge_list :: "duplicate_kind \<Rightarrow> ('v \<Rightarrow> string) \<Rightarrow> 'v list \<Rightarrow> 'v list \<Rightarrow> 'v list \<times> merge_conflict list" where
  "merge_list k f xs [] = (xs, [])"
| "merge_list k f xs (y # ys) =
     (if list_ex (\<lambda>x. f x = f y) xs
      then let (xs', cs) = merge_list k f xs ys in (xs', DuplicateItem k (f y) # cs)
      else merge_list k f (xs @ [y]) ys)"

definition merge_datasource :: "datasource option \<Rightarrow> datasource option \<Rightarrow> datasource option \<times> merge_conflict list" where
  "merge_datasource x y = (case (x, y) of
     (Some d, Some e) \<Rightarrow> (Some d, [MultipleDatasource])
   | (None, Some e) \<Rightarrow> (Some e, [])
   | (d, None) \<Rightarrow> (d, []))"

definition try_merge :: "full_schema \<Rightarrow> full_schema \<Rightarrow> full_schema \<times> merge_conflict list" where
  "try_merge s t =
     (let (mo, c1) = merge_map DkModel (sm_models s) (sm_models t);
          (en, c2) = merge_map DkEnum (sm_enums s) (sm_enums t);
          (ty, c3) = merge_map DkType (fs_types s) (fs_types t);
          (vi, c4) = merge_map DkView (sm_views s) (sm_views t);
          (pr, c5) = merge_map DkProcedure (sm_procedures s) (sm_procedures t);
          (sg, c6) = merge_map DkServerGroup (fs_server_groups s) (fs_server_groups t);
          (ge, c7) = merge_map DkGenerator (fs_generators s) (fs_generators t);
          (po, c8) = merge_list DkPolicy po_name (fs_policies s) (fs_policies t);
          (rq, c9) = merge_list DkRawSql rq_name (sm_raw_sql s) (sm_raw_sql t);
          (ds, c10) = merge_datasource (fs_datasource s) (fs_datasource t)
      in (s\<lparr>sm_models := mo, sm_enums := en, sm_views := vi, sm_procedures := pr, sm_raw_sql := rq,
            fs_datasource := ds, fs_generators := ge, fs_types := ty, fs_server_groups := sg,
            fs_policies := po\<rparr>,
          c1 @ c2 @ c3 @ c4 @ c5 @ c6 @ c7 @ c8 @ c9 @ c10))"

text \<open>The loop of \<^verbatim>\<open>load_directory\<close>: all schemas into one, the conflicts collected.\<close>

fun merge_from :: "('a \<Rightarrow> 'a \<Rightarrow> 'a \<times> 'c list) \<Rightarrow> 'a \<Rightarrow> 'a list \<Rightarrow> 'a \<times> 'c list" where
  "merge_from mg a [] = (a, [])"
| "merge_from mg a (b # bs) =
     (let (a', cs) = mg a b; (r, ds) = merge_from mg a' bs in (r, cs @ ds))"

definition merge_files :: "full_schema list \<Rightarrow> full_schema \<times> merge_conflict list" where
  "merge_files ss = merge_from try_merge fs_new ss"

subsection \<open>The contract of a merge\<close>

text \<open>
  \<open>lab\<close> lists the labels of the items of a store, \<open>get\<close> looks one up, \<open>mg\<close> merges a second store
  into a first and reports the conflicts.
\<close>

locale mergeable =
  fixes lab :: "'a \<Rightarrow> 'l list" and get :: "'a \<Rightarrow> 'l \<Rightarrow> 'v option"
    and mg :: "'a \<Rightarrow> 'a \<Rightarrow> 'a \<times> 'c list"
  assumes labels: "set (lab (fst (mg a b))) = set (lab a) \<union> set (lab b)"
    and accepted: "snd (mg a b) = [] \<longleftrightarrow> distinct (lab b) \<and> set (lab a) \<inter> set (lab b) = {}"
    and lookup: "get (fst (mg a b)) l = (case get a l of Some v \<Rightarrow> Some v | None \<Rightarrow> get b l)"
    and found: "get a l \<noteq> None \<Longrightarrow> l \<in> set (lab a)"
begin

lemma from_labels: "set (lab (fst (merge_from mg a bs))) = set (lab a) \<union> (\<Union>b \<in> set bs. set (lab b))"
proof (induction bs arbitrary: a)
  case (Cons b bs)
  obtain a' cs where m: "mg a b = (a', cs)" by fastforce
  with labels [of a b] Cons.IH [of a'] show ?case by (auto split: prod.splits)
qed simp

lemma from_accepted:
  "snd (merge_from mg a bs) = [] \<longleftrightarrow>
   distinct (concat (map lab bs)) \<and> set (lab a) \<inter> (\<Union>b \<in> set bs. set (lab b)) = {}"
proof (induction bs arbitrary: a)
  case (Cons b bs)
  obtain a' cs where m: "mg a b = (a', cs)" by fastforce
  with labels [of a b] accepted [of a b]
  have "set (lab a') = set (lab a) \<union> set (lab b)"
    and "cs = [] \<longleftrightarrow> distinct (lab b) \<and> set (lab a) \<inter> set (lab b) = {}" by simp_all
  then show ?case using m Cons.IH [of a']
    by (simp add: split_beta Int_Un_distrib Int_Un_distrib2) blast
qed simp

lemma from_lookup:
  "get (fst (merge_from mg a bs)) l
     = (case get a l of Some v \<Rightarrow> Some v | None \<Rightarrow> find_map (\<lambda>b. get b l) bs)"
proof (induction bs arbitrary: a)
  case (Cons b bs)
  obtain a' cs where m: "mg a b = (a', cs)" by fastforce
  with lookup [of a b l] Cons.IH [of a'] show ?case by (auto split: prod.splits option.splits)
qed (simp split: option.splits)

text \<open>Accepted stores are found wherever they stand in the list.\<close>

lemma from_found:
  assumes ok: "snd (merge_from mg a bs) = []" and none: "get a l = None"
  shows "get (fst (merge_from mg a bs)) l = Some v \<longleftrightarrow> (\<exists>b \<in> set bs. get b l = Some v)"
proof -
  from ok have "distinct (concat (map lab bs))" by (simp add: from_accepted)
  then have "find_map (\<lambda>b. get b l) bs = Some v \<longleftrightarrow> (\<exists>b \<in> set bs. get b l = Some v)"
  proof (induction bs)
    case (Cons b bs)
    have n: "get b l = None" if "get c l = Some w" "c \<in> set bs" for c w
      using found [of c l] found [of b l] that Cons.prems by fastforce
    show ?case
    proof (cases "get b l")
      case None
      with Cons show ?thesis by simp
    next
      case (Some w)
      with n show ?thesis by fastforce
    qed
  qed simp
  with none show ?thesis by (simp add: from_lookup)
qed

lemma from_order:
  assumes "mset bs = mset cs"
  shows "snd (merge_from mg a bs) = [] \<longleftrightarrow> snd (merge_from mg a cs) = []"
    and "snd (merge_from mg a bs) = [] \<Longrightarrow> get a l = None
           \<Longrightarrow> get (fst (merge_from mg a bs)) l = get (fst (merge_from mg a cs)) l"
proof -
  have s: "set bs = set cs" using assms by (metis set_mset_mset)
  have "mset (concat (map lab bs)) = mset (concat (map lab cs))"
  proof -
    have "mset (map mset (map lab bs)) = mset (map mset (map lab cs))"
      using assms by simp
    then show ?thesis unfolding mset_concat by (metis sum_mset_sum_list)
  qed
  then have d: "distinct (concat (map lab bs)) = distinct (concat (map lab cs))"
    by (rule mset_eq_imp_distinct_iff)
  show e: "snd (merge_from mg a bs) = [] \<longleftrightarrow> snd (merge_from mg a cs) = []"
    by (simp add: from_accepted s d)
  assume ok: "snd (merge_from mg a bs) = []" and none: "get a l = None"
  have "get (fst (merge_from mg a bs)) l = Some v \<longleftrightarrow> get (fst (merge_from mg a cs)) l = Some v" for v
    using from_found [OF ok none] from_found [OF iffD1 [OF e ok] none] s by simp
  then show "get (fst (merge_from mg a bs)) l = get (fst (merge_from mg a cs)) l"
    by (metis not_Some_eq)
qed

end

subsection \<open>Schemas are mergeable\<close>

text \<open>The label of an item is the conflict that a second item of its kind and name would be.\<close>

definition map_labels :: "duplicate_kind \<Rightarrow> 'v index_map \<Rightarrow> merge_conflict list" where
  "map_labels k m = map (\<lambda>x. DuplicateItem k (fst x)) m"

definition labels_of :: "full_schema \<Rightarrow> merge_conflict list" where
  "labels_of s =
     map_labels DkModel (sm_models s) @ map_labels DkEnum (sm_enums s) @ map_labels DkType (fs_types s)
     @ map_labels DkView (sm_views s) @ map_labels DkProcedure (sm_procedures s)
     @ map_labels DkServerGroup (fs_server_groups s) @ map_labels DkGenerator (fs_generators s)
     @ map (\<lambda>p. DuplicateItem DkPolicy (po_name p)) (fs_policies s)
     @ map (\<lambda>q. DuplicateItem DkRawSql (rq_name q)) (sm_raw_sql s)
     @ (case fs_datasource s of Some _ \<Rightarrow> [MultipleDatasource] | None \<Rightarrow> [])"

datatype schema_item =
    ItModel model | ItEnum enum_def | ItType composite_type | ItView view | ItProcedure procedure
  | ItServerGroup server_group | ItGenerator generator | ItPolicy policy | ItRawSql raw_sql
  | ItDatasource datasource

fun item_of :: "full_schema \<Rightarrow> merge_conflict \<Rightarrow> schema_item option" where
  "item_of s (DuplicateItem k n) = (case k of
     DkModel \<Rightarrow> map_option ItModel (map_of (sm_models s) n)
   | DkEnum \<Rightarrow> map_option ItEnum (map_of (sm_enums s) n)
   | DkType \<Rightarrow> map_option ItType (map_of (fs_types s) n)
   | DkView \<Rightarrow> map_option ItView (map_of (sm_views s) n)
   | DkServerGroup \<Rightarrow> map_option ItServerGroup (map_of (fs_server_groups s) n)
   | DkPolicy \<Rightarrow> map_option ItPolicy (find (\<lambda>p. po_name p = n) (fs_policies s))
   | DkGenerator \<Rightarrow> map_option ItGenerator (map_of (fs_generators s) n)
   | DkRawSql \<Rightarrow> map_option ItRawSql (find (\<lambda>q. rq_name q = n) (sm_raw_sql s))
   | DkProcedure \<Rightarrow> map_option ItProcedure (map_of (sm_procedures s) n))"
| "item_of s MultipleDatasource = map_option ItDatasource (fs_datasource s)"

named_theorems merging \<open>what the loops of \<^verbatim>\<open>try_merge\<close> compute\<close>

lemma merge_map_keys [merging]:
  "fst ` set (fst (merge_map k m x)) = fst ` set m \<union> fst ` set x"
  by (induction k m x rule: merge_map.induct)
    (auto simp: has_key_def dom_update split_beta map_of_eq_None_iff)

lemma merge_map_accepted [merging]:
  "snd (merge_map k m x) = [] \<longleftrightarrow> distinct (map fst x) \<and> fst ` set m \<inter> fst ` set x = {}"
  by (induction k m x rule: merge_map.induct)
    (auto simp: has_key_def split_beta map_of_eq_None_iff dom_update)

lemma merge_map_lookup [merging]:
  "map_of (fst (merge_map k m x)) n = (case map_of m n of Some v \<Rightarrow> Some v | None \<Rightarrow> map_of x n)"
  by (induction k m x rule: merge_map.induct)
    (auto simp: has_key_def split_beta update_conv' split: option.splits)

lemma list_ex_image: "list_ex (\<lambda>x. f x = n) xs \<longleftrightarrow> n \<in> f ` set xs"
  by (auto simp: list_ex_iff)

lemma merge_list_keys [merging]:
  "f ` set (fst (merge_list k f xs ys)) = f ` set xs \<union> f ` set ys"
  by (induction k f xs ys rule: merge_list.induct) (auto simp: list_ex_image split_beta)

lemma merge_list_accepted [merging]:
  "snd (merge_list k f xs ys) = [] \<longleftrightarrow> distinct (map f ys) \<and> f ` set xs \<inter> f ` set ys = {}"
  by (induction k f xs ys rule: merge_list.induct) (auto simp: list_ex_image split_beta)

lemma merge_list_lookup [merging]:
  "find (\<lambda>x. f x = n) (fst (merge_list k f xs ys))
     = (case find (\<lambda>x. f x = n) xs of Some v \<Rightarrow> Some v | None \<Rightarrow> find (\<lambda>x. f x = n) ys)"
proof (induction k f xs ys rule: merge_list.induct)
  case (2 k f xs y ys)
  show ?case
  proof (cases "list_ex (\<lambda>x. f x = f y) xs")
    case True
    then have "f y = n \<Longrightarrow> find (\<lambda>x. f x = n) xs \<noteq> None"
      by (auto simp: list_ex_iff find_None_iff)
    with True 2 show ?thesis by (auto simp: split_beta split: option.splits)
  next
    case False
    with 2 show ?thesis by (auto simp: find_snoc split: option.splits)
  qed
qed (simp split: option.split)

lemma labels_kind [merging]:
  "set (map_labels k m) = DuplicateItem k ` (fst ` set m)"
  "distinct (map_labels k m) = distinct (map fst m)"
  by (auto simp: map_labels_def image_image distinct_map inj_on_def)

lemma kinds_disjoint [merging]:
  "DuplicateItem k ` A \<inter> DuplicateItem k' ` B = (if k = k' then DuplicateItem k ` (A \<inter> B) else {})"
  by (auto split: if_splits)

lemma has_key_iff: "has_key m n \<longleftrightarrow> n \<in> fst ` set m"
  by (simp add: has_key_def map_of_eq_None_iff)

lemma merge_datasource_laws [merging]:
  "snd (merge_datasource x y) = [] \<longleftrightarrow> x = None \<or> y = None"
  "fst (merge_datasource x y) = (case x of Some d \<Rightarrow> Some d | None \<Rightarrow> y)"
  by (auto simp: merge_datasource_def split: option.splits)

lemma try_merge_parts [merging]:
  "sm_models (fst (try_merge s t)) = fst (merge_map DkModel (sm_models s) (sm_models t))"
  "sm_enums (fst (try_merge s t)) = fst (merge_map DkEnum (sm_enums s) (sm_enums t))"
  "fs_types (fst (try_merge s t)) = fst (merge_map DkType (fs_types s) (fs_types t))"
  "sm_views (fst (try_merge s t)) = fst (merge_map DkView (sm_views s) (sm_views t))"
  "sm_procedures (fst (try_merge s t)) = fst (merge_map DkProcedure (sm_procedures s) (sm_procedures t))"
  "fs_server_groups (fst (try_merge s t)) = fst (merge_map DkServerGroup (fs_server_groups s) (fs_server_groups t))"
  "fs_generators (fst (try_merge s t)) = fst (merge_map DkGenerator (fs_generators s) (fs_generators t))"
  "fs_policies (fst (try_merge s t)) = fst (merge_list DkPolicy po_name (fs_policies s) (fs_policies t))"
  "sm_raw_sql (fst (try_merge s t)) = fst (merge_list DkRawSql rq_name (sm_raw_sql s) (sm_raw_sql t))"
  "fs_datasource (fst (try_merge s t)) = fst (merge_datasource (fs_datasource s) (fs_datasource t))"
  by (simp_all add: try_merge_def split_beta)

lemma try_merge_conflicts [merging]:
  "snd (try_merge s t) = [] \<longleftrightarrow>
     snd (merge_map DkModel (sm_models s) (sm_models t)) = []
   \<and> snd (merge_map DkEnum (sm_enums s) (sm_enums t)) = []
   \<and> snd (merge_map DkType (fs_types s) (fs_types t)) = []
   \<and> snd (merge_map DkView (sm_views s) (sm_views t)) = []
   \<and> snd (merge_map DkProcedure (sm_procedures s) (sm_procedures t)) = []
   \<and> snd (merge_map DkServerGroup (fs_server_groups s) (fs_server_groups t)) = []
   \<and> snd (merge_map DkGenerator (fs_generators s) (fs_generators t)) = []
   \<and> snd (merge_list DkPolicy po_name (fs_policies s) (fs_policies t)) = []
   \<and> snd (merge_list DkRawSql rq_name (sm_raw_sql s) (sm_raw_sql t)) = []
   \<and> snd (merge_datasource (fs_datasource s) (fs_datasource t)) = []"
  by (simp add: try_merge_def split_beta)

text \<open>The names a schema defines, per kind; with the data source they are its labels.\<close>

fun names_of :: "full_schema \<Rightarrow> duplicate_kind \<Rightarrow> string list" where
  "names_of s DkModel = map fst (sm_models s)"
| "names_of s DkEnum = map fst (sm_enums s)"
| "names_of s DkType = map fst (fs_types s)"
| "names_of s DkView = map fst (sm_views s)"
| "names_of s DkServerGroup = map fst (fs_server_groups s)"
| "names_of s DkPolicy = map po_name (fs_policies s)"
| "names_of s DkGenerator = map fst (fs_generators s)"
| "names_of s DkRawSql = map rq_name (sm_raw_sql s)"
| "names_of s DkProcedure = map fst (sm_procedures s)"

lemma in_labels:
  "DuplicateItem k n \<in> set (labels_of s) \<longleftrightarrow> n \<in> set (names_of s k)"
  "MultipleDatasource \<in> set (labels_of s) \<longleftrightarrow> fs_datasource s \<noteq> None"
  by (cases k; cases "fs_datasource s"; auto simp: labels_of_def map_labels_def)
    (cases "fs_datasource s"; auto simp: labels_of_def map_labels_def)

lemma all_kinds: "(\<forall>k. P k) \<longleftrightarrow> P DkModel \<and> P DkEnum \<and> P DkType \<and> P DkView \<and> P DkServerGroup
    \<and> P DkPolicy \<and> P DkGenerator \<and> P DkRawSql \<and> P DkProcedure"
  by (auto intro: duplicate_kind.induct)

lemma labels_distinct: "distinct (labels_of s) \<longleftrightarrow> (\<forall>k. distinct (names_of s k))"
  unfolding all_kinds
  by (auto simp: labels_of_def map_labels_def distinct_map comp_def inj_on_def split: option.splits)

lemma names_try_merge:
  "set (names_of (fst (try_merge s t)) k) = set (names_of s k) \<union> set (names_of t k)"
  by (cases k) (simp_all add: merging)

lemma merge_map_distinct: "distinct (map fst m) \<Longrightarrow> distinct (map fst (fst (merge_map k m x)))"
  by (induction k m x rule: merge_map.induct) (auto simp: split_beta distinct_update)

lemma merge_list_distinct: "distinct (map f xs) \<Longrightarrow> distinct (map f (fst (merge_list k f xs ys)))"
  by (induction k f xs ys rule: merge_list.induct) (auto simp: split_beta list_ex_image)

lemma names_try_merge_distinct:
  "distinct (names_of s k) \<Longrightarrow> distinct (names_of (fst (try_merge s t)) k)"
  by (cases k) (simp_all add: merging merge_map_distinct merge_list_distinct)

lemma try_merge_accepted:
  "snd (try_merge s t) = [] \<longleftrightarrow>
     (\<forall>k. distinct (names_of t k) \<and> set (names_of s k) \<inter> set (names_of t k) = {})
     \<and> (fs_datasource s = None \<or> fs_datasource t = None)"
  unfolding all_kinds by (simp add: merging conj_ac)

lemma item_of_found: "item_of s c \<noteq> None \<Longrightarrow> c \<in> set (labels_of s)"
proof (cases c)
  case (DuplicateItem k n)
  have "n \<notin> set (names_of s k) \<Longrightarrow> item_of s (DuplicateItem k n) = None"
    by (cases k) (auto simp: map_of_eq_None_iff find_None_iff)
  moreover assume "item_of s c \<noteq> None"
  ultimately show ?thesis using DuplicateItem by (metis in_labels(1))
qed (simp add: in_labels)

lemma item_of_try_merge:
  "item_of (fst (try_merge s t)) c = (case item_of s c of Some v \<Rightarrow> Some v | None \<Rightarrow> item_of t c)"
proof (cases c)
  case (DuplicateItem k n)
  then show ?thesis by (cases k) (simp_all add: merging split: option.split)
qed (simp add: merging split: option.split)

interpretation schemas: mergeable labels_of item_of try_merge
proof
  fix s t :: full_schema
  show "set (labels_of (fst (try_merge s t))) = set (labels_of s) \<union> set (labels_of t)"
  proof (rule set_eqI)
    fix c
    show "c \<in> set (labels_of (fst (try_merge s t))) \<longleftrightarrow> c \<in> set (labels_of s) \<union> set (labels_of t)"
      by (cases c) (auto simp: in_labels names_try_merge merging split: option.splits)
  qed
  have "set (labels_of s) \<inter> set (labels_of t) = {} \<longleftrightarrow>
     (\<forall>k. set (names_of s k) \<inter> set (names_of t k) = {}) \<and> (fs_datasource s = None \<or> fs_datasource t = None)"
    unfolding disjoint_iff by (metis in_labels merge_conflict.exhaust)
  then show "snd (try_merge s t) = [] \<longleftrightarrow> distinct (labels_of t) \<and> set (labels_of s) \<inter> set (labels_of t) = {}"
    by (auto simp: try_merge_accepted labels_distinct)
qed (rule item_of_try_merge, rule item_of_found)

subsection \<open>Properties\<close>

lemma fs_new_empty [simp]: "labels_of fs_new = []" "item_of fs_new c = None"
  by (simp_all add: labels_of_def fs_new_def map_labels_def)
    (cases c; simp add: fs_new_def split: duplicate_kind.split)

text \<open>
  C30: Merging two schemas reports no conflict exactly when no name of a kind is defined twice and
  at most one of them has a data source; either way every item of the first schema is kept, and
  the second schema's items are found where the first has none.
\<close>

theorem try_merge_spec:
  "(snd (try_merge s t) = [] \<longleftrightarrow>
     (\<forall>k. distinct (names_of t k) \<and> set (names_of s k) \<inter> set (names_of t k) = {})
     \<and> (fs_datasource s = None \<or> fs_datasource t = None)) \<and>
   item_of (fst (try_merge s t)) c = (case item_of s c of Some v \<Rightarrow> Some v | None \<Rightarrow> item_of t c)"
  by (simp add: try_merge_accepted item_of_try_merge)

text \<open>
  The files of a schema directory are accepted when all their labels are distinct; the order
  in which they are merged changes neither that nor what is found under a name, and every item of
  every file is found.
\<close>

theorem merge_files_order:
  assumes "mset ss = mset ts"
  shows "(snd (merge_files ss) = [] \<longleftrightarrow> distinct (concat (map labels_of ss))) \<and>
    (snd (merge_files ss) = [] \<longleftrightarrow> snd (merge_files ts) = []) \<and>
    (snd (merge_files ss) = [] \<longrightarrow>
      item_of (fst (merge_files ss)) c = item_of (fst (merge_files ts)) c \<and>
      (item_of (fst (merge_files ss)) c = Some v \<longleftrightarrow> (\<exists>s \<in> set ss. item_of s c = Some v)))"
  using schemas.from_accepted [of fs_new ss] schemas.from_order(1) [OF assms, of fs_new]
    schemas.from_order(2) [OF assms, of fs_new c]
    schemas.from_found [of fs_new ss c v]
  by (simp add: merge_files_def)

definition user_file :: full_schema where
  "user_file = sm_add_model (mo_new ''User'') fs_new"
definition role_file :: full_schema where
  "role_file = fs_add_generator \<lparr>ge_name = ''ts'', ge_provider = None, ge_output = None,
     ge_generate = GtAlways, ge_properties = []\<rparr> (sm_add_enum (en_new ''Role'') fs_new)"

lemmas sample_files = user_file_def role_file_def sm_add_model_def sm_add_enum_def fs_add_generator_def
  fs_new_def mo_new_def en_new_def

theorem merge_files_order_witness:
  "snd (merge_files [user_file, role_file]) = [] \<and>
   item_of (fst (merge_files [user_file, role_file])) (DuplicateItem DkEnum ''Role'')
     = Some (ItEnum (en_new ''Role'')) \<and>
   snd (merge_files [user_file, user_file]) \<noteq> []"
proof -
  have "snd (merge_files [user_file, role_file]) = []"
    using merge_files_order [of "[user_file, role_file]" "[role_file, user_file]"]
    by (simp add: labels_of_def map_labels_def sample_files)
  moreover have "item_of role_file (DuplicateItem DkEnum ''Role'') = Some (ItEnum (en_new ''Role''))"
    by (simp add: sample_files)
  moreover have "snd (merge_files [user_file, user_file]) \<noteq> []"
    using merge_files_order [of "[user_file, user_file]" "[user_file, user_file]"]
    by (simp add: labels_of_def map_labels_def sample_files)
  ultimately show ?thesis
    using merge_files_order [of "[user_file, role_file]" "[role_file, user_file]"
        "DuplicateItem DkEnum ''Role''" "ItEnum (en_new ''Role'')"] by simp
qed

text \<open>
  The merge that overwrites (\<^verbatim>\<open>Schema::merge\<close>) takes the second schema's item where both define
  one, and leaves the procedures, generators and the data source of the second schema out.
\<close>

lemma extend_map_lookup:
  "map_of (extend_map m x) n = (case map_of (rev x) n of Some v \<Rightarrow> Some v | None \<Rightarrow> map_of m n)"
proof (induction x arbitrary: m)
  case (Cons p x)
  then show ?case
    by (cases p) (auto simp: extend_map_def update_conv' map_add_def split: option.splits)
qed (simp add: extend_map_def)

lemma merge_overwrite_leaves_out:
  "sm_procedures (merge_overwrite s t) = sm_procedures s \<and>
   fs_generators (merge_overwrite s t) = fs_generators s \<and>
   fs_datasource (merge_overwrite s t) = fs_datasource s"
  by (simp add: merge_overwrite_def)

end
