(* ===== verification/Validator.thy ===== *)
theory Validator
  imports Schema_Merge
begin

text \<open>
  The schema validator (\<^verbatim>\<open>prax-schema/src/validator.rs\<close>).  The code pushes errors on a list that
  the validator owns; here every check returns the errors it pushes, in order, and \<open>validate\<close>
  concatenates them in the order of the calls.  A hash set of names that were seen is the list of
  them.
\<close>

subsection \<open>Messages\<close>

definition field_path :: "string \<Rightarrow> field \<Rightarrow> string" where
  "field_path m f = sq (m @ ''.'' @ f_name f)"

subsection \<open>Names\<close>

definition is_alnum :: "char \<Rightarrow> bool" where
  "is_alnum c \<longleftrightarrow> is_digit c \<or> (CHR ''A'' \<le> c \<and> c \<le> CHR ''Z'') \<or> (CHR ''a'' \<le> c \<and> c \<le> CHR ''z'')"

definition is_safe_sql_identifier :: "string \<Rightarrow> bool" where
  "is_safe_sql_identifier s \<longleftrightarrow>
     s \<noteq> [] \<and> list_all (\<lambda>c. is_alnum c \<or> c = CHR ''_'' \<or> c = CHR ''.'') s"

text \<open>One loop over names: the ones seen before are reported.\<close>

fun seen_errors :: "string \<Rightarrow> string list \<Rightarrow> string list \<Rightarrow> schema_error list" where
  "seen_errors k seen [] = []"
| "seen_errors k seen (n # ns) =
     (if n \<in> set seen then DuplicateDef k n # seen_errors k seen ns
      else seen_errors k (n # seen) ns)"

definition check_duplicates :: "full_schema \<Rightarrow> schema_error list" where
  "check_duplicates s =
     (let mo = map fst (sm_models s); en = map fst (sm_enums s);
          ty = map fst (fs_types s); vi = map fst (sm_views s)
      in seen_errors ''model'' [] mo @ seen_errors ''enum'' mo en
         @ seen_errors ''type'' (mo @ en) ty @ seen_errors ''view'' (mo @ en @ ty) vi
         @ seen_errors ''serverGroup'' [] (map fst (fs_server_groups s)))"

subsection \<open>Resolving field types\<close>

text \<open>The parser takes every name that is no scalar for a model.\<close>

fun resolve_type :: "full_schema \<Rightarrow> field_type \<Rightarrow> field_type" where
  "resolve_type s (TyModel n) =
     (if has_key (sm_enums s) n then TyEnum n
      else if has_key (fs_types s) n then TyComposite n
      else TyModel n)"
| "resolve_type s t = t"

definition map_snd :: "('v \<Rightarrow> 'v) \<Rightarrow> 'v index_map \<Rightarrow> 'v index_map" where
  "map_snd g m = map (\<lambda>(k, v). (k, g v)) m"

definition resolve_fields :: "full_schema \<Rightarrow> field index_map \<Rightarrow> field index_map" where
  "resolve_fields s = map_snd (\<lambda>f. f\<lparr>f_type := resolve_type s (f_type f)\<rparr>)"

definition resolve_field_types :: "full_schema \<Rightarrow> full_schema" where
  "resolve_field_types s = s\<lparr>
     sm_models := map_snd (\<lambda>m. m\<lparr>mo_fields := resolve_fields s (mo_fields m)\<rparr>) (sm_models s),
     fs_types := map_snd (\<lambda>t. t\<lparr>cy_fields := resolve_fields s (cy_fields t)\<rparr>) (fs_types s),
     sm_views := map_snd (\<lambda>v. v\<lparr>vi_fields := resolve_fields s (vi_fields v)\<rparr>) (sm_views s)\<rparr>"

subsection \<open>Fields\<close>

definition scalar_accepts :: "scalar_type \<Rightarrow> attr_value \<Rightarrow> bool" where
  "scalar_accepts t v = (case v of
     ValInt _ \<Rightarrow> t \<in> {ScInt, ScBigInt, ScFloat, ScDecimal, ScJson}
   | ValFloat _ \<Rightarrow> t \<in> {ScFloat, ScDecimal, ScJson}
   | ValString _ \<Rightarrow> t \<in> {ScString, ScJson}
   | ValBool _ \<Rightarrow> t \<in> {ScBoolean, ScJson}
   | ValArray _ \<Rightarrow> t = ScJson
   | _ \<Rightarrow> False)"

definition variant_errors :: "full_schema \<Rightarrow> string \<Rightarrow> field \<Rightarrow> string \<Rightarrow> string \<Rightarrow> schema_error list" where
  "variant_errors s m f en x = (case map_of (sm_enums s) en of
     Some e \<Rightarrow> if en_get_variant x e = None
       then [InvalidField m (f_name f) (''default value '' @ sq x @ '' is not a valid variant of enum '' @ sq en)]
       else []
   | None \<Rightarrow> [])"

definition validate_default_value :: "full_schema \<Rightarrow> string \<Rightarrow> field \<Rightarrow> attr_value \<Rightarrow> schema_error list" where
  "validate_default_value s m f v =
     (let mismatch = [InvalidField m (f_name f)
            (''default value type does not match field type '' @ sq (type_name (f_type f)))]
      in case v of ValFunction _ _ \<Rightarrow> []
         | _ \<Rightarrow> (case f_type f of
             TyScalar t \<Rightarrow> if scalar_accepts t v then [] else mismatch
           | TyEnum en \<Rightarrow> (case v of ValIdent x \<Rightarrow> variant_errors s m f en x | _ \<Rightarrow> mismatch)
           | TyModel en \<Rightarrow> (case v of ValIdent x \<Rightarrow> variant_errors s m f en x | _ \<Rightarrow> mismatch)
           | _ \<Rightarrow> mismatch))"

definition map_message :: "string \<Rightarrow> string \<Rightarrow> string" where
  "map_message pre n = pre @ ''map('' @ [DQUOTE] @ n @ [DQUOTE]
     @ '') contains characters outside [A-Za-z0-9_.]; SQL identifiers must be safe to splice into queries''"

definition validate_field_attribute :: "full_schema \<Rightarrow> string \<Rightarrow> field \<Rightarrow> attribute \<Rightarrow> schema_error list" where
  "validate_field_attribute s m f a =
     (let n = at_name a in
      if n = ''id'' then
        (if type_is_relation (f_type f)
         then [InvalidAttribute ''id'' (''@id cannot be applied to relation field '' @ field_path m f)] else [])
      else if n = ''auto'' then
        (if f_type f \<in> {TyScalar ScInt, TyScalar ScBigInt} then []
         else [InvalidAttribute ''auto'' (''@auto can only be applied to Int or BigInt fields, not '' @ field_path m f)])
      else if n = ''default'' then
        (case first_arg a of Some v \<Rightarrow> validate_default_value s m f v | None \<Rightarrow> [])
      else if n = ''relation'' then
        (if (case f_type f of TyModel t \<Rightarrow> has_key (sm_models s) t | _ \<Rightarrow> False) then []
         else [InvalidAttribute ''relation''
                (''@relation can only be applied to model reference fields, not '' @ field_path m f)])
      else if n = ''updated_at'' then
        (if f_type f = TyScalar ScDateTime then []
         else [InvalidAttribute ''updated_at''
                (''@updated_at can only be applied to DateTime fields, not '' @ field_path m f)])
      else if n = ''map'' then
        (case first_arg a of
           Some (ValString c) \<Rightarrow> if is_safe_sql_identifier c then []
             else [InvalidField m (f_name f) (map_message ''@'' c)]
         | _ \<Rightarrow> [])
      else [])"

fun reference_errors :: "full_schema \<Rightarrow> string \<Rightarrow> string \<Rightarrow> field_type \<Rightarrow> schema_error list" where
  "reference_errors s m f (TyModel n) =
     (if has_key (sm_models s) n \<or> has_key (sm_enums s) n \<or> has_key (fs_types s) n then []
      else [UnknownType m f n])"
| "reference_errors s m f (TyEnum n) = (if has_key (sm_enums s) n then [] else [UnknownType m f n])"
| "reference_errors s m f (TyComposite n) = (if has_key (fs_types s) n then [] else [UnknownType m f n])"
| "reference_errors s m f _ = []"

text \<open>A reference to a model, and to nothing else of that name.\<close>

fun is_model_relation :: "full_schema \<Rightarrow> field_type \<Rightarrow> bool" where
  "is_model_relation s (TyModel n) \<longleftrightarrow>
     has_key (sm_models s) n \<and> \<not> has_key (sm_enums s) n \<and> \<not> has_key (fs_types s) n"
| "is_model_relation s _ = False"

definition model_has_field :: "full_schema \<Rightarrow> string \<Rightarrow> string \<Rightarrow> bool" where
  "model_has_field s m f = (case map_of (sm_models s) m of Some x \<Rightarrow> has_key (mo_fields x) f | None \<Rightarrow> False)"

definition foreign_key_errors :: "full_schema \<Rightarrow> string \<Rightarrow> field \<Rightarrow> schema_error list" where
  "foreign_key_errors s m f =
     (if is_model_relation s (f_type f) \<and> \<not> f_is_list f
      then (case fa_relation (extract_attributes f) of
          Some rel \<Rightarrow> map (\<lambda>k. InvalidRelation m (f_name f) (''foreign key field '' @ sq k @ '' does not exist''))
            (List.filter (\<lambda>k. \<not> model_has_field s m k) (rel_fields rel))
        | None \<Rightarrow> [])
      else [])"

definition validate_field :: "full_schema \<Rightarrow> string \<Rightarrow> field \<Rightarrow> schema_error list" where
  "validate_field s m f =
     reference_errors s m (f_name f) (f_type f)
     @ concat (map (validate_field_attribute s m f) (f_attributes f))
     @ foreign_key_errors s m f"

subsection \<open>Models\<close>

definition missing_fields :: "model \<Rightarrow> attribute \<Rightarrow> string \<Rightarrow> schema_error list" where
  "missing_fields m a what = (case first_arg a of
     Some (FieldRefList ks) \<Rightarrow> map (\<lambda>k. InvalidModel (mo_name m) (what @ '' references non-existent field '' @ sq k))
       (List.filter (\<lambda>k. \<not> has_key (mo_fields m) k) ks)
   | _ \<Rightarrow> [])"

definition search_errors :: "model \<Rightarrow> string \<Rightarrow> schema_error list" where
  "search_errors m k = (case map_of (mo_fields m) k of
     Some f \<Rightarrow> if f_type f = TyScalar ScString then []
       else [InvalidModel (mo_name m) (''@@search field '' @ sq k @ '' must be of type String'')]
   | None \<Rightarrow> [InvalidModel (mo_name m) (''@@search references non-existent field '' @ sq k)])"

definition validate_model_attribute :: "model \<Rightarrow> attribute \<Rightarrow> schema_error list" where
  "validate_model_attribute m a =
     (let n = at_name a in
      if n = ''index'' \<or> n = ''unique'' then missing_fields m a (''@@'' @ n)
      else if n = ''id'' then missing_fields m a ''@@id''
      else if n = ''search'' then
        (case first_arg a of Some (FieldRefList ks) \<Rightarrow> concat (map (search_errors m) ks) | _ \<Rightarrow> [])
      else if n = ''map'' then
        (case first_arg a of
           Some (ValString t) \<Rightarrow> if is_safe_sql_identifier t then []
             else [InvalidModel (mo_name m) (map_message ''@@'' t)]
         | _ \<Rightarrow> [])
      else [])"

definition has_composite_id :: "model \<Rightarrow> bool" where
  "has_composite_id m = has_attribute ''id'' (mo_attributes m)"

definition validate_model :: "full_schema \<Rightarrow> model \<Rightarrow> schema_error list" where
  "validate_model s m =
     (if mo_id_fields m = [] \<and> \<not> has_composite_id m then [MissingId (mo_name m)] else [])
     @ concat (map (validate_field s (mo_name m)) (map_values (mo_fields m)))
     @ concat (map (validate_model_attribute m) (mo_attributes m))"

subsection \<open>Computed fields\<close>

definition list_relation :: "model \<Rightarrow> string \<Rightarrow> bool" where
  "list_relation m r = list_ex (\<lambda>f. f_name f = r \<and> f_is_list f) (map_values (mo_fields m))"

definition computed_error :: "model \<Rightarrow> field \<Rightarrow> string \<Rightarrow> schema_error" where
  "computed_error m f msg = InvalidField (mo_name m) (f_name f) (''field '' @ bt (f_name f) @ msg)"

definition generated_errors :: "model \<Rightarrow> field \<Rightarrow> schema_error list" where
  "generated_errors m f = (let fa = extract_attributes f in case fa_generated fa of
     None \<Rightarrow> []
   | Some g \<Rightarrow>
       (if fa_is_id fa \<or> fa_is_auto fa
        then [computed_error m f '' cannot be both @generated and @id/@auto''] else [])
       @ (if fa_aggregate fa \<noteq> None
          then [computed_error m f '' cannot be both @generated and an aggregate''] else [])
       @ (if trim (gen_expression g) = []
          then [computed_error m f '': @generated expression must not be empty''] else []))"

definition aggregate_errors :: "model \<Rightarrow> field \<Rightarrow> attribute \<Rightarrow> schema_error list" where
  "aggregate_errors m f a =
     (let n = at_name a in
      if n = ''count'' then
        (case first_path_arg a of
           None \<Rightarrow> []
         | Some p \<Rightarrow>
             if CHR ''.'' \<in> set p
             then [computed_error m f ('': @count takes a relation name, not '' @ bt ''relation.field'')]
             else if list_relation m p then []
             else [computed_error m f ('': unknown relation '' @ bt p @ '' in @count'')])
      else if n \<in> {''sum'', ''avg'', ''min'', ''max''} then
        (case first_path_arg a of
           None \<Rightarrow> []
         | Some p \<Rightarrow> (case split_once CHR ''.'' p of
             Some (r, _) \<Rightarrow> if list_relation m r then []
               else [computed_error m f ('': unknown relation '' @ bt r @ '' in @'' @ n)]
           | None \<Rightarrow> [computed_error m f ('': @'' @ n @ '' requires '' @ bt ''relation.field'')]))
      else [])"

definition orphan_errors :: "model \<Rightarrow> field \<Rightarrow> schema_error list" where
  "orphan_errors m f =
     map (\<lambda>n. computed_error m f ('': @'' @ n @ '' is only valid alongside @generated''))
       (List.filter (\<lambda>n. has_attribute n (f_attributes f) \<and> fa_generated (extract_attributes f) = None)
         [''stored'', ''virtual''])"

definition computed_field_errors :: "model \<Rightarrow> field \<Rightarrow> schema_error list" where
  "computed_field_errors m f =
     generated_errors m f @ concat (map (aggregate_errors m f) (f_attributes f)) @ orphan_errors m f"

definition validate_computed_fields :: "full_schema \<Rightarrow> schema_error list" where
  "validate_computed_fields s =
     concat (map (\<lambda>m. concat (map (computed_field_errors m) (map_values (mo_fields m))))
       (map_values (sm_models s)))"

subsection \<open>Enums, composite types, views\<close>

definition validate_enum :: "enum_def \<Rightarrow> schema_error list" where
  "validate_enum e =
     (if en_variants e = [] then [InvalidModel (en_name e) ''enum must have at least one variant''] else [])
     @ seen_errors (''enum variant in '' @ en_name e) [] (map ev_name (en_variants e))"

fun composite_field_errors :: "full_schema \<Rightarrow> string \<Rightarrow> string \<Rightarrow> field_type \<Rightarrow> schema_error list" where
  "composite_field_errors s t f (TyModel n) =
     [InvalidField t f ''composite types cannot have model relations'']"
| "composite_field_errors s t f (TyEnum n) = (if has_key (sm_enums s) n then [] else [UnknownType t f n])"
| "composite_field_errors s t f (TyComposite n) = (if has_key (fs_types s) n then [] else [UnknownType t f n])"
| "composite_field_errors s t f _ = []"

definition validate_composite_type :: "full_schema \<Rightarrow> composite_type \<Rightarrow> schema_error list" where
  "validate_composite_type s t =
     (if cy_fields t = [] then [InvalidModel (cy_name t) ''composite type must have at least one field''] else [])
     @ concat (map (\<lambda>f. composite_field_errors s (cy_name t) (f_name f) (f_type f)) (map_values (cy_fields t)))"

definition validate_view :: "full_schema \<Rightarrow> view \<Rightarrow> schema_error list" where
  "validate_view s v =
     (if vi_fields v = [] then [InvalidModel (vi_name v) ''view must have at least one field''] else [])
     @ concat (map (validate_field s (vi_name v)) (map_values (vi_fields v)))"

subsection \<open>Server groups\<close>

definition validate_server :: "string \<Rightarrow> server \<Rightarrow> schema_error list" where
  "validate_server g s =
     (if sv_url s = None
      then [InvalidModel g (''server '' @ sq (sv_name s) @ '' must have a '' @ sq ''url'' @ '' property'')] else [])
     @ (if sv_weight s = Some 0
        then [InvalidModel g (''server '' @ sq (sv_name s) @ '' weight must be greater than 0'')] else [])
     @ (if sv_priority s = Some 0
        then [InvalidModel g (''server '' @ sq (sv_name s) @ '' priority must be greater than 0'')] else [])"

definition setting_errors :: "string \<Rightarrow> (string \<Rightarrow> 'a option) \<Rightarrow> string \<Rightarrow> string \<Rightarrow> attribute \<Rightarrow> schema_error list" where
  "setting_errors n parse valid g a = (case Option.bind (first_arg a) setting_text of
     Some v \<Rightarrow> if parse v = None
       then [InvalidAttribute n (''invalid '' @ n @ '' '' @ sq v @ '' for serverGroup '' @ sq g
               @ ''. Valid values: '' @ valid)]
       else []
   | None \<Rightarrow> [])"

definition validate_group_attribute :: "server_group \<Rightarrow> attribute \<Rightarrow> schema_error list" where
  "validate_group_attribute g a =
     (if at_name a = ''strategy''
      then setting_errors ''strategy'' strategy_parse
             ''ReadReplica, Sharding, MultiRegion, HighAvailability, Custom'' (sg_name g) a
      else if at_name a = ''loadBalance''
      then setting_errors ''loadBalance'' balance_parse
             ''RoundRobin, Random, LeastConnections, Weighted, Nearest, Sticky'' (sg_name g) a
      else [])"

definition validate_server_group :: "server_group \<Rightarrow> schema_error list" where
  "validate_server_group g =
     (if sg_servers g = [] then [InvalidModel (sg_name g) ''serverGroup must have at least one server''] else [])
     @ seen_errors (''server in serverGroup '' @ sg_name g) [] (map fst (sg_servers g))
     @ concat (map (validate_server (sg_name g)) (map_values (sg_servers g)))
     @ concat (map (validate_group_attribute g) (sg_attributes g))
     @ (if sg_strategy g = Some ReadReplica
           \<and> \<not> list_ex (\<lambda>s. sv_role s = Some RolePrimary) (map_values (sg_servers g))
        then [InvalidModel (sg_name g)
                (''ReadReplica strategy requires at least one server with role = '' @ [DQUOTE] @ ''primary'' @ [DQUOTE])]
        else [])"

subsection \<open>Relations\<close>

definition apply_relation_attr :: "relation_attr option \<Rightarrow> relation \<Rightarrow> relation" where
  "apply_relation_attr ra r = (case ra of
     None \<Rightarrow> r
   | Some x \<Rightarrow> r\<lparr>
       re_name := (case rel_name x of Some n \<Rightarrow> Some n | None \<Rightarrow> re_name r),
       re_from_fields := (if rel_fields x = [] then re_from_fields r else rel_fields x),
       re_to_fields := (if rel_references x = [] then re_to_fields r else rel_references x),
       re_on_delete := (case rel_on_delete x of Some d \<Rightarrow> Some d | None \<Rightarrow> re_on_delete r),
       re_on_update := (case rel_on_update x of Some d \<Rightarrow> Some d | None \<Rightarrow> re_on_update r),
       re_map := (case rel_map x of Some n \<Rightarrow> Some n | None \<Rightarrow> re_map r)\<rparr>)"

definition relation_of_field :: "full_schema \<Rightarrow> model \<Rightarrow> field \<Rightarrow> relation option" where
  "relation_of_field s m f =
     (if is_model_relation s (f_type f)
      then Some (apply_relation_attr (fa_relation (extract_attributes f))
             (re_new (mo_name m) (f_name f) (type_name (f_type f))
               (if f_is_list f then OneToMany else ManyToOne)))
      else None)"

definition resolve_relations :: "full_schema \<Rightarrow> relation list" where
  "resolve_relations s =
     concat (map (\<lambda>m. List.map_filter (relation_of_field s m) (map_values (mo_fields m)))
       (map_values (sm_models s)))"

subsection \<open>Validation\<close>

definition validation_errors :: "full_schema \<Rightarrow> schema_error list" where
  "validation_errors s0 =
     (let s = resolve_field_types s0 in
      check_duplicates s0
      @ concat (map (validate_model s) (map_values (sm_models s)))
      @ validate_computed_fields s
      @ concat (map validate_enum (map_values (sm_enums s)))
      @ concat (map (validate_composite_type s) (map_values (fs_types s)))
      @ concat (map (validate_view s) (map_values (sm_views s)))
      @ concat (map validate_server_group (map_values (fs_server_groups s))))"

definition validate :: "full_schema \<Rightarrow> schema_error + full_schema" where
  "validate s0 =
     (let s = resolve_field_types s0; errors = validation_errors s0
      in if errors = [] then Inr (s\<lparr>fs_relations := resolve_relations s\<rparr>)
         else Inl (ValidationFailed (length errors) errors))"

end
