(* ===== verification/Validator_Laws.thy ===== *)
theory Validator_Laws
  imports Validator
begin

text \<open>
  What an accepted schema is: the validator is idempotent, every type reference of the result
  resolves, the relations are those of the model-typed fields, and the mapped names of models and
  columns can be spliced into a statement.  \<open>schema_ok\<close> states acceptance without lists of errors.
\<close>

subsection \<open>Names and maps\<close>

named_theorems accepting \<open>when a check reports nothing\<close>

lemma seen_errors_Nil [accepting]:
  "seen_errors k seen ns = [] \<longleftrightarrow> distinct ns \<and> set ns \<inter> set seen = {}"
  by (induction ns arbitrary: seen) auto

lemma concat_Nil [accepting]: "concat (map g xs) = [] \<longleftrightarrow> (\<forall>x \<in> set xs. g x = [])"
  by auto

lemma map_snd_keys [simp]: "map fst (map_snd g m) = map fst m" "fst ` set (map_snd g m) = fst ` set m"
proof -
  show e: "map fst (map_snd g m) = map fst m" by (simp add: map_snd_def split_beta comp_def)
  then show "fst ` set (map_snd g m) = fst ` set m" by (metis list.set_map)
qed

lemma has_key_map_snd [simp]: "has_key (map_snd g m) = has_key m"
  by (simp add: has_key_iff fun_eq_iff)

lemma map_snd_twice: "(\<And>v. g (g v) = g v) \<Longrightarrow> map_snd g (map_snd g m) = map_snd g m"
  by (simp add: map_snd_def split_beta)

lemma map_of_map_snd: "map_of (map_snd g m) k = map_option g (map_of m k)"
  by (induction m) (auto simp: map_snd_def)

lemma map_values_map_snd: "map_values (map_snd g m) = map g (map_values m)"
  by (simp add: map_values_def map_snd_def split_beta)

lemma keyed_by_map_snd: "(\<And>v. h (g v) = h v) \<Longrightarrow> keyed_by h (map_snd g m) = keyed_by h m"
  by (simp add: keyed_by_def keys_distinct_def) (auto simp: list_all_iff map_snd_def split_beta)

subsection \<open>Resolution is idempotent\<close>

lemma resolve_parts [simp]:
  "sm_enums (resolve_field_types s) = sm_enums s"
  "fs_server_groups (resolve_field_types s) = fs_server_groups s"
  "map fst (sm_models (resolve_field_types s)) = map fst (sm_models s)"
  "map fst (fs_types (resolve_field_types s)) = map fst (fs_types s)"
  "map fst (sm_views (resolve_field_types s)) = map fst (sm_views s)"
  "has_key (sm_models (resolve_field_types s)) = has_key (sm_models s)"
  "has_key (fs_types (resolve_field_types s)) = has_key (fs_types s)"
  by (simp_all add: resolve_field_types_def)

lemma resolve_type_cong:
  "has_key (sm_enums s) = has_key (sm_enums t) \<Longrightarrow> has_key (fs_types s) = has_key (fs_types t)
     \<Longrightarrow> resolve_type s = resolve_type t"
  by (rule ext, rename_tac ty, case_tac ty) simp_all

lemma resolve_type_twice [simp]: "resolve_type s (resolve_type s t) = resolve_type s t"
  by (cases t) simp_all

lemma resolve_fields_twice [simp]: "resolve_fields s (resolve_fields s fs) = resolve_fields s fs"
  by (simp add: resolve_fields_def map_snd_twice)

lemma resolve_fields_cong: "resolve_type s = resolve_type t \<Longrightarrow> resolve_fields s = resolve_fields t"
  by (simp add: resolve_fields_def fun_eq_iff)

lemma resolve_fields_resolved [simp]: "resolve_fields (resolve_field_types s) = resolve_fields s"
  by (rule resolve_fields_cong, rule resolve_type_cong) simp_all

lemma resolve_twice [simp]: "resolve_field_types (resolve_field_types s) = resolve_field_types s"
proof -
  have "resolve_field_types (resolve_field_types s) = (resolve_field_types s)
     \<lparr>sm_models := map_snd (\<lambda>m. m\<lparr>mo_fields := resolve_fields s (mo_fields m)\<rparr>) (sm_models (resolve_field_types s)),
      fs_types := map_snd (\<lambda>t. t\<lparr>cy_fields := resolve_fields s (cy_fields t)\<rparr>) (fs_types (resolve_field_types s)),
      sm_views := map_snd (\<lambda>v. v\<lparr>vi_fields := resolve_fields s (vi_fields v)\<rparr>) (sm_views (resolve_field_types s))\<rparr>"
    by (subst resolve_field_types_def) simp
  also have "\<dots> = resolve_field_types s"
    by (simp add: resolve_field_types_def map_snd_twice)
  finally show ?thesis .
qed

lemma check_duplicates_resolved: "check_duplicates (resolve_field_types s) = check_duplicates s"
  by (simp add: check_duplicates_def)

subsection \<open>The relations of the input are not read\<close>

named_theorems relations_irrelevant \<open>what does not read the field \<open>fs_relations\<close>\<close>

lemma selectors_relations [relations_irrelevant]:
  "sm_models (s\<lparr>fs_relations := r\<rparr>) = sm_models s"
  "sm_enums (s\<lparr>fs_relations := r\<rparr>) = sm_enums s"
  "fs_types (s\<lparr>fs_relations := r\<rparr>) = fs_types s"
  by simp_all

lemma checks_relations [relations_irrelevant]:
  "resolve_field_types (s\<lparr>fs_relations := r\<rparr>) = (resolve_field_types s)\<lparr>fs_relations := r\<rparr>"
  "check_duplicates (s\<lparr>fs_relations := r\<rparr>) = check_duplicates s"
  "is_model_relation (s\<lparr>fs_relations := r\<rparr>) = is_model_relation s"
  "reference_errors (s\<lparr>fs_relations := r\<rparr>) = reference_errors s"
  "composite_field_errors (s\<lparr>fs_relations := r\<rparr>) = composite_field_errors s"
  "model_has_field (s\<lparr>fs_relations := r\<rparr>) = model_has_field s"
  "variant_errors (s\<lparr>fs_relations := r\<rparr>) = variant_errors s"
proof -
  have e: "resolve_type (s\<lparr>fs_relations := r\<rparr>) = resolve_type s"
    by (rule resolve_type_cong) simp_all
  show "resolve_field_types (s\<lparr>fs_relations := r\<rparr>) = (resolve_field_types s)\<lparr>fs_relations := r\<rparr>"
    by (simp add: resolve_field_types_def resolve_fields_cong [OF e])
  show "check_duplicates (s\<lparr>fs_relations := r\<rparr>) = check_duplicates s"
    by (simp add: check_duplicates_def)
  show "is_model_relation (s\<lparr>fs_relations := r\<rparr>) = is_model_relation s"
    by (rule ext, rename_tac ty, case_tac ty) simp_all
  show "reference_errors (s\<lparr>fs_relations := r\<rparr>) = reference_errors s"
    by (intro ext, rename_tac m f ty, case_tac ty) simp_all
  show "composite_field_errors (s\<lparr>fs_relations := r\<rparr>) = composite_field_errors s"
    by (intro ext, rename_tac m f ty, case_tac ty) simp_all
qed (simp_all add: model_has_field_def variant_errors_def fun_eq_iff)

lemma validators_relations [relations_irrelevant]:
  "validate_default_value (s\<lparr>fs_relations := r\<rparr>) = validate_default_value s"
  "foreign_key_errors (s\<lparr>fs_relations := r\<rparr>) = foreign_key_errors s"
  "validate_composite_type (s\<lparr>fs_relations := r\<rparr>) = validate_composite_type s"
  "relation_of_field (s\<lparr>fs_relations := r\<rparr>) = relation_of_field s"
  "validate_computed_fields (s\<lparr>fs_relations := r\<rparr>) = validate_computed_fields s"
  unfolding fun_eq_iff validate_default_value_def foreign_key_errors_def
    validate_composite_type_def relation_of_field_def validate_computed_fields_def relations_irrelevant
  by simp_all

lemma field_validators_relations [relations_irrelevant]:
  "validate_field_attribute (s\<lparr>fs_relations := r\<rparr>) = validate_field_attribute s"
  "validate_field (s\<lparr>fs_relations := r\<rparr>) = validate_field s"
  "validate_view (s\<lparr>fs_relations := r\<rparr>) = validate_view s"
  "validate_model (s\<lparr>fs_relations := r\<rparr>) = validate_model s"
  "resolve_relations (s\<lparr>fs_relations := r\<rparr>) = resolve_relations s"
proof -
  show a: "validate_field_attribute (s\<lparr>fs_relations := r\<rparr>) = validate_field_attribute s"
    unfolding fun_eq_iff validate_field_attribute_def relations_irrelevant by simp
  show f: "validate_field (s\<lparr>fs_relations := r\<rparr>) = validate_field s"
    by (simp add: fun_eq_iff validate_field_def relations_irrelevant a)
  show "validate_view (s\<lparr>fs_relations := r\<rparr>) = validate_view s"
    by (simp add: fun_eq_iff validate_view_def f)
  show "validate_model (s\<lparr>fs_relations := r\<rparr>) = validate_model s"
    by (simp add: fun_eq_iff validate_model_def f)
  show "resolve_relations (s\<lparr>fs_relations := r\<rparr>) = resolve_relations s"
    by (simp add: resolve_relations_def relations_irrelevant)
qed

subsection \<open>Accepted schemas\<close>

text \<open>What \<open>validate\<close> returns: resolved, without an error of its own, with its relations.\<close>

definition validated :: "full_schema \<Rightarrow> bool" where
  "validated t \<longleftrightarrow> resolve_field_types t = t \<and> validation_errors t = [] \<and> fs_relations t = resolve_relations t"

lemma validate_validated: "validate s = Inr t \<Longrightarrow> validated t"
proof -
  assume "validate s = Inr t"
  then have ok: "validation_errors s = []"
    and t: "t = (resolve_field_types s)\<lparr>fs_relations := resolve_relations (resolve_field_types s)\<rparr>"
    by (simp_all add: validate_def Let_def split: if_splits)
  have "validation_errors t = validation_errors s"
    by (simp add: t validation_errors_def Let_def relations_irrelevant check_duplicates_resolved)
  with ok show "validated t" by (simp add: validated_def t relations_irrelevant)
qed

lemma validated_iff: "validated t \<longleftrightarrow> validate t = Inr t"
proof
  show "validate t = Inr t" if v: "validated t"
  proof -
    have "t\<lparr>fs_relations := resolve_relations t\<rparr> = t"
      using v by (metis (full_types) full_schema.surjective full_schema.update_convs(6) validated_def)
    with v show ?thesis by (simp add: validate_def validated_def)
  qed
qed (rule validate_validated)

text \<open>
  C26: Validation is idempotent: an accepted schema, as the validator returns it, is accepted again
  and returned unchanged.
\<close>

theorem validate_idempotent: "validate s = Inr t \<Longrightarrow> validate t = Inr t"
  using validate_validated validated_iff by blast

lemma validated_parts:
  assumes "validated t"
  shows "check_duplicates t = []"
    and "m \<in> set (map_values (sm_models t)) \<Longrightarrow> validate_model t m = []"
    and "m \<in> set (map_values (sm_models t)) \<Longrightarrow> f \<in> set (map_values (mo_fields m))
           \<Longrightarrow> computed_field_errors m f = []"
    and "e \<in> set (map_values (sm_enums t)) \<Longrightarrow> validate_enum e = []"
    and "ty \<in> set (map_values (fs_types t)) \<Longrightarrow> validate_composite_type t ty = []"
    and "v \<in> set (map_values (sm_views t)) \<Longrightarrow> validate_view t v = []"
    and "g \<in> set (map_values (fs_server_groups t)) \<Longrightarrow> validate_server_group g = []"
  using assms
  by (auto simp: validated_def validation_errors_def Let_def accepting validate_computed_fields_def
      simp del: concat_map_singleton concat_eq_Nil_conv)

lemma map_snd_fixed: "map_snd g m = m \<Longrightarrow> v \<in> set (map_values m) \<Longrightarrow> g v = v"
  by (induction m) (auto simp: map_snd_def map_values_def)

lemma resolve_fields_fixed:
  assumes "resolve_fields s fs = fs" and "f \<in> set (map_values fs)"
  shows "resolve_type s (f_type f) = f_type f"
proof -
  have "f\<lparr>f_type := resolve_type s (f_type f)\<rparr> = f"
    using map_snd_fixed [OF assms(1) [unfolded resolve_fields_def] assms(2)] .
  then show ?thesis by (metis field.select_convs(2) field.surjective field.update_convs(2))
qed

lemma validated_resolved:
  assumes "validated t"
  shows "m \<in> set (map_values (sm_models t)) \<Longrightarrow> f \<in> set (map_values (mo_fields m))
           \<Longrightarrow> resolve_type t (f_type f) = f_type f"
    and "v \<in> set (map_values (sm_views t)) \<Longrightarrow> f \<in> set (map_values (vi_fields v))
           \<Longrightarrow> resolve_type t (f_type f) = f_type f"
proof -
  have r: "resolve_field_types t = t" using assms by (simp add: validated_def)
  have mo: "map_snd (\<lambda>m. m\<lparr>mo_fields := resolve_fields t (mo_fields m)\<rparr>) (sm_models t) = sm_models t"
    using arg_cong [OF r, of sm_models] by (simp add: resolve_field_types_def)
  have vi: "map_snd (\<lambda>v. v\<lparr>vi_fields := resolve_fields t (vi_fields v)\<rparr>) (sm_views t) = sm_views t"
    using arg_cong [OF r, of sm_views] by (simp add: resolve_field_types_def)
  show "resolve_type t (f_type f) = f_type f"
    if "m \<in> set (map_values (sm_models t))" "f \<in> set (map_values (mo_fields m))" for m
    using map_snd_fixed [OF mo that(1)] that(2)
    by (metis (no_types, lifting) model.select_convs(2) model.surjective model.update_convs(2) resolve_fields_fixed)
  show "resolve_type t (f_type f) = f_type f"
    if "v \<in> set (map_values (sm_views t))" "f \<in> set (map_values (vi_fields v))" for v
    using map_snd_fixed [OF vi that(1)] that(2)
    by (metis (no_types, lifting) view.select_convs(2) view.surjective view.update_convs(2) resolve_fields_fixed)
qed

subsection \<open>Type references\<close>

text \<open>A reference that names one definition, of the kind it says.\<close>

fun well_typed :: "full_schema \<Rightarrow> field_type \<Rightarrow> bool" where
  "well_typed s (TyModel n) \<longleftrightarrow> is_model_relation s (TyModel n)"
| "well_typed s (TyEnum n) \<longleftrightarrow> has_key (sm_enums s) n"
| "well_typed s (TyComposite n) \<longleftrightarrow> has_key (fs_types s) n"
| "well_typed s _ \<longleftrightarrow> True"

lemma well_typed_reference:
  "reference_errors s m f t = [] \<Longrightarrow> resolve_type s t = t \<Longrightarrow> well_typed s t"
  by (cases t) (auto split: if_splits)

lemma well_typed_composite:
  "composite_field_errors s m f t = [] \<Longrightarrow> well_typed s t \<and> \<not> type_is_relation t"
  by (cases t) (auto split: if_splits)

lemma validate_field_reference: "validate_field s m f = [] \<Longrightarrow> reference_errors s m (f_name f) (f_type f) = []"
  by (simp add: validate_field_def)

lemma validate_model_field:
  "validate_model s m = [] \<Longrightarrow> f \<in> set (map_values (mo_fields m)) \<Longrightarrow> validate_field s (mo_name m) f = []"
  by (simp add: validate_model_def accepting split: if_splits)

text \<open>
  C24: In an accepted schema every reference is to one definition of the kind it says: the names of
  models, enums, composite types and views are distinct, a field of a model or a view refers to an
  existing model, enum or composite type, and a field of a composite type to no model.
\<close>

theorem validated_types:
  assumes "validate s = Inr t"
  shows "distinct (map fst (sm_models t) @ map fst (sm_enums t) @ map fst (fs_types t) @ map fst (sm_views t)) \<and>
    (\<forall>m \<in> set (map_values (sm_models t)). \<forall>f \<in> set (map_values (mo_fields m)). well_typed t (f_type f)) \<and>
    (\<forall>v \<in> set (map_values (sm_views t)). \<forall>f \<in> set (map_values (vi_fields v)). well_typed t (f_type f)) \<and>
    (\<forall>c \<in> set (map_values (fs_types t)). \<forall>f \<in> set (map_values (cy_fields c)).
       well_typed t (f_type f) \<and> \<not> type_is_relation (f_type f))"
proof (intro conjI ballI)
  have v: "validated t" by (rule validate_validated [OF assms])
  show "distinct (map fst (sm_models t) @ map fst (sm_enums t) @ map fst (fs_types t) @ map fst (sm_views t))"
    using validated_parts(1) [OF v] by (auto simp: check_duplicates_def Let_def accepting)
  show "well_typed t (f_type f)" if "m \<in> set (map_values (sm_models t))" "f \<in> set (map_values (mo_fields m))" for m f
    using validate_model_field [OF validated_parts(2) [OF v that(1)] that(2)] validated_resolved(1) [OF v that]
    by (blast intro: well_typed_reference validate_field_reference)
  show "well_typed t (f_type f)" if "u \<in> set (map_values (sm_views t))" "f \<in> set (map_values (vi_fields u))" for u f
    using validated_parts(6) [OF v that(1)] validated_resolved(2) [OF v that] that(2)
    by (auto simp: validate_view_def accepting split: if_splits intro: well_typed_reference validate_field_reference)
  fix c f assume "c \<in> set (map_values (fs_types t))" "f \<in> set (map_values (cy_fields c))"
  then have "composite_field_errors t (cy_name c) (f_name f) (f_type f) = []"
    using validated_parts(5) [OF v] by (auto simp: validate_composite_type_def accepting split: if_splits)
  then show "well_typed t (f_type f)" "\<not> type_is_relation (f_type f)"
    using well_typed_composite by blast+
qed

subsection \<open>Relations\<close>

text \<open>The well-formedness of the input carries over: keys are the names of what they hold.\<close>

lemma validate_wf:
  assumes "validate s = Inr t" and "sm_wf s"
  shows "sm_wf t"
proof -
  have k: "keyed_by f_name (resolve_fields s fs) = keyed_by f_name fs" for fs
    unfolding resolve_fields_def by (rule keyed_by_map_snd) simp
  have "sm_wf (resolve_field_types s)"
    using assms(2)
    by (simp add: sm_wf_def resolve_field_types_def keyed_by_map_snd map_values_map_snd list_all_iff mo_wf_def k)
  then show ?thesis
    using assms(1) by (auto simp: validate_def Let_def sm_wf_def split: if_splits)
qed

lemma keyed_by_lookup: "keyed_by g m \<Longrightarrow> v \<in> set (map_values m) \<longleftrightarrow> map_of m (g v) = Some v"
  by (auto simp: keyed_by_def keys_distinct_def list_all_iff map_values_def dest: map_of_SomeD
      intro!: map_of_is_SomeI image_eqI [where x = "(g v, v)"] bexI)

lemma apply_relation_attr_parts [simp]:
  "re_from_model (apply_relation_attr x r) = re_from_model r"
  "re_from_field (apply_relation_attr x r) = re_from_field r"
  "re_to_model (apply_relation_attr x r) = re_to_model r"
  "re_type (apply_relation_attr x r) = re_type r"
  "re_from_fields (apply_relation_attr x r) = (case x of
     Some y \<Rightarrow> if rel_fields y = [] then re_from_fields r else rel_fields y | None \<Rightarrow> re_from_fields r)"
  by (cases x; simp add: apply_relation_attr_def)+

lemma relation_of_field_Some:
  "relation_of_field s m f = Some r \<Longrightarrow>
     re_from_model r = mo_name m \<and> re_from_field r = f_name f \<and> f_type f = TyModel (re_to_model r)
     \<and> is_model_relation s (f_type f) \<and> re_type r = (if f_is_list f then OneToMany else ManyToOne)
     \<and> re_from_fields r = (case fa_relation (extract_attributes f) of Some x \<Rightarrow> rel_fields x | None \<Rightarrow> [])"
  by (cases "f_type f")
    (auto simp: relation_of_field_def re_new_def split: option.splits if_splits)

lemma in_resolve_relations:
  "r \<in> set (resolve_relations s) \<longleftrightarrow>
     (\<exists>m f. m \<in> set (map_values (sm_models s)) \<and> f \<in> set (map_values (mo_fields m))
        \<and> relation_of_field s m f = Some r)"
  by (auto simp: resolve_relations_def List.map_filter_def image_iff) (metis option.sel)+

text \<open>
  C25: Every relation of an accepted schema leaves from a field that refers to an existing model;
  it is to-many exactly when the field is a list.  The foreign key fields of a relation that is not
  to-many are fields of the model it leaves from; those of a to-many relation are not looked at.
\<close>

theorem validated_relations:
  assumes "validate s = Inr t" and "sm_wf s" and "r \<in> set (fs_relations t)"
  shows "\<exists>m f. map_of (sm_models t) (re_from_model r) = Some m \<and> map_of (mo_fields m) (re_from_field r) = Some f \<and>
    f_type f = TyModel (re_to_model r) \<and> has_key (sm_models t) (re_to_model r) \<and>
    re_type r = (if f_is_list f then OneToMany else ManyToOne) \<and>
    (f_is_list f \<or> (\<forall>k \<in> set (re_from_fields r). has_key (mo_fields m) k))"
proof -
  have v: "validated t" and wf: "sm_wf t"
    using validate_validated validate_wf assms(1,2) by blast+
  obtain m f where m: "m \<in> set (map_values (sm_models t))" and f: "f \<in> set (map_values (mo_fields m))"
    and rel: "relation_of_field t m f = Some r"
    using assms(3) v by (auto simp: validated_def in_resolve_relations)
  note r = relation_of_field_Some [OF rel]
  have lm: "map_of (sm_models t) (mo_name m) = Some m"
    using wf m keyed_by_lookup [of mo_name "sm_models t" m] by (simp add: sm_wf_def)
  have lf: "map_of (mo_fields m) (f_name f) = Some f"
    using wf m f keyed_by_lookup [of f_name "mo_fields m" f] by (auto simp: sm_wf_def list_all_iff mo_wf_def)
  have "foreign_key_errors t (mo_name m) f = []"
    using validate_model_field [OF validated_parts(2) [OF v m] f] by (simp add: validate_field_def)
  then have "f_is_list f \<or> (\<forall>k \<in> set (re_from_fields r). has_key (mo_fields m) k)"
    using r lm by (auto simp: foreign_key_errors_def model_has_field_def filter_empty_conv split: option.splits)
  with r lm lf show ?thesis by auto
qed

subsection \<open>Acceptance without errors\<close>

text \<open>
  The rules, stated without the validator's own predicates: the alphabet of a mapped name is
  listed, the values a default of each type may have are listed type by type, and the fields a
  rule asks for are existence statements.
\<close>

definition name_alphabet :: string where
  "name_alphabet = ''ABCDEFGHIJKLMNOPQRSTUVWXYZabcdefghijklmnopqrstuvwxyz0123456789_.''"

definition safe_name :: "string \<Rightarrow> bool" where
  "safe_name s \<longleftrightarrow> s \<noteq> [] \<and> set s \<subseteq> set name_alphabet"

fun scalar_default :: "scalar_type \<Rightarrow> attr_value set" where
  "scalar_default ScInt = range ValInt"
| "scalar_default ScBigInt = range ValInt"
| "scalar_default ScFloat = range ValInt \<union> range ValFloat"
| "scalar_default ScDecimal = range ValInt \<union> range ValFloat"
| "scalar_default ScString = range ValString"
| "scalar_default ScBoolean = range ValBool"
| "scalar_default ScJson = range ValInt \<union> range ValFloat \<union> range ValString \<union> range ValBool \<union> range ValArray"
| "scalar_default _ = {}"

definition field_of :: "full_schema \<Rightarrow> string \<Rightarrow> string \<Rightarrow> bool" where
  "field_of s m k \<longleftrightarrow> (\<exists>x f. map_of (sm_models s) m = Some x \<and> (k, f) \<in> set (mo_fields x))"

definition to_many :: "model \<Rightarrow> string \<Rightarrow> bool" where
  "to_many m r \<longleftrightarrow> (\<exists>k f. (k, f) \<in> set (mo_fields m) \<and> f_name f = r \<and> f_modifier f \<in> {IsList, OptionalList})"

lemma name_alphabet_iff: "is_alnum c \<or> c = CHR ''_'' \<or> c = CHR ''.'' \<longleftrightarrow> c \<in> set name_alphabet"
proof -
  have "\<forall>c. (is_alnum c \<or> c = CHR ''_'' \<or> c = CHR ''.'') = (c \<in> set name_alphabet)" by code_simp
  then show ?thesis by blast
qed

lemma safe_name_iff: "is_safe_sql_identifier s \<longleftrightarrow> safe_name s"
  unfolding is_safe_sql_identifier_def safe_name_def list_all_iff name_alphabet_iff by blast

lemma scalar_default_iff: "scalar_accepts t v \<longleftrightarrow> v \<in> scalar_default t"
  by (cases t; cases v) (auto simp: scalar_accepts_def)

lemma field_of_iff: "model_has_field s m k \<longleftrightarrow> field_of s m k"
  by (force simp: model_has_field_def field_of_def has_key_iff dest: map_of_SomeD split: option.splits)

lemma to_many_iff: "list_relation m r \<longleftrightarrow> to_many m r"
proof -
  have "f_is_list f \<longleftrightarrow> f_modifier f \<in> {IsList, OptionalList}" for f
    by (cases "f_modifier f") (simp_all add: f_is_list_def)
  then show ?thesis
    unfolding list_relation_def to_many_def list_ex_iff map_values_def by force
qed

lemma model_relation_iff:
  "is_model_relation s ty
   \<longleftrightarrow> (\<exists>n. ty = TyModel n \<and> has_key (sm_models s) n \<and> \<not> has_key (sm_enums s) n \<and> \<not> has_key (fs_types s) n)"
  by (cases ty) simp_all

definition default_ok :: "full_schema \<Rightarrow> field \<Rightarrow> attr_value \<Rightarrow> bool" where
  "default_ok s f v \<longleftrightarrow> (\<exists>n xs. v = ValFunction n xs) \<or> (case f_type f of
     TyScalar t \<Rightarrow> v \<in> scalar_default t
   | TyEnum n \<Rightarrow> \<exists>x. v = ValIdent x \<and> (\<forall>e. map_of (sm_enums s) n = Some e \<longrightarrow> en_get_variant x e \<noteq> None)
   | TyModel n \<Rightarrow> \<exists>x. v = ValIdent x \<and> (\<forall>e. map_of (sm_enums s) n = Some e \<longrightarrow> en_get_variant x e \<noteq> None)
   | _ \<Rightarrow> False)"

definition attribute_ok :: "full_schema \<Rightarrow> field \<Rightarrow> attribute \<Rightarrow> bool" where
  "attribute_ok s f a \<longleftrightarrow>
     (at_name a = ''id'' \<longrightarrow> \<not> type_is_relation (f_type f)) \<and>
     (at_name a = ''auto'' \<longrightarrow> f_type f = TyScalar ScInt \<or> f_type f = TyScalar ScBigInt) \<and>
     (at_name a = ''default'' \<longrightarrow> (\<forall>v. first_arg a = Some v \<longrightarrow> default_ok s f v)) \<and>
     (at_name a = ''relation'' \<longrightarrow> (\<exists>n. f_type f = TyModel n \<and> has_key (sm_models s) n)) \<and>
     (at_name a = ''updated_at'' \<longrightarrow> f_type f = TyScalar ScDateTime) \<and>
     (at_name a = ''map'' \<longrightarrow> (\<forall>c. first_arg a = Some (ValString c) \<longrightarrow> safe_name c))"

definition reference_ok :: "full_schema \<Rightarrow> field_type \<Rightarrow> bool" where
  "reference_ok s ty \<longleftrightarrow> (case ty of
     TyModel n \<Rightarrow> has_key (sm_models s) n \<or> has_key (sm_enums s) n \<or> has_key (fs_types s) n
   | TyEnum n \<Rightarrow> has_key (sm_enums s) n
   | TyComposite n \<Rightarrow> has_key (fs_types s) n
   | _ \<Rightarrow> True)"

definition field_ok :: "full_schema \<Rightarrow> string \<Rightarrow> field \<Rightarrow> bool" where
  "field_ok s m f \<longleftrightarrow> reference_ok s (f_type f) \<and> (\<forall>a \<in> set (f_attributes f). attribute_ok s f a) \<and>
     ((\<exists>n. f_type f = TyModel n \<and> has_key (sm_models s) n \<and> \<not> has_key (sm_enums s) n \<and> \<not> has_key (fs_types s) n)
       \<and> \<not> f_is_list f \<longrightarrow>
       (\<forall>rel. fa_relation (extract_attributes f) = Some rel \<longrightarrow>
         (\<forall>k \<in> set (rel_fields rel). field_of s m k)))"

definition model_attribute_ok :: "model \<Rightarrow> attribute \<Rightarrow> bool" where
  "model_attribute_ok m a \<longleftrightarrow>
     (at_name a \<in> {''index'', ''unique'', ''id''} \<longrightarrow>
       (\<forall>ks. first_arg a = Some (FieldRefList ks) \<longrightarrow> (\<forall>k \<in> set ks. has_key (mo_fields m) k))) \<and>
     (at_name a = ''search'' \<longrightarrow>
       (\<forall>ks. first_arg a = Some (FieldRefList ks) \<longrightarrow>
         (\<forall>k \<in> set ks. \<exists>f. map_of (mo_fields m) k = Some f \<and> f_type f = TyScalar ScString))) \<and>
     (at_name a = ''map'' \<longrightarrow> (\<forall>t. first_arg a = Some (ValString t) \<longrightarrow> safe_name t))"

definition aggregate_ok :: "model \<Rightarrow> attribute \<Rightarrow> bool" where
  "aggregate_ok m a \<longleftrightarrow>
     (at_name a = ''count'' \<longrightarrow>
       (\<forall>p. first_path_arg a = Some p \<longrightarrow> CHR ''.'' \<notin> set p \<and> to_many m p)) \<and>
     (at_name a \<in> {''sum'', ''avg'', ''min'', ''max''} \<longrightarrow>
       (\<forall>p. first_path_arg a = Some p \<longrightarrow> (\<exists>r x. split_once CHR ''.'' p = Some (r, x) \<and> to_many m r)))"

definition computed_ok :: "model \<Rightarrow> field \<Rightarrow> bool" where
  "computed_ok m f \<longleftrightarrow>
     (\<forall>g. fa_generated (extract_attributes f) = Some g \<longrightarrow>
        \<not> fa_is_id (extract_attributes f) \<and> \<not> fa_is_auto (extract_attributes f) \<and>
        fa_aggregate (extract_attributes f) = None \<and> trim (gen_expression g) \<noteq> []) \<and>
     (\<forall>a \<in> set (f_attributes f). aggregate_ok m a) \<and>
     (has_attribute ''stored'' (f_attributes f) \<or> has_attribute ''virtual'' (f_attributes f) \<longrightarrow>
        fa_generated (extract_attributes f) \<noteq> None)"

definition model_ok :: "full_schema \<Rightarrow> model \<Rightarrow> bool" where
  "model_ok s m \<longleftrightarrow>
     ((\<exists>f \<in> set (map_values (mo_fields m)). f_is_id f) \<or> has_composite_id m) \<and>
     (\<forall>f \<in> set (map_values (mo_fields m)). field_ok s (mo_name m) f \<and> computed_ok m f) \<and>
     (\<forall>a \<in> set (mo_attributes m). model_attribute_ok m a)"

definition setting_ok :: "string \<Rightarrow> (string \<Rightarrow> 'a option) \<Rightarrow> attribute \<Rightarrow> bool" where
  "setting_ok n parse a \<longleftrightarrow>
     (at_name a = n \<longrightarrow> (\<forall>v. Option.bind (first_arg a) setting_text = Some v \<longrightarrow> parse v \<noteq> None))"

definition server_group_ok :: "server_group \<Rightarrow> bool" where
  "server_group_ok g \<longleftrightarrow> sg_servers g \<noteq> [] \<and> distinct (map fst (sg_servers g)) \<and>
     (\<forall>v \<in> set (map_values (sg_servers g)). sv_url v \<noteq> None \<and> sv_weight v \<noteq> Some 0 \<and> sv_priority v \<noteq> Some 0) \<and>
     (\<forall>a \<in> set (sg_attributes g). setting_ok ''strategy'' strategy_parse a \<and> setting_ok ''loadBalance'' balance_parse a) \<and>
     (sg_strategy g = Some ReadReplica \<longrightarrow> (\<exists>v \<in> set (map_values (sg_servers g)). sv_role v = Some RolePrimary))"

text \<open>A schema whose references are resolved and that breaks no rule.\<close>

definition schema_ok :: "full_schema \<Rightarrow> bool" where
  "schema_ok s \<longleftrightarrow>
     distinct (map fst (sm_models s) @ map fst (sm_enums s) @ map fst (fs_types s) @ map fst (sm_views s)) \<and>
     distinct (map fst (fs_server_groups s)) \<and>
     (\<forall>m \<in> set (map_values (sm_models s)). model_ok s m) \<and>
     (\<forall>e \<in> set (map_values (sm_enums s)). en_variants e \<noteq> [] \<and> distinct (map ev_name (en_variants e))) \<and>
     (\<forall>c \<in> set (map_values (fs_types s)). cy_fields c \<noteq> [] \<and>
        (\<forall>f \<in> set (map_values (cy_fields c)). reference_ok s (f_type f) \<and> \<not> type_is_relation (f_type f))) \<and>
     (\<forall>v \<in> set (map_values (sm_views s)). vi_fields v \<noteq> [] \<and>
        (\<forall>f \<in> set (map_values (vi_fields v)). field_ok s (vi_name v) f)) \<and>
     (\<forall>g \<in> set (map_values (fs_server_groups s)). server_group_ok g)"

lemma default_accepting [accepting]: "validate_default_value s m f v = [] \<longleftrightarrow> default_ok s f v"
proof -
  have "variant_errors s m f n x = [] \<longleftrightarrow> (\<forall>e. map_of (sm_enums s) n = Some e \<longrightarrow> en_get_variant x e \<noteq> None)"
    for n x by (simp add: variant_errors_def split: option.split)
  then show ?thesis
    by (cases "f_type f"; cases v) (simp_all add: validate_default_value_def default_ok_def scalar_default_iff)
qed

lemma attribute_accepting [accepting]: "validate_field_attribute s m f a = [] \<longleftrightarrow> attribute_ok s f a"
proof -
  have opt: "(case x of Some v \<Rightarrow> g v | None \<Rightarrow> []) = [] \<longleftrightarrow> (\<forall>v. x = Some v \<longrightarrow> g v = [])" for x :: "'a option" and g
    by (cases x) simp_all
  have str: "(\<forall>v. x = Some v \<longrightarrow> (case v of ValString c \<Rightarrow> if P c then [] else [e c] | _ \<Rightarrow> []) = [])
      \<longleftrightarrow> (\<forall>c. x = Some (ValString c) \<longrightarrow> P c)" for x P and e :: "string \<Rightarrow> schema_error"
    by (auto split: attr_value.split)
  have rel: "(case ty of TyModel t \<Rightarrow> Q t | _ \<Rightarrow> False) \<longleftrightarrow> (\<exists>t. ty = TyModel t \<and> Q t)" for ty Q
    by (cases ty) simp_all
  consider "at_name a = ''id''" | "at_name a = ''auto''" | "at_name a = ''default''" | "at_name a = ''relation''"
    | "at_name a = ''updated_at''" | "at_name a = ''map''"
    | "at_name a \<notin> {''id'', ''auto'', ''default'', ''relation'', ''updated_at'', ''map''}" by blast
  then show ?thesis
    by cases (simp_all add: validate_field_attribute_def attribute_ok_def opt str rel default_accepting safe_name_iff)
qed

lemma reference_accepting [accepting]: "reference_errors s m f t = [] \<longleftrightarrow> reference_ok s t"
  by (cases t) (simp_all add: reference_ok_def)

lemma composite_accepting [accepting]:
  "composite_field_errors s c f t = [] \<longleftrightarrow> reference_ok s t \<and> \<not> type_is_relation t"
  by (cases t) (simp_all add: reference_ok_def)

lemma field_accepting [accepting]: "validate_field s m f = [] \<longleftrightarrow> field_ok s m f"
proof -
  have "foreign_key_errors s m f = [] \<longleftrightarrow> ((\<exists>n. f_type f = TyModel n \<and> has_key (sm_models s) n \<and> \<not> has_key (sm_enums s) n \<and> \<not> has_key (fs_types s) n) \<and> \<not> f_is_list f \<longrightarrow>
       (\<forall>rel. fa_relation (extract_attributes f) = Some rel \<longrightarrow> (\<forall>k \<in> set (rel_fields rel). field_of s m k)))"
    by (auto simp: foreign_key_errors_def model_relation_iff field_of_iff filter_empty_conv split: option.split)
  then show ?thesis by (auto simp: validate_field_def field_ok_def accepting)
qed

lemma search_accepting [accepting]:
  "search_errors m k = [] \<longleftrightarrow> (\<exists>f. map_of (mo_fields m) k = Some f \<and> f_type f = TyScalar ScString)"
  by (auto simp: search_errors_def split: option.split)

lemma missing_accepting [accepting]:
  "missing_fields m a w = [] \<longleftrightarrow>
     (\<forall>ks. first_arg a = Some (FieldRefList ks) \<longrightarrow> (\<forall>k \<in> set ks. has_key (mo_fields m) k))"
  by (auto simp: missing_fields_def filter_empty_conv split: option.split attr_value.split)

lemma model_attribute_accepting [accepting]:
  "validate_model_attribute m a = [] \<longleftrightarrow> model_attribute_ok m a"
  by (auto simp: validate_model_attribute_def model_attribute_ok_def Let_def accepting safe_name_iff
      split: option.splits attr_value.splits if_splits)

lemma aggregate_accepting [accepting]: "aggregate_errors m f a = [] \<longleftrightarrow> aggregate_ok m a"
  by (auto simp: aggregate_errors_def aggregate_ok_def to_many_iff Let_def split: option.splits if_splits)

lemma computed_accepting [accepting]: "computed_field_errors m f = [] \<longleftrightarrow> computed_ok m f"
proof -
  have "generated_errors m f = [] \<longleftrightarrow> (\<forall>g. fa_generated (extract_attributes f) = Some g \<longrightarrow>
        \<not> fa_is_id (extract_attributes f) \<and> \<not> fa_is_auto (extract_attributes f) \<and>
        fa_aggregate (extract_attributes f) = None \<and> trim (gen_expression g) \<noteq> [])"
    by (auto simp: generated_errors_def Let_def split: option.split)
  moreover have "orphan_errors m f = [] \<longleftrightarrow>
      (has_attribute ''stored'' (f_attributes f) \<or> has_attribute ''virtual'' (f_attributes f) \<longrightarrow>
        fa_generated (extract_attributes f) \<noteq> None)"
    by (auto simp: orphan_errors_def filter_empty_conv)
  ultimately show ?thesis by (simp add: computed_field_errors_def computed_ok_def accepting)
qed

lemma model_accepting [accepting]:
  "validate_model s m = [] \<and> (\<forall>f \<in> set (map_values (mo_fields m)). computed_field_errors m f = [])
     \<longleftrightarrow> model_ok s m"
proof -
  have "mo_id_fields m = [] \<longleftrightarrow> \<not> (\<exists>f \<in> set (map_values (mo_fields m)). f_is_id f)"
    by (simp add: mo_id_fields_def filter_empty_conv)
  then show ?thesis by (auto simp: validate_model_def model_ok_def accepting)
qed

lemma setting_accepting [accepting]:
  "(at_name a = n \<longrightarrow> setting_errors n parse valid g a = []) \<longleftrightarrow> setting_ok n parse a"
  by (auto simp: setting_errors_def setting_ok_def split: option.splits)

lemma group_attribute_accepting [accepting]:
  "validate_group_attribute g a = [] \<longleftrightarrow>
     setting_ok ''strategy'' strategy_parse a \<and> setting_ok ''loadBalance'' balance_parse a"
  unfolding setting_accepting [symmetric, where valid = "''ReadReplica, Sharding, MultiRegion, HighAvailability, Custom''"
      and g = "sg_name g" and parse = strategy_parse]
    setting_accepting [symmetric, where valid = "''RoundRobin, Random, LeastConnections, Weighted, Nearest, Sticky''"
      and g = "sg_name g" and parse = balance_parse]
  by (simp add: validate_group_attribute_def)

lemma server_group_accepting [accepting]: "validate_server_group g = [] \<longleftrightarrow> server_group_ok g"
proof -
  have v: "validate_server n v = [] \<longleftrightarrow> sv_url v \<noteq> None \<and> sv_weight v \<noteq> Some 0 \<and> sv_priority v \<noteq> Some 0"
    for n v by (simp add: validate_server_def)
  show ?thesis
    unfolding validate_server_group_def server_group_ok_def append_is_Nil_conv concat_Nil v
      group_attribute_accepting seen_errors_Nil
    by (simp add: list_ex_iff)
qed

lemma enum_accepting [accepting]:
  "validate_enum e = [] \<longleftrightarrow> en_variants e \<noteq> [] \<and> distinct (map ev_name (en_variants e))"
  by (simp add: validate_enum_def accepting)

lemma composite_type_accepting [accepting]:
  "validate_composite_type s c = [] \<longleftrightarrow> cy_fields c \<noteq> [] \<and>
     (\<forall>f \<in> set (map_values (cy_fields c)). reference_ok s (f_type f) \<and> \<not> type_is_relation (f_type f))"
  by (simp add: validate_composite_type_def accepting)

lemma view_accepting [accepting]:
  "validate_view s v = [] \<longleftrightarrow> vi_fields v \<noteq> [] \<and>
     (\<forall>f \<in> set (map_values (vi_fields v)). field_ok s (vi_name v) f)"
  by (simp add: validate_view_def accepting)

lemma errors_Nil_iff: "validation_errors s = [] \<longleftrightarrow> schema_ok (resolve_field_types s)"
proof -
  let ?s = "resolve_field_types s"
  have d: "check_duplicates s = [] \<longleftrightarrow>
     distinct (map fst (sm_models ?s) @ map fst (sm_enums ?s) @ map fst (fs_types ?s) @ map fst (sm_views ?s))
     \<and> distinct (map fst (fs_server_groups ?s))"
    by (auto simp: check_duplicates_def Let_def accepting)
  have m: "concat (map (validate_model ?s) (map_values (sm_models ?s))) = [] \<and> validate_computed_fields ?s = []
     \<longleftrightarrow> (\<forall>m \<in> set (map_values (sm_models ?s)). model_ok ?s m)"
    unfolding model_accepting [symmetric] validate_computed_fields_def concat_Nil by blast
  show ?thesis
    unfolding validation_errors_def Let_def schema_ok_def append_is_Nil_conv d m [symmetric]
      concat_Nil [of validate_enum] concat_Nil [of "validate_composite_type ?s"] concat_Nil [of "validate_view ?s"]
      concat_Nil [of validate_server_group] enum_accepting composite_type_accepting view_accepting
      server_group_accepting
    by (simp only: conj_assoc)
qed

lemma validate_accepts_iff: "(\<exists>e. validate s = Inl e) \<longleftrightarrow> \<not> schema_ok (resolve_field_types s)"
  by (simp add: validate_def Let_def errors_Nil_iff)

text \<open>
  C23: A schema is accepted exactly when, its references resolved, it breaks none of the rules that
  \<open>schema_ok\<close> states; otherwise all the errors found are returned, at least one, with their number.
\<close>

theorem validate_accepts:
  "case validate s of
     Inr t \<Rightarrow> schema_ok (resolve_field_types s) \<and> t = (resolve_field_types s)\<lparr>fs_relations := fs_relations t\<rparr>
   | Inl e \<Rightarrow> \<not> schema_ok (resolve_field_types s) \<and> validation_errors s \<noteq> [] \<and>
       e = ValidationFailed (length (validation_errors s)) (validation_errors s)"
  using errors_Nil_iff [of s] by (cases "validation_errors s = []") (simp_all add: validate_def Let_def)

subsection \<open>A sample schema\<close>

text \<open>
  A schema of a model with a relation, its back reference, an enum and a view, as the parser gives
  it: every name that is no scalar is taken for a model.
\<close>

definition plain_field :: "string \<Rightarrow> field_type \<Rightarrow> attribute list \<Rightarrow> field" where
  "plain_field n t as = \<lparr>f_name = n, f_type = t, f_modifier = Required, f_attributes = as\<rparr>"

definition id_field :: field where
  "id_field = plain_field ''id'' (TyScalar ScInt) [attr_simple ''id'', attr_simple ''auto'']"

definition post_model :: model where
  "post_model = mo_add_field (plain_field ''author'' (TyModel ''User'')
       [\<lparr>at_name = ''relation'', at_args = [arg_named ''fields'' (FieldRefList [''author_id'']),
          arg_named ''references'' (FieldRefList [''nowhere''])]\<rparr>])
     (mo_add_field (plain_field ''author_id'' (TyScalar ScInt) [])
       (mo_add_field id_field (mo_new ''Post'')))"

definition user_model :: model where
  "user_model = mo_add_field (plain_field ''role'' (TyModel ''Role'')
       [\<lparr>at_name = ''default'', at_args = [arg_positional (ValIdent ''ADMIN'')]\<rparr>])
     (mo_add_field \<lparr>f_name = ''posts'', f_type = TyModel ''Post'', f_modifier = IsList, f_attributes = []\<rparr>
       (mo_add_field id_field (mo_new ''User'')))"

definition role_enum :: enum_def where
  "role_enum = \<lparr>en_name = ''Role'', en_variants = [\<lparr>ev_name = ''ADMIN'', ev_attributes = []\<rparr>],
     en_attributes = [\<lparr>at_name = ''map'', at_args = [arg_positional (ValString [DQUOTE])]\<rparr>]\<rparr>"

definition blog :: full_schema where
  "blog = sm_add_enum role_enum (sm_add_model post_model (sm_add_model user_model fs_new))"

lemmas blog_simps = blog_def role_enum_def user_model_def post_model_def id_field_def plain_field_def
  mo_add_field_def mo_new_def sm_add_model_def sm_add_enum_def fs_new_def attr_simple_def
  arg_named_def arg_positional_def

definition blog_validated :: full_schema where
  "blog_validated = (resolve_field_types blog)\<lparr>fs_relations := resolve_relations (resolve_field_types blog)\<rparr>"

lemma blog_accepted: "validate blog = Inr blog_validated"
  by code_simp

theorem validate_idempotent_witness: "validate blog_validated = Inr blog_validated"
  using validate_idempotent [OF blog_accepted] .

theorem validated_types_witness:
  "distinct (map fst (sm_models blog_validated) @ map fst (sm_enums blog_validated)
     @ map fst (fs_types blog_validated) @ map fst (sm_views blog_validated)) \<and>
   list_all (\<lambda>m. list_all (\<lambda>f. well_typed blog_validated (f_type f)) (map_values (mo_fields m)))
     (map_values (sm_models blog_validated))"
  unfolding list_all_iff using validated_types [OF blog_accepted] by blast

lemma blog_wf: "sm_wf blog"
  by code_simp

lemma blog_relations:
  "map re_from_field (fs_relations blog_validated) = [''posts'', ''author'']"
  "map re_from_fields (fs_relations blog_validated) = [[], [''author_id'']]"
  "map re_to_fields (fs_relations blog_validated) = [[], [''nowhere'']]"
  by code_simp+

text \<open>The foreign key fields of a to-many relation are not looked at: a list of posts through a
  field that does not exist is accepted.\<close>

definition loose_user :: model where
  "loose_user = mo_add_field \<lparr>f_name = ''posts'', f_type = TyModel ''User'', f_modifier = IsList,
       f_attributes = [\<lparr>at_name = ''relation'', at_args = [arg_named ''fields'' (FieldRefList [''nowhere''])]\<rparr>]\<rparr>
     (mo_add_field id_field (mo_new ''User''))"

lemma to_many_fields_unchecked:
  "case validate (sm_add_model loose_user fs_new) of
     Inl e \<Rightarrow> False
   | Inr t \<Rightarrow> map re_from_fields (fs_relations t) = [[''nowhere'']] \<and> map re_type (fs_relations t) = [OneToMany]
       \<and> \<not> model_has_field t ''User'' ''nowhere''"
  by code_simp

theorem validated_relations_witness:
  "list_all (\<lambda>r. has_key (sm_models blog_validated) (re_to_model r)) (fs_relations blog_validated)"
  unfolding list_all_iff using validated_relations [OF blog_accepted blog_wf] by blast

end
