(* ===== verification/Schema_Loader.thy ===== *)
theory Schema_Loader
  imports Validator_Laws "HOL-Library.List_Lexorder"
begin

text \<open>
  Loading a schema from a file or a directory (\<^verbatim>\<open>prax-schema/src/loader\<close>): which files are
  found and in which order, parsing each, merging, validating, and the source map that error
  messages are rendered with.  The parser is an argument.  A directory is the tree of what it holds; a
  file carries its content, \<open>None\<close> when it cannot be read.  The laws show that acceptance, and what
  is found in the result, do not depend on how the definitions are spread over files.
\<close>

subsection \<open>Source map\<close>

record source_file =
  sf_path :: string
  sf_content :: string

type_synonym source_map = "source_file list"

definition source_insert :: "string \<Rightarrow> string \<Rightarrow> source_map \<Rightarrow> source_map \<times> u32" where
  "source_insert p c m = (m @ [\<lparr>sf_path = p, sf_content = c\<rparr>], of_nat (length m))"

definition source_get :: "u32 \<Rightarrow> source_map \<Rightarrow> source_file option" where
  "source_get i m = (if unat i < length m then Some (m ! unat i) else None)"

definition source_path_of :: "u32 \<Rightarrow> source_map \<Rightarrow> string option" where
  "source_path_of i m = map_option sf_path (source_get i m)"

subsection \<open>Discovery\<close>

datatype fs_node =
    FsFile string "string option"
  | FsSymlink string
  | FsDir string "fs_node list"

fun node_name :: "fs_node \<Rightarrow> string" where
  "node_name (FsFile n _) = n"
| "node_name (FsSymlink n) = n"
| "node_name (FsDir n _) = n"

text \<open>An entry below the root; the root itself is always visited.\<close>

fun is_skipped :: "fs_node \<Rightarrow> bool" where
  "is_skipped (FsFile n _) \<longleftrightarrow> take 1 n = ''.''"
| "is_skipped (FsSymlink n) \<longleftrightarrow> True"
| "is_skipped (FsDir n _) \<longleftrightarrow> take 1 n = ''.'' \<or> n = ''target''"

text \<open>The extension of a file name that does not start with a dot: what follows its last dot.\<close>

definition has_prax_extension :: "string \<Rightarrow> bool" where
  "has_prax_extension n \<longleftrightarrow> length n > 5 \<and> List.drop (length n - 5) n = ''.prax''"

type_synonym discovered = "string list \<times> string option"

fun walk_node :: "fs_node \<Rightarrow> discovered list" where
  "walk_node (FsFile n c) = (if is_skipped (FsFile n c) \<or> \<not> has_prax_extension n then [] else [([n], c)])"
| "walk_node (FsSymlink n) = []"
| "walk_node (FsDir n es) =
     (if is_skipped (FsDir n es) then []
      else map (\<lambda>(p, c). (n # p, c)) (concat (map walk_node es)))"

text \<open>A path is the list of its components, compared component by component.\<close>

definition discover :: "fs_node list \<Rightarrow> discovered list" where
  "discover es = sort_key fst (concat (map walk_node es))"

subsection \<open>Loading\<close>

definition show_path :: "string \<Rightarrow> string list \<Rightarrow> string" where
  "show_path dir p = dir @ ''/'' @ join ''/'' p"

fun kind_name :: "duplicate_kind \<Rightarrow> string" where
  "kind_name DkModel = ''model''"
| "kind_name DkEnum = ''enum''"
| "kind_name DkType = ''type''"
| "kind_name DkView = ''view''"
| "kind_name DkServerGroup = ''serverGroup''"
| "kind_name DkPolicy = ''policy''"
| "kind_name DkGenerator = ''generator''"
| "kind_name DkRawSql = ''rawSql''"
| "kind_name DkProcedure = ''procedure''"

fun conflict_to_error :: "merge_conflict \<Rightarrow> schema_error" where
  "conflict_to_error (DuplicateItem k n) = DuplicateAcrossFiles k n"
| "conflict_to_error MultipleDatasource = MultipleDatasourceError"

definition from_conflicts :: "merge_conflict list \<Rightarrow> schema_error" where
  "from_conflicts cs = (case map conflict_to_error cs of
     [e] \<Rightarrow> e | es \<Rightarrow> ValidationFailed (length es) es)"

fun parse_files :: "(string \<Rightarrow> schema_error + full_schema) \<Rightarrow> string \<Rightarrow> discovered list \<Rightarrow> source_map
    \<Rightarrow> (schema_error + full_schema list) \<times> source_map" where
  "parse_files parse dir [] src = (Inr [], src)"
| "parse_files parse dir ((p, content) # fs) src = (case content of
     None \<Rightarrow> (Inl (IoError (show_path dir p)), src)
   | Some c \<Rightarrow> (let (src', sid) = source_insert (show_path dir p) c src in case parse c of
       Inl e \<Rightarrow> (Inl (ParseInFile sid e), src')
     | Inr s \<Rightarrow> (case parse_files parse dir fs src' of
         (Inl e, src'') \<Rightarrow> (Inl e, src'')
       | (Inr ss, src'') \<Rightarrow> (Inr (s # ss), src''))))"

text \<open>Merging and validating what was parsed.\<close>

definition load_parsed :: "full_schema list \<Rightarrow> schema_error + full_schema" where
  "load_parsed ss =
     (let (merged, conflicts) = merge_files ss
      in if conflicts \<noteq> [] then Inl (from_conflicts conflicts) else validate merged)"

definition load_directory :: "(string \<Rightarrow> schema_error + full_schema) \<Rightarrow> string \<Rightarrow> fs_node list
    \<Rightarrow> (schema_error + full_schema) \<times> source_map" where
  "load_directory parse dir es = (case discover es of
     [] \<Rightarrow> (Inl (EmptySchemaDirectory dir), [])
   | files \<Rightarrow> (case parse_files parse dir files [] of
       (Inl e, src) \<Rightarrow> (Inl e, src)
     | (Inr ss, src) \<Rightarrow> (load_parsed ss, src)))"

definition load_single :: "(string \<Rightarrow> schema_error + full_schema) \<Rightarrow> string \<Rightarrow> string option
    \<Rightarrow> (schema_error + full_schema) \<times> source_map" where
  "load_single parse path content = (case content of
     None \<Rightarrow> (Inl (IoError path), [])
   | Some c \<Rightarrow> (let (src, sid) = source_insert path c [] in case parse c of
       Inl e \<Rightarrow> (Inl e, src)
     | Inr s \<Rightarrow> (validate s, src)))"

datatype path_kind = NoSuchPath | FilePath "string option" | DirPath "fs_node list" | OtherPath

definition load :: "(string \<Rightarrow> schema_error + full_schema) \<Rightarrow> string \<Rightarrow> path_kind
    \<Rightarrow> (schema_error + full_schema) \<times> source_map" where
  "load parse path k = (case k of
     NoSuchPath \<Rightarrow> (Inl (IoError path), [])
   | FilePath c \<Rightarrow> load_single parse path c
   | DirPath es \<Rightarrow> load_directory parse path es
   | OtherPath \<Rightarrow> (Inl (ConfigError (''schema path '' @ bt path @ '' is neither a file nor a directory'')), []))"

subsection \<open>Schemas with the same items\<close>

definition same_items :: "full_schema \<Rightarrow> full_schema \<Rightarrow> bool" where
  "same_items s t \<longleftrightarrow> (\<forall>c. item_of s c = item_of t c) \<and> distinct (labels_of s) \<and> distinct (labels_of t)"

named_theorems same \<open>what schemas with the same items agree on\<close>

lemma map_option_cancel: "inj g \<Longrightarrow> map_option g a = map_option g b \<Longrightarrow> a = b"
  by (metis injD option.inj_map)

lemma same_lookup:
  assumes "same_items s t"
  shows "map_of (sm_models s) = map_of (sm_models t)" and "map_of (sm_enums s) = map_of (sm_enums t)"
    and "map_of (fs_types s) = map_of (fs_types t)" and "map_of (sm_views s) = map_of (sm_views t)"
    and "map_of (fs_server_groups s) = map_of (fs_server_groups t)"
proof -
  have e: "item_of s (DuplicateItem k n) = item_of t (DuplicateItem k n)" for k n
    using assms unfolding same_items_def by blast
  show "map_of (sm_models s) = map_of (sm_models t)"
    using e [of DkModel] by (intro ext map_option_cancel [of ItModel]) (simp_all add: inj_def)
  show "map_of (sm_enums s) = map_of (sm_enums t)"
    using e [of DkEnum] by (intro ext map_option_cancel [of ItEnum]) (simp_all add: inj_def)
  show "map_of (fs_types s) = map_of (fs_types t)"
    using e [of DkType] by (intro ext map_option_cancel [of ItType]) (simp_all add: inj_def)
  show "map_of (sm_views s) = map_of (sm_views t)"
    using e [of DkView] by (intro ext map_option_cancel [of ItView]) (simp_all add: inj_def)
  show "map_of (fs_server_groups s) = map_of (fs_server_groups t)"
    using e [of DkServerGroup] by (intro ext map_option_cancel [of ItServerGroup]) (simp_all add: inj_def)
qed

lemma values_ran: "distinct (map fst m) \<Longrightarrow> set (map_values m) = ran (map_of m)"
  by (simp add: ran_distinct map_values_def image_image [symmetric])

lemma same_names: "same_items s t \<Longrightarrow> distinct (names_of s k) \<and> distinct (names_of t k)"
  by (auto simp: same_items_def labels_distinct)

lemma same_values:
  assumes "same_items s t"
  shows "set (map_values (sm_models s)) = set (map_values (sm_models t))"
    and "set (map_values (sm_enums s)) = set (map_values (sm_enums t))"
    and "set (map_values (fs_types s)) = set (map_values (fs_types t))"
    and "set (map_values (sm_views s)) = set (map_values (sm_views t))"
    and "set (map_values (fs_server_groups s)) = set (map_values (fs_server_groups t))"
  using same_names [OF assms, of DkModel] same_names [OF assms, of DkEnum] same_names [OF assms, of DkType]
    same_names [OF assms, of DkView] same_names [OF assms, of DkServerGroup]
  by (simp_all add: values_ran same_lookup [OF assms])

lemma same_keys:
  assumes "same_items s t"
  shows "has_key (sm_models s) = has_key (sm_models t)" and "has_key (sm_enums s) = has_key (sm_enums t)"
    and "has_key (fs_types s) = has_key (fs_types t)"
  by (simp_all add: fun_eq_iff has_key_def same_lookup [OF assms])

lemma same_checks:
  assumes "same_items s t"
  shows "reference_ok s = reference_ok t" and "default_ok s = default_ok t"
    and "attribute_ok s = attribute_ok t" and "is_model_relation s = is_model_relation t"
    and "field_of s = field_of t"
proof -
  note k = same_keys [OF assms] same_lookup [OF assms]
  show "reference_ok s = reference_ok t" unfolding fun_eq_iff reference_ok_def k by simp
  show d: "default_ok s = default_ok t" unfolding fun_eq_iff default_ok_def k by simp
  show "attribute_ok s = attribute_ok t" unfolding fun_eq_iff attribute_ok_def k d by simp
  show "is_model_relation s = is_model_relation t"
    by (rule ext, rename_tac ty, case_tac ty) (simp_all add: k)
  show "field_of s = field_of t" unfolding fun_eq_iff field_of_def k by simp
qed

lemma same_field_ok: "same_items s t \<Longrightarrow> field_ok s = field_ok t"
  unfolding fun_eq_iff field_ok_def by (simp add: same_checks same_keys)

lemma same_model_ok: "same_items s t \<Longrightarrow> model_ok s = model_ok t"
  unfolding fun_eq_iff model_ok_def by (simp add: same_field_ok)

lemma same_distinct:
  assumes "same_items s t"
  shows "distinct (map fst (sm_models s) @ map fst (sm_enums s) @ map fst (fs_types s) @ map fst (sm_views s))
       = distinct (map fst (sm_models t) @ map fst (sm_enums t) @ map fst (fs_types t) @ map fst (sm_views t))"
proof -
  have d: "set (map fst m) = dom (map_of m)" for m :: "'v index_map"
    by (simp add: dom_map_of_conv_image_fst)
  show ?thesis
    using same_names [OF assms, of DkModel] same_names [OF assms, of DkEnum] same_names [OF assms, of DkType]
      same_names [OF assms, of DkView]
    unfolding distinct_append d set_append same_lookup [OF assms] by simp
qed

lemma same_schema_ok: "same_items s t \<Longrightarrow> schema_ok s = schema_ok t"
  using same_names [of s t DkServerGroup]
  unfolding schema_ok_def
  by (simp only: same_distinct [of s t] same_values [of s t] same_model_ok [of s t] same_field_ok [of s t]
      same_checks [of s t] names_of.simps)

lemma map_labels_map_snd [simp]: "map_labels k (map_snd g m) = map_labels k m"
  by (simp add: map_labels_def map_snd_def split_beta)

lemma labels_resolved: "labels_of (resolve_field_types s) = labels_of s"
  by (simp add: labels_of_def resolve_field_types_def)

lemma same_resolved:
  assumes "same_items s t"
  shows "same_items (resolve_field_types s) (resolve_field_types t)"
proof -
  have r: "resolve_fields s = resolve_fields t"
    by (rule resolve_fields_cong, rule resolve_type_cong) (simp_all add: same_keys [OF assms])
  have e: "item_of s c = item_of t c" for c using assms unfolding same_items_def by blast
  have "item_of (resolve_field_types s) c = item_of (resolve_field_types t) c" for c
  proof (cases c)
    case (DuplicateItem k n)
    with e [of "DuplicateItem k n"] show ?thesis
      by (cases k) (simp_all add: resolve_field_types_def map_of_map_snd same_lookup [OF assms] r)
  next
    case MultipleDatasource
    with e [of MultipleDatasource] show ?thesis by (simp add: resolve_field_types_def)
  qed
  then show ?thesis using assms by (simp add: same_items_def labels_resolved)
qed

lemma item_of_relations [simp]: "item_of (s\<lparr>fs_relations := r\<rparr>) c = item_of s c"
  by (cases c) (simp_all split: duplicate_kind.split)

lemma same_validate:
  assumes "same_items s t"
  shows "(\<exists>u. validate s = Inr u) \<longleftrightarrow> (\<exists>u. validate t = Inr u)"
    and "validate s = Inr u \<Longrightarrow> validate t = Inr v \<Longrightarrow> item_of u c = item_of v c"
proof -
  note r = same_resolved [OF assms]
  show "(\<exists>u. validate s = Inr u) \<longleftrightarrow> (\<exists>u. validate t = Inr u)"
    using same_schema_ok [OF r] errors_Nil_iff [of s] errors_Nil_iff [of t] by (simp add: validate_def Let_def)
  assume "validate s = Inr u" "validate t = Inr v"
  then have "u = (resolve_field_types s)\<lparr>fs_relations := resolve_relations (resolve_field_types s)\<rparr>"
    and "v = (resolve_field_types t)\<lparr>fs_relations := resolve_relations (resolve_field_types t)\<rparr>"
    by (simp_all add: validate_def Let_def split: if_splits)
  with r show "item_of u c = item_of v c" unfolding same_items_def by (simp only: item_of_relations)
qed

subsection \<open>Properties\<close>

lemma merge_files_distinct:
  assumes "snd (merge_files ss) = []"
  shows "distinct (labels_of (fst (merge_files ss)))"
proof -
  have "distinct (labels_of (fst (merge_from try_merge a ss)))"
    if "snd (merge_from try_merge a ss) = []" and "distinct (labels_of a)" for a
    using that
  proof (induction ss arbitrary: a)
    case (Cons s ss)
    obtain a' cs where m: "try_merge a s = (a', cs)" by fastforce
    with Cons.prems have "cs = []" and rest: "snd (merge_from try_merge a' ss) = []"
      by (auto split: prod.splits)
    with m have "snd (try_merge a s) = []" by simp
    then have "distinct (labels_of (fst (try_merge a s)))"
      using Cons.prems(2) by (simp add: labels_distinct names_try_merge_distinct)
    with m rest Cons.IH [of a'] show ?case by (auto split: prod.splits)
  qed simp
  with assms show ?thesis by (simp add: merge_files_def)
qed

lemma load_parsed_Inr:
  "load_parsed ss = Inr t \<longleftrightarrow> snd (merge_files ss) = [] \<and> validate (fst (merge_files ss)) = Inr t"
  by (simp add: load_parsed_def split_beta)

lemma merge_files_same:
  assumes "mset ss = mset ts" and "snd (merge_files ss) = []"
  shows "snd (merge_files ts) = []" and "same_items (fst (merge_files ss)) (fst (merge_files ts))"
proof -
  show ts: "snd (merge_files ts) = []"
    using schemas.from_order(1) [OF assms(1)] assms(2) by (simp add: merge_files_def)
  have "item_of (fst (merge_files ss)) c = item_of (fst (merge_files ts)) c" for c
    using schemas.from_order(2) [OF assms(1)] assms(2) by (simp add: merge_files_def)
  then show "same_items (fst (merge_files ss)) (fst (merge_files ts))"
    using merge_files_distinct [OF assms(2)] merge_files_distinct [OF ts] by (simp add: same_items_def)
qed

text \<open>
  C28: Whether the files of a schema directory are accepted does not depend on the order in which
  they are merged, and neither does what is found under a name in the result.
\<close>

theorem load_order:
  assumes "mset ss = mset ts"
  shows "((\<exists>t. load_parsed ss = Inr t) \<longleftrightarrow> (\<exists>t. load_parsed ts = Inr t)) \<and>
    (\<forall>u v c. load_parsed ss = Inr u \<and> load_parsed ts = Inr v \<longrightarrow> item_of u c = item_of v c)"
proof (cases "snd (merge_files ss) = []")
  case True
  note s = merge_files_same [OF assms True]
  show ?thesis using same_validate [OF s(2)] True s(1) by (auto simp: load_parsed_Inr)
next
  case False
  then have "snd (merge_files ts) \<noteq> []"
    using merge_files_same(1) [OF assms [symmetric]] by blast
  with False show ?thesis by (simp add: load_parsed_Inr)
qed

lemma item_of_resolved: "item_of (resolve_field_types s) c = None \<longleftrightarrow> item_of s c = None"
proof (cases c)
  case (DuplicateItem k n)
  then show ?thesis by (cases k) (simp_all add: resolve_field_types_def map_of_map_snd)
qed (simp add: resolve_field_types_def)

lemma parse_files_Inr:
  "parse_files parse dir fs src = (Inr ss, src') \<Longrightarrow>
     list_all2 (\<lambda>f s. \<exists>c. snd f = Some c \<and> parse c = Inr s) fs ss \<and>
     src' = src @ map (\<lambda>(p, c). \<lparr>sf_path = show_path dir p, sf_content = the c\<rparr>) fs"
  by (induction parse dir fs src arbitrary: ss src' rule: parse_files.induct)
    (auto simp: source_insert_def Let_def split: option.splits sum.splits prod.splits)

lemma load_directory_Inr:
  assumes "load_directory parse dir es = (Inr t, src)"
  shows "\<exists>ss. parse_files parse dir (discover es) [] = (Inr ss, src) \<and> load_parsed ss = Inr t"
  using assms by (auto simp: load_directory_def split: list.splits prod.splits sum.splits)

text \<open>
  C29: A schema loaded from a directory is a fixed point of the validator; every file found was
  parsed, its text stands in the source map at its place, and every item of it is in the result:
  no definition is lost.
\<close>

theorem load_directory_complete:
  assumes "load_directory parse dir es = (Inr t, src)" and "(p, content) \<in> set (discover es)"
  shows "validate t = Inr t \<and>
    src = map (\<lambda>(p, c). \<lparr>sf_path = show_path dir p, sf_content = the c\<rparr>) (discover es) \<and>
    (\<exists>body s. content = Some body \<and> parse body = Inr s \<and> (\<forall>c. item_of s c \<noteq> None \<longrightarrow> item_of t c \<noteq> None))"
proof -
  obtain ss where ps: "parse_files parse dir (discover es) [] = (Inr ss, src)" and l: "load_parsed ss = Inr t"
    using load_directory_Inr [OF assms(1)] by blast
  note parsed = parse_files_Inr [OF ps]
  from l have ok: "snd (merge_files ss) = []" and v: "validate (fst (merge_files ss)) = Inr t"
    by (simp_all add: load_parsed_Inr)
  obtain body s where s: "content = Some body" "parse body = Inr s" "s \<in> set ss"
    using parsed assms(2) by (force simp: list_all2_conv_all_nth in_set_conv_nth)
  have "item_of t c \<noteq> None" if "item_of s c \<noteq> None" for c
  proof -
    have "item_of (fst (merge_files ss)) c \<noteq> None"
      using that s(3) schemas.from_found [of fs_new ss c] ok by (fastforce simp: merge_files_def)
    moreover have "item_of t c = item_of (resolve_field_types (fst (merge_files ss))) c"
      using v by (auto simp: validate_def Let_def split: if_splits)
    ultimately show ?thesis by (simp add: item_of_resolved)
  qed
  with s parsed validate_validated [OF v] show ?thesis by (auto simp: validated_iff)
qed

text \<open>The files found: hidden entries, links and what lies below a \<^verbatim>\<open>target\<close> directory are left out.\<close>

lemma walk_node_path:
  "(p, c) \<in> set (walk_node e) \<Longrightarrow> p \<noteq> [] \<and> has_prax_extension (last p)
     \<and> (\<forall>n \<in> set p. take 1 n \<noteq> ''.'') \<and> ''target'' \<notin> set (butlast p)"
  by (induction e arbitrary: p c rule: walk_node.induct) (auto split: if_splits)

lemma discover_path:
  "(p, c) \<in> set (discover es) \<Longrightarrow> p \<noteq> [] \<and> has_prax_extension (last p)
     \<and> (\<forall>n \<in> set p. take 1 n \<noteq> ''.'') \<and> ''target'' \<notin> set (butlast p)"
  using walk_node_path by (fastforce simp: discover_def)

text \<open>The order in which the file system lists a directory does not matter.\<close>

lemma discover_order:
  assumes "mset es = mset fs" and "distinct (map fst (concat (map walk_node es)))"
  shows "discover es = discover fs"
proof -
  have m: "mset (concat (map walk_node es)) = mset (concat (map walk_node fs))"
  proof -
    have "mset (map mset (map walk_node es)) = mset (map mset (map walk_node fs))"
      using assms(1) by simp
    then show ?thesis unfolding mset_concat by (metis sum_mset_sum_list)
  qed
  show ?thesis unfolding discover_def
    by (rule sort_key_inj_key_eq) (use m assms(2) in \<open>simp_all add: distinct_map\<close>)
qed

subsection \<open>A sample directory\<close>

definition sample_parse :: "string \<Rightarrow> schema_error + full_schema" where
  "sample_parse c =
     (if c = ''user'' then Inr (sm_add_model user_model fs_new)
      else if c = ''post'' then Inr (sm_add_model post_model fs_new)
      else if c = ''role'' then Inr (sm_add_enum role_enum fs_new)
      else Inl (SyntaxError c))"

definition sample_dir :: "fs_node list" where
  "sample_dir = [FsFile ''b.prax'' (Some ''post''), FsFile ''.old.prax'' None,
     FsDir ''enums'' [FsFile ''role.prax'' (Some ''role''), FsSymlink ''x.prax''],
     FsDir ''target'' [FsFile ''c.prax'' (Some ''user'')], FsFile ''a.prax'' (Some ''user''), FsFile ''readme'' None]"

lemma sample_dir_loads:
  "(case fst (load_directory sample_parse ''schema'' sample_dir) of Inr t \<Rightarrow> True | Inl e \<Rightarrow> False)"
  "discover sample_dir = [([''a.prax''], Some ''user''), ([''b.prax''], Some ''post''),
     ([''enums'', ''role.prax''], Some ''role'')]"
  by code_simp+

theorem load_directory_complete_witness:
  "\<exists>t src. load_directory sample_parse ''schema'' sample_dir = (Inr t, src) \<and> validate t = Inr t \<and>
     item_of t (DuplicateItem DkEnum ''Role'') \<noteq> None"
proof -
  obtain t src where l: "load_directory sample_parse ''schema'' sample_dir = (Inr t, src)"
    using sample_dir_loads(1) by (cases "load_directory sample_parse ''schema'' sample_dir") (auto split: sum.splits)
  have "([''enums'', ''role.prax''], Some ''role'') \<in> set (discover sample_dir)"
    by (simp add: sample_dir_loads(2))
  from load_directory_complete [OF l this]
  have "validate t = Inr t" and "\<exists>s. sample_parse ''role'' = Inr s \<and> (\<forall>c. item_of s c \<noteq> None \<longrightarrow> item_of t c \<noteq> None)"
    by auto
  moreover have "item_of (sm_add_enum role_enum fs_new) (DuplicateItem DkEnum ''Role'') \<noteq> None"
    by code_simp
  ultimately show ?thesis using l by (auto simp: sample_parse_def simp del: item_of.simps)
qed

definition sample_files :: "full_schema list" where
  "sample_files = [sm_add_enum role_enum fs_new, sm_add_model user_model (sm_add_model post_model fs_new)]"

lemma sample_files_load: "(case load_parsed sample_files of Inr t \<Rightarrow> True | Inl e \<Rightarrow> False)"
  by code_simp

theorem load_order_witness: "\<exists>t. load_parsed (rev sample_files) = Inr t"
proof -
  have "\<exists>t. load_parsed sample_files = Inr t"
    using sample_files_load by (auto split: sum.splits)
  then show ?thesis using load_order [of sample_files "rev sample_files"] by simp
qed

end
