(* ===== verification/Validator_Names.thy ===== *)
theory Validator_Names
  imports Validator_Laws Schema_Diff Ddl_Postgres
begin

text \<open>
  The names that reach a statement.  The validator promises that a mapped name is safe to splice
  into a statement; the differ takes table names from \<^verbatim>\<open>@@map\<close> of a model, column names from
  \<^verbatim>\<open>@map\<close> of a field, and the names and labels of types from \<^verbatim>\<open>@@map\<close> and \<^verbatim>\<open>@map\<close> of an
  enum.  The first two are covered by the promise, the others are not.
\<close>

text \<open>No character of a safe identifier ends a quoted identifier, a literal or a statement.\<close>

definition breaking_chars :: string where
  "breaking_chars = [DQUOTE, SQUOTE, BTICK, BSLASH, CHR ''['', CHR '']'', CHR '';'', CHR '' '',
     CHR ''-'', CHR ''('', CHR '')'', CHR ''$'', CHR ''?'', CHR ''@'', CHR 0x0A]"

definition spliceable :: "string \<Rightarrow> bool" where
  "spliceable s \<longleftrightarrow> s \<noteq> [] \<and> list_all (\<lambda>c. c \<notin> set s) breaking_chars"

lemma safe_spliceable: "safe_name s \<Longrightarrow> spliceable s"
proof -
  have "list_all (\<lambda>c. \<not> (is_alnum c \<or> c = CHR ''_'' \<or> c = CHR ''.'')) breaking_chars"
    by code_simp
  then show "safe_name s \<Longrightarrow> spliceable s"
    unfolding safe_name_iff [symmetric] is_safe_sql_identifier_def spliceable_def list_all_iff by blast
qed

lemma attribute_string_Some:
  "attribute_string n as = Some c \<Longrightarrow> \<exists>a \<in> set as. at_name a = n \<and> first_arg a = Some (ValString c)"
proof -
  assume "attribute_string n as = Some c"
  then obtain a v where f: "find (\<lambda>a. at_name a = n) as = Some a" and v: "first_arg a = Some v"
    and c: "val_as_string v = Some c"
    by (auto simp: attribute_string_def find_attribute_def split: bind_splits)
  from c have "v = ValString c" by (cases v) simp_all
  with f v show ?thesis by (auto simp: find_Some_iff)
qed

lemma validated_model_ok:
  "validate s = Inr t \<Longrightarrow> m \<in> set (map_values (sm_models t)) \<Longrightarrow> model_ok t m"
  using validated_parts(2,3) [OF validate_validated] model_accepting by blast

text \<open>
  C27: In an accepted schema the table name of a model and the column names of its fields are the
  names written in the schema or can be spliced into a statement: they hold no quote, no space and
  no character that ends a statement.
\<close>

theorem validated_names_spliceable:
  assumes "validate s = Inr t" and "m \<in> set (map_values (sm_models t))"
  shows "(table_name m = mo_name m \<or> spliceable (table_name m)) \<and>
    (\<forall>f \<in> set (map_values (mo_fields m)). field_column_name f = f_name f \<or> spliceable (field_column_name f))"
proof (intro conjI ballI)
  have ok: "model_ok t m" using validated_model_ok [OF assms] .
  show "table_name m = mo_name m \<or> spliceable (table_name m)"
  proof (cases "attribute_string ''map'' (mo_attributes m)")
    case (Some c)
    then have "safe_name c"
      using attribute_string_Some [OF Some] ok by (auto simp: model_ok_def model_attribute_ok_def)
    with Some show ?thesis by (simp add: table_name_def unwrap_or_def safe_spliceable)
  qed (simp add: table_name_def unwrap_or_def)
  fix f assume f: "f \<in> set (map_values (mo_fields m))"
  show "field_column_name f = f_name f \<or> spliceable (field_column_name f)"
  proof (cases "attribute_string ''map'' (f_attributes f)")
    case (Some c)
    then have "safe_name c"
      using attribute_string_Some [OF Some] ok f by (auto simp: model_ok_def field_ok_def attribute_ok_def)
    with Some show ?thesis by (simp add: field_column_name_def unwrap_or_def safe_spliceable)
  qed (simp add: field_column_name_def unwrap_or_def)
qed

definition mapped_user :: full_schema where
  "mapped_user = sm_add_model (user_model\<lparr>mo_attributes :=
     [\<lparr>at_name = ''map'', at_args = [arg_positional (ValString ''app.users'')]\<rparr>]\<rparr>) blog"

definition mapped_validated :: full_schema where
  "mapped_validated = (resolve_field_types mapped_user)
     \<lparr>fs_relations := resolve_relations (resolve_field_types mapped_user)\<rparr>"

lemma mapped_user_accepted:
  "validate mapped_user = Inr mapped_validated"
  "map table_name (map_values (sm_models mapped_validated)) = [''app.users'', ''Post'']"
  by code_simp+

theorem validated_names_spliceable_witness:
  "map table_name (map_values (sm_models mapped_validated)) = [''app.users'', ''Post''] \<and>
   list_all (\<lambda>m. table_name m = mo_name m \<or> spliceable (table_name m)) (map_values (sm_models mapped_validated))"
  unfolding list_all_iff using validated_names_spliceable [OF mapped_user_accepted(1)] mapped_user_accepted(2) by blast

text \<open>
  The mapped name of an enum is not checked: a schema whose enum is mapped to a quote is
  accepted, and the type it creates in PostgreSQL has a name that the quoting does not close.  The
  fields a relation references are not checked either.
\<close>

theorem validator_leaves_out:
  "validate blog = Inr blog_validated \<and>
   map database_name (map_values (sm_enums blog_validated)) = [[DQUOTE]] \<and>
   pg_create_enum \<lparr>ed_name = [DQUOTE], ed_values = [''ADMIN'']\<rparr>
     = ''CREATE TYPE '' @ [DQUOTE, DQUOTE, DQUOTE] @ '' AS ENUM ('' @ [SQUOTE] @ ''ADMIN'' @ [SQUOTE] @ '');'' \<and>
   (\<exists>r \<in> set (fs_relations blog_validated). re_to_model r = ''User'' \<and> re_to_fields r = [''nowhere''] \<and>
      \<not> model_has_field blog_validated ''User'' ''nowhere'')"
proof (intro conjI)
  show "map database_name (map_values (sm_enums blog_validated)) = [[DQUOTE]]" by code_simp
  show "\<exists>r \<in> set (fs_relations blog_validated). re_to_model r = ''User'' \<and> re_to_fields r = [''nowhere''] \<and>
      \<not> model_has_field blog_validated ''User'' ''nowhere''" by code_simp
qed (simp_all add: blog_accepted pg_create_enum_def dq_def sq_def)

lemma field_of_key: "field_of s m k \<Longrightarrow> has_key (sm_models s) m"
  by (auto simp: field_of_def has_key_def)

text \<open>
  A view's field is checked against the model of the view's name, which an accepted schema does
  not have: a to-one reference from a view that names its foreign key fields is always rejected.
\<close>

theorem view_foreign_key_rejected:
  assumes "v \<in> set (map_values (sm_views s))" and "f \<in> set (map_values (vi_fields v))"
    and "f_type f = TyModel n" and "has_key (sm_models s) n"
    and "\<not> has_key (sm_enums s) n" and "\<not> has_key (fs_types s) n" and "\<not> f_is_list f"
    and "fa_relation (extract_attributes f) = Some rel" and "k \<in> set (rel_fields rel)"
    and "\<not> has_key (sm_models s) (vi_name v)"
  shows "\<exists>es. validate s = Inl es"
proof -
  let ?s = "resolve_field_types s"
  let ?g = "\<lambda>f. f\<lparr>f_type := resolve_type s (f_type f)\<rparr>"
  have f': "?g f = f" using assms(3,5,6) by simp
  have "\<not> field_ok ?s (vi_name v) f"
    using assms(3-10) by (auto simp: field_ok_def dest!: field_of_key)
  moreover have "f \<in> set (map_values (resolve_fields s (vi_fields v)))"
    using assms(2) f' by (auto simp: resolve_fields_def map_values_map_snd intro: image_eqI [where x = f])
  moreover have "v\<lparr>vi_fields := resolve_fields s (vi_fields v)\<rparr> \<in> set (map_values (sm_views ?s))"
    using assms(1) by (auto simp: resolve_field_types_def map_values_map_snd)
  ultimately have "\<not> schema_ok ?s"
    unfolding schema_ok_def by fastforce
  then show ?thesis using validate_accepts_iff by blast
qed

definition author_field :: field where
  "author_field = plain_field ''author'' (TyModel ''User'')
     [\<lparr>at_name = ''relation'', at_args = [arg_named ''fields'' (FieldRefList [''author_id''])]\<rparr>]"

definition recent_view :: view where
  "recent_view = \<lparr>vi_name = ''Recent'', vi_fields = [(''author'', author_field)], vi_attributes = []\<rparr>"

theorem view_foreign_key_rejected_witness: "\<exists>es. validate (sm_add_view recent_view blog) = Inl es"
proof (rule view_foreign_key_rejected)
  show "recent_view \<in> set (map_values (sm_views (sm_add_view recent_view blog)))"
    and "author_field \<in> set (map_values (vi_fields recent_view))"
    and "f_type author_field = TyModel ''User''"
    and "has_key (sm_models (sm_add_view recent_view blog)) ''User''"
    and "\<not> has_key (sm_enums (sm_add_view recent_view blog)) ''User''"
    and "\<not> has_key (fs_types (sm_add_view recent_view blog)) ''User''"
    and "\<not> f_is_list author_field"
    and "fa_relation (extract_attributes author_field)
      = Some \<lparr>rel_name = None, rel_fields = [''author_id''], rel_references = [],
          rel_on_delete = None, rel_on_update = None, rel_map = None\<rparr>"
    and "''author_id'' \<in> set (rel_fields \<lparr>rel_name = None, rel_fields = [''author_id''], rel_references = [],
          rel_on_delete = None, rel_on_update = None, rel_map = None\<rparr>)"
    and "\<not> has_key (sm_models (sm_add_view recent_view blog)) (vi_name recent_view)"
    by code_simp+
qed

end
