(* ===== verification/Introspection.thy ===== *)
theory Introspection
  imports Migration_Events Validator_Names
begin

text \<open>
  Reading a schema back from a database (\<^verbatim>\<open>prax-migrate/src/introspect.rs\<close>): what is read of
  the catalogue, the configuration, and the builder that turns it into models, enums and views.
  The two loops that look for a free name are functions with a termination proof.  A panic (a
  slice of a one-character quoted text) is \<open>None\<close>.  Rust's parser of floats followed by its
  printer is the argument \<open>float_text\<close>.  Columns of the catalogue that the builder never reads
  (comments, lengths, positions, the index method) are left out.  Letters outside ASCII are left as they are by the case
  conversions.
\<close>

subsection \<open>Configuration and catalogue data\<close>

record introspection_config =
  nc_schema :: string
  nc_include_tables :: "string list"
  nc_exclude_tables :: "string list"
  nc_include_views :: bool
  nc_include_enums :: bool

definition nc_default :: introspection_config where
  "nc_default = \<lparr>nc_schema = ''public'', nc_include_tables = [],
     nc_exclude_tables = [''_prax_migrations'', ''_prisma_migrations'', ''schema_migrations''],
     nc_include_views = True, nc_include_enums = True\<rparr>"

definition nc_with_schema :: "string \<Rightarrow> introspection_config \<Rightarrow> introspection_config" where
  "nc_with_schema s c = c\<lparr>nc_schema := s\<rparr>"
definition nc_with_include_tables :: "string list \<Rightarrow> introspection_config \<Rightarrow> introspection_config" where
  "nc_with_include_tables ts c = c\<lparr>nc_include_tables := ts\<rparr>"
definition nc_with_exclude_tables :: "string list \<Rightarrow> introspection_config \<Rightarrow> introspection_config" where
  "nc_with_exclude_tables ts c = c\<lparr>nc_exclude_tables := ts\<rparr>"
definition nc_with_include_views :: "bool \<Rightarrow> introspection_config \<Rightarrow> introspection_config" where
  "nc_with_include_views b c = c\<lparr>nc_include_views := b\<rparr>"
definition nc_with_include_enums :: "bool \<Rightarrow> introspection_config \<Rightarrow> introspection_config" where
  "nc_with_include_enums b c = c\<lparr>nc_include_enums := b\<rparr>"

definition should_include_table :: "introspection_config \<Rightarrow> string \<Rightarrow> bool" where
  "should_include_table c n =
     (if n \<in> set (nc_exclude_tables c) then False
      else if nc_include_tables c = [] then True
      else n \<in> set (nc_include_tables c))"

record table_info =
  tn_name :: string
  tn_type :: string

record column_info =
  cn_name :: string
  cn_data_type :: string
  cn_udt_name :: string
  cn_nullable :: bool
  cn_default :: "string option"

record constraint_info =
  kn_name :: string
  kn_type :: string
  kn_columns :: "string list"
  kn_ref_table :: "string option"
  kn_ref_columns :: "string list option"
  kn_on_delete :: "string option"
  kn_on_update :: "string option"

record enum_info =
  en_info_name :: string
  en_info_values :: "string list"

record index_info =
  xn_name :: string
  xn_columns :: "string list"
  xn_unique :: bool
  xn_primary :: bool

record schema_builder =
  bu_config :: introspection_config
  bu_tables :: "table_info list"
  bu_columns :: "(string, column_info list) hash_map"
  bu_constraints :: "(string, constraint_info list) hash_map"
  bu_indexes :: "(string, index_info list) hash_map"
  bu_enums :: "enum_info list"

definition bu_new :: "introspection_config \<Rightarrow> schema_builder" where
  "bu_new c = \<lparr>bu_config = c, bu_tables = [], bu_columns = [], bu_constraints = [], bu_indexes = [], bu_enums = []\<rparr>"
definition bu_with_tables :: "table_info list \<Rightarrow> schema_builder \<Rightarrow> schema_builder" where
  "bu_with_tables ts b = b\<lparr>bu_tables := ts\<rparr>"
definition bu_with_columns :: "string \<Rightarrow> column_info list \<Rightarrow> schema_builder \<Rightarrow> schema_builder" where
  "bu_with_columns t cs b = b\<lparr>bu_columns := AList.update t cs (bu_columns b)\<rparr>"
definition bu_with_constraints :: "string \<Rightarrow> constraint_info list \<Rightarrow> schema_builder \<Rightarrow> schema_builder" where
  "bu_with_constraints t cs b = b\<lparr>bu_constraints := AList.update t cs (bu_constraints b)\<rparr>"
definition bu_with_indexes :: "string \<Rightarrow> index_info list \<Rightarrow> schema_builder \<Rightarrow> schema_builder" where
  "bu_with_indexes t xs b = b\<lparr>bu_indexes := AList.update t xs (bu_indexes b)\<rparr>"
definition bu_with_enums :: "enum_info list \<Rightarrow> schema_builder \<Rightarrow> schema_builder" where
  "bu_with_enums es b = b\<lparr>bu_enums := es\<rparr>"

definition rows_of :: "(string, 'a list) hash_map \<Rightarrow> string \<Rightarrow> 'a list" where
  "rows_of m t = unwrap_or (map_of m t) []"

subsection \<open>Names\<close>

definition capitalise :: "string \<Rightarrow> string" where
  "capitalise s = (case s of [] \<Rightarrow> [] | c # cs \<Rightarrow> upper_char c # cs)"

definition to_pascal_case :: "string \<Rightarrow> string" where
  "to_pascal_case s = concat (map capitalise (List.filter (\<lambda>p. p \<noteq> []) (split_on CHR ''_'' s)))"

definition is_upper :: "char \<Rightarrow> bool" where "is_upper c \<longleftrightarrow> CHR ''A'' \<le> c \<and> c \<le> CHR ''Z''"
definition is_lower :: "char \<Rightarrow> bool" where "is_lower c \<longleftrightarrow> CHR ''a'' \<le> c \<and> c \<le> CHR ''z''"

definition to_snake_case :: "string \<Rightarrow> string" where
  "to_snake_case s = concat (map (\<lambda>(i, c). if is_upper c then (if i > 0 then ''_'' else []) @ [lower_char c] else [c])
     (zip [0..<length s] s))"

definition to_camel_case :: "string \<Rightarrow> string" where
  "to_camel_case s = (case s of [] \<Rightarrow> [] | c # cs \<Rightarrow> lower_char c # cs)"

definition is_name_char :: "char \<Rightarrow> bool" where
  "is_name_char c \<longleftrightarrow> is_lower c \<or> is_digit c \<or> c = CHR ''_''"

definition is_valid_field_identifier :: "string \<Rightarrow> bool" where
  "is_valid_field_identifier s = (case s of [] \<Rightarrow> False | c # cs \<Rightarrow> is_lower c \<and> list_all is_name_char cs)"

text \<open>The two loops of \<^verbatim>\<open>field_name_for_column\<close>.\<close>

fun split_camel :: "bool \<Rightarrow> string \<Rightarrow> string" where
  "split_camel prev [] = []"
| "split_camel prev (c # cs) =
     (if is_upper c \<and> prev then ''_'' else []) @ lower_char c # split_camel (is_lower c \<or> is_digit c) cs"

fun collapse :: "string \<Rightarrow> string \<Rightarrow> string" where
  "collapse out [] = out"
| "collapse out (c # cs) =
     (if is_alnum c then collapse (out @ [c]) cs
      else if out \<noteq> [] \<and> last out \<noteq> CHR ''_'' then collapse (out @ ''_'') cs
      else collapse out cs)"

definition strip_underscores :: "string \<Rightarrow> string" where
  "strip_underscores s = rev (dropWhile (\<lambda>c. c = CHR ''_'') (rev s))"

definition field_name_for_column :: "string \<Rightarrow> string" where
  "field_name_for_column c =
     (if is_valid_field_identifier c then c
      else let out = strip_underscores (collapse [] (split_camel False c)) in
        case out of [] \<Rightarrow> ''column'' | d # _ \<Rightarrow> if is_digit d then ''col_'' @ out else out)"

text \<open>A character outside ASCII is one underscore: its continuation bytes are left out.\<close>

definition sanitize_identifier :: "string \<Rightarrow> string" where
  "sanitize_identifier raw =
     (let mapped = map (\<lambda>c. if is_alnum c then c else CHR ''_'') (List.filter (\<lambda>c. \<not> is_continuation c) raw)
      in case mapped of [] \<Rightarrow> ''V''
         | c # _ \<Rightarrow> if is_upper c \<or> is_lower c then mapped else CHR ''V'' # mapped)"

subsection \<open>Looking for a free name\<close>

text \<open>\<^verbatim>\<open>format!("{base}_{suffix}")\<close>.\<close>

definition suffixed :: "string \<Rightarrow> nat \<Rightarrow> string" where
  "suffixed base n = base @ ''_'' @ show_nat n"

text \<open>
  The loop tries \<open>candidate\<close>, then \<open>base_n\<close>, \<open>base_(n+1)\<close> and so on: each of the names that are
  taken can be met once.
\<close>

definition taken_from :: "string list \<Rightarrow> string \<Rightarrow> nat \<Rightarrow> nat set" where
  "taken_from taken base n = {k. n \<le> k \<and> suffixed base k \<in> set taken}"

lemma suffixed_inj: "suffixed base j = suffixed base k \<longleftrightarrow> j = k"
  by (simp add: suffixed_def show_nat_inj)

lemma finite_taken_from [simp]: "finite (taken_from taken base n)"
proof (rule finite_imageD [where f = "suffixed base"])
  show "finite (suffixed base ` taken_from taken base n)"
    by (rule finite_subset [of _ "set taken"]) (auto simp: taken_from_def)
  show "inj_on (suffixed base) (taken_from taken base n)"
    by (simp add: inj_on_def suffixed_inj)
qed

lemma taken_from_Suc:
  "card (taken_from taken base n) =
     (if suffixed base n \<in> set taken then 1 else 0) + card (taken_from taken base (Suc n))"
proof -
  have "taken_from taken base n =
      (if suffixed base n \<in> set taken then insert n (taken_from taken base (Suc n)) else taken_from taken base (Suc n))"
    by (auto simp: taken_from_def le_eq_less_or_eq)
  moreover have "n \<notin> taken_from taken base (Suc n)" by (simp add: taken_from_def)
  ultimately show ?thesis by simp
qed

function free_name :: "string list \<Rightarrow> string \<Rightarrow> string \<Rightarrow> nat \<Rightarrow> string" where
  "free_name taken base candidate n =
     (if candidate \<in> set taken then free_name taken base (suffixed base n) (Suc n) else candidate)"
  by pat_completeness auto
termination
proof (relation "measure (\<lambda>(taken, base, candidate, n).
    2 * card (taken_from taken base n) + (if candidate \<in> set taken then 1 else 0))")
  fix taken :: "string list" and base candidate :: string and n
  assume "candidate \<in> set taken"
  then show "((taken, base, suffixed base n, Suc n), (taken, base, candidate, n))
      \<in> measure (\<lambda>(taken, base, candidate, n).
        2 * card (taken_from taken base n) + (if candidate \<in> set taken then 1 else 0))"
    using taken_from_Suc [of taken base n] by auto
qed simp

declare free_name.simps [simp del]

text \<open>\<^verbatim>\<open>sanitize_variants\<close>: \<open>seen\<close> are the names given so far.\<close>

fun sanitize_from :: "string list \<Rightarrow> string list \<Rightarrow> string list" where
  "sanitize_from seen [] = []"
| "sanitize_from seen (raw # vs) =
     (let base = sanitize_identifier raw; name = free_name seen base base 2
      in name # sanitize_from (name # seen) vs)"

definition sanitize_variants :: "string list \<Rightarrow> string list" where
  "sanitize_variants vs = sanitize_from [] vs"

subsection \<open>Defaults\<close>

text \<open>What precedes the first \<^verbatim>\<open>::\<close>.\<close>

fun before_cast :: "string \<Rightarrow> string option" where
  "before_cast (a # b # s) =
     (if a = CHR '':'' \<and> b = CHR '':'' then Some [] else map_option (Cons a) (before_cast (b # s)))"
| "before_cast _ = None"

lemma before_cast_length [termination_simp]: "before_cast s = Some p \<Longrightarrow> length p < length s"
  by (induction s arbitrary: p rule: before_cast.induct) (auto split: if_splits)

lemma trim_length: "length (trim s) \<le> length s"
proof -
  have "length (dropWhile P xs) \<le> length xs" for P and xs :: string
    by (induction xs) auto
  then show ?thesis unfolding trim_def by (metis dual_order.trans length_rev)
qed

definition quoted_by :: "char \<Rightarrow> string \<Rightarrow> bool" where
  "quoted_by q s \<longleftrightarrow> s \<noteq> [] \<and> hd s = q \<and> last s = q"

definition contains_str :: "string \<Rightarrow> string \<Rightarrow> bool" where
  "contains_str p s \<longleftrightarrow> list_ex (\<lambda>i. take (length p) (List.drop i s) = p) [0..<Suc (length s)]"

text \<open>
  \<^verbatim>\<open>&trimmed[1..trimmed.len() - 1]\<close>: a panic (\<open>None\<close>) when the quote that opens the text is the
  one that closes it.  The inner option is the value of the function.
\<close>

function parse_default_value :: "(string \<Rightarrow> string option) \<Rightarrow> string \<Rightarrow> attr_value option option" where
  "parse_default_value float_text s =
     (let t = trim s in
      if t = ''true'' \<or> t = ''TRUE'' then Some (Some (ValBool True))
      else if t = ''false'' \<or> t = ''FALSE'' then Some (Some (ValBool False))
      else if upper t = ''NULL'' then Some None
      else case parse_i64 t of Some i \<Rightarrow> Some (Some (ValInt i))
      | None \<Rightarrow> (case float_text t of Some f \<Rightarrow> Some (Some (ValFloat f))
      | None \<Rightarrow>
        if quoted_by SQUOTE t \<or> quoted_by DQUOTE t
        then (if length t = 1 then None else Some (Some (ValString (butlast (tl t)))))
        else (case before_cast t of
          Some p \<Rightarrow> parse_default_value float_text p
        | None \<Rightarrow>
          if CHR ''('' \<in> set t then Some (Some (ValFunction (takeWhile (\<lambda>c. c \<noteq> CHR ''('') t) []))
          else if upper t = ''CURRENT_TIMESTAMP'' \<or> upper t = ''NOW'' then Some (Some (ValFunction ''now'' []))
          else if upper t = ''CURRENT_DATE'' then Some (Some (ValFunction ''current_date'' []))
          else if upper t = ''CURRENT_TIME'' then Some (Some (ValFunction ''current_time'' []))
          else Some (Some (ValString t)))))"
  by pat_completeness auto
termination
  by (relation "measure (\<lambda>(f, s). length s)")
    (auto dest!: before_cast_length intro: less_le_trans [OF _ trim_length])

declare parse_default_value.simps [simp del]

subsection \<open>Types\<close>

definition udt_scalar :: "string \<Rightarrow> scalar_type option" where
  "udt_scalar u =
     (if u \<in> {''int2'', ''int4'', ''integer'', ''smallint''} then Some ScInt
      else if u \<in> {''int8'', ''bigint''} then Some ScBigInt
      else if u \<in> {''float4'', ''float8'', ''real'', ''double precision''} then Some ScFloat
      else if u \<in> {''numeric'', ''decimal'', ''money''} then Some ScDecimal
      else if u \<in> {''text'', ''varchar'', ''char'', ''character varying'', ''character'', ''bpchar''} then Some ScString
      else if u \<in> {''bool'', ''boolean''} then Some ScBoolean
      else if u \<in> {''timestamp'', ''timestamptz'', ''timestamp with time zone'', ''timestamp without time zone''}
        then Some ScDateTime
      else if u = ''date'' then Some ScDate
      else if u \<in> {''time'', ''timetz'', ''time with time zone'', ''time without time zone''} then Some ScTime
      else if u \<in> {''json'', ''jsonb''} then Some ScJson
      else if u = ''bytea'' then Some ScBytes
      else if u = ''uuid'' then Some ScUuid
      else None)"

definition data_type_scalar :: "string \<Rightarrow> scalar_type option" where
  "data_type_scalar d =
     (if d \<in> {''integer'', ''smallint''} then Some ScInt
      else if d = ''bigint'' then Some ScBigInt
      else if d \<in> {''real'', ''double precision''} then Some ScFloat
      else if d = ''numeric'' then Some ScDecimal
      else if d \<in> {''character varying'', ''character'', ''text''} then Some ScString
      else if d = ''boolean'' then Some ScBoolean
      else if d \<in> {''timestamp with time zone'', ''timestamp without time zone''} then Some ScDateTime
      else if d = ''date'' then Some ScDate
      else if d \<in> {''time with time zone'', ''time without time zone''} then Some ScTime
      else if d \<in> {''json'', ''jsonb''} then Some ScJson
      else if d = ''bytea'' then Some ScBytes
      else if d = ''uuid'' then Some ScUuid
      else if d = ''ARRAY'' then Some ScJson
      else None)"

definition sql_type_to_prax :: "enum_info list \<Rightarrow> string \<Rightarrow> string \<Rightarrow> migration_error + field_type" where
  "sql_type_to_prax es udt data_type =
     (if udt \<in> set (map en_info_name es) then Inr (TyEnum (to_pascal_case udt))
      else case udt_scalar udt of Some t \<Rightarrow> Inr (TyScalar t)
      | None \<Rightarrow> (case data_type_scalar data_type of Some t \<Rightarrow> Inr (TyScalar t)
      | None \<Rightarrow>
          if data_type = ''USER-DEFINED'' then Inl (InvalidMigration (''Unknown user-defined type: '' @ udt))
          else Inl (InvalidMigration (''Unknown SQL type: '' @ udt @ '' ('' @ data_type @ '')''))))"

subsection \<open>Fields\<close>

definition string_attr :: "string \<Rightarrow> attr_value \<Rightarrow> attribute" where
  "string_attr n v = \<lparr>at_name = n, at_args = [arg_positional v]\<rparr>"

definition key_attributes :: "column_info \<Rightarrow> string list \<Rightarrow> attribute list" where
  "key_attributes c pk =
     (if cn_name c \<in> set pk
      then attr_simple ''id'' # (case cn_default c of
             Some d \<Rightarrow> if contains_str ''nextval'' d \<or> contains_str ''SERIAL'' d then [attr_simple ''auto''] else []
           | None \<Rightarrow> [])
      else [])"

definition default_attributes :: "(string \<Rightarrow> string option) \<Rightarrow> column_info \<Rightarrow> attribute list option" where
  "default_attributes float_text c = (case cn_default c of
     Some d \<Rightarrow> if contains_str ''nextval'' d then Some []
       else map_option (\<lambda>v. case v of Some x \<Rightarrow> [string_attr ''default'' x] | None \<Rightarrow> [])
              (parse_default_value float_text d)
   | None \<Rightarrow> Some [])"

definition build_field :: "(string \<Rightarrow> string option) \<Rightarrow> enum_info list \<Rightarrow> column_info \<Rightarrow> string list \<Rightarrow> string list
    \<Rightarrow> (migration_error + field) option" where
  "build_field float_text es c pk uniq =
     (let name = field_name_for_column (cn_name c) in
      case sql_type_to_prax es (cn_udt_name c) (cn_data_type c) of
        Inl e \<Rightarrow> Some (Inl e)
      | Inr ty \<Rightarrow> (case default_attributes float_text c of
          None \<Rightarrow> None
        | Some defaults \<Rightarrow> Some (Inr
            \<lparr>f_name = name, f_type = ty, f_modifier = (if cn_nullable c then Optional else Required),
             f_attributes = key_attributes c pk
               @ (if cn_name c \<in> set uniq then [attr_simple ''unique''] else [])
               @ defaults
               @ (if name \<noteq> cn_name c then [string_attr ''map'' (ValString (cn_name c))] else [])\<rparr>)))"

text \<open>The relation field of a foreign key; \<open>model\<close> is the model built so far.\<close>

definition strip_id :: "string \<Rightarrow> string option" where
  "strip_id s = (if length s > 3 \<and> List.drop (length s - 3) s = ''_id'' then Some (take (length s - 3) s) else None)"

definition relation_base :: "constraint_info \<Rightarrow> string" where
  "relation_base k =
     (let fallback = to_camel_case (to_pascal_case (unwrap_or (kn_ref_table k) []));
          base = unwrap_or (case kn_columns k of [c] \<Rightarrow> strip_id c | _ \<Rightarrow> None) fallback
      in if is_valid_field_identifier base then base else field_name_for_column base)"

definition build_relation_field :: "constraint_info \<Rightarrow> column_info list \<Rightarrow> model \<Rightarrow> field" where
  "build_relation_field k cols m =
     (let base = relation_base k in
      \<lparr>f_name = free_name (map fst (mo_fields m)) base base 2,
       f_type = TyModel (to_pascal_case (unwrap_or (kn_ref_table k) [])),
       f_modifier = (if \<exists>n \<in> set (kn_columns k). \<exists>c \<in> set cols. cn_name c = n \<and> cn_nullable c
                     then Optional else Required),
       f_attributes = [\<lparr>at_name = ''relation'', at_args =
         [arg_named ''fields'' (FieldRefList (map field_name_for_column (kn_columns k))),
          arg_named ''references'' (FieldRefList (map field_name_for_column (unwrap_or (kn_ref_columns k) []))),
          arg_named ''map'' (ValString (kn_name k))]\<rparr>]\<rparr>)"

subsection \<open>Models\<close>

definition constraint_columns :: "string \<Rightarrow> constraint_info list \<Rightarrow> string list" where
  "constraint_columns ty ks = concat (map kn_columns (List.filter (\<lambda>k. kn_type k = ty) ks))"

definition pk_columns_of :: "constraint_info list \<Rightarrow> string list" where
  "pk_columns_of ks = constraint_columns ''PRIMARY KEY'' ks"
definition unique_columns_of :: "constraint_info list \<Rightarrow> string list" where
  "unique_columns_of ks = constraint_columns ''UNIQUE'' (List.filter (\<lambda>k. length (kn_columns k) = 1) ks)"

text \<open>A column whose type is not known is left out.\<close>

fun add_table_columns :: "(string \<Rightarrow> string option) \<Rightarrow> enum_info list \<Rightarrow> string list \<Rightarrow> string list \<Rightarrow> column_info list
    \<Rightarrow> model \<Rightarrow> model option" where
  "add_table_columns float_text es pk uniq [] m = Some m"
| "add_table_columns float_text es pk uniq (c # cs) m = (case build_field float_text es c pk uniq of
     None \<Rightarrow> None
   | Some (Inl _) \<Rightarrow> add_table_columns float_text es pk uniq cs m
   | Some (Inr f) \<Rightarrow> add_table_columns float_text es pk uniq cs (mo_add_field f m))"

definition foreign_keys_of :: "constraint_info list \<Rightarrow> constraint_info list" where
  "foreign_keys_of ks =
     List.filter (\<lambda>k. kn_type k = ''FOREIGN KEY'' \<and> kn_ref_table k \<noteq> None \<and> kn_ref_columns k \<noteq> None) ks"

definition add_relations :: "constraint_info list \<Rightarrow> column_info list \<Rightarrow> model \<Rightarrow> model" where
  "add_relations ks cols m = foldl (\<lambda>m k. mo_add_field (build_relation_field k cols m) m) m (foreign_keys_of ks)"

definition mark_unique :: "string \<Rightarrow> model \<Rightarrow> model" where
  "mark_unique n m = (case map_of (mo_fields m) n of
     Some f \<Rightarrow> if has_attribute ''unique'' (f_attributes f) then m
       else m\<lparr>mo_fields := AList.update n (f\<lparr>f_attributes := f_attributes f @ [attr_simple ''unique'']\<rparr>) (mo_fields m)\<rparr>
   | None \<Rightarrow> m)"

definition add_index :: "model \<Rightarrow> index_info \<Rightarrow> model" where
  "add_index m x =
     (let names = List.filter (\<lambda>n. has_key (mo_fields m) n) (map field_name_for_column (xn_columns x))
      in if xn_primary x \<or> names = [] then m
         else if xn_unique x \<and> length names = 1 then mark_unique (hd names) m
         else m\<lparr>mo_attributes := mo_attributes m @
                [\<lparr>at_name = (if xn_unique x then ''unique'' else ''index''),
                  at_args = [arg_positional (FieldRefList names), arg_named ''map'' (ValString (xn_name x))]\<rparr>]\<rparr>)"

definition build_model :: "(string \<Rightarrow> string option) \<Rightarrow> schema_builder \<Rightarrow> table_info \<Rightarrow> model option" where
  "build_model float_text b t =
     (let cols = rows_of (bu_columns b) (tn_name t); ks = rows_of (bu_constraints b) (tn_name t);
          m0 = (mo_new (to_pascal_case (tn_name t)))\<lparr>mo_attributes := [string_attr ''map'' (ValString (tn_name t))]\<rparr>
      in case add_table_columns float_text (bu_enums b) (pk_columns_of ks) (unique_columns_of ks) cols m0 of
           None \<Rightarrow> None
         | Some m \<Rightarrow> Some (foldl add_index (add_relations ks cols m) (rows_of (bu_indexes b) (tn_name t))))"

subsection \<open>Enums and views\<close>

definition build_enum :: "enum_info \<Rightarrow> enum_def" where
  "build_enum e =
     \<lparr>en_name = to_pascal_case (en_info_name e),
      en_variants = map (\<lambda>(raw, v). \<lparr>ev_name = v,
          ev_attributes = (if v \<noteq> raw then [string_attr ''map'' (ValString raw)] else [])\<rparr>)
        (zip (en_info_values e) (sanitize_variants (en_info_values e))),
      en_attributes = [string_attr ''map'' (ValString (en_info_name e))]\<rparr>"

fun add_view_columns :: "(string \<Rightarrow> string option) \<Rightarrow> enum_info list \<Rightarrow> column_info list \<Rightarrow> view
    \<Rightarrow> (migration_error + view) option" where
  "add_view_columns float_text es [] v = Some (Inr v)"
| "add_view_columns float_text es (c # cs) v = (case build_field float_text es c [] [] of
     None \<Rightarrow> None
   | Some (Inl e) \<Rightarrow> Some (Inl e)
   | Some (Inr f) \<Rightarrow> add_view_columns float_text es cs (v\<lparr>vi_fields := AList.update (f_name f) f (vi_fields v)\<rparr>))"

definition build_view :: "(string \<Rightarrow> string option) \<Rightarrow> schema_builder \<Rightarrow> table_info \<Rightarrow> (migration_error + view) option" where
  "build_view float_text b t =
     (let name = to_pascal_case (tn_name t)
      in add_view_columns float_text (bu_enums b) (rows_of (bu_columns b) (tn_name t))
           \<lparr>vi_name = name, vi_fields = [],
            vi_attributes = (if tn_name t \<noteq> name \<and> tn_name t \<noteq> to_snake_case name
                             then [string_attr ''map'' (ValString (tn_name t))] else [])\<rparr>)"

subsection \<open>The schema\<close>

record introspection_result =
  ir_schema :: full_schema
  ir_skipped :: "(string \<times> string) list"
  ir_warnings :: "string list"

text \<open>
  The message of the error, as \<^verbatim>\<open>Display\<close> writes it; \<open>sql_type_to_prax\<close> gives no other error.
\<close>

fun error_text :: "migration_error \<Rightarrow> string" where
  "error_text (InvalidMigration s) = ''Invalid migration: '' @ s"
| "error_text _ = []"

definition build_table :: "(string \<Rightarrow> string option) \<Rightarrow> schema_builder \<Rightarrow> introspection_result \<Rightarrow> table_info
    \<Rightarrow> introspection_result option" where
  "build_table float_text b r t =
     (if \<not> should_include_table (bu_config b) (tn_name t)
      then Some (r\<lparr>ir_skipped := ir_skipped r @ [(tn_name t, ''Excluded by configuration'')]\<rparr>)
      else if tn_type t = ''VIEW'' \<and> \<not> nc_include_views (bu_config b) then Some r
      else if tn_type t = ''VIEW'' then (case build_view float_text b t of
          None \<Rightarrow> None
        | Some (Inr v) \<Rightarrow> Some (r\<lparr>ir_schema := sm_add_view v (ir_schema r)\<rparr>)
        | Some (Inl e) \<Rightarrow> Some (r\<lparr>
            ir_warnings := ir_warnings r @ [''Failed to build view for '' @ sq (tn_name t) @ '': '' @ error_text e],
            ir_skipped := ir_skipped r @ [(tn_name t, error_text e)]\<rparr>))
      else map_option (\<lambda>m. r\<lparr>ir_schema := sm_add_model m (ir_schema r)\<rparr>) (build_model float_text b t))"

fun build_tables :: "(string \<Rightarrow> string option) \<Rightarrow> schema_builder \<Rightarrow> table_info list \<Rightarrow> introspection_result
    \<Rightarrow> introspection_result option" where
  "build_tables float_text b [] r = Some r"
| "build_tables float_text b (t # ts) r = (case build_table float_text b r t of
     None \<Rightarrow> None | Some r' \<Rightarrow> build_tables float_text b ts r')"

definition build :: "(string \<Rightarrow> string option) \<Rightarrow> schema_builder \<Rightarrow> introspection_result option" where
  "build float_text b =
     build_tables float_text b (bu_tables b)
       \<lparr>ir_schema = (if nc_include_enums (bu_config b)
                     then foldl (\<lambda>s e. sm_add_enum (build_enum e) s) fs_new (bu_enums b) else fs_new),
        ir_skipped = [], ir_warnings = []\<rparr>"

end
