(* ===== verification/Introspection_Laws.thy ===== *)
theory Introspection_Laws
  imports Introspection
begin

text \<open>
  What introspection keeps: every name it invents is an identifier of the schema language, the
  loops that look for a free name end in one, and the mapped names of tables, columns, enums and
  labels are those of the database, so that a schema read back speaks of the objects it was read
  from.  Tables whose names differ only in their underscores share a model, and all but one are
  lost.
\<close>

subsection \<open>Field names\<close>

lemma lower_char_name: "is_alnum (lower_char c) \<Longrightarrow> is_lower (lower_char c) \<or> is_digit (lower_char c)"
proof (cases "is_upper c")
  case True
  then have n: "65 \<le> (of_char c :: nat)" "(of_char c :: nat) \<le> 90"
    by (simp_all add: is_upper_def less_eq_char_def)
  then have "(of_char (lower_char c) :: nat) = of_char c + 32"
    using True by (simp add: lower_char_def is_upper_def)
  with n show ?thesis by (simp add: is_lower_def less_eq_char_def)
next
  case False
  then show "is_alnum (lower_char c) \<Longrightarrow> ?thesis"
    by (auto simp: lower_char_def is_upper_def is_alnum_def is_lower_def)
qed

text \<open>A text of name characters that starts with a letter or a digit.\<close>

definition name_text :: "string \<Rightarrow> bool" where
  "name_text s \<longleftrightarrow> s \<noteq> [] \<and> (is_lower (hd s) \<or> is_digit (hd s)) \<and> list_all is_name_char s"

lemma split_camel_chars: "c \<in> set (split_camel prev s) \<Longrightarrow> is_alnum c \<Longrightarrow> is_lower c \<or> is_digit c"
proof (induction prev s rule: split_camel.induct)
  case (2 prev d ds)
  moreover have "\<not> is_alnum CHR ''_''" by code_simp
  ultimately show ?case using lower_char_name [of d] by (auto split: if_splits)
qed simp

lemma collapse_name_text:
  "(\<And>c. c \<in> set s \<Longrightarrow> is_alnum c \<Longrightarrow> is_lower c \<or> is_digit c) \<Longrightarrow> out = [] \<or> name_text out
     \<Longrightarrow> collapse out s = [] \<or> name_text (collapse out s)"
proof (induction out s rule: collapse.induct)
  case (2 out c cs)
  have u: "is_name_char CHR ''_''" by code_simp
  show ?case
  proof (cases "is_alnum c")
    case True
    then have "is_lower c \<or> is_digit c" using 2(4) by simp
    then have "name_text (out @ [c])"
      using 2(5) by (cases out) (auto simp: name_text_def is_name_char_def)
    with True 2 show ?thesis by simp
  next
    case False
    have "name_text (out @ ''_'')" if "out \<noteq> []"
      using 2(5) that u by (cases out) (auto simp: name_text_def)
    with False 2 show ?thesis by simp
  qed
qed simp

lemma strip_underscores_append: "\<exists>t. s = strip_underscores s @ t"
proof -
  have "rev s = takeWhile (\<lambda>c. c = CHR ''_'') (rev s) @ dropWhile (\<lambda>c. c = CHR ''_'') (rev s)" by simp
  then have "s = strip_underscores s @ rev (takeWhile (\<lambda>c. c = CHR ''_'') (rev s))"
    unfolding strip_underscores_def by (metis rev_append rev_rev_ident)
  then show ?thesis by blast
qed

lemma strip_name_text: "name_text s \<Longrightarrow> strip_underscores s = [] \<or> name_text (strip_underscores s)"
proof -
  assume a: "name_text s"
  define p where "p = strip_underscores s"
  obtain t where "s = p @ t" using strip_underscores_append p_def by blast
  with a have "p = [] \<or> name_text p" by (cases p) (auto simp: name_text_def)
  then show ?thesis by (simp add: p_def)
qed

lemma field_name_valid: "is_valid_field_identifier (field_name_for_column c)"
proof -
  define out where "out = strip_underscores (collapse [] (split_camel False c))"
  have "out = [] \<or> name_text out"
  proof (cases "collapse [] (split_camel False c) = []")
    case False
    have "name_text (collapse [] (split_camel False c))"
      using collapse_name_text [of "split_camel False c" "[]"] split_camel_chars [of _ False c] False by blast
    then show ?thesis using strip_name_text by (simp add: out_def)
  qed (simp add: out_def strip_underscores_def)
  moreover have "is_lower CHR ''c'' \<and> list_all is_name_char ''ol_'' \<and> list_all is_name_char ''olumn''" by code_simp
  moreover have "is_name_char (hd out)" if "name_text out"
    using that by (cases out) (auto simp: name_text_def)
  ultimately show ?thesis
    unfolding field_name_for_column_def Let_def out_def [symmetric]
    by (cases out) (auto simp: is_valid_field_identifier_def name_text_def)
qed

subsection \<open>Free names\<close>

lemma free_name_fresh: "free_name taken base candidate n \<notin> set taken"
  by (induction taken base candidate n rule: free_name.induct) (subst free_name.simps, simp)

lemma free_name_form:
  "free_name taken base candidate n = candidate \<or> (\<exists>k \<ge> n. free_name taken base candidate n = suffixed base k)"
proof (induction taken base candidate n rule: free_name.induct)
  case (1 taken base candidate n)
  show ?case
  proof (cases "candidate \<in> set taken")
    case True
    with 1 have "free_name taken base (suffixed base n) (Suc n) = suffixed base n
        \<or> (\<exists>k \<ge> Suc n. free_name taken base (suffixed base n) (Suc n) = suffixed base k)" by simp
    moreover have "free_name taken base candidate n = free_name taken base (suffixed base n) (Suc n)"
      using True by (subst free_name.simps) simp
    ultimately show ?thesis by (metis Suc_leD order_refl)
  qed (subst free_name.simps, simp)
qed

lemma free_name_same: "candidate \<notin> set taken \<Longrightarrow> free_name taken base candidate n = candidate"
  by (subst free_name.simps) simp

text \<open>The loop stops at the first name that is not taken: every one tried before is, so that
  it tries at most one suffix for each name that is taken.\<close>

lemma free_name_first:
  "free_name taken base candidate n = candidate
   \<or> (\<exists>k \<ge> n. free_name taken base candidate n = suffixed base k
        \<and> insert candidate (suffixed base ` {n..<k}) \<subseteq> set taken)"
proof (induction taken base candidate n rule: free_name.induct)
  case (1 taken base candidate n)
  show ?case
  proof (cases "candidate \<in> set taken")
    case True
    then have eq: "free_name taken base candidate n = free_name taken base (suffixed base n) (Suc n)"
      by (subst free_name.simps) simp
    from 1 [OF True] show ?thesis
    proof
      assume "free_name taken base (suffixed base n) (Suc n) = suffixed base n"
      with eq True show ?thesis by auto
    next
      assume "\<exists>k \<ge> Suc n. free_name taken base (suffixed base n) (Suc n) = suffixed base k
        \<and> insert (suffixed base n) (suffixed base ` {Suc n..<k}) \<subseteq> set taken"
      then obtain k where k: "Suc n \<le> k" "free_name taken base (suffixed base n) (Suc n) = suffixed base k"
        "insert (suffixed base n) (suffixed base ` {Suc n..<k}) \<subseteq> set taken"
        by blast
      moreover from k(1) have "{n..<k} = insert n {Suc n..<k}" by auto
      ultimately show ?thesis using eq True by (intro disjI2 exI [of _ k]) auto
    qed
  qed (simp add: free_name_same)
qed

lemma free_name_bound:
  "free_name taken base base n = base
   \<or> (\<exists>k \<ge> n. k < n + card (set taken) \<and> free_name taken base base n = suffixed base k
        \<and> insert base (suffixed base ` {n..<k}) \<subseteq> set taken)"
  using free_name_first [of taken base base n]
proof
  assume "\<exists>k \<ge> n. free_name taken base base n = suffixed base k
        \<and> insert base (suffixed base ` {n..<k}) \<subseteq> set taken"
  then obtain k where k: "n \<le> k" "free_name taken base base n = suffixed base k"
    "insert base (suffixed base ` {n..<k}) \<subseteq> set taken"
    by blast
  have "inj_on (suffixed base) {n..<k}" by (simp add: inj_on_def suffixed_inj)
  moreover have "base \<notin> suffixed base ` {n..<k}" by (auto simp: suffixed_def)
  ultimately have "card (insert base (suffixed base ` {n..<k})) = Suc (k - n)"
    by (simp add: card_image)
  moreover have "card (insert base (suffixed base ` {n..<k})) \<le> card (set taken)"
    by (rule card_mono) (use k(3) in auto)
  ultimately have "k < n + card (set taken)" using k(1) by linarith
  with k show ?thesis by blast
qed simp

subsection \<open>Enums\<close>

text \<open>An identifier of the schema language: a letter, then letters, digits and underscores.\<close>

definition is_identifier :: "string \<Rightarrow> bool" where
  "is_identifier s = (case s of [] \<Rightarrow> False
     | c # cs \<Rightarrow> (is_upper c \<or> is_lower c) \<and> list_all (\<lambda>c. is_alnum c \<or> c = CHR ''_'') cs)"

lemma sanitize_is_identifier: "is_identifier (sanitize_identifier raw)"
proof -
  define mapped where
    "mapped = map (\<lambda>c. if is_alnum c then c else CHR ''_'') (List.filter (\<lambda>c. \<not> is_continuation c) raw)"
  have "list_all (\<lambda>c. is_alnum c \<or> c = CHR ''_'') mapped"
    by (auto simp: mapped_def list_all_iff)
  moreover have "is_upper CHR ''V''" by code_simp
  ultimately show ?thesis
    unfolding sanitize_identifier_def Let_def mapped_def [symmetric]
    by (cases mapped) (auto simp: is_identifier_def)
qed

lemma is_identifier_suffixed: "is_identifier base \<Longrightarrow> is_identifier (suffixed base n)"
proof -
  have "is_alnum c" if "c \<in> set (show_nat n)" for c
    using that by (simp add: is_alnum_def)
  then show "is_identifier base \<Longrightarrow> is_identifier (suffixed base n)"
    by (cases base) (auto simp: is_identifier_def suffixed_def list_all_iff)
qed

lemma free_name_identifier: "is_identifier base \<Longrightarrow> is_identifier (free_name taken base base n)"
  using free_name_form [of taken base base n] is_identifier_suffixed by metis

lemma sanitize_from_props:
  "length (sanitize_from seen vs) = length vs \<and> distinct (sanitize_from seen vs)
     \<and> set (sanitize_from seen vs) \<inter> set seen = {} \<and> list_all is_identifier (sanitize_from seen vs)"
proof (induction seen vs rule: sanitize_from.induct)
  case (2 seen raw vs)
  let ?n = "free_name seen (sanitize_identifier raw) (sanitize_identifier raw) 2"
  have "?n \<notin> set seen" "is_identifier ?n"
    by (simp_all add: free_name_fresh free_name_identifier sanitize_is_identifier)
  with 2 [OF refl refl] show ?case by (auto simp: Let_def)
qed simp

text \<open>
  C32: An enum read back keeps its name and its labels: the database names of the enum and of its
  variants are the ones read, while the variants' own names are distinct identifiers of the schema
  language, whatever text the labels are.
\<close>

theorem enum_roundtrip:
  "database_name (build_enum e) = en_info_name e \<and>
   map ev_db_value (en_variants (build_enum e)) = en_info_values e \<and>
   distinct (map ev_name (en_variants (build_enum e))) \<and>
   list_all is_identifier (map ev_name (en_variants (build_enum e)))"
proof -
  note p = sanitize_from_props [of "[]" "en_info_values e", folded sanitize_variants_def]
  have names: "map ev_name (en_variants (build_enum e)) = sanitize_variants (en_info_values e)"
    using p by (simp add: build_enum_def comp_def split_beta)
  have "map ev_db_value (en_variants (build_enum e)) = map fst (zip (en_info_values e) (sanitize_variants (en_info_values e)))"
    by (auto simp: build_enum_def ev_db_value_def attribute_string_def find_attribute_def string_attr_def
        first_arg_def arg_positional_def unwrap_or_def)
  then have "map ev_db_value (en_variants (build_enum e)) = en_info_values e" using p by simp
  moreover have "database_name (build_enum e) = en_info_name e"
    by (simp add: build_enum_def database_name_def attribute_string_def find_attribute_def string_attr_def
        first_arg_def arg_positional_def unwrap_or_def)
  ultimately show ?thesis using names p by simp
qed

subsection \<open>Columns\<close>

lemma attribute_string_skip:
  "\<forall>a \<in> set as. at_name a \<noteq> n \<Longrightarrow> attribute_string n (as @ bs) = attribute_string n bs"
  by (induction as) (auto simp: attribute_string_def find_attribute_def)

lemma attribute_string_none: "\<forall>a \<in> set as. at_name a \<noteq> n \<Longrightarrow> attribute_string n as = None"
  using attribute_string_skip [of as n "[]"] by (simp add: attribute_string_def find_attribute_def)

lemma key_attributes_names: "a \<in> set (key_attributes c pk) \<Longrightarrow> at_name a \<in> {''id'', ''auto''}"
  by (auto simp: key_attributes_def attr_simple_def split: option.splits if_splits)

lemma default_attributes_names:
  "default_attributes ft c = Some as \<Longrightarrow> a \<in> set as \<Longrightarrow> at_name a = ''default''"
  by (auto simp: default_attributes_def string_attr_def split: option.splits if_splits)

lemma build_field_column:
  assumes "build_field ft es c pk uniq = Some (Inr f)"
  shows "field_column_name f = cn_name c" and "f_name f = field_name_for_column (cn_name c)"
    and "\<not> type_is_relation (f_type f)"
proof -
  obtain ty defaults where ty: "sql_type_to_prax es (cn_udt_name c) (cn_data_type c) = Inr ty"
    and d: "default_attributes ft c = Some defaults"
    and f: "f = \<lparr>f_name = field_name_for_column (cn_name c), f_type = ty,
             f_modifier = (if cn_nullable c then Optional else Required),
             f_attributes = key_attributes c pk @ (if cn_name c \<in> set uniq then [attr_simple ''unique''] else [])
               @ defaults @ (if field_name_for_column (cn_name c) \<noteq> cn_name c
                             then [string_attr ''map'' (ValString (cn_name c))] else [])\<rparr>"
    using assms by (auto simp: build_field_def Let_def split: option.splits sum.splits)
  define as where "as = key_attributes c pk @ (if cn_name c \<in> set uniq then [attr_simple ''unique''] else []) @ defaults"
  have "\<forall>a \<in> set as. at_name a \<noteq> ''map''"
    using key_attributes_names [of _ c pk] default_attributes_names [OF d]
    by (fastforce simp: as_def attr_simple_def split: if_splits)
  then have "attribute_string ''map'' (f_attributes f) =
     attribute_string ''map'' (if field_name_for_column (cn_name c) \<noteq> cn_name c
                             then [string_attr ''map'' (ValString (cn_name c))] else [])"
    using attribute_string_skip [of as "''map''"] by (simp add: f as_def)
  then show "field_column_name f = cn_name c"
    by (simp add: field_column_name_def f attribute_string_def find_attribute_def string_attr_def first_arg_def
        arg_positional_def unwrap_or_def split: if_splits)
  show "f_name f = field_name_for_column (cn_name c)" by (simp add: f)
  show "\<not> type_is_relation (f_type f)"
    using ty by (auto simp: f sql_type_to_prax_def split: if_splits option.splits)
qed

subsection \<open>Models\<close>

text \<open>The database columns a model stands for: those of its fields that are no relations, in order.\<close>

definition model_columns :: "model \<Rightarrow> string list" where
  "model_columns m = map field_column_name (mo_scalar_fields m)"

definition column_view :: "field \<Rightarrow> bool \<times> string" where
  "column_view f = (f_is_relation f, field_column_name f)"

lemma model_columns_view:
  "model_columns m = map snd (List.filter (\<lambda>p. \<not> fst p) (map column_view (map_values (mo_fields m))))"
  by (simp add: model_columns_def mo_scalar_fields_def filter_map comp_def column_view_def)

lemma model_columns_add:
  "f_name f \<notin> fst ` set (mo_fields m) \<Longrightarrow>
     model_columns (mo_add_field f m) = model_columns m @ (if f_is_relation f then [] else [field_column_name f])"
  by (simp add: model_columns_view mo_add_field_def update_new map_values_def column_view_def)

lemma update_view:
  "map_of m n = Some f \<Longrightarrow> h g = h f \<Longrightarrow> map h (map snd (AList.update n g m)) = map h (map snd m)"
  by (induction m) (auto split: if_splits)

lemma build_field_scalar: "build_field ft es c pk uniq = Some (Inr f) \<Longrightarrow> \<not> f_is_relation f"
proof -
  assume a: "build_field ft es c pk uniq = Some (Inr f)"
  have "\<not> has_attribute ''relation'' (f_attributes f)"
    using a key_attributes_names [of _ c pk] default_attributes_names [of ft c]
    by (fastforce simp: build_field_def Let_def has_attribute_def list_ex_iff attr_simple_def string_attr_def
        split: option.splits sum.splits if_splits)
  with build_field_column(3) [OF a] show ?thesis by (simp add: f_is_relation_def)
qed

text \<open>The columns that are kept: those whose type is known.\<close>

definition known_columns :: "enum_info list \<Rightarrow> column_info list \<Rightarrow> column_info list" where
  "known_columns es cs = List.filter (\<lambda>c. \<not> isl (sql_type_to_prax es (cn_udt_name c) (cn_data_type c))) cs"

lemma build_field_known:
  "build_field ft es c pk uniq = Some x \<Longrightarrow> isl x \<longleftrightarrow> isl (sql_type_to_prax es (cn_udt_name c) (cn_data_type c))"
  by (auto simp: build_field_def Let_def split: sum.splits option.splits)

lemma add_columns_model:
  "add_table_columns ft es pk uniq cs m = Some m' \<Longrightarrow>
     mo_attributes m' = mo_attributes m \<and> mo_name m' = mo_name m \<and> (mo_wf m \<longrightarrow> mo_wf m')"
proof (induction ft es pk uniq cs m rule: add_table_columns.induct)
  case (2 ft es pk uniq c cs m)
  then show ?case
    by (auto split: option.splits sum.splits simp: mo_wf_add_field) (simp_all add: mo_add_field_def)
qed simp

lemma add_columns_columns:
  "add_table_columns ft es pk uniq cs m = Some m' \<Longrightarrow>
   distinct (map (\<lambda>c. field_name_for_column (cn_name c)) (known_columns es cs)) \<Longrightarrow>
   fst ` set (mo_fields m) \<inter> (\<lambda>c. field_name_for_column (cn_name c)) ` set (known_columns es cs) = {} \<Longrightarrow>
   model_columns m' = model_columns m @ map cn_name (known_columns es cs)"
proof (induction ft es pk uniq cs m rule: add_table_columns.induct)
  case (2 ft es pk uniq c cs m)
  obtain x where x: "build_field ft es c pk uniq = Some x" using 2(3) by (auto split: option.splits)
  note k = build_field_known [OF x]
  show ?case
  proof (cases x)
    case (Inl e)
    with x k 2 show ?thesis by (simp add: known_columns_def)
  next
    case (Inr f)
    note f = build_field_column [OF x [unfolded Inr]] build_field_scalar [OF x [unfolded Inr]]
    have kc: "known_columns es (c # cs) = c # known_columns es cs"
      using k Inr by (simp add: known_columns_def)
    have keys: "fst ` set (mo_fields (mo_add_field f m)) = insert (f_name f) (fst ` set (mo_fields m))"
      by (simp add: mo_add_field_def dom_update)
    have "model_columns m' = model_columns (mo_add_field f m) @ map cn_name (known_columns es cs)"
      using 2 x Inr kc f(2) by (intro 2(2)) (auto simp: keys)
    moreover have "f_name f \<notin> fst ` set (mo_fields m)"
      using 2(5) kc f(2) by auto
    ultimately show ?thesis using kc f by (simp add: model_columns_add)
  qed
qed (simp add: known_columns_def)

lemma relation_field_fresh: "f_name (build_relation_field k cols m) \<notin> fst ` set (mo_fields m)"
  using free_name_fresh [of "map fst (mo_fields m)"] by (simp add: build_relation_field_def Let_def)

lemma relation_field_relation: "f_is_relation (build_relation_field k cols m)"
  by (simp add: build_relation_field_def Let_def f_is_relation_def)

lemma add_relation_steps:
  "mo_attributes (foldl (\<lambda>m k. mo_add_field (build_relation_field k cols m) m) m ks) = mo_attributes m \<and>
   mo_name (foldl (\<lambda>m k. mo_add_field (build_relation_field k cols m) m) m ks) = mo_name m \<and>
   (mo_wf m \<longrightarrow> mo_wf (foldl (\<lambda>m k. mo_add_field (build_relation_field k cols m) m) m ks)) \<and>
   model_columns (foldl (\<lambda>m k. mo_add_field (build_relation_field k cols m) m) m ks) = model_columns m"
proof (induction ks arbitrary: m)
  case (Cons k ks)
  show ?case
    using Cons.IH [of "mo_add_field (build_relation_field k cols m) m"]
    by (simp add: model_columns_add relation_field_fresh relation_field_relation mo_wf_add_field)
      (simp add: mo_add_field_def)
qed simp

lemma mark_unique_columns: "model_columns (mark_unique n m) = model_columns m"
proof -
  have "column_view (f\<lparr>f_attributes := f_attributes f @ [attr_simple ''unique'']\<rparr>) = column_view f" for f
    by (auto simp: column_view_def f_is_relation_def has_attribute_def field_column_name_def attr_simple_def
        attribute_string_def find_attribute_def find_snoc unwrap_or_def split: option.splits)
  then show ?thesis
    by (auto simp: mark_unique_def model_columns_view map_values_def update_view simp del: map_map
        split: option.splits)
qed

lemma mark_unique_wf: "mo_wf m \<Longrightarrow> mo_wf (mark_unique n m)"
proof -
  assume wf: "mo_wf m"
  have "f_name f = n" if "map_of (mo_fields m) n = Some f" for f
    using wf map_of_SomeD [OF that] by (auto simp: mo_wf_def keyed_by_def list_all_iff)
  then have "mo_wf (m\<lparr>mo_fields := AList.update n (f\<lparr>f_attributes := as\<rparr>) (mo_fields m)\<rparr>)"
    if "map_of (mo_fields m) n = Some f" for f as
    using wf keyed_by_update [of f_name "mo_fields m" "f\<lparr>f_attributes := as\<rparr>"] that
    by (simp add: mo_wf_def)
  with wf show ?thesis by (auto simp: mark_unique_def split: option.split)
qed

lemma add_index_steps:
  "\<exists>as. mo_attributes (add_index m x) = mo_attributes m @ as"
  "mo_name (add_index m x) = mo_name m"
  "mo_wf m \<Longrightarrow> mo_wf (add_index m x)"
  "model_columns (add_index m x) = model_columns m"
  by (auto simp: add_index_def Let_def mark_unique_columns mark_unique_wf)
    (auto simp: mark_unique_def mo_wf_def model_columns_def mo_scalar_fields_def split: option.split)

lemma add_indexes_steps:
  "(\<exists>as. mo_attributes (foldl add_index m xs) = mo_attributes m @ as) \<and>
   mo_name (foldl add_index m xs) = mo_name m \<and> (mo_wf m \<longrightarrow> mo_wf (foldl add_index m xs)) \<and>
   model_columns (foldl add_index m xs) = model_columns m"
proof (induction xs arbitrary: m)
  case (Cons x xs)
  show ?case
    using Cons.IH [of "add_index m x"] add_index_steps [of m x] by auto
qed simp

lemma build_model_facts:
  assumes "build_model ft b t = Some m"
  shows "table_name m = tn_name t" and "mo_name m = to_pascal_case (tn_name t)" and "mo_wf m"
    and "distinct (map (\<lambda>c. field_name_for_column (cn_name c)) (known_columns (bu_enums b) (rows_of (bu_columns b) (tn_name t))))
      \<Longrightarrow> model_columns m = map cn_name (known_columns (bu_enums b) (rows_of (bu_columns b) (tn_name t)))"
proof -
  define m0 where "m0 = (mo_new (to_pascal_case (tn_name t)))\<lparr>mo_attributes := [string_attr ''map'' (ValString (tn_name t))]\<rparr>"
  obtain pk uniq ks m1 where
    m1: "add_table_columns ft (bu_enums b) pk uniq (rows_of (bu_columns b) (tn_name t)) m0 = Some m1"
    and m: "m = foldl add_index (add_relations ks (rows_of (bu_columns b) (tn_name t)) m1) (rows_of (bu_indexes b) (tn_name t))"
    using assms by (auto simp: build_model_def Let_def m0_def split: option.splits)
  note steps = add_indexes_steps [of "add_relations ks (rows_of (bu_columns b) (tn_name t)) m1" "rows_of (bu_indexes b) (tn_name t)", folded m]
    add_relation_steps [of "rows_of (bu_columns b) (tn_name t)" m1 "foreign_keys_of ks", folded add_relations_def]
    add_columns_model [OF m1]
  have m0: "mo_wf m0" "mo_fields m0 = []" "model_columns m0 = []"
    by (simp_all add: m0_def mo_new_def mo_wf_def model_columns_def mo_scalar_fields_def map_values_def)
  obtain as where "mo_attributes m = string_attr ''map'' (ValString (tn_name t)) # as"
    using steps by (auto simp: m0_def)
  then show "table_name m = tn_name t"
    by (simp add: table_name_def attribute_string_def find_attribute_def string_attr_def first_arg_def
        arg_positional_def unwrap_or_def)
  show "mo_name m = to_pascal_case (tn_name t)" using steps by (simp add: m0_def mo_new_def)
  show "mo_wf m" using steps m0 by simp
  show "model_columns m = map cn_name (known_columns (bu_enums b) (rows_of (bu_columns b) (tn_name t)))"
    if "distinct (map (\<lambda>c. field_name_for_column (cn_name c)) (known_columns (bu_enums b) (rows_of (bu_columns b) (tn_name t))))"
    using add_columns_columns [OF m1 that] steps m0 by simp
qed

text \<open>
  C31: The model of a table has the table's name, and its fields that are no relations stand for the
  columns of a known type, in order and under their own names, provided that no two of these
  columns are given the same field name.
\<close>

theorem table_roundtrip:
  assumes "build_model ft b t = Some m"
    and "distinct (map (\<lambda>c. field_name_for_column (cn_name c))
           (known_columns (bu_enums b) (rows_of (bu_columns b) (tn_name t))))"
  shows "table_name m = tn_name t \<and> mo_wf m \<and>
    model_columns m = map cn_name (known_columns (bu_enums b) (rows_of (bu_columns b) (tn_name t)))"
  using build_model_facts [OF assms(1)] assms(2) by blast

definition int_column :: "string \<Rightarrow> string option \<Rightarrow> column_info" where
  "int_column n d = \<lparr>cn_name = n, cn_data_type = ''integer'', cn_udt_name = ''int4'', cn_nullable = False, cn_default = d\<rparr>"

definition order_builder :: schema_builder where
  "order_builder =
     bu_with_constraints ''orders''
       [\<lparr>kn_name = ''orders_pkey'', kn_type = ''PRIMARY KEY'', kn_columns = [''id''], kn_ref_table = None,
          kn_ref_columns = None, kn_on_delete = None, kn_on_update = None\<rparr>,
        \<lparr>kn_name = ''orders_user_fk'', kn_type = ''FOREIGN KEY'', kn_columns = [''userId''],
          kn_ref_table = Some ''app_users'', kn_ref_columns = Some [''id''], kn_on_delete = Some ''CASCADE'',
          kn_on_update = None\<rparr>]
     (bu_with_indexes ''orders''
       [\<lparr>xn_name = ''orders_user_idx'', xn_columns = [''userId'', ''id''], xn_unique = False, xn_primary = False\<rparr>]
     (bu_with_columns ''orders''
       [int_column ''id'' (Some ''nextval(1)''), int_column ''userId'' None,
        (int_column ''doc'' None)\<lparr>cn_udt_name := ''tsvector'', cn_data_type := ''tsvector''\<rparr>,
        int_column ''delta'' (Some ([SQUOTE] @ ''-1'' @ [SQUOTE] @ ''::integer''))]
     (bu_with_tables [\<lparr>tn_name = ''orders'', tn_type = ''BASE TABLE''\<rparr>, \<lparr>tn_name = ''_prax_migrations'', tn_type = ''BASE TABLE''\<rparr>]
       (bu_new nc_default))))"

definition orders_table :: table_info where
  "orders_table = \<lparr>tn_name = ''orders'', tn_type = ''BASE TABLE''\<rparr>"

text \<open>No text of the samples is a float.\<close>

definition no_float :: "string \<Rightarrow> string option" where
  "no_float s = None"

lemma orders_built: "build_model no_float order_builder orders_table \<noteq> None"
  and orders_names: "distinct (map (\<lambda>c. field_name_for_column (cn_name c))
     (known_columns (bu_enums order_builder) (rows_of (bu_columns order_builder) (tn_name orders_table))))"
  and orders_columns: "map cn_name (known_columns (bu_enums order_builder)
     (rows_of (bu_columns order_builder) (tn_name orders_table))) = [''id'', ''userId'', ''delta'']"
  by code_simp+

theorem table_roundtrip_witness:
  "\<exists>m. build_model no_float order_builder orders_table = Some m \<and> table_name m = ''orders'' \<and>
     model_columns m = [''id'', ''userId'', ''delta'']"
proof -
  obtain m where m: "build_model no_float order_builder orders_table = Some m"
    using orders_built by blast
  from table_roundtrip [OF m orders_names] m show ?thesis
    unfolding orders_columns by (simp add: orders_table_def)
qed

subsection \<open>Relations\<close>

text \<open>
  C33: The relation field of a foreign key has a name that no field of the model has, its attribute
  is read back as the key's columns (as field names) and its constraint name, and the search for
  the name stops at the first of \<open>base\<close>, \<open>base_2\<close>, \<open>base_3\<close>, .. that is no field of the
  model, so that it tries at most as many suffixes as the model has fields.  The actions of the
  foreign key are read back as none, whatever the database says.
\<close>

theorem relation_field_readback:
  "f_name (build_relation_field k cols m) \<notin> fst ` set (mo_fields m) \<and>
   (f_name (build_relation_field k cols m) = relation_base k \<or>
    (\<exists>n \<ge> 2. n - 1 \<le> length (mo_fields m)
       \<and> f_name (build_relation_field k cols m) = suffixed (relation_base k) n
       \<and> insert (relation_base k) (suffixed (relation_base k) ` {2..<n}) \<subseteq> fst ` set (mo_fields m))) \<and>
   fa_relation (extract_attributes (build_relation_field k cols m)) =
     Some \<lparr>rel_name = None, rel_fields = map field_name_for_column (kn_columns k),
       rel_references = map field_name_for_column (unwrap_or (kn_ref_columns k) []),
       rel_on_delete = None, rel_on_update = None, rel_map = Some (kn_name k)\<rparr>"
proof (intro conjI)
  show "f_name (build_relation_field k cols m) \<notin> fst ` set (mo_fields m)" by (rule relation_field_fresh)
  have "card (set (map fst (mo_fields m))) \<le> length (mo_fields m)"
    using card_length [of "map fst (mo_fields m)"] by simp
  moreover have "f_name (build_relation_field k cols m) = free_name (map fst (mo_fields m)) (relation_base k) (relation_base k) 2"
    by (simp add: build_relation_field_def Let_def)
  ultimately show "f_name (build_relation_field k cols m) = relation_base k \<or>
    (\<exists>n \<ge> 2. n - 1 \<le> length (mo_fields m)
       \<and> f_name (build_relation_field k cols m) = suffixed (relation_base k) n
       \<and> insert (relation_base k) (suffixed (relation_base k) ` {2..<n}) \<subseteq> fst ` set (mo_fields m))"
    using free_name_bound [of "map fst (mo_fields m)" "relation_base k" 2] by fastforce
qed (simp add: build_relation_field_def Let_def extract_attributes_def extract_one_def parse_relation_def
    first_arg_def get_arg_def arg_named_def ref_list_def)

subsection \<open>The schema\<close>

definition base_tables :: "schema_builder \<Rightarrow> table_info list" where
  "base_tables b = List.filter (\<lambda>t. should_include_table (bu_config b) (tn_name t) \<and> tn_type t \<noteq> ''VIEW'') (bu_tables b)"

lemma build_tables_models:
  "build_tables ft b ts r = Some r' \<Longrightarrow>
   distinct (map (\<lambda>t. to_pascal_case (tn_name t))
     (List.filter (\<lambda>t. should_include_table (bu_config b) (tn_name t) \<and> tn_type t \<noteq> ''VIEW'') ts)) \<Longrightarrow>
   fst ` set (sm_models (ir_schema r)) \<inter> (\<lambda>t. to_pascal_case (tn_name t)) `
     set (List.filter (\<lambda>t. should_include_table (bu_config b) (tn_name t) \<and> tn_type t \<noteq> ''VIEW'') ts) = {} \<Longrightarrow>
   map table_name (map_values (sm_models (ir_schema r'))) = map table_name (map_values (sm_models (ir_schema r)))
     @ map tn_name (List.filter (\<lambda>t. should_include_table (bu_config b) (tn_name t) \<and> tn_type t \<noteq> ''VIEW'') ts)"
proof (induction ft b ts r rule: build_tables.induct)
  case (2 ft b t ts r)
  obtain r1 where r1: "build_table ft b r t = Some r1" using 2(2) by (auto split: option.splits)
  show ?case
  proof (cases "should_include_table (bu_config b) (tn_name t) \<and> tn_type t \<noteq> ''VIEW''")
    case True
    then obtain m where m: "build_model ft b t = Some m" and r: "r1 = r\<lparr>ir_schema := sm_add_model m (ir_schema r)\<rparr>"
      using r1 by (auto simp: build_table_def)
    note f = build_model_facts(1,2) [OF m]
    have new: "mo_name m \<notin> fst ` set (sm_models (ir_schema r))" using 2(4) True f(2) by auto
    have models: "sm_models (ir_schema r1) = sm_models (ir_schema r) @ [(mo_name m, m)]"
      using new by (simp add: r sm_add_model_def update_new)
    have "map table_name (map_values (sm_models (ir_schema r'))) = map table_name (map_values (sm_models (ir_schema r1)))
     @ map tn_name (List.filter (\<lambda>t. should_include_table (bu_config b) (tn_name t) \<and> tn_type t \<noteq> ''VIEW'') ts)"
      using 2 True r1 f(2) by (intro 2(1) [OF r1]) (auto simp: models)
    with True f(1) show ?thesis by (simp add: models map_values_def)
  next
    case False
    then have "sm_models (ir_schema r1) = sm_models (ir_schema r)"
      using r1 by (auto simp: build_table_def sm_add_view_def split: if_splits option.splits sum.splits)
    with False 2 r1 show ?thesis by auto
  qed
qed simp

lemma build_start:
  "sm_models (foldl (\<lambda>s e. sm_add_enum (build_enum e) s) s es) = sm_models s"
  by (induction es arbitrary: s) (simp_all add: sm_add_enum_def)

lemma introspected_table_names:
  assumes "build ft b = Some r" and "distinct (map (\<lambda>t. to_pascal_case (tn_name t)) (base_tables b))"
  shows "map table_name (map_values (sm_models (ir_schema r))) = map tn_name (base_tables b)"
proof -
  have "sm_models fs_new = []" by (simp add: fs_new_def)
  then show ?thesis
    using build_tables_models [OF assms(1) [unfolded build_def]] assms(2)
    by (simp add: base_tables_def build_start map_values_def)
qed

subsection \<open>Defaults\<close>

lemma trim_id: "s \<noteq> [] \<Longrightarrow> \<not> is_space (hd s) \<Longrightarrow> \<not> is_space (last s) \<Longrightarrow> trim s = s"
proof -
  have d: "dropWhile is_space x = x" if "x \<noteq> []" "\<not> is_space (hd x)" for x using that by (cases x) simp_all
  assume "s \<noteq> []" "\<not> is_space (hd s)" "\<not> is_space (last s)"
  then show ?thesis by (simp add: trim_def d hd_rev)
qed

lemma digit_facts: "is_digit c \<Longrightarrow> \<not> is_space c \<and> c \<noteq> CHR ''-'' \<and> c \<noteq> CHR ''+'' \<and> c \<noteq> SQUOTE \<and> c \<noteq> CHR '':''
    \<and> c \<notin> {CHR ''t'', CHR ''T'', CHR ''f'', CHR ''F'', CHR ''n'', CHR ''N''}"
  by (auto simp: is_digit_def is_space_def)

lemma parse_i64_show: "parse_i64 (show_int (sint (i :: i64))) = Some i"
proof -
  have r: "- (2 ^ 63) \<le> sint i" "sint i < 2 ^ 63"
    using sint_greater_eq [of i] sint_less [of i] by simp_all
  have hd: "is_digit (hd (show_nat n))" for n
    using show_nat_digits [of n] by (cases "show_nat n") auto
  show ?thesis
  proof (cases "sint i < 0")
    case True
    with r show ?thesis
      by (simp add: show_int_def parse_i64_def show_nat_digits)
  next
    case False
    obtain c cs where c: "show_nat (nat (sint i)) = c # cs" by (cases "show_nat (nat (sint i))") auto
    then have "is_digit c" using hd [of "nat (sint i)"] by simp
    then have "c \<noteq> CHR ''-''" "c \<noteq> CHR ''+''" using digit_facts by auto
    moreover have "list_all is_digit (c # cs)" "nat_of_digits (c # cs) = nat (sint i)"
      using show_nat_digits [of "nat (sint i)"] nat_of_digits_show [of "nat (sint i)"] c by simp_all
    ultimately show ?thesis
      using False r c by (simp add: show_int_def parse_i64_def)
  qed
qed

lemma show_int_ends: "\<not> is_space (hd (show_int n)) \<and> \<not> is_space (last (show_int n)) \<and> show_int n \<noteq> []
    \<and> hd (show_int n) \<notin> {CHR ''t'', CHR ''T'', CHR ''f'', CHR ''F'', CHR ''n'', CHR ''N''}"
proof -
  have m: "is_digit (hd (show_nat k))" "is_digit (last (show_nat k))" for k
    using show_nat_digits [of k] by (cases "show_nat k"; auto simp: list_all_iff)+
  have "\<not> is_space CHR ''-''" by code_simp
  then show ?thesis
    using digit_facts [OF m(1)] digit_facts [OF m(2)] by (auto simp: show_int_def)
qed

lemma keyword_heads: "t = ''true'' \<or> t = ''TRUE'' \<or> t = ''false'' \<or> t = ''FALSE'' \<Longrightarrow> hd t \<in> {CHR ''t'', CHR ''T'', CHR ''f'', CHR ''F''}"
  by auto

lemma upper_NULL: "upper t = ''NULL'' \<Longrightarrow> hd t \<in> {CHR ''n'', CHR ''N''}"
proof -
  assume u: "upper t = ''NULL''"
  then obtain c cs where t: "t = c # cs" by (cases t) (auto simp: upper_def)
  with u have c: "upper_char c = CHR ''N''" by (simp add: upper_def)
  have "c = CHR ''n''" if "CHR ''a'' \<le> c \<and> c \<le> CHR ''z''"
  proof -
    have b: "97 \<le> (of_char c :: nat)" "(of_char c :: nat) \<le> 122" using that by (simp_all add: less_eq_char_def)
    have "(of_char (upper_char c) :: nat) = of_char c - 32"
      using that b by (simp add: upper_char_def)
    with c b have "(of_char c :: nat) = of_char CHR ''n''" by simp
    then show ?thesis by (simp only: of_char_eq_iff)
  qed
  with c t show ?thesis by (auto simp: upper_char_def split: if_splits)
qed

lemma plain_head:
  "hd t \<notin> {CHR ''t'', CHR ''T'', CHR ''f'', CHR ''F'', CHR ''n'', CHR ''N''} \<Longrightarrow>
     t \<noteq> ''true'' \<and> t \<noteq> ''TRUE'' \<and> t \<noteq> ''false'' \<and> t \<noteq> ''FALSE'' \<and> upper t \<noteq> ''NULL''"
  using keyword_heads [of t] upper_NULL [of t] by blast

lemma parse_default_int: "parse_default_value ft (show_int (sint (i :: i64))) = Some (Some (ValInt i))"
proof -
  note e = show_int_ends [of "sint i"]
  have "trim (show_int (sint i)) = show_int (sint i)" using e trim_id by blast
  then show ?thesis
    using e plain_head [of "show_int (sint i)"]
    by (subst parse_default_value.simps) (simp add: parse_i64_show)
qed

text \<open>A quoted text, with or without a cast to a type.\<close>

lemma parse_i64_quote: "parse_i64 (SQUOTE # s) = None"
  by (simp add: parse_i64_def is_digit_def)

lemma parse_default_quoted:
  assumes "ft (SQUOTE # s @ [SQUOTE]) = None"
  shows "parse_default_value ft (SQUOTE # s @ [SQUOTE]) = Some (Some (ValString s))"
proof -
  have sp: "\<not> is_space SQUOTE" by code_simp
  have "trim (SQUOTE # s @ [SQUOTE]) = SQUOTE # s @ [SQUOTE]" using sp by (intro trim_id) simp_all
  then show ?thesis
    using assms plain_head [of "SQUOTE # s @ [SQUOTE]"]
    by (subst parse_default_value.simps) (simp add: parse_i64_quote quoted_by_def butlast_append)
qed

lemma before_cast_found: "CHR '':'' \<notin> set s \<Longrightarrow> before_cast (s @ CHR '':'' # CHR '':'' # t) = Some s"
proof (induction s)
  case (Cons a s)
  then show ?case by (cases s) auto
qed simp

lemma parse_default_cast:
  assumes "CHR '':'' \<notin> set s" and "ty \<noteq> []" and "\<not> is_space (last ty)" and "last ty \<noteq> SQUOTE"
    and "ft (SQUOTE # s @ [SQUOTE]) = None" and "ft (SQUOTE # s @ SQUOTE # ''::'' @ ty) = None"
  shows "parse_default_value ft (SQUOTE # s @ SQUOTE # ''::'' @ ty) = Some (Some (ValString s))"
proof -
  have sp: "\<not> is_space SQUOTE" by code_simp
  have t: "trim (SQUOTE # s @ SQUOTE # ''::'' @ ty) = SQUOTE # s @ SQUOTE # ''::'' @ ty"
    using sp assms(2,3) by (intro trim_id) simp_all
  have "before_cast ((SQUOTE # s @ [SQUOTE]) @ CHR '':'' # CHR '':'' # ty) = Some (SQUOTE # s @ [SQUOTE])"
    using assms(1) by (intro before_cast_found) simp
  then have b: "before_cast (SQUOTE # s @ SQUOTE # ''::'' @ ty) = Some (SQUOTE # s @ [SQUOTE])" by simp
  show ?thesis
    using t b assms(2,4,6) plain_head [of "SQUOTE # s @ SQUOTE # ''::'' @ ty"] parse_default_quoted [of ft s, OF assms(5)]
    by (subst parse_default_value.simps) (simp add: parse_i64_quote quoted_by_def)
qed

text \<open>What Rust's float parser is known not to accept: a text that starts with none of its characters.\<close>

definition rejects_text :: "(string \<Rightarrow> string option) \<Rightarrow> bool" where
  "rejects_text ft \<longleftrightarrow> (\<forall>t. t \<noteq> [] \<and> hd t \<in> {SQUOTE, CHR ''C'', CHR ''g''} \<longrightarrow> ft t = None)"

lemma no_float_rejects: "rejects_text no_float"
  by (simp add: rejects_text_def no_float_def)

lemma parse_default_keywords:
  assumes "rejects_text ft"
  shows "parse_default_value ft ''TRUE'' = Some (Some (ValBool True))"
    and "parse_default_value ft ''FALSE'' = Some (Some (ValBool False))"
    and "parse_default_value ft ''CURRENT_TIMESTAMP'' = Some (Some (ValFunction ''now'' []))"
    and "parse_default_value ft ''gen_random_uuid()'' = Some (Some (ValFunction ''gen_random_uuid'' []))"
proof -
  have t: "trim ''TRUE'' = ''TRUE''" "trim ''FALSE'' = ''FALSE''" "trim ''CURRENT_TIMESTAMP'' = ''CURRENT_TIMESTAMP''"
    "trim ''gen_random_uuid()'' = ''gen_random_uuid()''" by code_simp+
  show "parse_default_value ft ''TRUE'' = Some (Some (ValBool True))"
    by (subst parse_default_value.simps) (simp add: t)
  show "parse_default_value ft ''FALSE'' = Some (Some (ValBool False))"
    by (subst parse_default_value.simps) (simp add: t)
  have f: "ft ''CURRENT_TIMESTAMP'' = None" "ft ''gen_random_uuid()'' = None"
    using assms by (simp_all add: rejects_text_def)
  have c: "upper ''CURRENT_TIMESTAMP'' = ''CURRENT_TIMESTAMP''" "parse_i64 ''CURRENT_TIMESTAMP'' = None"
    "\<not> quoted_by SQUOTE ''CURRENT_TIMESTAMP''" "\<not> quoted_by DQUOTE ''CURRENT_TIMESTAMP''"
    "before_cast ''CURRENT_TIMESTAMP'' = None" by code_simp+
  show "parse_default_value ft ''CURRENT_TIMESTAMP'' = Some (Some (ValFunction ''now'' []))"
    by (subst parse_default_value.simps) (simp add: t f c)
  have g: "upper ''gen_random_uuid()'' \<noteq> ''NULL''" "parse_i64 ''gen_random_uuid()'' = None"
    "\<not> quoted_by SQUOTE ''gen_random_uuid()''" "\<not> quoted_by DQUOTE ''gen_random_uuid()''"
    "before_cast ''gen_random_uuid()'' = None" by code_simp+
  show "parse_default_value ft ''gen_random_uuid()'' = Some (Some (ValFunction ''gen_random_uuid'' []))"
    by (subst parse_default_value.simps) (simp add: t f g)
qed

lemma parse_default_text:
  "rejects_text ft \<Longrightarrow> parse_default_value ft (SQUOTE # s @ [SQUOTE]) = Some (Some (ValString s))"
  by (rule parse_default_quoted) (simp add: rejects_text_def)

text \<open>
  A default the generator writes is read back as one that is written the same way, so that
  comparing it with the schema shows no change: integers, booleans, texts without a quote, the
  current time and a random identifier.
\<close>

theorem default_roundtrip:
  assumes "rejects_text ft"
    and "v \<in> {ValInt i, ValBool b, ValFunction ''now'' [], ValFunction ''uuid'' []} \<or> (v = ValString s \<and> SQUOTE \<notin> set s)"
  shows "\<exists>sql x. render_default v = Some sql \<and> parse_default_value ft sql = Some (Some x) \<and> render_default x = Some sql"
  using assms(2) parse_default_int [of ft i] parse_default_keywords [OF assms(1)] parse_default_text [OF assms(1), of s]
  by (cases b) (auto simp: replace_char_absent)

theorem default_roundtrip_witness:
  "\<exists>x. parse_default_value no_float (SQUOTE # ''new'' @ [SQUOTE]) = Some (Some x) \<and>
     render_default x = Some (SQUOTE # ''new'' @ [SQUOTE])"
  using default_roundtrip [OF no_float_rejects, of "ValString ''new''" 0 True "''new''"] by auto

lemma replace_quote_longer: "SQUOTE \<in> set s \<Longrightarrow> length s < length (replace_char SQUOTE [SQUOTE, SQUOTE] s)"
proof (induction s)
  case (Cons c s)
  have "length s \<le> length (replace_char SQUOTE [SQUOTE, SQUOTE] s)"
    by (induction s) auto
  with Cons show ?case by (cases "c = SQUOTE") auto
qed simp

text \<open>
  Two defaults are not read back as they were written.  PostgreSQL reports a negative integer
  default as a quoted text with a cast; it becomes a text, which the validator refuses on an integer
  field and the differ takes for a change.  A text with a quote in it keeps the doubled quote and is
  taken for a change too.
\<close>

theorem default_misread:
  assumes "rejects_text ft"
  shows "parse_default_value ft (SQUOTE # show_int (sint (i :: i64)) @ SQUOTE # ''::integer'')
      = Some (Some (ValString (show_int (sint i)))) \<and>
    \<not> scalar_accepts ScInt (ValString (show_int (sint i))) \<and>
    render_default (ValString (show_int (sint i))) \<noteq> render_default (ValInt i) \<and>
    (SQUOTE \<in> set s \<longrightarrow> (\<exists>sql x. render_default (ValString s) = Some sql \<and>
      parse_default_value ft sql = Some (Some x) \<and> render_default x \<noteq> Some sql))"
proof (intro conjI impI)
  have digits: "c = CHR ''-'' \<or> is_digit c" if "c \<in> set (show_int (sint i))" for c
    using that by (auto simp: show_int_def split: if_splits)
  have "CHR '':'' \<notin> set (show_int (sint i))" using digits [of "CHR '':''"] by (auto simp: is_digit_def)
  then show "parse_default_value ft (SQUOTE # show_int (sint i) @ SQUOTE # ''::integer'')
      = Some (Some (ValString (show_int (sint i))))"
    using parse_default_cast [of "show_int (sint i)" "''integer''" ft] assms
    by (simp add: rejects_text_def is_space_def)
  show "\<not> scalar_accepts ScInt (ValString (show_int (sint i)))" by (simp add: scalar_accepts_def)
  have q: "SQUOTE \<notin> set (show_int (sint i))" using digits [of SQUOTE] by (auto simp: is_digit_def)
  show "render_default (ValString (show_int (sint i))) \<noteq> render_default (ValInt i)"
    using q by (auto simp: replace_char_absent dest!: arg_cong [where f = set])
  assume "SQUOTE \<in> set s"
  let ?d = "replace_char SQUOTE [SQUOTE, SQUOTE]"
  have "parse_default_value ft (SQUOTE # ?d s @ [SQUOTE]) = Some (Some (ValString (?d s)))"
    using assms by (rule parse_default_text)
  moreover have "render_default (ValString (?d s)) \<noteq> Some (SQUOTE # ?d s @ [SQUOTE])"
  proof -
    have "SQUOTE \<in> set (?d s)" using \<open>SQUOTE \<in> set s\<close> by (induction s) auto
    then show ?thesis using replace_quote_longer [of "?d s"] by auto
  qed
  ultimately show "\<exists>sql x. render_default (ValString s) = Some sql \<and>
      parse_default_value ft sql = Some (Some x) \<and> render_default x \<noteq> Some sql" by auto
qed

theorem default_misread_witness:
  "parse_default_value no_float (SQUOTE # show_int (sint (- 1 :: i64)) @ SQUOTE # ''::integer'')
     = Some (Some (ValString (show_int (sint (- 1 :: i64)))))"
  using default_misread [OF no_float_rejects, of "- 1"] by blast

subsection \<open>What is lost\<close>

text \<open>
  Two tables that are given the same model name leave one model, the later table's, and nothing
  is reported; a view whose name is the snake case of its model name is left without a mapping, so
  its database name is given as the model name.
\<close>

theorem introspection_losses:
  assumes "build ft b = Some r" and "bu_tables b = [t, u]" and "base_tables b = [t, u]"
    and "to_pascal_case (tn_name t) = to_pascal_case (tn_name u)"
    and "build_view ft b w = Some (Inr v)" and "tn_name w = to_snake_case (to_pascal_case (tn_name w))"
  shows "map table_name (map_values (sm_models (ir_schema r))) = [tn_name u] \<and>
    ir_skipped r = [] \<and> ir_warnings r = [] \<and> vi_view_name v = to_pascal_case (tn_name w)"
proof -
  have inc: "should_include_table (bu_config b) (tn_name t)" "tn_type t \<noteq> ''VIEW''"
    "should_include_table (bu_config b) (tn_name u)" "tn_type u \<noteq> ''VIEW''"
    using assms(2,3) by (auto simp: base_tables_def split: if_splits)
  obtain m n where m: "build_model ft b t = Some m" and n: "build_model ft b u = Some n"
    and r: "r = (\<lparr>ir_schema = sm_add_model n (sm_add_model m (if nc_include_enums (bu_config b)
        then foldl (\<lambda>s e. sm_add_enum (build_enum e) s) fs_new (bu_enums b) else fs_new)),
        ir_skipped = [], ir_warnings = []\<rparr>)"
    using assms(1) inc by (auto simp: build_def assms(2) build_table_def split: option.splits)
  note f = build_model_facts(1,2) [OF m] build_model_facts(1,2) [OF n]
  have "sm_models (ir_schema r) = [(mo_name n, n)]"
    using f assms(4) by (simp add: r sm_add_model_def build_start fs_new_def)
  moreover have "vi_view_name v = to_pascal_case (tn_name w)"
  proof -
    have keep: "vi_name v' = vi_name v0 \<and> vi_attributes v' = vi_attributes v0"
      if "add_view_columns ft es cs v0 = Some (Inr v')" for es cs v0 v'
      using that by (induction ft es cs v0 rule: add_view_columns.induct) (auto split: option.splits sum.splits)
    from assms(5,6) show ?thesis
      by (auto simp: build_view_def Let_def vi_view_name_def attribute_string_def find_attribute_def unwrap_or_def
          dest!: keep)
  qed
  ultimately show ?thesis using f by (simp add: r map_values_def)
qed

definition twin_builder :: schema_builder where
  "twin_builder = bu_with_tables [\<lparr>tn_name = ''user_profile'', tn_type = ''BASE TABLE''\<rparr>,
     \<lparr>tn_name = ''UserProfile'', tn_type = ''BASE TABLE''\<rparr>] (bu_new nc_default)"

theorem introspection_losses_witness:
  "\<exists>r v. build no_float twin_builder = Some r \<and>
     map table_name (map_values (sm_models (ir_schema r))) = [''UserProfile''] \<and> ir_warnings r = [] \<and>
     build_view no_float twin_builder \<lparr>tn_name = ''user_stats'', tn_type = ''VIEW''\<rparr> = Some (Inr v) \<and>
     vi_view_name v = ''UserStats''"
proof -
  have "build no_float twin_builder \<noteq> None" by code_simp
  then obtain r where r: "build no_float twin_builder = Some r" by blast
  define v where "v = \<lparr>vi_name = ''UserStats'', vi_fields = [], vi_attributes = []\<rparr>"
  have v: "build_view no_float twin_builder \<lparr>tn_name = ''user_stats'', tn_type = ''VIEW''\<rparr> = Some (Inr v)"
    unfolding v_def by code_simp
  have c: "base_tables twin_builder = bu_tables twin_builder"
    "to_pascal_case ''user_profile'' = ''UserProfile''" "to_pascal_case ''UserProfile'' = ''UserProfile''"
    "to_pascal_case ''user_stats'' = ''UserStats''" "to_snake_case ''UserStats'' = ''user_stats''" by code_simp+
  show ?thesis
    using introspection_losses [OF r _ _ _ v] r v c by (simp add: twin_builder_def bu_with_tables_def)
qed

text \<open>Two columns that are given the same field name leave one field, and nothing is reported.\<close>

lemma column_collision:
  "field_name_for_column ''userId'' = field_name_for_column ''user_id''"
  by code_simp

text \<open>A text that is one quote makes the parser of defaults panic.\<close>

lemma lone_quote_panics: "parse_default_value no_float [SQUOTE] = None"
  by code_simp

lemma build_tables_wf: "build_tables ft b ts r = Some r' \<Longrightarrow> sm_wf (ir_schema r) \<Longrightarrow> sm_wf (ir_schema r')"
proof (induction ft b ts r rule: build_tables.induct)
  case (2 ft b t ts r)
  obtain r1 where r1: "build_table ft b r t = Some r1" using 2(2) by (auto split: option.splits)
  have "sm_wf (ir_schema r1)"
    using r1 2(3) build_model_facts(3) [of ft b t]
    by (auto simp: build_table_def sm_wf_add_view sm_wf_add_model split: if_splits option.splits sum.splits)
  with r1 2 show ?case by simp
qed simp

text \<open>
  The schema that introspection builds is well-formed: models, enums and views are keyed by
  their names, and so are the fields of every model.
\<close>

theorem introspected_wf: "build ft b = Some r \<Longrightarrow> sm_wf (ir_schema r)"
proof -
  assume b: "build ft b = Some r"
  have "sm_wf fs_new" by (simp add: sm_wf_def fs_new_def map_values_def)
  then have "sm_wf (foldl (\<lambda>s e. sm_add_enum (build_enum e) s) fs_new es)" for es
    by (induction es rule: rev_induct) (simp_all add: sm_wf_add_enum)
  then show "sm_wf (ir_schema r)"
    using b \<open>sm_wf fs_new\<close> unfolding build_def by (auto elim!: build_tables_wf)
qed

theorem introspected_wf_witness:
  "\<exists>r. build no_float twin_builder = Some r \<and> sm_wf (ir_schema r)"
proof -
  have "build no_float twin_builder \<noteq> None" by code_simp
  then show ?thesis using introspected_wf by blast
qed

end
