(* ===== verification/Introspection_Diff.thy ===== *)
theory Introspection_Diff
  imports Introspection_Laws Schema_Diff_Laws
begin

text \<open>
  Introspection and the differ together: the difference between a database, read back as a schema,
  and a target schema.  The differ knows the tables of the database under the names they have
  there, so that it creates none that exists and drops none that does not.
\<close>

lemma map_of_collect_iff: "map_of (collect_by key xs) k = None \<longleftrightarrow> k \<notin> key ` set xs"
  by (auto simp: map_of_collect find_None_iff)

lemma created_tables:
  "md_table ` set (sd_create_models (schema_differ_diff d))
     = fst ` set (created (source_items sm_models table_name d) (target_items sm_models table_name d))"
proof -
  have t: "table_name (snd x) = fst x" if "x \<in> set (target_items sm_models table_name d)" for x
    using that set_collect_by [of "fst x" "snd x"] by (simp add: target_items_def)
  have "md_table ` set (sd_create_models (schema_differ_diff d))
     = (\<lambda>x. table_name (snd x)) ` set (created (source_items sm_models table_name d) (target_items sm_models table_name d))"
    by (simp add: schema_differ_diff_def normalize_enums_def schema_diff_raw_def Let_def image_image split_beta)
  also have "\<dots> = fst ` set (created (source_items sm_models table_name d) (target_items sm_models table_name d))"
    by (rule image_cong) (auto simp: created_def t)
  finally show ?thesis .
qed

lemma created_keys:
  "fst ` set (created src tgt) = {k. map_of tgt k \<noteq> None \<and> map_of src k = None}"
proof (rule set_eqI)
  fix k
  have "k \<in> fst ` set (created src tgt) \<longleftrightarrow> k \<in> fst ` set tgt \<and> map_of src k = None"
    by (force simp: created_def)
  then show "k \<in> fst ` set (created src tgt) \<longleftrightarrow> k \<in> {k. map_of tgt k \<noteq> None \<and> map_of src k = None}"
    by (simp add: map_of_eq_None_iff)
qed

lemma dropped_tables:
  "sd_drop_models (schema_differ_diff d)
     = dropped (source_items sm_models table_name d) (target_items sm_models table_name d)"
  by (simp add: schema_differ_diff_def normalize_enums_def schema_diff_raw_def Let_def)

lemma introspected_models:
  assumes "build ft b = Some r" and "distinct (map (\<lambda>t. to_pascal_case (tn_name t)) (base_tables b))"
  shows "table_name ` set (map_values (sm_models (ir_schema r))) = tn_name ` set (base_tables b)"
  using arg_cong [OF introspected_table_names [OF assms], of set] by simp

text \<open>
  A difference taken from a database read back creates exactly the target tables that the
  database does not have and drops exactly those that only the database has, provided that no two
  tables read are given the same model name.
\<close>

theorem introspected_diff_tables:
  assumes "build ft b = Some r" and "distinct (map (\<lambda>t. to_pascal_case (tn_name t)) (base_tables b))"
    and "df_source d = Some s" and "sm_models s = sm_models (ir_schema r)"
  shows "md_table ` set (sd_create_models (schema_differ_diff d))
      = table_name ` set (map_values (sm_models (df_target d))) - tn_name ` set (base_tables b) \<and>
    set (sd_drop_models (schema_differ_diff d))
      = tn_name ` set (base_tables b) - table_name ` set (map_values (sm_models (df_target d)))"
proof -
  have src: "map_of (source_items sm_models table_name d) k = None \<longleftrightarrow> k \<notin> tn_name ` set (base_tables b)" for k
    using map_of_collect_iff [of table_name "map_values (sm_models s)" k] introspected_models [OF assms(1,2)]
    by (simp add: source_items_def assms(3,4))
  have tgt: "map_of (target_items sm_models table_name d) k = None \<longleftrightarrow>
      k \<notin> table_name ` set (map_values (sm_models (df_target d)))" for k
    using map_of_collect_iff [of table_name "map_values (sm_models (df_target d))" k] by (simp add: target_items_def)
  show ?thesis
    unfolding created_tables dropped_tables created_keys set_eq_iff set_dropped Diff_iff mem_Collect_eq src tgt by blast
qed

theorem introspected_diff_tables_witness:
  "\<exists>r. build no_float order_builder = Some r \<and>
     (let d = \<lparr>df_source = Some (schema.truncate (ir_schema r)), df_target = schema.truncate fs_new\<rparr>
      in set (sd_drop_models (schema_differ_diff d)) = {''orders''})"
proof -
  have "build no_float order_builder \<noteq> None" by code_simp
  then obtain r where r: "build no_float order_builder = Some r" by blast
  have "map tn_name (base_tables order_builder) = [''orders'']" by code_simp
  then have b: "tn_name ` set (base_tables order_builder) = {''orders''}"
    and d: "distinct (map (\<lambda>t. to_pascal_case (tn_name t)) (base_tables order_builder))"
    by (metis list.set_map list.simps(15) empty_set, code_simp)
  show ?thesis
    using introspected_diff_tables [OF r d, of "\<lparr>df_source = Some (schema.truncate (ir_schema r)), df_target = schema.truncate fs_new\<rparr>"] r b
    by (simp add: schema.truncate_def fs_new_def map_values_def)
qed

end
