(* ===== verification/Engine_Session.thy ===== *)
theory Engine_Session
  imports Write_Operations Query_Error
begin

text \<open>
  What an operation does with a query engine.  The engine (\<^verbatim>\<open>prax-query/src/traits.rs\<close>, the trait
  \<^verbatim>\<open>QueryEngine\<close>) is a third party's database behind a driver; an \<^verbatim>\<open>exec\<close> method is therefore
  a session: the calls it makes, each with a continuation on the answer.  \<open>run\<close> plays a session
  against an engine, a record of functions on a state of its own.
\<close>

datatype ('j, 'r, 'e, 'a) session =
    Return "'e query_error + 'a"
  | ExecuteRaw string "'j filter_value list" "nat \<Rightarrow> ('j, 'r, 'e, 'a) session"
  | ExecuteInsert string "'j filter_value list" "'r \<Rightarrow> ('j, 'r, 'e, 'a) session"
  | ExecuteUpdate string "'j filter_value list" "'r list \<Rightarrow> ('j, 'r, 'e, 'a) session"
  | QueryOne string "'j filter_value list" "'r \<Rightarrow> ('j, 'r, 'e, 'a) session"
  | QueryMany string "'j filter_value list" "'r list \<Rightarrow> ('j, 'r, 'e, 'a) session"
  | QueryOptional string "'j filter_value list" "'r option \<Rightarrow> ('j, 'r, 'e, 'a) session"
  | ExecuteDelete string "'j filter_value list" "nat \<Rightarrow> ('j, 'r, 'e, 'a) session"
  | CountRows string "'j filter_value list" "nat \<Rightarrow> ('j, 'r, 'e, 'a) session"
  | AggregateQuery string "'j filter_value list" "(string \<times> 'j filter_value) list list \<Rightarrow> ('j, 'r, 'e, 'a) session"
  | RefreshView string bool "('j, 'r, 'e, 'a) session"
  | Panic

abbreviation fail :: "'e query_error \<Rightarrow> ('j, 'r, 'e, 'a) session" where
  "fail e \<equiv> Return (Inl e)"
abbreviation ok :: "'a \<Rightarrow> ('j, 'r, 'e, 'a) session" where
  "ok a \<equiv> Return (Inr a)"

text \<open>The operator \<^verbatim>\<open>?\<close> after a call that is a session itself.\<close>

primrec and_next :: "('j, 'r, 'e, 'a) session \<Rightarrow> ('a \<Rightarrow> ('j, 'r, 'e, 'b) session) \<Rightarrow> ('j, 'r, 'e, 'b) session" where
  "and_next (Return x) f = (case x of Inl e \<Rightarrow> fail e | Inr a \<Rightarrow> f a)"
| "and_next (ExecuteRaw s ps k) f = ExecuteRaw s ps (\<lambda>n. and_next (k n) f)"
| "and_next (ExecuteInsert s ps k) f = ExecuteInsert s ps (\<lambda>r. and_next (k r) f)"
| "and_next (ExecuteUpdate s ps k) f = ExecuteUpdate s ps (\<lambda>r. and_next (k r) f)"
| "and_next (QueryOne s ps k) f = QueryOne s ps (\<lambda>r. and_next (k r) f)"
| "and_next (QueryMany s ps k) f = QueryMany s ps (\<lambda>rs. and_next (k rs) f)"
| "and_next (QueryOptional s ps k) f = QueryOptional s ps (\<lambda>x. and_next (k x) f)"
| "and_next (ExecuteDelete s ps k) f = ExecuteDelete s ps (\<lambda>n. and_next (k n) f)"
| "and_next (CountRows s ps k) f = CountRows s ps (\<lambda>n. and_next (k n) f)"
| "and_next (AggregateQuery s ps k) f = AggregateQuery s ps (\<lambda>rs. and_next (k rs) f)"
| "and_next (RefreshView v c k) f = RefreshView v c (and_next k f)"
| "and_next Panic f = Panic"

text \<open>A statement that could not be built, because the dialect panics.\<close>

definition with_statement :: "(string \<times> 'p) option \<Rightarrow> (string \<Rightarrow> 'p \<Rightarrow> ('j, 'r, 'e, 'a) session) \<Rightarrow> ('j, 'r, 'e, 'a) session" where
  "with_statement st f = (case st of Some (sql, params) \<Rightarrow> f sql params | None \<Rightarrow> Panic)"

lemma with_statement_simps [simp]:
  "with_statement (Some (sql, params)) f = f sql params"
  "with_statement None f = Panic"
  by (simp_all add: with_statement_def)

lemma and_next_assoc: "and_next (and_next s f) g = and_next s (\<lambda>x. and_next (f x) g)"
  by (induction s) (simp_all split: sum.splits)

lemma and_next_ok: "and_next s ok = s"
  by (induction s) (simp_all split: sum.splits)

subsection \<open>The engine\<close>

record ('j, 'r, 'e, 's) engine =
  execute_raw :: "string \<Rightarrow> 'j filter_value list \<Rightarrow> 's \<Rightarrow> ('e query_error + nat) \<times> 's"
  execute_insert :: "string \<Rightarrow> 'j filter_value list \<Rightarrow> 's \<Rightarrow> ('e query_error + 'r) \<times> 's"
  execute_update :: "string \<Rightarrow> 'j filter_value list \<Rightarrow> 's \<Rightarrow> ('e query_error + 'r list) \<times> 's"
  query_one :: "string \<Rightarrow> 'j filter_value list \<Rightarrow> 's \<Rightarrow> ('e query_error + 'r) \<times> 's"
  query_many :: "string \<Rightarrow> 'j filter_value list \<Rightarrow> 's \<Rightarrow> ('e query_error + 'r list) \<times> 's"
  query_optional :: "string \<Rightarrow> 'j filter_value list \<Rightarrow> 's \<Rightarrow> ('e query_error + 'r option) \<times> 's"
  execute_delete :: "string \<Rightarrow> 'j filter_value list \<Rightarrow> 's \<Rightarrow> ('e query_error + nat) \<times> 's"
  count_rows :: "string \<Rightarrow> 'j filter_value list \<Rightarrow> 's \<Rightarrow> ('e query_error + nat) \<times> 's"
  aggregate_query :: "string \<Rightarrow> 'j filter_value list \<Rightarrow> 's \<Rightarrow> ('e query_error + (string \<times> 'j filter_value) list list) \<times> 's"
  refresh_view :: "string \<Rightarrow> bool \<Rightarrow> 's \<Rightarrow> ('e query_error + unit) \<times> 's"
  real_transactions :: bool

text \<open>The result is \<open>None\<close> when the session panics.\<close>

primrec run :: "('j, 'r, 'e, 's) engine \<Rightarrow> ('j, 'r, 'e, 'a) session \<Rightarrow> 's \<Rightarrow> ('e query_error + 'a) option \<times> 's" where
  "run en (Return x) st = (Some x, st)"
| "run en (ExecuteRaw s ps k) st = (case execute_raw en s ps st of
     (Inl e, st') \<Rightarrow> (Some (Inl e), st') | (Inr n, st') \<Rightarrow> run en (k n) st')"
| "run en (ExecuteInsert s ps k) st = (case execute_insert en s ps st of
     (Inl e, st') \<Rightarrow> (Some (Inl e), st') | (Inr r, st') \<Rightarrow> run en (k r) st')"
| "run en (ExecuteUpdate s ps k) st = (case execute_update en s ps st of
     (Inl e, st') \<Rightarrow> (Some (Inl e), st') | (Inr rs, st') \<Rightarrow> run en (k rs) st')"
| "run en (QueryOne s ps k) st = (case query_one en s ps st of
     (Inl e, st') \<Rightarrow> (Some (Inl e), st') | (Inr r, st') \<Rightarrow> run en (k r) st')"
| "run en (QueryMany s ps k) st = (case query_many en s ps st of
     (Inl e, st') \<Rightarrow> (Some (Inl e), st') | (Inr rs, st') \<Rightarrow> run en (k rs) st')"
| "run en (QueryOptional s ps k) st = (case query_optional en s ps st of
     (Inl e, st') \<Rightarrow> (Some (Inl e), st') | (Inr x, st') \<Rightarrow> run en (k x) st')"
| "run en (ExecuteDelete s ps k) st = (case execute_delete en s ps st of
     (Inl e, st') \<Rightarrow> (Some (Inl e), st') | (Inr n, st') \<Rightarrow> run en (k n) st')"
| "run en (CountRows s ps k) st = (case count_rows en s ps st of
     (Inl e, st') \<Rightarrow> (Some (Inl e), st') | (Inr n, st') \<Rightarrow> run en (k n) st')"
| "run en (AggregateQuery s ps k) st = (case aggregate_query en s ps st of
     (Inl e, st') \<Rightarrow> (Some (Inl e), st') | (Inr rs, st') \<Rightarrow> run en (k rs) st')"
| "run en (RefreshView v c k) st = (case refresh_view en v c st of
     (Inl e, st') \<Rightarrow> (Some (Inl e), st') | (Inr _, st') \<Rightarrow> run en k st')"
| "run en Panic st = (None, st)"

lemma run_and_next:
  "run en (and_next s f) st = (case run en s st of
     (Some (Inr a), st') \<Rightarrow> run en (f a) st' | (Some (Inl e), st') \<Rightarrow> (Some (Inl e), st') | (None, st') \<Rightarrow> (None, st'))"
  by (induction s arbitrary: st) (simp_all split: sum.splits prod.splits)

text \<open>
  \<^verbatim>\<open>transaction\<close>: the trait's default runs the closure and nothing else; a driver that overrides
  it gives back the state before the closure unless the closure answers \<^verbatim>\<open>Ok\<close>.
\<close>

definition run_transaction ::
  "('j, 'r, 'e, 's) engine \<Rightarrow> ('j, 'r, 'e, 'a) session \<Rightarrow> 's \<Rightarrow> ('e query_error + 'a) option \<times> 's" where
  "run_transaction en s st =
     (case run en s st of
        (Some (Inr a), st') \<Rightarrow> (Some (Inr a), st')
      | (r, st') \<Rightarrow> (r, if real_transactions en then st else st'))"

text \<open>What an operation asks for: a session of its own, or one inside a transaction.\<close>

datatype ('j, 'r, 'e, 'a) request =
    Direct "('j, 'r, 'e, 'a) session"
  | InTransaction "('j, 'r, 'e, 'a) session"

fun serve :: "('j, 'r, 'e, 's) engine \<Rightarrow> ('j, 'r, 'e, 'a) request \<Rightarrow> 's \<Rightarrow> ('e query_error + 'a) option \<times> 's" where
  "serve en (Direct s) st = run en s st"
| "serve en (InTransaction s) st = run_transaction en s st"

lemma run_transaction_atomic:
  "real_transactions en \<Longrightarrow> run_transaction en s st = (r, st') \<Longrightarrow>
     (\<exists>a. r = Some (Inr a)) \<or> st' = st"
  by (auto simp: run_transaction_def split: prod.splits option.splits sum.splits)

subsection \<open>The statements of a session\<close>

text \<open>Every statement the session can issue, whatever the engine answers.\<close>

primrec statements :: "('j, 'r, 'e, 'a) session \<Rightarrow> (string \<times> 'j filter_value list) set" where
  "statements (Return x) = {}"
| "statements (ExecuteRaw s ps k) = insert (s, ps) (\<Union>n. statements (k n))"
| "statements (ExecuteInsert s ps k) = insert (s, ps) (\<Union>r. statements (k r))"
| "statements (ExecuteUpdate s ps k) = insert (s, ps) (\<Union>r. statements (k r))"
| "statements (QueryOne s ps k) = insert (s, ps) (\<Union>r. statements (k r))"
| "statements (QueryMany s ps k) = insert (s, ps) (\<Union>rs. statements (k rs))"
| "statements (QueryOptional s ps k) = insert (s, ps) (\<Union>x. statements (k x))"
| "statements (ExecuteDelete s ps k) = insert (s, ps) (\<Union>n. statements (k n))"
| "statements (CountRows s ps k) = insert (s, ps) (\<Union>n. statements (k n))"
| "statements (AggregateQuery s ps k) = insert (s, ps) (\<Union>rs. statements (k rs))"
| "statements (RefreshView v c k) = statements k"
| "statements Panic = {}"

primrec panics :: "('j, 'r, 'e, 'a) session \<Rightarrow> bool" where
  "panics (Return x) \<longleftrightarrow> False"
| "panics (ExecuteRaw s ps k) \<longleftrightarrow> (\<exists>n. panics (k n))"
| "panics (ExecuteInsert s ps k) \<longleftrightarrow> (\<exists>r. panics (k r))"
| "panics (ExecuteUpdate s ps k) \<longleftrightarrow> (\<exists>r. panics (k r))"
| "panics (QueryOne s ps k) \<longleftrightarrow> (\<exists>r. panics (k r))"
| "panics (QueryMany s ps k) \<longleftrightarrow> (\<exists>rs. panics (k rs))"
| "panics (QueryOptional s ps k) \<longleftrightarrow> (\<exists>x. panics (k x))"
| "panics (ExecuteDelete s ps k) \<longleftrightarrow> (\<exists>n. panics (k n))"
| "panics (CountRows s ps k) \<longleftrightarrow> (\<exists>n. panics (k n))"
| "panics (AggregateQuery s ps k) \<longleftrightarrow> (\<exists>rs. panics (k rs))"
| "panics (RefreshView v c k) \<longleftrightarrow> panics k"
| "panics Panic \<longleftrightarrow> True"

lemma statements_and_next:
  "p \<in> statements (and_next s f) \<Longrightarrow> p \<in> statements s \<or> (\<exists>a. p \<in> statements (f a))"
  by (induction s) (auto split: sum.splits)

lemma panics_and_next: "panics (and_next s f) \<Longrightarrow> panics s \<or> (\<exists>a. panics (f a))"
  by (induction s) (auto split: sum.splits)

lemma run_no_panic: "\<not> panics s \<Longrightarrow> fst (run en s st) \<noteq> None"
  by (induction s arbitrary: st) (auto split: sum.splits prod.splits)

end
