(* ===== verification/Upsert_Operation.thy ===== *)
theory Upsert_Operation
  imports Engine_Session
begin

text \<open>
  \<^verbatim>\<open>prax-query/src/operations/upsert.rs\<close>: the state of \<open>UpsertOperation\<close>, its single statement, and
  the guard that its execution runs first.  The parts of the two-statement form that build text
  are here, too; the nested writes they go with are in the theory on nested writes.
\<close>

record 'j upsert_op =
  us_filter :: "'j filter"
  us_create_columns :: "string list"
  us_create_values :: "'j filter_value list"
  us_update_columns :: "string list"
  us_update_values :: "'j filter_value list"
  us_update_ops :: "(string \<times> 'j write_op) list"
  us_conflict_columns :: "string list"
  us_select :: select

definition us_new :: "'j upsert_op" where
  "us_new = \<lparr>us_filter = FNone, us_create_columns = [], us_create_values = [], us_update_columns = [],
     us_update_values = [], us_update_ops = [], us_conflict_columns = [], us_select = SelAll\<rparr>"
definition us_where :: "('j, 'x) upsert_op_scheme \<Rightarrow> 'j filter \<Rightarrow> ('j, 'x) upsert_op_scheme" where
  "us_where op f = op\<lparr>us_filter := f\<rparr>"
definition us_on_conflict :: "('j, 'x) upsert_op_scheme \<Rightarrow> string list \<Rightarrow> ('j, 'x) upsert_op_scheme" where
  "us_on_conflict op cs = op\<lparr>us_conflict_columns := cs\<rparr>"
definition us_create_set :: "('j, 'x) upsert_op_scheme \<Rightarrow> string \<Rightarrow> 'j filter_value \<Rightarrow> ('j, 'x) upsert_op_scheme" where
  "us_create_set op c v =
     op\<lparr>us_create_columns := us_create_columns op @ [c], us_create_values := us_create_values op @ [v]\<rparr>"
definition us_create :: "('j, 'x) upsert_op_scheme \<Rightarrow> (string \<times> 'j filter_value) list \<Rightarrow> ('j, 'x) upsert_op_scheme" where
  "us_create op vs = foldl (\<lambda>o' (c, v). us_create_set o' c v) op vs"
definition us_update_set :: "('j, 'x) upsert_op_scheme \<Rightarrow> string \<Rightarrow> 'j filter_value \<Rightarrow> ('j, 'x) upsert_op_scheme" where
  "us_update_set op c v =
     op\<lparr>us_update_columns := us_update_columns op @ [c], us_update_values := us_update_values op @ [v]\<rparr>"
definition us_update :: "('j, 'x) upsert_op_scheme \<Rightarrow> (string \<times> 'j filter_value) list \<Rightarrow> ('j, 'x) upsert_op_scheme" where
  "us_update op vs = foldl (\<lambda>o' (c, v). us_update_set o' c v) op vs"
definition us_sel :: "('j, 'x) upsert_op_scheme \<Rightarrow> select \<Rightarrow> ('j, 'x) upsert_op_scheme" where
  "us_sel op s = op\<lparr>us_select := s\<rparr>"

text \<open>The typed inputs, given as what they are lowered to.\<close>

definition us_with_create_input :: "('j, 'x) upsert_op_scheme \<Rightarrow> (string \<times> 'j filter_value) list \<Rightarrow> ('j, 'x) upsert_op_scheme" where
  "us_with_create_input op input = us_create op input"
definition us_with_update_input :: "('j, 'x) upsert_op_scheme \<Rightarrow> (string \<times> 'j write_op) list \<Rightarrow> ('j, 'x) upsert_op_scheme" where
  "us_with_update_input op input = op\<lparr>us_update_ops := us_update_ops op @ input\<rparr>"

subsection \<open>The conflict target\<close>

definition equals_column :: "'j filter \<Rightarrow> string option" where
  "equals_column f = (case f of FEquals name _ \<Rightarrow> Some name | _ \<Rightarrow> None)"

definition conflict_cols_from_filter :: "'j filter \<Rightarrow> string list option" where
  "conflict_cols_from_filter f = (case f of
     FEquals name _ \<Rightarrow> Some [name]
   | FAnd parts \<Rightarrow> (case those (map equals_column parts) of
       Some cols \<Rightarrow> if cols = [] then None else Some cols | None \<Rightarrow> None)
   | _ \<Rightarrow> None)"

definition us_conflict_cols :: "('j, 'x) upsert_op_scheme \<Rightarrow> string list" where
  "us_conflict_cols op =
     (if us_conflict_columns op \<noteq> [] then us_conflict_columns op
      else case conflict_cols_from_filter (us_filter op) of Some cols \<Rightarrow> cols | None \<Rightarrow> [])"

text \<open>The em dash of the error texts.\<close>

abbreviation (input) DASH :: string where "DASH \<equiv> '' '' @ [CHR 0xE2, CHR 0x80, CHR 0x94] @ '' ''"

definition where_error :: "'e query_error" where
  "where_error = with_help (''use '' @ bt ''.on_conflict([...])'' @ '' to name the conflict column(s) explicitly, ''
      @ ''or simplify the filter to '' @ bt ''col = value'' @ '' (an AND of equalities for composite keys)'')
    (invalid_input ''where'' (''upsert '' @ bt ''where'' @ '' filter must be an equality on the conflict column(s) ''
      @ ''to serve as the ON CONFLICT target on the single-statement path''))"

definition target_error :: "'e query_error" where
  "target_error = with_help (''add '' @ bt (''.on_conflict(['' @ dq ''<unique-column>'' @ ''])'') @ '' (or a '' @ bt ''where''
      @ '' equality on the unique column)'' @ DASH @ ''Postgres rejects '' @ bt ''ON CONFLICT () DO UPDATE'')
    (invalid_input ''on_conflict'' (''upsert with an update branch requires '' @ bt ''.on_conflict(...)'' @ '' or a ''
      @ bt ''where'' @ '' filter to name the conflict target''))"

definition validate_fast_path :: "('j, 'x) upsert_op_scheme \<Rightarrow> 'e query_error option" where
  "validate_fast_path op =
     (if us_conflict_columns op = [] then
        if \<not> is_none (us_filter op) \<and> conflict_cols_from_filter (us_filter op) = None
        then Some where_error
        else if (us_update_ops op \<noteq> [] \<or> us_update_columns op \<noteq> []) \<and> is_none (us_filter op)
        then Some target_error
        else None
      else None)"

subsection \<open>The statement\<close>

text \<open>The assignments: the typed operations, or else the columns with their values.\<close>

definition us_assignments :: "('j, 'x) upsert_op_scheme \<Rightarrow> (string \<times> 'j write_op) list" where
  "us_assignments op =
     (if us_update_ops op \<noteq> [] then us_update_ops op
      else map (\<lambda>(c, v). (c, WSet v)) (zip (us_update_columns op) (us_update_values op)))"

definition us_conflict_suffix :: "dialect \<Rightarrow> string list \<Rightarrow> string \<Rightarrow> string \<Rightarrow> bool \<Rightarrow> string option" where
  "us_conflict_suffix d conflict_cols update_set targetless insert_ignore =
     (if update_set = [] then
        if conflict_cols = [] then
          Some (if insert_ignore then [] else if targetless = [] then [] else '' ON CONFLICT DO NOTHING'')
        else upsert_do_nothing_clause d conflict_cols
      else upsert_clause d conflict_cols update_set)"

definition us_build_sql :: "('j, 'x) upsert_op_scheme \<Rightarrow> string \<Rightarrow> dialect \<Rightarrow> (string \<times> 'j filter_value list) option" where
  "us_build_sql op table d =
     do {
       let conflict_cols = us_conflict_cols op;
       targetless \<leftarrow> upsert_do_nothing_clause d [];
       let insert_ignore = (us_update_ops op = [] \<and> us_update_columns op = [] \<and> conflict_cols = []
         \<and> prefix '' ON DUPLICATE KEY'' targetless);
       let n = length (us_create_values op);
       placeholders \<leftarrow> those (map (placeholder d) [1..<n + 1]);
       (parts, _, params) \<leftarrow> set_parts d (us_assignments op) (n + 1) (us_create_values op);
       suffix \<leftarrow> us_conflict_suffix d conflict_cols (join '', '' parts) targetless insert_ignore;
       ret \<leftarrow> returning_clause d (sel_to_sql (us_select op));
       Some ((if insert_ignore then ''INSERT IGNORE INTO '' else ''INSERT INTO '') @ table
         @ '' ('' @ join '', '' (us_create_columns op) @ '')'' @ '' VALUES ('' @ join '', '' placeholders @ '')''
         @ suffix @ ret, params)
     }"

subsection \<open>The two statements\<close>

text \<open>
  \<^verbatim>\<open>build_update_sql\<close> is \<open>update_sql\<close> on the assignments, \<^verbatim>\<open>build_insert_sql\<close> the function
  of the same name of \<open>CreateOperation\<close>.
\<close>

definition us_update_sql :: "('j, 'x) upsert_op_scheme \<Rightarrow> string \<Rightarrow> dialect \<Rightarrow> (string \<times> 'j filter_value list) option" where
  "us_update_sql op table d = update_sql (us_filter op) (us_assignments op) table d"

definition us_insert_sql :: "('j, 'x) upsert_op_scheme \<Rightarrow> string \<Rightarrow> dialect \<Rightarrow> (string \<times> 'j filter_value list) option" where
  "us_insert_sql op table d = build_insert_sql (us_create_columns op) (us_create_values op) (us_select op) table d"

definition build_select_by_pk_sql ::
  "'j filter_value \<Rightarrow> select \<Rightarrow> string \<Rightarrow> string \<Rightarrow> dialect \<Rightarrow> (string \<times> 'j filter_value list) option" where
  "build_select_by_pk_sql pk sel table pk_col d =
     do {
       let cols = sel_to_sql sel;
       q \<leftarrow> quote_ident d pk_col;
       p \<leftarrow> placeholder d 1;
       Some (''SELECT '' @ (if cols = [] \<or> cols = ''*'' then ''*'' else cols) @ '' FROM '' @ table
         @ '' WHERE '' @ q @ '' = '' @ p, [pk])
     }"

end
