(* ===== verification/Nested_Writes.thy ===== *)
theory Nested_Writes
  imports Upsert_Operation
begin

text \<open>
  Nested writes (\<^verbatim>\<open>prax-query/src/nested.rs\<close>, the type \<open>NestedWriteOp\<close> and its \<open>execute\<close>) and
  the write operations that carry them (the \<open>exec\<close> methods of \<^verbatim>\<open>operations/create.rs\<close>,
  \<^verbatim>\<open>update.rs\<close>, \<^verbatim>\<open>upsert.rs\<close> and \<^verbatim>\<open>delete.rs\<close>), as sessions with an engine.
\<close>

datatype 'j nested_write_op =
    NwCreate (nw_relation: string) (nw_table: string) (nw_foreign_key: string)
      "(string \<times> 'j filter_value) list list"
  | NwConnect (nw_relation: string) (nw_table: string) (nw_foreign_key: string)
      string "'j filter_value"
  | NwDisconnect (nw_relation: string) (nw_table: string) (nw_foreign_key: string)
      string "'j filter_value"
  | NwDelete (nw_relation: string) (nw_table: string) string "'j filter_value"
  | NwDeleteMany (nw_relation: string) (nw_table: string) (nw_foreign_key: string) "'j filter"
  | NwUpdate (nw_relation: string) (nw_table: string) string "'j filter_value"
      "(string \<times> 'j write_op) list"
  | NwUpdateMany (nw_relation: string) (nw_table: string) (nw_foreign_key: string) "'j filter"
      "(string \<times> 'j write_op) list"
  | NwUpsert (nw_relation: string) (nw_table: string) (nw_foreign_key: string) string
      "'j filter_value" "(string \<times> 'j filter_value) list" "(string \<times> 'j write_op) list"
  | NwConnectOrCreate (nw_relation: string) (nw_table: string) (nw_foreign_key: string) "'j filter"
      "(string \<times> 'j filter_value) list"
  | NwSet (nw_relation: string) (nw_table: string) (nw_foreign_key: string) string
      "'j filter_value list"

subsection \<open>The statements\<close>

text \<open>\<^verbatim>\<open>build_writeop_set_clause\<close>: the running slot starts at \<open>next_ph\<close>.\<close>

fun writeop_fragments ::
  "dialect \<Rightarrow> (string \<times> 'j write_op) list \<Rightarrow> nat \<Rightarrow> (string list \<times> 'j filter_value list) option" where
  "writeop_fragments d [] next_ph = Some ([], [])"
| "writeop_fragments d ((col, op) # payload) next_ph =
     do {
       q \<leftarrow> quote_ident d col;
       p \<leftarrow> placeholder d next_ph;
       let (frag, v) = to_set_fragment op q p;
       (frags, params) \<leftarrow> writeop_fragments d payload (case v of Some _ \<Rightarrow> next_ph + 1 | None \<Rightarrow> next_ph);
       Some (frag # frags, (case v of Some x \<Rightarrow> [x] | None \<Rightarrow> []) @ params)
     }"

definition build_writeop_set_clause ::
  "dialect \<Rightarrow> (string \<times> 'j write_op) list \<Rightarrow> nat \<Rightarrow> (string \<times> 'j filter_value list) option" where
  "build_writeop_set_clause d payload start_ph =
     do { (frags, params) \<leftarrow> writeop_fragments d payload start_ph; Some (join '', '' frags, params) }"

text \<open>\<^verbatim>\<open>UPDATE table SET assignment WHERE column\<close>, the beginning all updates of one column share.\<close>

definition connect_sql :: "dialect \<Rightarrow> string \<Rightarrow> string \<Rightarrow> string \<Rightarrow> string option" where
  "connect_sql d table fk pk_col =
     do {
       t \<leftarrow> quote_ident d table; f \<leftarrow> quote_ident d fk; p1 \<leftarrow> placeholder d 1;
       k \<leftarrow> quote_ident d pk_col; p2 \<leftarrow> placeholder d 2;
       Some (''UPDATE '' @ t @ '' SET '' @ f @ '' = '' @ p1 @ '' WHERE '' @ k @ '' = '' @ p2)
     }"

definition disconnect_sql :: "dialect \<Rightarrow> string \<Rightarrow> string \<Rightarrow> string \<Rightarrow> string option" where
  "disconnect_sql d table fk pk_col =
     do {
       t \<leftarrow> quote_ident d table; f \<leftarrow> quote_ident d fk; k \<leftarrow> quote_ident d pk_col; p1 \<leftarrow> placeholder d 1;
       Some (''UPDATE '' @ t @ '' SET '' @ f @ '' = NULL WHERE '' @ k @ '' = '' @ p1)
     }"

definition delete_by_pk_sql :: "dialect \<Rightarrow> string \<Rightarrow> string \<Rightarrow> string option" where
  "delete_by_pk_sql d table pk_col =
     do {
       t \<leftarrow> quote_ident d table; k \<leftarrow> quote_ident d pk_col; p1 \<leftarrow> placeholder d 1;
       Some (''DELETE FROM '' @ t @ '' WHERE '' @ k @ '' = '' @ p1)
     }"

definition delete_many_sql ::
  "dialect \<Rightarrow> string \<Rightarrow> string \<Rightarrow> 'j filter \<Rightarrow> 'j filter_value \<Rightarrow> (string \<times> 'j filter_value list) option" where
  "delete_many_sql d table fk f parent =
     do {
       t \<leftarrow> quote_ident d table; q \<leftarrow> quote_ident d fk; p1 \<leftarrow> placeholder d 1;
       let scoped = ''DELETE FROM '' @ t @ '' WHERE '' @ q @ '' = '' @ p1;
       if is_none f then Some (scoped, [parent])
       else do {
         (filter_sql, tail) \<leftarrow> to_sql f 1 d;
         Some (scoped @ '' AND ('' @ filter_sql @ '')'', parent # tail)
       }
     }"

definition update_by_pk_sql ::
  "dialect \<Rightarrow> string \<Rightarrow> string \<Rightarrow> 'j filter_value \<Rightarrow> (string \<times> 'j write_op) list \<Rightarrow> (string \<times> 'j filter_value list) option" where
  "update_by_pk_sql d table pk_col pk payload =
     do {
       (set_text, params) \<leftarrow> build_writeop_set_clause d payload 1;
       t \<leftarrow> quote_ident d table; k \<leftarrow> quote_ident d pk_col; p \<leftarrow> placeholder d (length params + 1);
       Some (''UPDATE '' @ t @ '' SET '' @ set_text @ '' WHERE '' @ k @ '' = '' @ p, params @ [pk])
     }"

definition update_many_sql ::
  "dialect \<Rightarrow> string \<Rightarrow> string \<Rightarrow> 'j filter \<Rightarrow> (string \<times> 'j write_op) list \<Rightarrow> 'j filter_value
     \<Rightarrow> (string \<times> 'j filter_value list) option" where
  "update_many_sql d table fk f payload parent =
     do {
       (set_text, params) \<leftarrow> build_writeop_set_clause d payload 1;
       let idx = length params + 1;
       p \<leftarrow> placeholder d idx; t \<leftarrow> quote_ident d table; q \<leftarrow> quote_ident d fk;
       let scoped = ''UPDATE '' @ t @ '' SET '' @ set_text @ '' WHERE '' @ q @ '' = '' @ p;
       if is_none f then Some (scoped, params @ [parent])
       else do {
         (filter_sql, tail) \<leftarrow> to_sql f idx d;
         Some (scoped @ '' AND ('' @ filter_sql @ '')'', params @ [parent] @ tail)
       }
     }"

text \<open>The insertion of one child: its columns and the foreign key, with the parent's key as the last value.\<close>

definition insert_child_sql ::
  "dialect \<Rightarrow> string \<Rightarrow> string \<Rightarrow> (string \<times> 'j filter_value) list \<Rightarrow> 'j filter_value \<Rightarrow> (string \<times> 'j filter_value list) option" where
  "insert_child_sql d table fk payload parent =
     do {
       let vals = map snd payload @ [parent];
       placeholders \<leftarrow> those (map (placeholder d) [1..<length vals + 1]);
       cols \<leftarrow> those (map (quote_ident d) (map fst payload @ [fk]));
       t \<leftarrow> quote_ident d table;
       Some (''INSERT INTO '' @ t @ '' ('' @ join '', '' cols @ '') VALUES ('' @ join '', '' placeholders @ '')'', vals)
     }"

definition insert_children_sql ::
  "dialect \<Rightarrow> string \<Rightarrow> string \<Rightarrow> (string \<times> 'j filter_value) list list \<Rightarrow> 'j filter_value \<Rightarrow> (string \<times> 'j filter_value list) option" where
  "insert_children_sql d table fk payload parent =
     do {
       cols \<leftarrow> those (map (quote_ident d) (map fst (hd payload) @ [fk]));
       (groups, vals) \<leftarrow> value_groups d (map (\<lambda>child. map snd child @ [parent]) payload) 1 [];
       t \<leftarrow> quote_ident d table;
       Some (''INSERT INTO '' @ t @ '' ('' @ join '', '' cols @ '') VALUES '' @ join '', '' groups, vals)
     }"

definition connect_where_sql ::
  "dialect \<Rightarrow> string \<Rightarrow> string \<Rightarrow> 'j filter \<Rightarrow> 'j filter_value \<Rightarrow> (string \<times> 'j filter_value list) option" where
  "connect_where_sql d table fk f parent =
     do {
       (filter_sql, tail) \<leftarrow> to_sql f 1 d;
       t \<leftarrow> quote_ident d table; q \<leftarrow> quote_ident d fk; p1 \<leftarrow> placeholder d 1;
       Some (''UPDATE '' @ t @ '' SET '' @ q @ '' = '' @ p1 @ '' WHERE '' @ filter_sql, parent # tail)
     }"

definition clear_children_sql :: "dialect \<Rightarrow> string \<Rightarrow> string \<Rightarrow> string option" where
  "clear_children_sql d table fk =
     do {
       t \<leftarrow> quote_ident d table; q \<leftarrow> quote_ident d fk; p1 \<leftarrow> placeholder d 1;
       Some (''UPDATE '' @ t @ '' SET '' @ q @ '' = NULL WHERE '' @ q @ '' = '' @ p1)
     }"

text \<open>The slots 2 to \<open>n + 1\<close> of the keys in an \<^verbatim>\<open>IN\<close> list of \<open>n\<close>.\<close>

definition key_slots :: "dialect \<Rightarrow> nat \<Rightarrow> string option" where
  "key_slots d n = map_option (join '', '') (those (map (placeholder d) [2..<n + 2]))"

definition release_others_sql :: "dialect \<Rightarrow> string \<Rightarrow> string \<Rightarrow> string \<Rightarrow> nat \<Rightarrow> string option" where
  "release_others_sql d table fk pk_col n =
     do {
       t \<leftarrow> quote_ident d table; q \<leftarrow> quote_ident d fk; p1 \<leftarrow> placeholder d 1; k \<leftarrow> quote_ident d pk_col;
       slots \<leftarrow> key_slots d n;
       Some (''UPDATE '' @ t @ '' SET '' @ q @ '' = NULL WHERE '' @ q @ '' = '' @ p1 @ '' AND '' @ k
         @ '' NOT IN ('' @ slots @ '')'')
     }"

definition connect_batch_sql :: "dialect \<Rightarrow> string \<Rightarrow> string \<Rightarrow> string \<Rightarrow> nat \<Rightarrow> string option" where
  "connect_batch_sql d table fk pk_col n =
     do {
       t \<leftarrow> quote_ident d table; q \<leftarrow> quote_ident d fk; p1 \<leftarrow> placeholder d 1; k \<leftarrow> quote_ident d pk_col;
       slots \<leftarrow> key_slots d n;
       Some (''UPDATE '' @ t @ '' SET '' @ q @ '' = '' @ p1 @ '' WHERE '' @ k @ '' IN ('' @ slots @ '')'')
     }"

subsection \<open>\<^verbatim>\<open>NestedWriteOp::execute\<close>\<close>

text \<open>A call whose answer is not looked at, and one that has to change exactly one row.\<close>

abbreviation execute_and_done ::
  "string \<Rightarrow> 'j filter_value list \<Rightarrow> ('j, 'r, 'e, unit) session" where
  "execute_and_done sql params \<equiv> ExecuteRaw sql params (\<lambda>_. ok ())"

definition execute_one_row :: "string \<Rightarrow> string \<Rightarrow> string \<Rightarrow> 'j filter_value list \<Rightarrow> ('j, 'r, 'e, unit) session" where
  "execute_one_row table what sql params =
     ExecuteRaw sql params (\<lambda>affected.
       if affected \<noteq> 1 then fail (with_context what (not_found table)) else ok ())"

definition with_params :: "string option \<Rightarrow> 'p \<Rightarrow> (string \<times> 'p) option" where
  "with_params sql params = map_option (\<lambda>s. (s, params)) sql"

definition upsert_unsupported :: "'e query_error" where
  "upsert_unsupported = unsupported (''Nested Upsert is not supported by the ''
     @ bt ''dyn prax_query::dialect::SqlDialect'' @ '' engine'')"

definition no_create_columns :: "'e query_error" where
  "no_create_columns = invalid_input ''create_payload''
     ''Nested Upsert requires at least one create column when no row to update''"

text \<open>The upsert of a child, in one statement where the dialect has a clause for it.\<close>

definition upsert_child ::
  "dialect \<Rightarrow> string \<Rightarrow> string \<Rightarrow> string \<Rightarrow> 'j filter_value \<Rightarrow> (string \<times> 'j filter_value) list
     \<Rightarrow> (string \<times> 'j write_op) list \<Rightarrow> 'j filter_value \<Rightarrow> ('j, 'r, 'e, unit) session" where
  "upsert_child d table fk pk_col pk create_payload update_payload parent =
     (if \<not> supports_upsert d then fail upsert_unsupported
      else if update_payload = [] \<and> create_payload = [] then ok ()
      else if create_payload = [] then fail no_create_columns
      else with_statement (do {
          (set_text, set_params) \<leftarrow> build_writeop_set_clause d update_payload (length create_payload + 2);
          clause \<leftarrow> upsert_clause d [pk_col] set_text;
          do_nothing \<leftarrow> upsert_do_nothing_clause d [pk_col];
          Some (clause, do_nothing, set_params)
        }) (\<lambda>clause (do_nothing, set_params).
          if clause \<noteq> [] then
            if update_payload = [] \<and> do_nothing = [] then ok ()
            else with_statement (insert_child_sql d table fk create_payload parent) (\<lambda>sql vals.
              if update_payload = [] then execute_and_done (sql @ do_nothing) vals
              else execute_and_done (sql @ clause) (vals @ set_params))
          else if update_payload = [] then
            with_statement (insert_child_sql d table fk create_payload parent) execute_and_done
          else with_statement (update_by_pk_sql d table pk_col pk update_payload) (\<lambda>sql params.
            ExecuteRaw sql params (\<lambda>affected.
              if affected > 0 then ok ()
              else with_statement (insert_child_sql d table fk create_payload parent) execute_and_done))))"

definition connect_or_create ::
  "dialect \<Rightarrow> string \<Rightarrow> string \<Rightarrow> 'j filter \<Rightarrow> (string \<times> 'j filter_value) list \<Rightarrow> 'j filter_value
     \<Rightarrow> ('j, 'r, 'e, unit) session" where
  "connect_or_create d table fk f create_payload parent =
     (if is_none f then fail (with_context (''Nested ConnectOrCreate: empty '' @ bt ''where''
         @ '' block would match every row; supply a unique filter'') (not_found table))
      else with_statement (connect_where_sql d table fk f parent) (\<lambda>sql params.
        ExecuteRaw sql params (\<lambda>affected.
          if affected > 0 then ok ()
          else if create_payload = []
          then fail (with_context ''Nested ConnectOrCreate: no match and create payload empty'' (not_found table))
          else with_statement (insert_child_sql d table fk create_payload parent) execute_and_done)))"

definition set_children ::
  "dialect \<Rightarrow> string \<Rightarrow> string \<Rightarrow> string \<Rightarrow> 'j filter_value list \<Rightarrow> 'j filter_value
     \<Rightarrow> ('j, 'r, 'e, unit) session" where
  "set_children d table fk pk_col set_pks parent =
     (if set_pks = [] then
        with_statement (with_params (clear_children_sql d table fk) [parent]) execute_and_done
      else
        with_statement (with_params (release_others_sql d table fk pk_col (length set_pks)) (parent # set_pks))
          (\<lambda>sql params. ExecuteRaw sql params (\<lambda>_.
            with_statement (with_params (connect_batch_sql d table fk pk_col (length set_pks)) (parent # set_pks))
              execute_and_done)))"

fun nested_execute ::
  "dialect \<Rightarrow> 'j nested_write_op \<Rightarrow> 'j filter_value \<Rightarrow> ('j, 'r, 'e, unit) session" where
  "nested_execute d (NwConnect _ table fk pk_col pk) parent =
     with_statement (with_params (connect_sql d table fk pk_col) [parent, pk]) execute_and_done"
| "nested_execute d (NwDisconnect _ table fk pk_col pk) parent =
     with_statement (with_params (disconnect_sql d table fk pk_col) [pk]) execute_and_done"
| "nested_execute d (NwDelete _ table pk_col pk) parent =
     with_statement (with_params (delete_by_pk_sql d table pk_col) [pk]) (execute_one_row table ''Nested Delete by PK'')"
| "nested_execute d (NwDeleteMany _ table fk f) parent =
     with_statement (delete_many_sql d table fk f parent) execute_and_done"
| "nested_execute d (NwUpdate _ table pk_col pk payload) parent =
     (if payload = [] then ok ()
      else with_statement (update_by_pk_sql d table pk_col pk payload) (execute_one_row table ''Nested Update by PK''))"
| "nested_execute d (NwUpdateMany _ table fk f payload) parent =
     (if payload = [] then ok ()
      else with_statement (update_many_sql d table fk f payload parent) execute_and_done)"
| "nested_execute d (NwUpsert _ table fk pk_col pk create_payload update_payload) parent =
     upsert_child d table fk pk_col pk create_payload update_payload parent"
| "nested_execute d (NwConnectOrCreate _ table fk f create_payload) parent =
     connect_or_create d table fk f create_payload parent"
| "nested_execute d (NwCreate _ table fk payload) parent =
     (if payload = [] then ok ()
      else with_statement (insert_children_sql d table fk payload parent) execute_and_done)"
| "nested_execute d (NwSet _ table fk pk_col set_pks) parent =
     set_children d table fk pk_col set_pks parent"

subsection \<open>Running the nested writes of an operation\<close>

text \<open>
  \<^verbatim>\<open>run_nested_ops\<close>, which the operations repeat: consecutive connects with the same target are
  one statement, which has to change as many rows as it has keys.
\<close>

definition connect_target :: "'j nested_write_op \<Rightarrow> (string \<times> string \<times> string) option" where
  "connect_target op = (case op of NwConnect _ table fk pk_col _ \<Rightarrow> Some (table, fk, pk_col) | _ \<Rightarrow> None)"

definition connect_key :: "'j nested_write_op \<Rightarrow> 'j filter_value list" where
  "connect_key op = (case op of NwConnect _ _ _ _ pk \<Rightarrow> [pk] | _ \<Rightarrow> [])"

definition batch_error :: "string \<Rightarrow> nat \<Rightarrow> nat \<Rightarrow> 'e query_error" where
  "batch_error table expected affected =
     with_help (''Expected '' @ show_nat expected @ '' matching rows but UPDATE affected '' @ show_nat affected)
       (with_context ''Nested Connect batch'' (not_found table))"

definition connect_batch ::
  "dialect \<Rightarrow> string \<Rightarrow> string \<Rightarrow> string \<Rightarrow> 'j nested_write_op list \<Rightarrow> 'j filter_value \<Rightarrow> ('j, 'r, 'e, unit) session" where
  "connect_batch d table fk pk_col ops parent =
     (let pks = parent # concat (map connect_key ops)
      in with_statement (with_params (connect_batch_sql d table fk pk_col (length pks - 1)) pks) (\<lambda>sql params.
           ExecuteRaw sql params (\<lambda>affected.
             if affected \<noteq> length ops then fail (batch_error table (length ops) affected) else ok ())))"

lemma length_dropWhile_less [termination_simp]: "length (dropWhile P xs) < Suc (length xs)"
  by (simp add: length_dropWhile_le le_imp_less_Suc)

fun run_nested_ops ::
  "dialect \<Rightarrow> 'j nested_write_op list \<Rightarrow> 'j filter_value \<Rightarrow> ('j, 'r, 'e, unit) session" where
  "run_nested_ops d [] parent = ok ()"
| "run_nested_ops d (op # ops) parent =
     (case connect_target op of
        Some (table, fk, pk_col) \<Rightarrow>
          let same = (\<lambda>o'. connect_target o' = Some (table, fk, pk_col)); batch = takeWhile same ops
          in and_next
               (if batch = [] then nested_execute d op parent
                else connect_batch d table fk pk_col (op # batch) parent)
               (\<lambda>_. run_nested_ops d (dropWhile same ops) parent)
      | None \<Rightarrow> and_next (nested_execute d op parent) (\<lambda>_. run_nested_ops d ops parent))"

subsection \<open>The operations\<close>

text \<open>
  The nested writes an operation has queued are the argument \<open>nested\<close>, the name of the model's
  table and its first key column \<open>table\<close> and \<open>pk_col\<close>; \<open>pk_value\<close> is the model's method.
\<close>

definition empty_updates_error :: "string \<Rightarrow> 'e query_error" where
  "empty_updates_error table =
     with_help (''add a field update via '' @ bt ''.set(...)'' @ '', '' @ bt ''.set_many(...)'' @ '', '' @ bt ''.increment(...)''
         @ '', '' @ bt ''.set_op(...)'' @ '', or a typed '' @ bt ''UpdateInput'' @ '' before executing the update on ''
         @ bt table @ ''.'')
       (invalid_input ''updates'' (''update requires at least one SET value'' @ DASH @ ''an empty SET list would ''
         @ ''produce invalid SQL ('' @ bt ''UPDATE ... SET  WHERE ...'' @ '')''))"

text \<open>The error of \<^verbatim>\<open>update!\<close> and \<^verbatim>\<open>upsert!\<close> when the filter does not give the parent's key.\<close>

definition key_error :: "string \<Rightarrow> string \<Rightarrow> string \<Rightarrow> 'e query_error" where
  "key_error macro pk table =
     with_help (''expected '' @ bt (''where: { '' @ pk @ '': <value> }'') @ '' on '' @ bt table @ DASH @ ''non-PK unique ''
         @ ''columns are not yet supported for nested writes inside '' @ macro @ ''. ''
         @ ''Lift this restriction by running the nested ops in a separate operation after looking up the row''
         @ [SQUOTE] @ ''s PK.'')
       (invalid_input ''where'' (''nested writes inside '' @ bt macro @ '' require the '' @ bt ''where:''
         @ '' clause to equal-match the primary-key column''))"

definition cr_exec ::
  "('r \<Rightarrow> 'j filter_value) \<Rightarrow> dialect \<Rightarrow> string \<Rightarrow> 'j create_op \<Rightarrow> 'j nested_write_op list
     \<Rightarrow> ('j, 'r, 'e, 'r) request" where
  "cr_exec pk_value d table op nested =
     (if nested = [] then
        Direct (with_statement (cr_build_sql op table d) (\<lambda>sql params. ExecuteInsert sql params ok))
      else InTransaction (with_statement (cr_build_sql op table d) (\<lambda>sql params.
        ExecuteInsert sql params (\<lambda>parent.
          and_next (run_nested_ops d nested (pk_value parent)) (\<lambda>_. ok parent)))))"

definition cm_exec :: "dialect \<Rightarrow> string \<Rightarrow> 'j create_many \<Rightarrow> ('j, 'r, 'e, nat) request" where
  "cm_exec d table op = Direct (with_statement (cm_build_sql op table d) (\<lambda>sql params. ExecuteRaw sql params ok))"

definition up_exec ::
  "dialect \<Rightarrow> string \<Rightarrow> string \<Rightarrow> 'j update_op \<Rightarrow> 'j nested_write_op list \<Rightarrow> ('j, 'r, 'e, 'r list) request" where
  "up_exec d table pk_col op nested =
     (if up_updates op = [] then Direct (fail (empty_updates_error table))
      else if nested = [] then
        Direct (with_statement (up_build_sql op table d) (\<lambda>sql params. ExecuteUpdate sql params ok))
      else (case extract_pk_from_filter (up_filter op) pk_col of
          None \<Rightarrow> Direct (fail (key_error ''update!'' pk_col table))
        | Some parent_pk \<Rightarrow> InTransaction (with_statement (up_build_sql op table d) (\<lambda>sql params.
            ExecuteUpdate sql params (\<lambda>parent.
              and_next (run_nested_ops d nested parent_pk) (\<lambda>_. ok parent))))))"

text \<open>\<^verbatim>\<open>exec_one\<close> does not look at the nested writes.\<close>

definition up_exec_one ::
  "dialect \<Rightarrow> string \<Rightarrow> 'j update_op \<Rightarrow> 'j nested_write_op list \<Rightarrow> ('j, 'r, 'e, 'r) request" where
  "up_exec_one d table op nested =
     (if up_updates op = [] then Direct (fail (empty_updates_error table))
      else Direct (with_statement (up_build_sql op table d) (\<lambda>sql params. QueryOne sql params ok)))"

definition um_exec :: "dialect \<Rightarrow> string \<Rightarrow> 'j update_many \<Rightarrow> ('j, 'r, 'e, nat) request" where
  "um_exec d table op = Direct (with_statement (um_build_sql op table d) (\<lambda>sql params. ExecuteRaw sql params ok))"

definition dl_exec :: "dialect \<Rightarrow> string \<Rightarrow> 'j delete_op \<Rightarrow> ('j, 'r, 'e, 'r list) request" where
  "dl_exec d table op = Direct (with_statement (dl_build_sql op table d) (\<lambda>sql params. ExecuteUpdate sql params ok))"

definition us_exec ::
  "('r \<Rightarrow> 'j filter_value) \<Rightarrow> dialect \<Rightarrow> string \<Rightarrow> string \<Rightarrow> 'j upsert_op
     \<Rightarrow> 'j nested_write_op list \<Rightarrow> 'j nested_write_op list \<Rightarrow> ('j, 'r, 'e, 'r) request" where
  "us_exec pk_value d table pk_col op create_nested update_nested =
     (if create_nested = [] \<and> update_nested = [] then
        Direct (case validate_fast_path op of
            Some e \<Rightarrow> fail e
          | None \<Rightarrow> with_statement (us_build_sql op table d) (\<lambda>sql params. ExecuteInsert sql params ok))
      else (case extract_pk_from_filter (us_filter op) pk_col of
          None \<Rightarrow> Direct (fail (key_error ''upsert!'' pk_col table))
        | Some parent_pk \<Rightarrow> InTransaction (with_statement (us_update_sql op table d) (\<lambda>sql params.
            ExecuteRaw sql params (\<lambda>affected.
              if affected > 0 then
                with_statement (build_select_by_pk_sql parent_pk (us_select op) table pk_col d) (\<lambda>sql params.
                  QueryOne sql params (\<lambda>row.
                    and_next (run_nested_ops d update_nested parent_pk) (\<lambda>_. ok row)))
              else
                with_statement (us_insert_sql op table d) (\<lambda>sql params.
                  ExecuteInsert sql params (\<lambda>row.
                    and_next (run_nested_ops d create_nested (pk_value row)) (\<lambda>_. ok row))))))))"

end
