(* ===== verification/Nested_Statements.thy ===== *)
theory Nested_Statements
  imports Nested_Writes Write_Statements
begin

text \<open>
  The statements that nested writes and upserts issue: on every SQL dialect, and whatever the
  engine answers, their text is read back as the columns and markers it was made of, and the
  markers are numbered in the order of the parameters.
\<close>

subsection \<open>A statement as a list of parts\<close>

definition comma_separated :: "token list list \<Rightarrow> token list" where
  "comma_separated tss = sep_tokens (map TChar '', '') tss"

text \<open>The slots after the first.\<close>

definition later_slots :: "nat \<Rightarrow> nat list" where
  "later_slots n = [2..<n + 2]"

datatype part =
    Text string
  | Name string
  | Slot_Mark nat
  | Other string "token list"

context sql_statements
begin

fun spell_part :: "part \<Rightarrow> string" where
  "spell_part (Text t) = t"
| "spell_part (Name i) = quo i"
| "spell_part (Slot_Mark n) = ph n"
| "spell_part (Other s ts) = s"

fun part_tokens :: "part \<Rightarrow> token list" where
  "part_tokens (Text t) = map TChar t"
| "part_tokens (Name i) = [TIdent i]"
| "part_tokens (Slot_Mark n) = [TMark (nm n)]"
| "part_tokens (Other s ts) = ts"

definition spelling :: "part list \<Rightarrow> string" where
  "spelling ps = concat (map spell_part ps)"
definition tokens_of :: "part list \<Rightarrow> token list" where
  "tokens_of ps = concat (map part_tokens ps)"

text \<open>After a name, a marker or a part of its own comes the end or a text that closes it.\<close>

fun closed_by :: "part list \<Rightarrow> bool" where
  "closed_by [] \<longleftrightarrow> True"
| "closed_by (Text t # ps) \<longleftrightarrow> t \<noteq> [] \<and> ends_filter t"
| "closed_by (_ # ps) \<longleftrightarrow> False"

fun well_spelt :: "part list \<Rightarrow> bool" where
  "well_spelt [] \<longleftrightarrow> True"
| "well_spelt (Text t # ps) \<longleftrightarrow> set t \<subseteq> set stmt_chars \<and> well_spelt ps"
| "well_spelt (Name i # ps) \<longleftrightarrow> closed_by ps \<and> well_spelt ps"
| "well_spelt (Slot_Mark n # ps) \<longleftrightarrow> closed_by ps \<and> well_spelt ps"
| "well_spelt (Other s ts # ps) \<longleftrightarrow> lexes s ts \<and> closed_by ps \<and> well_spelt ps"

lemma lexes_raw: "raw_text lx t \<Longrightarrow> lexes s ts \<Longrightarrow> lexes (t @ s) (map TChar t @ ts)"
  by (auto simp: lexes_def raw_text_def lex_TChars)

lemma lexes_Nil [simp]: "lexes [] []"
  by (simp add: lexes_def)

lemma closed_by_ends: "closed_by ps \<Longrightarrow> ends_filter (spelling ps)"
  by (cases ps rule: closed_by.cases) (auto simp: spelling_def ends_filter_appendI)

lemma closed_by_Nil: "closed_by ps \<Longrightarrow> spelling ps = [] \<Longrightarrow> ps = []"
  by (cases ps rule: closed_by.cases) (auto simp: spelling_def)

lemma lexes_closed:
  assumes "lexes s ts" and "closed_by ps" and "lexes (spelling ps) (tokens_of ps)"
  shows "lexes (s @ spelling ps) (ts @ tokens_of ps)"
proof (cases "spelling ps = []")
  case True
  with closed_by_Nil [OF assms(2)] assms(1) show ?thesis by (simp add: tokens_of_def spelling_def)
next
  case False
  with assms closed_by_ends show ?thesis by (intro lexes_append) auto
qed

lemma spelling_lexes: "well_spelt ps \<Longrightarrow> lexes (spelling ps) (tokens_of ps)"
proof (induction ps rule: well_spelt.induct)
  case 1
  then show ?case by (simp add: spelling_def tokens_of_def)
next
  case (2 t ps)
  then show ?case using lexes_raw [OF raw_stmt] by (simp add: spelling_def tokens_of_def)
next
  case (3 i ps)
  then show ?case using lexes_closed [OF lexes_ident] by (simp add: spelling_def tokens_of_def)
next
  case (4 n ps)
  then show ?case using lexes_closed [OF lexes_mark] by (simp add: spelling_def tokens_of_def)
next
  case (5 s ts ps)
  then show ?case using lexes_closed [of s ts ps] by (simp add: spelling_def tokens_of_def)
qed

lemma lexes_whole: "lexes s ts \<Longrightarrow> lex_sql lx s = Some ts"
  using lexesD [of s ts "[]"] by simp

text \<open>A comma-separated list of names.\<close>

lemma lexes_comma: "list_all2 lexes ss tss \<Longrightarrow> lexes (join '', '' ss) (comma_separated tss)"
  unfolding comma_separated_def by (rule lexes_join) (auto simp: plain_chars_def)

lemma lexes_names: "lexes (join '', '' (map quo cs)) (comma_separated (map (\<lambda>c. [TIdent c]) cs))"
  by (intro lexes_comma) (auto simp: list_all2_conv_all_nth lexes_ident)

lemma lexes_slots: "lexes (join '', '' (map ph ns)) (comma_separated (map (\<lambda>n. [TMark (nm n)]) ns))"
  by (intro lexes_comma) (auto simp: list_all2_conv_all_nth lexes_mark)

lemma those_names: "those (map (quote_ident d) cs) = Some (map quo cs)"
  by (induction cs) (simp_all add: quote_ident)

lemma key_slots_Some: "key_slots d n = Some (join '', '' (map ph (later_slots n)))"
  by (simp only: key_slots_def those_placeholders later_slots_def option.map)

end

lemma comma_parts [simp]:
  "marks (comma_separated tss) = concat (map marks tss)"
  "idents (comma_separated tss) = concat (map idents tss)"
  "comma_separated [] = []"
  by (simp_all add: comma_separated_def sep_tokens_parts)

subsection \<open>Assignments\<close>

fun frag_tokens :: "string \<Rightarrow> nat option \<Rightarrow> 'j write_op \<Rightarrow> token list" where
  "frag_tokens c n (WSet v) = TIdent c # map TChar '' = '' @ [TMark n]"
| "frag_tokens c n (WIncrement v) = TIdent c # map TChar '' = '' @ TIdent c # map TChar '' + '' @ [TMark n]"
| "frag_tokens c n (WDecrement v) = TIdent c # map TChar '' = '' @ TIdent c # map TChar '' - '' @ [TMark n]"
| "frag_tokens c n (WMultiply v) = TIdent c # map TChar '' = '' @ TIdent c # map TChar '' * '' @ [TMark n]"
| "frag_tokens c n (WDivide v) = TIdent c # map TChar '' = '' @ TIdent c # map TChar '' / '' @ [TMark n]"
| "frag_tokens c n WUnset = TIdent c # map TChar '' = NULL''"

fun set_tokens :: "(nat \<Rightarrow> nat option) \<Rightarrow> (string \<times> 'j write_op) list \<Rightarrow> nat \<Rightarrow> token list list" where
  "set_tokens nm [] n = []"
| "set_tokens nm ((c, op) # us) n = frag_tokens c (nm n) op # set_tokens nm us (n + length (wop_values op))"

lemma frag_tokens_parts:
  "marks (frag_tokens c n op) = map (\<lambda>_. n) (wop_values op)" "set (idents (frag_tokens c n op)) = {c}"
  by (cases op; simp)+

lemma set_tokens_parts:
  "concat (map marks (set_tokens nm us n)) = map nm [n..<n + length (set_values us)]"
  "set (concat (map idents (set_tokens nm us n))) = fst ` set us"
proof -
  show "concat (map marks (set_tokens nm us n)) = map nm [n..<n + length (set_values us)]"
  proof (induction nm us n rule: set_tokens.induct)
    case (2 nm c op us n)
    have one: "map (\<lambda>_. nm n) (wop_values op) = map nm [n..<n + length (wop_values op)]" by (cases op) simp_all
    have "[n..<n + length (set_values ((c, op) # us))] = [n..<n + length (wop_values op)]
        @ [n + length (wop_values op)..<n + length (wop_values op) + length (set_values us)]"
      using upt_add_eq_append [of n "n + length (wop_values op)" "length (set_values us)"] by (simp add: add.assoc)
    with 2 show ?case by (simp add: frag_tokens_parts(1) one)
  qed simp
  show "set (concat (map idents (set_tokens nm us n))) = fst ` set us"
    by (induction nm us n rule: set_tokens.induct) (simp_all add: frag_tokens_parts(2))
qed

context sql_statements
begin

lemma fragment_lexes: "lexes (fst (to_set_fragment op (quo c) (ph n))) (frag_tokens c (nm n) op)"
proof -
  have *: "lexes (spelling [Name c, Text '' = '', Slot_Mark n]) (tokens_of [Name c, Text '' = '', Slot_Mark n])"
    and **: "oper \<in> {'' + '', '' - '', '' * '', '' / ''} \<Longrightarrow>
      lexes (spelling [Name c, Text '' = '', Name c, Text oper, Slot_Mark n])
       (tokens_of [Name c, Text '' = '', Name c, Text oper, Slot_Mark n])"
    and ***: "lexes (spelling [Name c, Text '' = NULL'']) (tokens_of [Name c, Text '' = NULL''])" for oper
    by (rule spelling_lexes, auto simp: stmt_chars_def)+
  show ?thesis using * *** ** [of "'' + ''"] ** [of "'' - ''"] ** [of "'' * ''"] ** [of "'' / ''"]
    by (cases op) (simp_all add: spelling_def tokens_of_def)
qed

lemma writeop_fragments_lexes:
  "\<exists>frags. writeop_fragments d us n = Some (frags, set_values us) \<and> list_all2 lexes frags (set_tokens nm us n)"
proof (induction us arbitrary: n)
  case (Cons u us)
  obtain c op where u: "u = (c, op)" by (cases u)
  obtain frags where "writeop_fragments d us (n + length (wop_values op)) = Some (frags, set_values us)"
    "list_all2 lexes frags (set_tokens nm us (n + length (wop_values op)))" using Cons by blast
  then show ?case using fragment_lexes [of op c n]
    by (cases op) (simp_all add: u quote_ident placeholder)
qed simp

lemma set_clause_lexes:
  obtains s where "build_writeop_set_clause d us n = Some (s, set_values us)"
    and "lexes s (comma_separated (set_tokens nm us n))" and "s = [] \<longleftrightarrow> us = []"
proof -
  obtain frags where f: "writeop_fragments d us n = Some (frags, set_values us)"
    "list_all2 lexes frags (set_tokens nm us n)" using writeop_fragments_lexes by blast
  have "join '', '' frags = [] \<longleftrightarrow> us = []"
  proof
    assume "join '', '' frags = []"
    with lexes_comma [OF f(2)] have "lexes [] (comma_separated (set_tokens nm us n))" by simp
    with lexes_whole have "comma_separated (set_tokens nm us n) = []"
      using lexes_whole [OF lexes_Nil] by (metis option.inject)
    then have "set_tokens nm us n = [] \<or> set_tokens nm us n = [[]]"
      by (cases "set_tokens nm us n") (auto simp: comma_separated_def split: if_splits)
    moreover have "frag_tokens c m op \<noteq> []" for c m and op :: "'a write_op" by (cases op) simp_all
    ultimately show "us = []" by (cases "(nm, us, n)" rule: set_tokens.cases) (auto split: if_splits)
  next
    assume "us = []"
    with f show "join '', '' frags = []" by simp
  qed
  with that [of "join '', '' frags"] f lexes_comma [OF f(2)] show thesis by (simp add: build_writeop_set_clause_def)
qed

end

subsection \<open>Statements and sessions that are read back\<close>

text \<open>
  The condition of a statement that is confined to the children of one parent: a filter is
  conjoined in parentheses.
\<close>

definition scoped_tokens :: "(nat \<Rightarrow> nat option) \<Rightarrow> string \<Rightarrow> nat \<Rightarrow> 'j filter \<Rightarrow> token list" where
  "scoped_tokens nm fk i f =
     map TChar '' WHERE '' @ TIdent fk # map TChar '' = '' @ TMark (nm i) #
       (if is_none f then [] else map TChar '' AND ('' @ filter_tokens nm f i @ map TChar '')'')"

context sql_statements
begin

definition stmt_ok :: "string set \<Rightarrow> string \<Rightarrow> 'j filter_value list \<Rightarrow> bool" where
  "stmt_ok names sql params \<longleftrightarrow>
     (\<exists>ts. lexes sql ts \<and> marks ts = map nm [1..<Suc (length params)] \<and> set (idents ts) \<subseteq> names)"

definition fine :: "string set \<Rightarrow> ('j, 'r, 'e, 'a) session \<Rightarrow> bool" where
  "fine names s \<longleftrightarrow> \<not> panics s \<and> (\<forall>(sql, params) \<in> statements s. stmt_ok names sql params)"

lemma fine_simps [simp]:
  "fine names (Return x)"
  "fine names (ExecuteRaw sql ps k) \<longleftrightarrow> stmt_ok names sql ps \<and> (\<forall>n. fine names (k n))"
  "fine names (ExecuteInsert sql ps k') \<longleftrightarrow> stmt_ok names sql ps \<and> (\<forall>r. fine names (k' r))"
  "fine names (QueryOne sql ps k') \<longleftrightarrow> stmt_ok names sql ps \<and> (\<forall>r. fine names (k' r))"
  "fine names (ExecuteUpdate sql ps k'') \<longleftrightarrow> stmt_ok names sql ps \<and> (\<forall>rs. fine names (k'' rs))"
  by (auto simp: fine_def)

lemma fine_and_next: "fine names s \<Longrightarrow> (\<And>a. fine names (f a)) \<Longrightarrow> fine names (and_next s f)"
  unfolding fine_def using panics_and_next statements_and_next by fast

lemma fine_mono: "fine names s \<Longrightarrow> names \<subseteq> names' \<Longrightarrow> fine names' s"
  unfolding fine_def stmt_ok_def by fast

lemma stmt_okI:
  assumes "well_spelt ps" and "sql = spelling ps"
    and "marks (tokens_of ps) = map nm [1..<Suc (length params)]" and "set (idents (tokens_of ps)) \<subseteq> names"
  shows "stmt_ok names sql params"
  using spelling_lexes [OF assms(1)] assms(2-4) by (auto simp: stmt_ok_def)

lemma stmt_ok_appendI:
  assumes "lexes s ts" and "lexes t us" and "ends_filter t" and "t = [] \<Longrightarrow> us = []"
    and "marks ts @ marks us = map nm [1..<Suc (length params)]" and "set (idents ts) \<union> set (idents us) \<subseteq> names"
  shows "stmt_ok names (s @ t) params"
proof -
  have "lexes (s @ t) (ts @ us)"
    using assms(1-4) lexes_append [of s ts t us] by (cases "t = []") auto
  with assms(5,6) show ?thesis unfolding stmt_ok_def by (intro exI [of _ "ts @ us"]) simp
qed

lemma filter_lexes:
  assumes "no_subquery f"
  obtains s where "to_sql f i d = Some (s, bound_values f)" and "lexes s (filter_tokens nm f i)"
  using to_sql_renders [OF assms, of "[]" i] by (auto simp: renders_def to_sql_def)

lemmas spelt = spelling_def tokens_of_def stmt_chars_def quote_ident placeholder with_params_def

lemma connect_ok:
  "\<exists>sql. connect_sql d t fk k = Some sql \<and> stmt_ok {t, fk, k} sql [p, v]"
  by (intro exI conjI, simp add: connect_sql_def quote_ident placeholder,
      rule stmt_okI [of "[Text ''UPDATE '', Name t, Text '' SET '', Name fk, Text '' = '', Slot_Mark 1,
        Text '' WHERE '', Name k, Text '' = '', Slot_Mark 2]"])
     (simp_all add: spelt upt_rec numeral_2_eq_2)

lemma disconnect_ok:
  "\<exists>sql. disconnect_sql d t fk k = Some sql \<and> stmt_ok {t, fk, k} sql [v]"
  by (intro exI conjI, simp add: disconnect_sql_def quote_ident placeholder,
      rule stmt_okI [of "[Text ''UPDATE '', Name t, Text '' SET '', Name fk, Text '' = NULL WHERE '', Name k,
        Text '' = '', Slot_Mark 1]"])
     (simp_all add: spelt upt_rec)

lemma delete_by_pk_ok:
  "\<exists>sql. delete_by_pk_sql d t k = Some sql \<and> stmt_ok {t, k} sql [v]"
  by (intro exI conjI, simp add: delete_by_pk_sql_def quote_ident placeholder,
      rule stmt_okI [of "[Text ''DELETE FROM '', Name t, Text '' WHERE '', Name k, Text '' = '', Slot_Mark 1]"])
     (simp_all add: spelt upt_rec)

lemma clear_children_ok:
  "\<exists>sql. clear_children_sql d t fk = Some sql \<and> stmt_ok {t, fk} sql [p]"
  by (intro exI conjI, simp add: clear_children_sql_def quote_ident placeholder,
      rule stmt_okI [of "[Text ''UPDATE '', Name t, Text '' SET '', Name fk, Text '' = NULL WHERE '', Name fk,
        Text '' = '', Slot_Mark 1]"])
     (simp_all add: spelt upt_rec)

lemma slot_marks:
  "concat (map (marks \<circ> (\<lambda>n. [TMark (f n)])) ns) = map f ns"
  "concat (map (idents \<circ> (\<lambda>n. [TMark (f n)])) ns) = []"
  by (induction ns) simp_all

lemma name_marks:
  "concat (map (marks \<circ> (\<lambda>c. [TIdent (f c)])) cs) = []"
  "concat (map (idents \<circ> (\<lambda>c. [TIdent (f c)])) cs) = map f cs"
  by (induction cs) simp_all

lemma slots_from_two: "map f [Suc 0..<Suc (Suc n)] = f (Suc 0) # map f (later_slots n)"
  by (subst upt_conv_Cons) (simp_all add: later_slots_def eval_nat_numeral)

lemma slots_from_one: "map f [Suc 0..<Suc (Suc n)] = f (Suc 0) # map f [Suc (Suc 0)..<Suc (Suc n)]"
  by (subst upt_conv_Cons) simp_all

abbreviation slots_part :: "nat \<Rightarrow> part" where
  "slots_part n \<equiv> Other (join '', '' (map ph (later_slots n))) (comma_separated (map (\<lambda>n. [TMark (nm n)]) (later_slots n)))"

lemma release_others_ok:
  "\<exists>sql. release_others_sql d t fk k (length vs) = Some sql \<and> stmt_ok {t, fk, k} sql (p # vs)"
  by (intro exI conjI, simp add: release_others_sql_def quote_ident placeholder key_slots_Some,
      rule stmt_okI [of "[Text ''UPDATE '', Name t, Text '' SET '', Name fk, Text '' = NULL WHERE '', Name fk,
        Text '' = '', Slot_Mark 1, Text '' AND '', Name k, Text '' NOT IN ('', slots_part (length vs), Text '')'']"])
     (simp_all add: spelt lexes_slots slot_marks slots_from_two del: upt_Suc)

lemma connect_batch_ok:
  "\<exists>sql. connect_batch_sql d t fk k (length vs) = Some sql \<and> stmt_ok {t, fk, k} sql (p # vs)"
  by (intro exI conjI, simp add: connect_batch_sql_def quote_ident placeholder key_slots_Some,
      rule stmt_okI [of "[Text ''UPDATE '', Name t, Text '' SET '', Name fk, Text '' = '', Slot_Mark 1,
        Text '' WHERE '', Name k, Text '' IN ('', slots_part (length vs), Text '')'']"])
     (simp_all add: spelt lexes_slots slot_marks slots_from_two del: upt_Suc)

lemma insert_child_ok:
  "\<exists>sql. insert_child_sql d t fk cs p = Some (sql, map snd cs @ [p])
     \<and> (\<exists>ts. lexes sql ts \<and> marks ts = map nm [1..<Suc (Suc (length cs))] \<and> set (idents ts) \<subseteq> insert t (insert fk (fst ` set cs)))"
proof -
  let ?names = "map fst cs @ [fk]" and ?slots = "[1..<length cs + 2]"
  let ?ps = "[Text ''INSERT INTO '', Name t, Text '' ('', Other (join '', '' (map quo ?names))
      (comma_separated (map (\<lambda>c. [TIdent c]) ?names)), Text '') VALUES ('',
      Other (join '', '' (map ph ?slots)) (comma_separated (map (\<lambda>n. [TMark (nm n)]) ?slots)), Text '')'']"
  have w: "well_spelt ?ps" using lexes_names [of ?names] lexes_slots [of ?slots] by (simp add: stmt_chars_def del: upt_Suc)
  have "insert_child_sql d t fk cs p = Some (spelling ?ps, map snd cs @ [p])"
    unfolding insert_child_sql_def Let_def those_placeholders those_names
    by (simp add: quote_ident spelling_def del: upt_Suc)
  moreover have "marks (tokens_of ?ps) = map nm [1..<Suc (Suc (length cs))]"
    by (simp add: tokens_of_def slot_marks name_marks del: upt_Suc)
  moreover have "set (idents (tokens_of ?ps)) \<subseteq> insert t (insert fk (fst ` set cs))"
    by (auto simp: tokens_of_def slot_marks name_marks simp del: upt_Suc)
  ultimately show ?thesis using spelling_lexes [OF w] by blast
qed

text \<open>The insertion of several children, with all their values and the parent's key after each.\<close>

lemma insert_children_ok:
  "\<exists>sql. insert_children_sql d t fk css p = Some (sql, concat (map (\<lambda>cs. map snd cs @ [p]) css))
     \<and> stmt_ok (insert t (insert fk (fst ` set (hd css)))) sql (concat (map (\<lambda>cs. map snd cs @ [p]) css))"
proof -
  let ?names = "map fst (hd css) @ [fk]" and ?rows = "map (\<lambda>cs. map snd cs @ [p]) css"
  let ?vals = "concat (map (\<lambda>cs. map snd cs @ [p]) css)"
  obtain groups ts where g: "value_groups d ?rows 1 [] = Some (groups, ?vals)"
    "lexes (join '', '' groups) ts" "idents ts = []" "marks ts = map nm [1..<Suc (length ?vals)]"
    using value_groups_renders [of ?rows 1 "[]"] by (auto simp: yields_def simp del: upt_Suc)
  let ?ps = "[Text ''INSERT INTO '', Name t, Text '' ('', Other (join '', '' (map quo ?names))
      (comma_separated (map (\<lambda>c. [TIdent c]) ?names)), Text '') VALUES '', Other (join '', '' groups) ts]"
  have "well_spelt ?ps" using lexes_names [of ?names] g(2) by (simp add: stmt_chars_def)
  then have "stmt_ok (insert t (insert fk (fst ` set (hd css)))) (spelling ?ps) ?vals"
    by (rule stmt_okI) (auto simp: tokens_of_def name_marks g(3,4) simp del: upt_Suc)
  moreover have "insert_children_sql d t fk css p = Some (spelling ?ps, ?vals)"
    unfolding insert_children_sql_def those_names using g(1)
    by (simp add: quote_ident spelling_def del: upt_Suc)
  ultimately show ?thesis by blast
qed

text \<open>The condition of a statement that reaches no row but the parent's children.\<close>

definition scope_parts :: "string \<Rightarrow> string \<Rightarrow> nat \<Rightarrow> 'j filter \<Rightarrow> part list" where
  "scope_parts w fk i f =
     [Text '' WHERE '', Name fk, Text '' = '', Slot_Mark i] @
       (if is_none f then [] else [Text '' AND ('', Other w (filter_tokens nm f i), Text '')''])"

lemma scope_parts_simps:
  "lexes w (filter_tokens nm f i) \<Longrightarrow> well_spelt (scope_parts w fk i f)"
  "tokens_of (scope_parts w fk i f) = scoped_tokens nm fk i f"
  "spelling (scope_parts w fk i f)
     = '' WHERE '' @ quo fk @ '' = '' @ ph i @ (if is_none f then [] else '' AND ('' @ w @ '')'')"
  "closed_by (scope_parts w fk i f)"
  by (simp_all add: scope_parts_def stmt_chars_def scoped_tokens_def tokens_of_def spelling_def)

lemma closed_by_append: "closed_by ps \<Longrightarrow> closed_by qs \<Longrightarrow> closed_by (ps @ qs)"
  by (cases ps rule: closed_by.cases) auto

lemma well_spelt_append: "well_spelt ps \<Longrightarrow> closed_by qs \<Longrightarrow> well_spelt qs \<Longrightarrow> well_spelt (ps @ qs)"
  by (induction ps rule: well_spelt.induct) (auto intro: closed_by_append)

lemma spelling_simps:
  "spelling [] = []" "spelling (x # ps) = spell_part x @ spelling ps" "spelling (ps @ qs) = spelling ps @ spelling qs"
  "tokens_of [] = []" "tokens_of (x # ps) = part_tokens x @ tokens_of ps" "tokens_of (ps @ qs) = tokens_of ps @ tokens_of qs"
  by (simp_all add: spelling_def tokens_of_def)

lemma delete_many_lexes:
  assumes "no_subquery f"
  shows "\<exists>sql. delete_many_sql d t fk f p = Some (sql, p # bound_values f)
     \<and> lexes sql (map TChar ''DELETE FROM '' @ TIdent t # scoped_tokens nm fk 1 f)"
proof -
  obtain w where w: "to_sql f 1 d = Some (w, bound_values f)" "lexes w (filter_tokens nm f 1)"
    using filter_lexes [OF assms] by blast
  let ?ps = "[Text ''DELETE FROM '', Name t] @ scope_parts w fk 1 f"
  have "well_spelt ?ps"
    by (rule well_spelt_append) (use scope_parts_simps(1) [OF w(2)] scope_parts_simps(4) in \<open>simp_all add: stmt_chars_def\<close>)
  from spelling_lexes [OF this] w(1) show ?thesis
    by (intro exI [of _ "spelling ?ps"])
       (simp add: delete_many_sql_def quote_ident placeholder scope_parts_simps Let_def spelling_simps)
qed

lemma update_many_lexes:
  assumes "no_subquery f"
  shows "\<exists>sql. update_many_sql d t fk f us p = Some (sql, set_values us @ [p] @ bound_values f)
     \<and> lexes sql (map TChar ''UPDATE '' @ TIdent t # map TChar '' SET '' @ comma_separated (set_tokens nm us 1)
         @ scoped_tokens nm fk (Suc (length (set_values us))) f)"
proof -
  let ?i = "Suc (length (set_values us))"
  obtain w where w: "to_sql f ?i d = Some (w, bound_values f)" "lexes w (filter_tokens nm f ?i)"
    using filter_lexes [OF assms] by blast
  obtain s where s: "build_writeop_set_clause d us 1 = Some (s, set_values us)"
    "lexes s (comma_separated (set_tokens nm us 1))" using set_clause_lexes by blast
  let ?ps = "[Text ''UPDATE '', Name t, Text '' SET '', Other s (comma_separated (set_tokens nm us 1))] @ scope_parts w fk ?i f"
  have "well_spelt ?ps"
    by (rule well_spelt_append)
      (use scope_parts_simps(1) [OF w(2)] scope_parts_simps(4) s(2) in \<open>simp_all add: stmt_chars_def\<close>)
  from spelling_lexes [OF this] w(1) s(1) show ?thesis
    by (intro exI [of _ "spelling ?ps"])
       (simp add: update_many_sql_def quote_ident placeholder scope_parts_simps Let_def spelling_simps)
qed

lemma update_by_pk_ok:
  "\<exists>sql. update_by_pk_sql d t k v us = Some (sql, set_values us @ [v])
     \<and> stmt_ok (insert t (insert k (fst ` set us))) sql (set_values us @ [v])"
proof -
  let ?i = "Suc (length (set_values us))"
  obtain s where s: "build_writeop_set_clause d us 1 = Some (s, set_values us)"
    "lexes s (comma_separated (set_tokens nm us 1))" using set_clause_lexes by blast
  let ?ps = "[Text ''UPDATE '', Name t, Text '' SET '', Other s (comma_separated (set_tokens nm us 1)),
      Text '' WHERE '', Name k, Text '' = '', Slot_Mark ?i]"
  have "well_spelt ?ps" using s(2) by (simp add: stmt_chars_def)
  then have "stmt_ok (insert t (insert k (fst ` set us))) (spelling ?ps) (set_values us @ [v])"
  proof (rule stmt_okI)
    show "set (idents (tokens_of ?ps)) \<subseteq> insert t (insert k (fst ` set us))"
      using set_tokens_parts(2) [of nm us 1] by (auto simp: tokens_of_def)
  qed (simp_all add: tokens_of_def set_tokens_parts(1))
  moreover have "update_by_pk_sql d t k v us = Some (spelling ?ps, set_values us @ [v])"
    using s(1) by (simp add: update_by_pk_sql_def quote_ident placeholder spelling_def)
  ultimately show ?thesis by blast
qed

lemma connect_where_ok:
  assumes "no_subquery f"
  shows "\<exists>sql. connect_where_sql d t fk f p = Some (sql, p # bound_values f)
     \<and> stmt_ok (insert t (insert fk (set (filter_columns f)))) sql (p # bound_values f)"
proof -
  obtain w where w: "to_sql f 1 d = Some (w, bound_values f)" "lexes w (filter_tokens nm f 1)"
    using filter_lexes [OF assms] by blast
  let ?ps = "[Text ''UPDATE '', Name t, Text '' SET '', Name fk, Text '' = '', Slot_Mark 1, Text '' WHERE '',
      Other w (filter_tokens nm f 1)]"
  have "well_spelt ?ps" using w(2) by (simp add: stmt_chars_def)
  then have "stmt_ok (insert t (insert fk (set (filter_columns f)))) (spelling ?ps) (p # bound_values f)"
    by (rule stmt_okI)
       (simp_all add: tokens_of_def filter_tokens_parts(1) [OF assms] slots_from_one del: upt_Suc)
  moreover have "connect_where_sql d t fk f p = Some (spelling ?ps, p # bound_values f)"
    using w(1) by (simp add: connect_where_sql_def quote_ident placeholder spelling_def)
  ultimately show ?thesis by blast
qed

text \<open>The clauses of an upsert.\<close>

lemma on_conflict_lexes:
  assumes "lexes s ts" and "set t \<subseteq> set stmt_chars" and "t \<noteq> []" and "ends_filter t"
  shows "lexes (on_conflict_cols quo cs @ t @ s)
     (map TChar '' ON CONFLICT ('' @ comma_separated (map (\<lambda>c. [TIdent c]) cs) @ map TChar '')'' @ map TChar t @ ts)"
proof -
  let ?ps = "[Text '' ON CONFLICT ('', Other (join '', '' (map quo cs)) (comma_separated (map (\<lambda>c. [TIdent c]) cs)),
     Text '')'', Text t, Other s ts]"
  have "well_spelt ?ps" using assms lexes_names by (simp add: stmt_chars_def)
  from spelling_lexes [OF this] show ?thesis by (simp add: on_conflict_cols_def spelling_simps)
qed

lemma duplicate_key_lexes:
  "lexes s ts \<Longrightarrow> lexes ('' ON DUPLICATE KEY UPDATE '' @ s) (map TChar '' ON DUPLICATE KEY UPDATE '' @ ts)"
  using spelling_lexes [of "[Text '' ON DUPLICATE KEY UPDATE '', Other s ts]"]
  by (simp add: spelling_simps stmt_chars_def)

end

text \<open>
  What an upsert relies on: the clause that a dialect makes of the target columns and the
  assignments adds no identifier but those columns, and no marker.
\<close>

locale sql_upserts = sql_statements +
  assumes upsert_clause: "lexes s ts \<Longrightarrow> \<exists>c us. upsert_clause d cs s = Some c \<and>
      (c = [] \<or> lexes c us \<and> ends_filter c \<and> marks us = marks ts \<and> set (idents us) \<subseteq> set cs \<union> set (idents ts))"
    and nothing_clause: "cs \<noteq> [] \<Longrightarrow> \<exists>c us. upsert_do_nothing_clause d cs = Some c \<and>
      lexes c us \<and> ends_filter c \<and> marks us = [] \<and> set (idents us) \<subseteq> set cs \<and> (c = [] \<longrightarrow> us = [])"
    and upserts: "supports_upsert d"

lemma idents_names: "idents (comma_separated (map (\<lambda>c. [TIdent c]) cs)) = cs"
  and marks_names: "marks (comma_separated (map (\<lambda>c. [TIdent c]) cs)) = []"
  by (induction cs) simp_all

lemma double_quote_upserts:
  assumes "sql_statements d lx quo ph"
    and u: "\<And>c s. upsert_clause d c s = Some (on_conflict_cols quo c @ '' DO UPDATE SET '' @ s)"
    and n: "\<And>c. upsert_do_nothing_clause d c = Some (on_conflict_cols quo c @ '' DO NOTHING'')" and "supports_upsert d"
  shows "sql_upserts d lx quo ph"
proof (rule sql_upserts.intro [OF assms(1)], rule sql_upserts_axioms.intro)
  note lexable = sql_statements.axioms(1) [OF assms(1)]
  note on_conflict = sql_statements.on_conflict_lexes [OF assms(1)]
  show "\<exists>c us. upsert_clause d cs s = Some c \<and> (c = [] \<or> sql_lexable.lexes lx c us \<and> ends_filter c \<and>
      marks us = marks ts \<and> set (idents us) \<subseteq> set cs \<union> set (idents ts))"
    if "sql_lexable.lexes lx s ts" for s ts cs
  proof -
    let ?us = "map TChar '' ON CONFLICT ('' @ comma_separated (map (\<lambda>c. [TIdent c]) cs) @ map TChar '')''
      @ map TChar '' DO UPDATE SET '' @ ts"
    have "sql_lexable.lexes lx (on_conflict_cols quo cs @ '' DO UPDATE SET '' @ s) ?us"
      by (rule on_conflict [OF that]) (simp_all add: stmt_chars_def)
    moreover have "marks ?us = marks ts" "set (idents ?us) \<subseteq> set cs \<union> set (idents ts)"
      by (simp_all add: idents_names marks_names del: comma_parts)
    moreover have "ends_filter (on_conflict_cols quo cs @ '' DO UPDATE SET '' @ s)"
      by (simp add: on_conflict_cols_def)
    ultimately show ?thesis using u [of cs s] by blast
  qed
  show "\<exists>c us. upsert_do_nothing_clause d cs = Some c \<and> sql_lexable.lexes lx c us \<and> ends_filter c \<and>
      marks us = [] \<and> set (idents us) \<subseteq> set cs \<and> (c = [] \<longrightarrow> us = [])" for cs
  proof -
    let ?us = "map TChar '' ON CONFLICT ('' @ comma_separated (map (\<lambda>c. [TIdent c]) cs) @ map TChar '')''
      @ map TChar '' DO NOTHING'' @ []"
    have "sql_lexable.lexes lx (on_conflict_cols quo cs @ '' DO NOTHING'' @ []) ?us"
      by (rule on_conflict [OF sql_statements.lexes_Nil [OF assms(1)]]) (simp_all add: stmt_chars_def)
    moreover have "marks ?us = []" "set (idents ?us) \<subseteq> set cs"
      by (simp_all add: idents_names marks_names del: comma_parts)
    moreover have "ends_filter (on_conflict_cols quo cs @ '' DO NOTHING'' @ [])"
      "on_conflict_cols quo cs @ '' DO NOTHING'' @ [] \<noteq> []"
      by (simp_all add: on_conflict_cols_def)
    ultimately show ?thesis using n [of cs] by (metis append_Nil2)
  qed
  show "supports_upsert d" by fact
qed

lemma no_upsert_clause:
  assumes "sql_statements d lx quo ph" and "\<And>c s. upsert_clause d c s = Some []"
    and "\<And>c. upsert_do_nothing_clause d c = Some []" and "supports_upsert d"
  shows "sql_upserts d lx quo ph"
  by (rule sql_upserts.intro [OF assms(1)], rule sql_upserts_axioms.intro)
    (use assms(2-4) sql_statements.lexes_Nil [OF assms(1)] in auto)

lemma mysql_upserts: "sql_upserts mysql mysql_lexis (spell_ident mysql_lexis) (spell_mark mysql_lexis)"
proof (rule sql_upserts.intro [OF mysql_stmt.sql_statements_axioms], rule sql_upserts_axioms.intro)
  show "\<exists>c us. upsert_clause mysql cs s = Some c \<and> (c = [] \<or> mysql_lex.lexes c us \<and> ends_filter c \<and>
      marks us = marks ts \<and> set (idents us) \<subseteq> set cs \<union> set (idents ts))"
    if "mysql_lex.lexes s ts" for s ts and cs :: "string list"
  proof -
    have "upsert_clause mysql cs s = Some ('' ON DUPLICATE KEY UPDATE '' @ s)" by (simp add: mysql_def)
    moreover have "marks (map TChar '' ON DUPLICATE KEY UPDATE '' @ ts) = marks ts"
      "set (idents (map TChar '' ON DUPLICATE KEY UPDATE '' @ ts)) \<subseteq> set cs \<union> set (idents ts)"
      "ends_filter ('' ON DUPLICATE KEY UPDATE '' @ s)" by simp_all
    ultimately show ?thesis using mysql_stmt.duplicate_key_lexes [OF that] by blast
  qed
  fix cs :: "string list" assume "cs \<noteq> []"
  then obtain c where c: "mysql_upsert_do_nothing cs
      = '' ON DUPLICATE KEY UPDATE '' @ spell_ident mysql_lexis c @ '' = '' @ spell_ident mysql_lexis c" "c \<in> set cs"
    by (cases cs) (auto simp: mysql_upsert_do_nothing_def spell_ident_def mysql_lexis_def Let_def)
  have "mysql_lex.lexes (mysql_stmt.spelling [Name c, Text '' = '', Name c]) (mysql_stmt.tokens_of [Name c, Text '' = '', Name c])"
    by (rule mysql_stmt.spelling_lexes) (simp add: stmt_chars_def)
  note l = mysql_stmt.duplicate_key_lexes [OF this]
  have "upsert_do_nothing_clause mysql cs
      = Some ('' ON DUPLICATE KEY UPDATE '' @ mysql_stmt.spelling [Name c, Text '' = '', Name c])"
    using c by (simp add: mysql_def mysql_stmt.spelling_simps)
  moreover have "marks (map TChar '' ON DUPLICATE KEY UPDATE '' @ mysql_stmt.tokens_of [Name c, Text '' = '', Name c]) = []"
    "set (idents (map TChar '' ON DUPLICATE KEY UPDATE '' @ mysql_stmt.tokens_of [Name c, Text '' = '', Name c])) \<subseteq> set cs"
    "ends_filter ('' ON DUPLICATE KEY UPDATE '' @ mysql_stmt.spelling [Name c, Text '' = '', Name c])"
    "'' ON DUPLICATE KEY UPDATE '' @ mysql_stmt.spelling [Name c, Text '' = '', Name c] \<noteq> []"
    using c(2) by (simp_all add: mysql_stmt.spelling_simps)
  ultimately show "\<exists>c us. upsert_do_nothing_clause mysql cs = Some c \<and> mysql_lex.lexes c us \<and> ends_filter c \<and>
      marks us = [] \<and> set (idents us) \<subseteq> set cs \<and> (c = [] \<longrightarrow> us = [])"
    using l by blast
qed (simp add: mysql_def)

lemma sql_dialects_upserts:
  assumes "(d, lx) \<in> set sql_dialects"
  shows "sql_upserts d lx (spell_ident lx) (spell_mark lx)"
proof -
  note s = sql_dialects_statements [OF assms]
  have dq: "quote_with DQUOTE DQUOTE = spell_ident lx" if "lx \<in> {postgres_lexis, sqlite_lexis}"
    using that by (auto simp: spell_ident_def lexis_defs fun_eq_iff)
  consider "d = postgres \<or> d = sqlite" "lx \<in> {postgres_lexis, sqlite_lexis}" | "d = mysql" "lx = mysql_lexis"
    | "d = mssql \<or> d = cql"
    using assms by (auto simp: sql_dialects_def)
  then show ?thesis
  proof cases
    case 1
    with dq [OF 1(2)] show ?thesis by (intro double_quote_upserts [OF s]) (auto simp: postgres_def sqlite_def)
  next
    case 2
    with mysql_upserts show ?thesis by simp
  next
    case 3
    then show ?thesis
      by (intro no_upsert_clause [OF s]) (auto simp: mssql_def cql_def default_upsert_do_nothing_clause_def)
  qed
qed

interpretation pg_upserts: sql_upserts postgres postgres_lexis "spell_ident postgres_lexis" "spell_mark postgres_lexis"
  by (rule sql_dialects_upserts) (simp add: sql_dialects_def)
interpretation sqlite_upserts: sql_upserts sqlite sqlite_lexis "spell_ident sqlite_lexis" "spell_mark sqlite_lexis"
  by (rule sql_dialects_upserts) (simp add: sql_dialects_def)
interpretation my_upserts: sql_upserts mysql mysql_lexis "spell_ident mysql_lexis" "spell_mark mysql_lexis"
  by (rule mysql_upserts)
interpretation mssql_upserts: sql_upserts mssql mssql_lexis "spell_ident mssql_lexis" "spell_mark mssql_lexis"
  by (rule sql_dialects_upserts) (simp add: sql_dialects_def)
interpretation cql_upserts: sql_upserts cql cql_lexis "spell_ident cql_lexis" "spell_mark cql_lexis"
  by (rule sql_dialects_upserts) (simp add: sql_dialects_def)

end
