(* ===== verification/Nested_Laws.thy ===== *)
theory Nested_Laws
  imports Nested_Statements
begin

text \<open>
  What holds of every session of nested writes: it never panics on a SQL dialect, every statement
  it can issue is read back with its markers numbered in the order of the parameters, and the
  statements that carry a filter of the program's user stay within the parent's children.
\<close>

fun nested_filters :: "'j nested_write_op \<Rightarrow> 'j filter list" where
  "nested_filters (NwDeleteMany _ _ _ f) = [f]"
| "nested_filters (NwUpdateMany _ _ _ f _) = [f]"
| "nested_filters (NwConnectOrCreate _ _ _ f _) = [f]"
| "nested_filters _ = []"

text \<open>The identifiers an operation names: its table and key columns, and the columns of its data and filter.\<close>

fun nested_names :: "'j nested_write_op \<Rightarrow> string set" where
  "nested_names (NwCreate _ t fk rows) = insert t (insert fk (fst ` set (hd rows)))"
| "nested_names (NwConnect _ t fk k _) = {t, fk, k}"
| "nested_names (NwDisconnect _ t fk k _) = {t, fk, k}"
| "nested_names (NwDelete _ t k _) = {t, k}"
| "nested_names (NwDeleteMany _ t fk f) = insert t (insert fk (set (filter_columns f)))"
| "nested_names (NwUpdate _ t k _ us) = insert t (insert k (fst ` set us))"
| "nested_names (NwUpdateMany _ t fk f us) = insert t (insert fk (fst ` set us \<union> set (filter_columns f)))"
| "nested_names (NwUpsert _ t fk k _ cs us) = insert t (insert fk (insert k (fst ` set cs \<union> fst ` set us)))"
| "nested_names (NwConnectOrCreate _ t fk f cs) = insert t (insert fk (fst ` set cs \<union> set (filter_columns f)))"
| "nested_names (NwSet _ t fk k _) = {t, fk, k}"

lemma scoped_tokens_parts:
  assumes "no_subquery f"
  shows "marks (scoped_tokens nm fk i f) = nm i # map nm [Suc i..<Suc (i + length (bound_values f))]"
    and "set (idents (scoped_tokens nm fk i f)) \<subseteq> insert fk (set (filter_columns f))"
  using filter_tokens_parts(1) [OF assms, of nm i] by (auto simp: scoped_tokens_def simp del: upt_Suc)

context sql_upserts
begin

lemma stmt_ok_mono: "stmt_ok names sql ps \<Longrightarrow> names \<subseteq> names' \<Longrightarrow> stmt_ok names' sql ps"
  unfolding stmt_ok_def by blast

lemma insert_child_stmt:
  "\<exists>sql. insert_child_sql d t fk cs p = Some (sql, map snd cs @ [p])
     \<and> stmt_ok (insert t (insert fk (fst ` set cs))) sql (map snd cs @ [p])
     \<and> (\<forall>c us vs. lexes c us \<longrightarrow> ends_filter c \<longrightarrow> (c = [] \<longrightarrow> us = []) \<longrightarrow>
       marks us = map nm [length cs + 2..<length cs + 2 + length vs] \<longrightarrow>
       stmt_ok (insert t (insert fk (fst ` set cs)) \<union> set (idents us)) (sql @ c) (map snd cs @ [p] @ vs))"
proof -
  obtain sql ts where s: "insert_child_sql d t fk cs p = Some (sql, map snd cs @ [p])"
    and l: "lexes sql ts" "marks ts = map nm [1..<Suc (Suc (length cs))]"
      "set (idents ts) \<subseteq> insert t (insert fk (fst ` set cs))"
    using insert_child_ok [of t fk cs p] by blast
  have "stmt_ok (insert t (insert fk (fst ` set cs)) \<union> set (idents us)) (sql @ c) (map snd cs @ [p] @ vs)"
    if "lexes c us" "ends_filter c" "c = [] \<Longrightarrow> us = []"
      "marks us = map nm [length cs + 2..<length cs + 2 + length vs]" for c us vs
  proof (rule stmt_ok_appendI [OF l(1) that(1-3)])
    have "[1..<Suc (Suc (length cs)) + length vs]
        = [1..<Suc (Suc (length cs))] @ [Suc (Suc (length cs))..<Suc (Suc (length cs)) + length vs]"
      by (rule upt_add_eq_append) simp
    then show "marks ts @ marks us = map nm [1..<Suc (length (map snd cs @ [p] @ vs))]"
      by (simp add: l(2) that(4) del: upt_Suc flip: map_append)
  qed (use l(3) in auto)
  moreover have "stmt_ok (insert t (insert fk (fst ` set cs))) sql (map snd cs @ [p])"
    unfolding stmt_ok_def using l by (intro exI [of _ ts]) (simp del: upt_Suc)
  ultimately show ?thesis using s by blast
qed

lemma upsert_child_fine: "fine (nested_names (NwUpsert r t fk k pk cs us)) (upsert_child d t fk k pk cs us p)"
proof -
  let ?names = "nested_names (NwUpsert r t fk k pk cs us)"
  obtain s where s: "build_writeop_set_clause d us (length cs + 2) = Some (s, set_values us)"
    "lexes s (comma_separated (set_tokens nm us (length cs + 2)))" using set_clause_lexes by blast
  obtain c ts where c: "upsert_clause d [k] s = Some c"
    "c = [] \<or> lexes c ts \<and> ends_filter c \<and> marks ts = marks (comma_separated (set_tokens nm us (length cs + 2)))
      \<and> set (idents ts) \<subseteq> set [k] \<union> set (idents (comma_separated (set_tokens nm us (length cs + 2))))"
    using upsert_clause [OF s(2)] by blast
  obtain c' ts' where c': "upsert_do_nothing_clause d [k] = Some c'" "lexes c' ts'" "ends_filter c'"
    "marks ts' = []" "set (idents ts') \<subseteq> {k}" "c' = [] \<longrightarrow> ts' = []"
    using nothing_clause [of "[k]"] by auto
  obtain sql where i: "insert_child_sql d t fk cs p = Some (sql, map snd cs @ [p])"
    "stmt_ok (insert t (insert fk (fst ` set cs))) sql (map snd cs @ [p])"
    "\<forall>c us vs. lexes c us \<longrightarrow> ends_filter c \<longrightarrow> (c = [] \<longrightarrow> us = []) \<longrightarrow>
       marks us = map nm [length cs + 2..<length cs + 2 + length vs] \<longrightarrow>
       stmt_ok (insert t (insert fk (fst ` set cs)) \<union> set (idents us)) (sql @ c) (map snd cs @ [p] @ vs)"
    using insert_child_stmt [of t fk cs p] by blast
  obtain sql' where u: "update_by_pk_sql d t k pk us = Some (sql', set_values us @ [pk])"
    "stmt_ok (insert t (insert k (fst ` set us))) sql' (set_values us @ [pk])"
    using update_by_pk_ok by blast
  have 1: "stmt_ok ?names sql (map snd cs @ [p])" by (rule stmt_ok_mono [OF i(2)]) auto
  have 2: "stmt_ok ?names sql' (set_values us @ [pk])" by (rule stmt_ok_mono [OF u(2)]) auto
  have 3: "stmt_ok ?names (sql @ c') (map snd cs @ [p])"
    using i(3) [rule_format, OF c'(2,3), of "[]"] c'(4-6) by (auto intro: stmt_ok_mono)
  have 4: "stmt_ok ?names (sql @ c) (map snd cs @ [p] @ set_values us)" if "c \<noteq> []"
  proof (rule stmt_ok_mono [OF i(3) [rule_format]])
    show "marks ts = map nm [length cs + 2..<length cs + 2 + length (set_values us)]"
      using c(2) that set_tokens_parts(1) [of nm us "length cs + 2"] by simp
    show "insert t (insert fk (fst ` set cs)) \<union> set (idents ts) \<subseteq> ?names"
      using c(2) that set_tokens_parts(2) [of nm us "length cs + 2"] by auto
  qed (use c(2) that in auto)
  show ?thesis
    unfolding upsert_child_def s(1)
    using 1 2 3 4 by (auto simp: upserts c(1) c'(1) i(1) u(1) simp del: nested_names.simps)
qed

lemma connect_or_create_fine:
  assumes "no_subquery f"
  shows "fine (nested_names (NwConnectOrCreate r t fk f cs)) (connect_or_create d t fk f cs p)"
proof -
  obtain sql where i: "insert_child_sql d t fk cs p = Some (sql, map snd cs @ [p])"
    "stmt_ok (insert t (insert fk (fst ` set cs))) sql (map snd cs @ [p])"
    using insert_child_stmt [of t fk cs p] by blast
  obtain sql' where c: "connect_where_sql d t fk f p = Some (sql', p # bound_values f)"
    "stmt_ok (insert t (insert fk (set (filter_columns f)))) sql' (p # bound_values f)"
    using connect_where_ok [OF assms] by blast
  have "stmt_ok (nested_names (NwConnectOrCreate r t fk f cs)) sql (map snd cs @ [p])"
    "stmt_ok (nested_names (NwConnectOrCreate r t fk f cs)) sql' (p # bound_values f)"
    by (rule stmt_ok_mono [OF i(2)], auto) (rule stmt_ok_mono [OF c(2)], auto)
  then show ?thesis by (simp add: connect_or_create_def i(1) c(1) del: nested_names.simps)
qed

lemma set_children_fine: "fine {t, fk, k} (set_children d t fk k vs p)"
proof -
  obtain a where a: "clear_children_sql d t fk = Some a" "stmt_ok {t, fk} a [p]"
    using clear_children_ok by blast
  obtain b where b: "release_others_sql d t fk k (length vs) = Some b" "stmt_ok {t, fk, k} b (p # vs)"
    using release_others_ok by blast
  obtain c where c: "connect_batch_sql d t fk k (length vs) = Some c" "stmt_ok {t, fk, k} c (p # vs)"
    using connect_batch_ok by blast
  from stmt_ok_mono [OF a(2), of "{t, fk, k}"] have "stmt_ok {t, fk, k} a [p]" by auto
  with a(1) b c show ?thesis by (simp add: set_children_def with_params_def)
qed

lemma nested_execute_fine:
  assumes "list_all no_subquery (nested_filters op)"
  shows "fine (nested_names op) (nested_execute d op p)"
proof (cases op)
  case (NwCreate r t fk rows)
  then show ?thesis using insert_children_ok [of t fk rows p] by auto
next
  case (NwConnect r t fk k v)
  then show ?thesis using connect_ok [of t fk k p v] by (auto simp: with_params_def)
next
  case (NwDisconnect r t fk k v)
  then show ?thesis using disconnect_ok [of t fk k v] by (auto simp: with_params_def)
next
  case (NwDelete r t k v)
  then show ?thesis using delete_by_pk_ok [of t k v] by (auto simp: with_params_def execute_one_row_def)
next
  case (NwDeleteMany r t fk f)
  then have f: "no_subquery f" using assms by simp
  obtain sql where sql: "delete_many_sql d t fk f p = Some (sql, p # bound_values f)"
    "lexes sql (map TChar ''DELETE FROM '' @ TIdent t # scoped_tokens nm fk 1 f)"
    using delete_many_lexes [OF f] by blast
  have "stmt_ok (nested_names op) sql (p # bound_values f)"
    unfolding stmt_ok_def using sql(2) scoped_tokens_parts [OF f, of nm fk 1] NwDeleteMany
    by (intro exI [of _ "map TChar ''DELETE FROM '' @ TIdent t # scoped_tokens nm fk 1 f"])
      (auto simp: slots_from_one simp del: upt_Suc)
  with sql(1) NwDeleteMany show ?thesis by simp
next
  case (NwUpdate r t k v us)
  then show ?thesis using update_by_pk_ok [of t k v us] by (auto simp: execute_one_row_def)
next
  case (NwUpdateMany r t fk f us)
  then have f: "no_subquery f" using assms by simp
  let ?n = "length (set_values us)"
  let ?ts = "map TChar ''UPDATE '' @ TIdent t # map TChar '' SET '' @ comma_separated (set_tokens nm us 1)
         @ scoped_tokens nm fk (Suc ?n) f"
  obtain sql where sql: "update_many_sql d t fk f us p = Some (sql, set_values us @ [p] @ bound_values f)"
    "lexes sql ?ts" using update_many_lexes [OF f] by blast
  have "[1..<Suc (Suc ?n + length (bound_values f))]
      = [1..<Suc ?n] @ Suc ?n # [Suc (Suc ?n)..<Suc (Suc ?n + length (bound_values f))]"
    using upt_add_eq_append [of 1 "Suc ?n" "Suc (length (bound_values f))"]
    by (simp add: upt_conv_Cons del: upt_Suc)
  then have "marks ?ts = map nm [1..<Suc (length (set_values us @ [p] @ bound_values f))]"
    using scoped_tokens_parts(1) [OF f, of nm fk "Suc ?n"] set_tokens_parts(1) [of nm us 1]
    by (simp del: upt_Suc)
  moreover have "set (idents ?ts) \<subseteq> nested_names op"
    using scoped_tokens_parts(2) [OF f, of nm fk "Suc ?n"] set_tokens_parts(2) [of nm us 1] NwUpdateMany by auto
  ultimately have "stmt_ok (nested_names op) sql (set_values us @ [p] @ bound_values f)"
    unfolding stmt_ok_def using sql(2) by blast
  with sql(1) NwUpdateMany show ?thesis by simp
next
  case (NwUpsert r t fk k pk cs us)
  then show ?thesis using upsert_child_fine by simp
next
  case (NwConnectOrCreate r t fk f cs)
  then show ?thesis using connect_or_create_fine assms by simp
next
  case (NwSet r t fk k vs)
  then show ?thesis using set_children_fine by simp
qed

lemma connect_batch_fine:
  "fine {t, fk, k} (connect_batch d t fk k ops p)"
proof -
  obtain sql where "connect_batch_sql d t fk k (length (concat (map connect_key ops))) = Some sql"
    "stmt_ok {t, fk, k} sql (p # concat (map connect_key ops))"
    using connect_batch_ok by blast
  then show ?thesis by (simp add: connect_batch_def Let_def with_params_def)
qed

lemma connect_target_names: "connect_target op = Some (t, fk, k) \<Longrightarrow> {t, fk, k} = nested_names op"
  by (cases op) (auto simp: connect_target_def)

lemma run_nested_ops_fine:
  "list_all (list_all no_subquery \<circ> nested_filters) ops \<Longrightarrow>
     fine (\<Union>op \<in> set ops. nested_names op) (run_nested_ops d ops p :: ('j, 'r, 'e, unit) session)"
proof (induction "length ops" arbitrary: ops rule: less_induct)
  case less
  show ?case
  proof (cases ops)
    case (Cons op os)
    let ?names = "\<Union>op \<in> set ops. nested_names op"
    have one: "fine ?names (nested_execute d op p :: ('j, 'r, 'e, unit) session)"
      by (rule fine_mono [OF nested_execute_fine]) (use less.prems Cons in auto)
    have rest: "fine ?names (run_nested_ops d os' p :: ('j, 'r, 'e, unit) session)" if "length os' \<le> length os" "set os' \<subseteq> set os" for os'
      by (rule fine_mono [OF less.hyps]) (use that less.prems Cons in \<open>auto simp: list_all_iff\<close>)
    show ?thesis
    proof (cases "connect_target op")
      case None
      with Cons fine_and_next [OF one] rest [of os] show ?thesis by simp
    next
      case (Some target)
      obtain t fk k where target: "target = (t, fk, k)" by (cases target)
      let ?same = "\<lambda>o'. connect_target o' = Some (t, fk, k)"
      have batch: "fine ?names (connect_batch d t fk k bs p :: ('j, 'r, 'e, unit) session)" for bs
      proof (rule fine_mono [OF connect_batch_fine])
        have "{t, fk, k} = nested_names op" using connect_target_names Some target by blast
        with Cons show "{t, fk, k} \<subseteq> ?names" by simp
      qed
      have "fine ?names (run_nested_ops d (dropWhile ?same os) p :: ('j, 'r, 'e, unit) session)"
        by (rule rest) (auto simp: length_dropWhile_le dest: set_dropWhileD)
      with one batch show ?thesis by (auto simp: Cons Some target Let_def intro!: fine_and_next)
    qed
  qed simp
qed

end

text \<open>
  C11: Nested writes whose filters (of \<open>UpdateMany\<close>, \<open>DeleteMany\<close> and \<open>ConnectOrCreate\<close>) have no
  raw scalar subquery do not panic on a SQL dialect, and whatever the engine answers, every
  statement they issue is read back with its markers numbered 1 to the number of its parameters,
  naming no identifier but the tables, keys and columns of the operations.  A raw subquery with a
  slot out of range panics (\<open>subquery_out_of_range\<close>).
\<close>

theorem nested_statements:
  assumes "(d, lx) \<in> set sql_dialects" and "list_all (list_all no_subquery \<circ> nested_filters) ops"
  shows "\<not> panics (run_nested_ops d ops parent :: ('j, 'r, 'e, unit) session) \<and>
    (\<forall>(sql, params) \<in> statements (run_nested_ops d ops parent :: ('j, 'r, 'e, unit) session). \<exists>ts. lex_sql lx sql = Some ts
       \<and> marks ts = map (marker lx) [1..<Suc (length params)]
       \<and> set (idents ts) \<subseteq> (\<Union>op \<in> set ops. nested_names op))"
proof -
  note u = sql_dialects_upserts [OF assms(1)]
  note s = sql_upserts.axioms(1) [OF u]
  note f = sql_upserts.run_nested_ops_fine [OF u assms(2), of parent]
  have "\<exists>ts. lex_sql lx sql = Some ts \<and> marks ts = map (marker lx) [1..<Suc (length params)]
      \<and> set (idents ts) \<subseteq> (\<Union>op \<in> set ops. nested_names op)"
    if "(sql, params) \<in> statements (run_nested_ops d ops parent :: ('j, 'r, 'e, unit) session)" for sql params
  proof -
    have "sql_statements.stmt_ok lx (\<Union>op \<in> set ops. nested_names op) sql params"
      using f that unfolding sql_statements.fine_def [OF s] by fast
    then show ?thesis
      unfolding sql_statements.stmt_ok_def [OF s] using sql_statements.lexes_whole [OF s] by blast
  qed
  then show ?thesis using f unfolding sql_statements.fine_def [OF s] by blast
qed

definition sample_writes :: "unit nested_write_op list" where
  "sample_writes =
     [NwConnect ''posts'' ''posts'' ''author_id'' ''id'' (VInt 7),
      NwConnect ''posts'' ''posts'' ''author_id'' ''id'' (VInt 8),
      NwDeleteMany ''posts'' ''posts'' ''author_id'' (FOr [FEquals ''draft'' (VBool True), FIsNull ''title'']),
      NwUpsert ''posts'' ''posts'' ''author_id'' ''id'' (VInt 9) [(''id'', VInt 9)] [(''views'', WIncrement (VInt 1))]]"

theorem nested_statements_witness:
  "\<not> panics (run_nested_ops mysql sample_writes (VInt 1) :: (unit, unit, unit, unit) session)"
proof -
  have "(mysql, mysql_lexis) \<in> set sql_dialects" by (simp add: sql_dialects_def)
  moreover have "list_all (list_all no_subquery \<circ> nested_filters) sample_writes" by (simp add: sample_writes_def)
  ultimately show ?thesis using nested_statements by blast
qed

subsection \<open>Scope\<close>

text \<open>The parentheses of a token stream close within it: the depth never falls below the start.\<close>

fun depth :: "nat \<Rightarrow> token list \<Rightarrow> nat option" where
  "depth n [] = Some n"
| "depth n (TChar c # ts) =
     (if c = CHR ''('' then depth (Suc n) ts
      else if c = CHR '')'' then (case n of 0 \<Rightarrow> None | Suc m \<Rightarrow> depth m ts)
      else depth n ts)"
| "depth n (_ # ts) = depth n ts"

lemma depth_append: "depth n (ts @ us) = (case depth n ts of None \<Rightarrow> None | Some m \<Rightarrow> depth m us)"
  by (induction n ts rule: depth.induct) (auto split: nat.splits)

definition balanced :: "token list \<Rightarrow> bool" where
  "balanced ts \<longleftrightarrow> (\<forall>n. depth n ts = Some n)"

lemma balanced_simps [simp]:
  "balanced []"
  "balanced (TIdent i # ts) \<longleftrightarrow> balanced ts" "balanced (TMark m # ts) \<longleftrightarrow> balanced ts"
  "balanced (TStr s # ts) \<longleftrightarrow> balanced ts"
  "c \<noteq> CHR ''('' \<Longrightarrow> c \<noteq> CHR '')'' \<Longrightarrow> balanced (TChar c # ts) \<longleftrightarrow> balanced ts"
  by (simp_all add: balanced_def)

lemma balanced_append: "balanced ts \<Longrightarrow> balanced us \<Longrightarrow> balanced (ts @ us)"
  by (simp add: balanced_def depth_append)

lemma balanced_paren:
  "balanced ts \<Longrightarrow> balanced us \<Longrightarrow> balanced (TChar CHR ''('' # ts @ TChar CHR '')'' # us)"
  by (simp add: balanced_def depth_append)

lemma balanced_sep: "balanced sep \<Longrightarrow> list_all balanced tss \<Longrightarrow> balanced (sep_tokens sep tss)"
  by (induction tss) (auto intro: balanced_append)

lemma balanced_members: "balanced (member_tokens nm i n)"
  unfolding member_tokens_def
  by (simp del: sep_tokens.simps, rule balanced_paren [of _ "[]", simplified], rule balanced_sep) (auto simp: list_all_iff)

lemma balanced_filter:
  fixes f :: "'j filter" and fs :: "'j filter list"
  shows "no_subquery f \<Longrightarrow> balanced (filter_tokens nm f i)"
    and "list_all no_subquery fs \<Longrightarrow> list_all balanced (filter_tokens_list nm fs i)"
  by (induction nm f i and nm fs i rule: filter_tokens_filter_tokens_list.induct)
    (auto intro!: balanced_paren [of _ "[]", simplified] balanced_sep balanced_members)

text \<open>
  C12: The statements of \<open>DeleteMany\<close> and \<open>UpdateMany\<close> are confined to the parent's children,
  for every filter without a raw scalar subquery and whatever the names hold: the condition is
  the comparison of the foreign key with the parent's key and, conjoined to it in parentheses that
  nothing in the filter closes, the filter.  The slot of the comparison is bound to the parent's
  key.  The text of a raw subquery is not looked at and can close the parenthesis.
\<close>

theorem nested_many_scoped:
  assumes "(d, lx) \<in> set sql_dialects" and "no_subquery f"
  shows "\<exists>s1 s2 p1 p2 n. delete_many_sql d t fk f parent = Some (s1, p1)
      \<and> update_many_sql d t fk f us parent = Some (s2, p2)
      \<and> lex_sql lx s1 = Some (map TChar ''DELETE FROM '' @ TIdent t # scoped_tokens (marker lx) fk 1 f)
      \<and> lex_sql lx s2 = Some (map TChar ''UPDATE '' @ TIdent t # map TChar '' SET ''
            @ comma_separated (set_tokens (marker lx) us 1) @ scoped_tokens (marker lx) fk (Suc n) f)
      \<and> p1 ! 0 = parent \<and> n < length p2 \<and> p2 ! n = parent
      \<and> balanced (filter_tokens (marker lx) f 1) \<and> balanced (filter_tokens (marker lx) f (Suc n))"
proof -
  note s = sql_dialects_statements [OF assms(1)]
  obtain s1 where s1: "delete_many_sql d t fk f parent = Some (s1, parent # bound_values f)"
    "sql_lexable.lexes lx s1 (map TChar ''DELETE FROM '' @ TIdent t # scoped_tokens (marker lx) fk 1 f)"
    using sql_statements.delete_many_lexes [OF s assms(2)] by blast
  obtain s2 where s2: "update_many_sql d t fk f us parent = Some (s2, set_values us @ [parent] @ bound_values f)"
    "sql_lexable.lexes lx s2 (map TChar ''UPDATE '' @ TIdent t # map TChar '' SET ''
       @ comma_separated (set_tokens (marker lx) us 1) @ scoped_tokens (marker lx) fk (Suc (length (set_values us))) f)"
    using sql_statements.update_many_lexes [OF s assms(2)] by blast
  show ?thesis
    using s1 s2 sql_statements.lexes_whole [OF s] balanced_filter(1) [OF assms(2)]
    by (intro exI [of _ s1] exI [of _ s2] exI [of _ "parent # bound_values f"]
        exI [of _ "set_values us @ [parent] @ bound_values f"] exI [of _ "length (set_values us)"])
      (simp add: nth_append)
qed

theorem nested_many_scoped_witness:
  "\<exists>s1 p1. delete_many_sql postgres ''posts'' ''author_id'' (FOr [FIsNull ''a'', FIsNull ''b'']) (VInt 1 :: unit filter_value)
       = Some (s1, p1) \<and> p1 ! 0 = VInt 1"
  using nested_many_scoped [of postgres postgres_lexis "FOr [FIsNull ''a'', FIsNull ''b'']" "''posts''" "''author_id''"
      "VInt 1 :: unit filter_value" "[]"]
  by (auto simp: sql_dialects_def)

text \<open>
  An update without assignments: both forms of an \<open>UpdateOperation\<close> are refused before anything
  is sent, while an \<open>UpdateManyOperation\<close>, which has no such guard, sends a statement whose
  \<^verbatim>\<open>SET\<close> list is empty; so does an upsert that carries nested writes.
\<close>

theorem empty_update:
  "up_exec d table pk_col \<lparr>up_filter = f, up_updates = [], up_select = sel\<rparr> nested
     = Direct (fail (empty_updates_error table))
 \<and> up_exec_one d table \<lparr>up_filter = f, up_updates = [], up_select = sel\<rparr> nested
     = Direct (fail (empty_updates_error table))
 \<and> um_exec d table \<lparr>um_filter = FNone, um_updates = []\<rparr>
     = Direct (ExecuteRaw (''UPDATE '' @ table @ '' SET '') [] ok)
 \<and> us_update_sql (us_where us_new FNone) table d = Some (''UPDATE '' @ table @ '' SET '', [])"
  by (simp add: up_exec_def up_exec_one_def um_exec_def um_build_sql_def us_update_sql_def us_where_def us_new_def
      us_assignments_def update_sql_def)

end
