(* ===== verification/Update_Semantics.thy ===== *)
theory Update_Semantics
  imports Nested_Statements
begin

text \<open>
  What an \<^verbatim>\<open>UPDATE\<close> means to the database that receives it: a reader of the text, for the
  statements that set one column of a table under a conjunction of comparisons with parameters,
  and the effect of such a statement on a table of children, a map from their keys to their
  foreign keys.  Both are specifications after the documented syntax and semantics of SQL
  (three-valued comparisons, positional markers) and know nothing of the builders; the statements
  of the nested writes are shown to read as what they mean.
\<close>

subsection \<open>Reading a statement\<close>

datatype update_value = To_Slot nat | To_Null

datatype row_condition =
    Eq string nat
  | Among string "nat list"
  | Not_Among string "nat list"

datatype update_statement = Update string string update_value "row_condition list"

text \<open>A marker without a number stands for the parameter of its position.\<close>

fun number_marks :: "nat \<Rightarrow> token list \<Rightarrow> token list" where
  "number_marks i [] = []"
| "number_marks i (TMark m # ts) = TMark (Some (case m of None \<Rightarrow> i | Some n \<Rightarrow> n)) # number_marks (Suc i) ts"
| "number_marks i (x # ts) = x # number_marks i ts"

fun strip_text :: "string \<Rightarrow> token list \<Rightarrow> token list option" where
  "strip_text [] ts = Some ts"
| "strip_text (c # s) (TChar c' # ts) = (if c = c' then strip_text s ts else None)"
| "strip_text (c # s) _ = None"

lemma strip_text_length: "strip_text s ts = Some r \<Longrightarrow> length r + length s = length ts"
  by (induction s ts rule: strip_text.induct) (auto split: if_splits)

lemma strip_text_map [simp]: "strip_text s (map TChar s @ ts) = Some ts"
  by (induction s) simp_all

fun read_name :: "token list \<Rightarrow> (string \<times> token list) option" where
  "read_name (TIdent i # ts) = Some (i, ts)"
| "read_name _ = None"

fun read_value :: "token list \<Rightarrow> (update_value \<times> token list) option" where
  "read_value (TMark (Some n) # ts) = Some (To_Slot n, ts)"
| "read_value ts = map_option (\<lambda>r. (To_Null, r)) (strip_text ''NULL'' ts)"

text \<open>The markers of an \<^verbatim>\<open>IN\<close> list, up to its closing parenthesis.\<close>

function read_slots :: "token list \<Rightarrow> (nat list \<times> token list) option" where
  "read_slots [] = None"
| "read_slots (x # ts) =
     (case x of
        TMark (Some n) \<Rightarrow>
          (case strip_text '', '' ts of
             Some r \<Rightarrow> map_option (\<lambda>(ns, q). (n # ns, q)) (read_slots r)
           | None \<Rightarrow> map_option (\<lambda>q. ([n], q)) (strip_text '')'' ts))
      | _ \<Rightarrow> None)"
  by pat_completeness auto
termination
  by (relation "measure length") (auto dest: strip_text_length)

definition read_condition :: "token list \<Rightarrow> (row_condition \<times> token list) option" where
  "read_condition ts =
     do {
       (c, r) \<leftarrow> read_name ts;
       case strip_text '' = '' r of
         Some q \<Rightarrow> (case q of TMark (Some n) # q' \<Rightarrow> Some (Eq c n, q') | _ \<Rightarrow> None)
       | None \<Rightarrow> (case strip_text '' IN ('' r of
           Some q \<Rightarrow> map_option (\<lambda>(ns, q'). (Among c ns, q')) (read_slots q)
         | None \<Rightarrow> do {
             q \<leftarrow> strip_text '' NOT IN ('' r;
             map_option (\<lambda>(ns, q'). (Not_Among c ns, q')) (read_slots q)
           })
     }"

lemma read_slots_length: "read_slots ts = Some (ns, q) \<Longrightarrow> length q \<le> length ts"
proof (induction ts arbitrary: ns q rule: read_slots.induct)
  case (2 x ts)
  then show ?case
    by (fastforce split: token.splits option.splits dest: strip_text_length)
qed simp

lemma read_condition_length: "read_condition ts = Some (c, q) \<Longrightarrow> length q \<le> length ts"
  by (cases ts rule: read_name.cases)
     (auto simp: read_condition_def bind_eq_Some_conv split: option.splits list.splits token.splits
        dest!: strip_text_length read_slots_length)

function read_conditions :: "token list \<Rightarrow> row_condition list option" where
  "read_conditions ts =
     (case read_condition ts of
        None \<Rightarrow> None
      | Some (c, []) \<Rightarrow> Some [c]
      | Some (c, q) \<Rightarrow> (case strip_text '' AND '' q of None \<Rightarrow> None | Some r \<Rightarrow> map_option (Cons c) (read_conditions r)))"
  by pat_completeness auto
termination
  by (relation "measure length") (auto dest!: strip_text_length read_condition_length)

declare read_conditions.simps [simp del]

definition parse_update :: "token list \<Rightarrow> update_statement option" where
  "parse_update ts =
     do {
       ts \<leftarrow> strip_text ''UPDATE '' ts; (t, ts) \<leftarrow> read_name ts;
       ts \<leftarrow> strip_text '' SET '' ts; (c, ts) \<leftarrow> read_name ts;
       ts \<leftarrow> strip_text '' = '' ts; (v, ts) \<leftarrow> read_value ts;
       ts \<leftarrow> strip_text '' WHERE '' ts; cs \<leftarrow> read_conditions ts;
       Some (Update t c v cs)
     }"

definition read_update :: "lexis \<Rightarrow> string \<Rightarrow> update_statement option" where
  "read_update lx sql = Option.bind (lex_sql lx sql) (parse_update \<circ> number_marks 1)"

subsection \<open>What a statement does\<close>

fun condition_column :: "row_condition \<Rightarrow> string" where
  "condition_column (Eq c _) = c"
| "condition_column (Among c _) = c"
| "condition_column (Not_Among c _) = c"

fun condition_slots :: "row_condition \<Rightarrow> nat list" where
  "condition_slots (Eq _ n) = [n]"
| "condition_slots (Among _ ns) = ns"
| "condition_slots (Not_Among _ ns) = ns"

fun value_slots :: "update_value \<Rightarrow> nat list" where
  "value_slots (To_Slot n) = [n]"
| "value_slots To_Null = []"

text \<open>
  The statement speaks of no column but the two of the table, and of no parameter but those sent.
\<close>

definition within :: "string \<Rightarrow> string \<Rightarrow> 'j filter_value list \<Rightarrow> update_value \<Rightarrow> row_condition list \<Rightarrow> bool" where
  "within fk k params v cs \<longleftrightarrow>
     list_all (\<lambda>c. condition_column c \<in> {fk, k}) cs
     \<and> list_all (\<lambda>n. 1 \<le> n \<and> n \<le> length params) (value_slots v @ concat (map condition_slots cs))"

definition slot :: "'j filter_value list \<Rightarrow> nat \<Rightarrow> 'j filter_value" where
  "slot params n = params ! (n - 1)"

text \<open>A comparison with \<^verbatim>\<open>NULL\<close> is not true, whatever the other side.\<close>

fun is_true :: "'j filter_value list \<Rightarrow> (string \<Rightarrow> 'j filter_value) \<Rightarrow> row_condition \<Rightarrow> bool" where
  "is_true params row (Eq c n) \<longleftrightarrow> row c \<noteq> VNull \<and> row c = slot params n"
| "is_true params row (Among c ns) \<longleftrightarrow> row c \<noteq> VNull \<and> row c \<in> slot params ` set ns"
| "is_true params row (Not_Among c ns) \<longleftrightarrow> row c \<noteq> VNull \<and> VNull \<notin> slot params ` set ns \<and> row c \<notin> slot params ` set ns"

fun new_value :: "'j filter_value list \<Rightarrow> update_value \<Rightarrow> 'j filter_value" where
  "new_value params (To_Slot n) = slot params n"
| "new_value params To_Null = VNull"

definition matched ::
  "string \<Rightarrow> 'j filter_value list \<Rightarrow> row_condition list \<Rightarrow> ('j filter_value \<rightharpoonup> 'j filter_value) \<Rightarrow> 'j filter_value set" where
  "matched fk params cs m = {x. \<exists>p. m x = Some p \<and> list_all (is_true params (\<lambda>c. if c = fk then p else x)) cs}"

definition updated ::
  "string \<Rightarrow> 'j filter_value list \<Rightarrow> update_value \<Rightarrow> row_condition list
     \<Rightarrow> ('j filter_value \<rightharpoonup> 'j filter_value) \<Rightarrow> 'j filter_value \<rightharpoonup> 'j filter_value" where
  "updated fk params v cs m = (\<lambda>x. if x \<in> matched fk params cs m then Some (new_value params v) else m x)"

text \<open>
  The answer: the number of rows that match or, where the connection does not ask for those, of
  the rows that the statement changed.
\<close>

definition affected ::
  "bool \<Rightarrow> string \<Rightarrow> 'j filter_value list \<Rightarrow> update_value \<Rightarrow> row_condition list
     \<Rightarrow> ('j filter_value \<rightharpoonup> 'j filter_value) \<Rightarrow> nat" where
  "affected found_rows fk params v cs m =
     card {x \<in> matched fk params cs m. found_rows \<or> m x \<noteq> Some (new_value params v)}"

lemma updated_dom [simp]: "dom (updated fk params v cs m) = dom m"
  by (auto simp: updated_def matched_def split: if_splits)

subsection \<open>The statements that move children\<close>

text \<open>The markers of a statement whose slots are numbered in order read as these numbers.\<close>

lemma number_marks_marker [simp]:
  "i = n \<Longrightarrow> (case marker lx n of None \<Rightarrow> i | Some m \<Rightarrow> m) = n"
  by (simp add: marker_def)

lemma number_marks_chars [simp]: "number_marks i (map TChar s @ ts) = map TChar s @ number_marks i ts"
  by (induction s) simp_all

lemma comma_separated_Cons:
  "comma_separated (x # xs) = (if xs = [] then x else x @ map TChar '', '' @ comma_separated xs)"
  by (simp add: comma_separated_def)

lemma number_marks_slots:
  "number_marks i (comma_separated (map (\<lambda>n. [TMark (marker lx n)]) [i..<i + j]) @ ts)
     = comma_separated (map (\<lambda>n. [TMark (Some n)]) [i..<i + j]) @ number_marks (i + j) ts"
proof (induction j arbitrary: i)
  case (Suc j)
  have "[i..<i + Suc j] = i # [Suc i..<Suc i + j]" by (simp add: upt_conv_Cons del: upt_Suc)
  with Suc [of "Suc i"] show ?case by (simp add: comma_separated_Cons del: upt_Suc)
qed simp

lemma number_marks_later:
  "number_marks (Suc (Suc 0)) (comma_separated (map (\<lambda>n. [TMark (marker lx n)]) (later_slots n)) @ ts)
     = comma_separated (map (\<lambda>n. [TMark (Some n)]) (later_slots n)) @ number_marks (n + 2) ts"
  using number_marks_slots [of 2 lx n ts] by (simp add: later_slots_def add.commute numeral_2_eq_2)

lemma read_slots_commas:
  "ns \<noteq> [] \<Longrightarrow> read_slots (comma_separated (map (\<lambda>n. [TMark (Some n)]) ns) @ TChar CHR '')'' # ts) = Some (ns, ts)"
  by (induction ns) (simp_all add: comma_separated_Cons)

lemma later_slots_some: "n > 0 \<Longrightarrow> later_slots n \<noteq> []"
  by (simp add: later_slots_def)

context sql_statements
begin

lemma reads:
  "sql = spelling ps \<Longrightarrow> well_spelt ps \<Longrightarrow> parse_update (number_marks 1 (tokens_of ps)) = Some u
     \<Longrightarrow> read_update lx sql = Some u"
  using lexes_whole [OF spelling_lexes] by (simp add: read_update_def)

lemmas parse_simps = parse_update_def read_condition_def read_conditions.simps number_marks_later read_slots_commas

lemma connect_reads:
  "\<exists>sql. connect_sql d t fk k = Some sql \<and> read_update lx sql = Some (Update t fk (To_Slot 1) [Eq k 2])"
  by (intro exI conjI, simp add: connect_sql_def quote_ident placeholder,
      rule reads [of _ "[Text ''UPDATE '', Name t, Text '' SET '', Name fk, Text '' = '', Slot_Mark 1,
        Text '' WHERE '', Name k, Text '' = '', Slot_Mark 2]"])
     (simp_all add: spelt parse_simps)

lemma disconnect_reads:
  "\<exists>sql. disconnect_sql d t fk k = Some sql \<and> read_update lx sql = Some (Update t fk To_Null [Eq k 1])"
  by (intro exI conjI, simp add: disconnect_sql_def quote_ident placeholder,
      rule reads [of _ "[Text ''UPDATE '', Name t, Text '' SET '', Name fk, Text '' = NULL WHERE '', Name k,
        Text '' = '', Slot_Mark 1]"])
     (simp_all add: spelt parse_simps)

lemma clear_children_reads:
  "\<exists>sql. clear_children_sql d t fk = Some sql \<and> read_update lx sql = Some (Update t fk To_Null [Eq fk 1])"
  by (intro exI conjI, simp add: clear_children_sql_def quote_ident placeholder,
      rule reads [of _ "[Text ''UPDATE '', Name t, Text '' SET '', Name fk, Text '' = NULL WHERE '', Name fk,
        Text '' = '', Slot_Mark 1]"])
     (simp_all add: spelt parse_simps)

lemma release_others_reads:
  "n > 0 \<Longrightarrow> \<exists>sql. release_others_sql d t fk k n = Some sql
     \<and> read_update lx sql = Some (Update t fk To_Null [Eq fk 1, Not_Among k (later_slots n)])"
  by (intro exI conjI, simp add: release_others_sql_def quote_ident placeholder key_slots_Some,
      rule reads [of _ "[Text ''UPDATE '', Name t, Text '' SET '', Name fk, Text '' = NULL WHERE '', Name fk,
        Text '' = '', Slot_Mark 1, Text '' AND '', Name k, Text '' NOT IN ('', slots_part n, Text '')'']"])
     (simp_all add: spelt lexes_slots parse_simps later_slots_some)

lemma connect_batch_reads:
  "n > 0 \<Longrightarrow> \<exists>sql. connect_batch_sql d t fk k n = Some sql
     \<and> read_update lx sql = Some (Update t fk (To_Slot 1) [Among k (later_slots n)])"
  by (intro exI conjI, simp add: connect_batch_sql_def quote_ident placeholder key_slots_Some,
      rule reads [of _ "[Text ''UPDATE '', Name t, Text '' SET '', Name fk, Text '' = '', Slot_Mark 1,
        Text '' WHERE '', Name k, Text '' IN ('', slots_part n, Text '')'']"])
     (simp_all add: spelt lexes_slots parse_simps later_slots_some)

end

text \<open>The parameters after the parent's are the keys.\<close>

lemma slot_first [simp]: "slot (p # vs) (Suc 0) = p"
  by (simp add: slot_def)

lemma slot_second [simp]: "slot (p # v # vs) 2 = v"
  by (simp add: slot_def)

lemma later_slots_map: "later_slots n = map (\<lambda>i. i + 2) [0..<n]"
  unfolding later_slots_def using map_add_upt [of 2 n] by (simp only: add.commute)

lemma later_slots_values: "slot (p # vs) ` set (later_slots (length vs)) = set vs"
proof -
  have "slot (p # vs) ` set (later_slots (length vs)) = (!) vs ` {0..<length vs}"
    by (simp add: later_slots_map slot_def image_image del: upt_Suc)
  then show ?thesis by (auto simp: set_conv_nth)
qed

lemma later_slots_bound: "n \<in> set (later_slots m) \<longleftrightarrow> 2 \<le> n \<and> n \<le> Suc m"
  by (auto simp: later_slots_def)

end
