(* ===== verification/Nested_Effects.thy ===== *)
theory Nested_Effects
  imports Nested_Laws Update_Semantics
begin

text \<open>
  What nested writes do to the children.  A table of children is a map from keys to foreign keys;
  the locale \<open>child_table\<close> asks one thing of an engine that holds it: whatever the text of a
  statement, if it reads (\<open>read_update\<close>) as an \<^verbatim>\<open>UPDATE\<close> of the foreign keys, the engine does
  and answers what the statement means.  The builders do not occur in the law, so that what they
  write is part of what is proved.  The locale is interpreted on an engine that reads every
  statement it is sent.

  Values are compared as they are: a database whose collation or whose coercions identify
  different keys is outside the law, as is one that refuses a statement (a foreign key that is
  checked, a column that is \<^verbatim>\<open>NOT NULL\<close>, CQL, whose \<^verbatim>\<open>UPDATE\<close> has to name the key).
\<close>

text \<open>The children of the keys \<open>K\<close> are pointed at \<open>p\<close>; those of \<open>p\<close> that are not in \<open>K\<close> are released.\<close>

definition point_at :: "'k \<Rightarrow> 'k set \<Rightarrow> ('k \<rightharpoonup> 'k) \<Rightarrow> 'k \<rightharpoonup> 'k" where
  "point_at p K m = (\<lambda>x. if x \<in> K then map_option (\<lambda>_. p) (m x) else m x)"

definition release_from :: "'j filter_value \<Rightarrow> 'j filter_value set \<Rightarrow> ('j filter_value \<rightharpoonup> 'j filter_value) \<Rightarrow> 'j filter_value \<rightharpoonup> 'j filter_value" where
  "release_from p K m = (\<lambda>x. if x \<notin> K \<and> m x = Some p then Some VNull else m x)"

definition children_of :: "'k \<Rightarrow> ('k \<rightharpoonup> 'k) \<Rightarrow> 'k set" where
  "children_of p m = {x. m x = Some p}"

lemma point_at_dom [simp]: "dom (point_at p K m) = dom m"
  by (auto simp: point_at_def dom_def split: if_splits)

lemma point_at_point_at: "point_at p K (point_at p L m) = point_at p (K \<union> L) m"
  by (auto simp: point_at_def fun_eq_iff option.map_comp comp_def)

lemma point_at_missing: "x \<notin> dom m \<Longrightarrow> point_at p (insert x K) m = point_at p K m"
  by (auto simp: point_at_def fun_eq_iff)

lemma children_set: "p \<noteq> VNull \<Longrightarrow> children_of p (point_at p K (release_from p K m)) = K \<inter> dom m"
  by (auto simp: children_of_def point_at_def release_from_def dom_def split: if_splits)

text \<open>Connecting some children, and running nested writes one after the other.\<close>

definition connects :: "string \<Rightarrow> string \<Rightarrow> string \<Rightarrow> string \<Rightarrow> 'j filter_value list \<Rightarrow> 'j nested_write_op list" where
  "connects r t fk k vs = map (NwConnect r t fk k) vs"

fun one_by_one :: "dialect \<Rightarrow> 'j nested_write_op list \<Rightarrow> 'j filter_value \<Rightarrow> ('j, 'r, 'e, unit) session" where
  "one_by_one d [] p = ok ()"
| "one_by_one d (op # ops) p = and_next (nested_execute d op p) (\<lambda>_. one_by_one d ops p)"

text \<open>The keys a statement that points children at \<open>p\<close> counts, of those it names.\<close>

definition counted_keys :: "bool \<Rightarrow> 'k \<Rightarrow> ('k \<rightharpoonup> 'k) \<Rightarrow> 'k set" where
  "counted_keys found_rows p m = {x \<in> dom m. found_rows \<or> m x \<noteq> Some p}"

text \<open>The effects of the four statements, whose text \<open>Update_Semantics\<close> reads.\<close>

lemma connect_effect:
  assumes "fk \<noteq> k" and "VNull \<notin> dom m"
  shows "updated fk [p, v] (To_Slot 1) [Eq k 2] m = point_at p {v} m"
  using assms by (auto simp: updated_def matched_def point_at_def fun_eq_iff dom_def split: option.splits)

lemma batch_effect:
  assumes "fk \<noteq> k" and "VNull \<notin> dom m"
  shows "updated fk (p # vs) (To_Slot 1) [Among k (later_slots (length vs))] m = point_at p (set vs) m"
    and "affected found_rows fk (p # vs) (To_Slot 1) [Among k (later_slots (length vs))] m
      = card (set vs \<inter> counted_keys found_rows p m)"
proof -
  have m: "matched fk (p # vs) [Among k (later_slots (length vs))] m = set vs \<inter> dom m"
    using assms by (auto simp: matched_def later_slots_values dom_def)
  show "updated fk (p # vs) (To_Slot 1) [Among k (later_slots (length vs))] m = point_at p (set vs) m"
    by (auto simp: updated_def m point_at_def fun_eq_iff)
  have "{x \<in> set vs \<inter> dom m. found_rows \<or> m x \<noteq> Some p} = set vs \<inter> counted_keys found_rows p m"
    by (auto simp: counted_keys_def)
  then show "affected found_rows fk (p # vs) (To_Slot 1) [Among k (later_slots (length vs))] m
      = card (set vs \<inter> counted_keys found_rows p m)" by (simp add: affected_def m)
qed

lemma clear_effect:
  "p \<noteq> VNull \<Longrightarrow> updated fk [p] To_Null [Eq fk 1] m = release_from p {} m"
  by (auto simp: updated_def matched_def release_from_def fun_eq_iff)

lemma release_effect:
  assumes "fk \<noteq> k" and "VNull \<notin> dom m" and "VNull \<notin> set vs" and "p \<noteq> VNull"
  shows "updated fk (p # vs) To_Null [Eq fk 1, Not_Among k (later_slots (length vs))] m = release_from p (set vs) m"
  using assms by (auto simp: updated_def matched_def release_from_def fun_eq_iff later_slots_values dom_def)

lemma length_card_Int: "length vs = card (set vs \<inter> c) \<longleftrightarrow> distinct vs \<and> set vs \<subseteq> c"
proof
  assume l: "length vs = card (set vs \<inter> c)"
  have "card (set vs \<inter> c) \<le> card (set vs)" by (rule card_mono) auto
  with l card_length [of vs] have n: "card (set vs) = length vs" by linarith
  with l have "set vs \<inter> c = set vs" by (intro card_subset_eq) auto
  with n show "distinct vs \<and> set vs \<subseteq> c" using card_distinct by blast
qed (simp add: Int_absorb2 distinct_card)

locale child_table =
  fixes en :: "('j, 'r, 'e, 's) engine" and d :: dialect and lx :: lexis and t fk k :: string
    and found_rows :: bool and rows :: "'s \<Rightarrow> 'j filter_value \<rightharpoonup> 'j filter_value"
  assumes no_null_key: "VNull \<notin> dom (rows st)"
    and executes: "read_update lx sql = Some (Update t fk v cs) \<Longrightarrow> within fk k params v cs \<Longrightarrow>
      \<exists>st'. execute_raw en sql params st = (Inr (affected found_rows fk params v cs (rows st)), st')
        \<and> rows st' = updated fk params v cs (rows st)"
    and dialect: "(d, lx) \<in> set sql_dialects"
    and columns: "fk \<noteq> k"
begin

lemmas statements = sql_dialects_statements [OF dialect]

lemma within_connects:
  "within fk k [p, v] (To_Slot 1) [Eq k 2]" "within fk k [p] To_Null [Eq fk 1]"
  "within fk k (p # vs) (To_Slot 1) [Among k (later_slots (length vs))]"
  "within fk k (p # vs) To_Null [Eq fk 1, Not_Among k (later_slots (length vs))]"
  by (auto simp: within_def list_all_iff later_slots_bound)

lemma connect:
  obtains sql n st' where "connect_sql d t fk k = Some sql"
    and "execute_raw en sql [p, v] st = (Inr n, st')" and "rows st' = point_at p {v} (rows st)"
  using sql_statements.connect_reads [OF statements] executes [OF _ within_connects(1)]
    connect_effect [OF columns no_null_key] by metis

lemma batch:
  assumes "vs \<noteq> []"
  obtains sql st' where "connect_batch_sql d t fk k (length vs) = Some sql"
    and "execute_raw en sql (p # vs) st = (Inr (card (set vs \<inter> counted_keys found_rows p (rows st))), st')"
    and "rows st' = point_at p (set vs) (rows st)"
  using assms sql_statements.connect_batch_reads [OF statements, of "length vs"]
    executes [OF _ within_connects(3)] batch_effect [OF columns no_null_key] by (metis length_greater_0_conv)

lemma release_others:
  assumes "vs \<noteq> []" and "VNull \<notin> set vs" and "p \<noteq> VNull"
  obtains sql n st' where "release_others_sql d t fk k (length vs) = Some sql"
    and "execute_raw en sql (p # vs) st = (Inr n, st')" and "rows st' = release_from p (set vs) (rows st)"
  using assms sql_statements.release_others_reads [OF statements, of "length vs"]
    executes [OF _ within_connects(4)] release_effect [OF columns no_null_key] by (metis length_greater_0_conv)

lemma clear:
  assumes "p \<noteq> VNull"
  obtains sql n st' where "clear_children_sql d t fk = Some sql"
    and "execute_raw en sql [p] st = (Inr n, st')" and "rows st' = release_from p {} (rows st)"
  using assms sql_statements.clear_children_reads [OF statements]
    executes [OF _ within_connects(2)] clear_effect by metis

text \<open>Setting the children of a parent.\<close>

lemma set_children_run:
  assumes "p \<noteq> VNull" and "VNull \<notin> set vs"
  obtains st' where "run en (set_children d t fk k vs p) st = (Some (Inr ()), st')"
    and "rows st' = point_at p (set vs) (release_from p (set vs) (rows st))"
proof (cases "vs = []")
  case True
  obtain sql n st' where "clear_children_sql d t fk = Some sql"
    "execute_raw en sql [p] st = (Inr n, st')" "rows st' = release_from p {} (rows st)" by (rule clear [OF assms(1)])
  with True that [of st'] show thesis
    by (simp add: set_children_def with_params_def point_at_def)
next
  case False
  obtain a n st1 where 1: "release_others_sql d t fk k (length vs) = Some a"
    "execute_raw en a (p # vs) st = (Inr n, st1)" "rows st1 = release_from p (set vs) (rows st)"
    by (rule release_others [OF False assms(2,1)])
  obtain b st2 where 2: "connect_batch_sql d t fk k (length vs) = Some b"
    "execute_raw en b (p # vs) st1 = (Inr (card (set vs \<inter> counted_keys found_rows p (rows st1))), st2)"
    "rows st2 = point_at p (set vs) (rows st1)"
    by (rule batch [OF False])
  from False 1 2 that [of st2] show thesis by (simp add: set_children_def with_params_def)
qed

lemma one_by_one_run:
  "\<exists>st'. run en (one_by_one d (connects r t fk k vs) p) st = (Some (Inr ()), st') \<and> rows st' = point_at p (set vs) (rows st)"
proof (induction vs arbitrary: st)
  case Nil
  then show ?case by (simp add: connects_def point_at_def)
next
  case (Cons v vs)
  obtain sql n st1 where st1: "connect_sql d t fk k = Some sql"
    "execute_raw en sql [p, v] st = (Inr n, st1)" "rows st1 = point_at p {v} (rows st)" by (rule connect)
  obtain st2 where "run en (one_by_one d (connects r t fk k vs) p) st1 = (Some (Inr ()), st2)"
    "rows st2 = point_at p (set vs) (rows st1)" using Cons.IH by blast
  with st1 show ?case by (simp add: connects_def with_params_def point_at_point_at)
qed

lemma connects_target: "o' \<in> set (connects r t fk k vs) \<Longrightarrow> connect_target o' = Some (t, fk, k)"
  by (auto simp: connects_def connect_target_def)

lemma connects_keys: "concat (map connect_key (connects r t fk k vs)) = vs"
  by (induction vs) (simp_all add: connects_def connect_key_def)

lemma run_connects:
  assumes "length vs \<ge> 2"
  shows "\<exists>st'. run en (run_nested_ops d (connects r t fk k vs) p) st =
      (Some (if length vs = card (set vs \<inter> counted_keys found_rows p (rows st)) then Inr ()
        else Inl (batch_error t (length vs) (card (set vs \<inter> counted_keys found_rows p (rows st))))), st')
    \<and> rows st' = point_at p (set vs) (rows st)"
proof -
  obtain v w ws where vs: "vs = v # w # ws" using assms by (cases vs rule: remdups_adj.cases) auto
  then have "vs \<noteq> []" by simp
  obtain sql st' where sql: "connect_batch_sql d t fk k (length vs) = Some sql"
    and st': "execute_raw en sql (p # vs) st = (Inr (card (set vs \<inter> counted_keys found_rows p (rows st))), st')"
    "rows st' = point_at p (set vs) (rows st)" by (rule batch [OF \<open>vs \<noteq> []\<close>])
  let ?same = "\<lambda>o'. connect_target o' = Some (t, fk, k)"
  have tail: "takeWhile ?same (connects r t fk k (w # ws)) = connects r t fk k (w # ws)"
    "dropWhile ?same (connects r t fk k (w # ws)) = []"
    using connects_target by (auto simp: takeWhile_eq_all_conv dropWhile_eq_Nil_conv)
  have "run en (run_nested_ops d (connects r t fk k vs) p) st
      = run en (and_next (connect_batch d t fk k (connects r t fk k vs) p) (\<lambda>_. ok ())) st"
    using tail connects_target [of "NwConnect r t fk k v" r vs]
    by (simp add: vs Let_def connects_def)
  moreover have "length (connects r t fk k vs) = length vs" by (simp add: connects_def)
  ultimately show ?thesis using sql st'
    by (simp add: connect_batch_def Let_def with_params_def connects_keys and_next_ok)
qed

end

subsection \<open>An engine that reads its statements\<close>

definition held :: "('j filter_value \<rightharpoonup> 'j filter_value) \<Rightarrow> 'j filter_value \<rightharpoonup> 'j filter_value" where
  "held m = m |` (- {VNull})"

text \<open>Statements that are no \<^verbatim>\<open>UPDATE\<close> of the foreign keys are refused.\<close>

definition unknown_statement :: "'s \<Rightarrow> (unit query_error + 'a) \<times> 's" where
  "unknown_statement st = (Inl (database_error ''unknown statement''), st)"

definition child_execute ::
  "lexis \<Rightarrow> bool \<Rightarrow> string \<Rightarrow> string \<Rightarrow> string \<Rightarrow> string \<Rightarrow> 'j filter_value list \<Rightarrow> ('j filter_value \<rightharpoonup> 'j filter_value)
     \<Rightarrow> (unit query_error + nat) \<times> ('j filter_value \<rightharpoonup> 'j filter_value)" where
  "child_execute lx found_rows t fk k sql params m =
     (case read_update lx sql of
        Some (Update t' c v cs) \<Rightarrow>
          if t' = t \<and> c = fk \<and> within fk k params v cs
          then (Inr (affected found_rows fk params v cs (held m)), updated fk params v cs (held m))
          else unknown_statement m
      | None \<Rightarrow> unknown_statement m)"

definition child_engine ::
  "bool \<Rightarrow> lexis \<Rightarrow> bool \<Rightarrow> string \<Rightarrow> string \<Rightarrow> string \<Rightarrow> ('j, 'r, unit, 'j filter_value \<rightharpoonup> 'j filter_value) engine" where
  "child_engine tx lx found_rows t fk k = \<lparr>
     execute_raw = child_execute lx found_rows t fk k,
     execute_insert = (\<lambda>_ _. unknown_statement), execute_update = (\<lambda>_ _ m. (Inr [], m)),
     query_one = (\<lambda>_ _. unknown_statement), query_many = (\<lambda>_ _. unknown_statement),
     query_optional = (\<lambda>_ _. unknown_statement), execute_delete = (\<lambda>_ _. unknown_statement),
     count_rows = (\<lambda>_ _. unknown_statement), aggregate_query = (\<lambda>_ _. unknown_statement),
     refresh_view = (\<lambda>_ _. unknown_statement), real_transactions = tx\<rparr>"

lemma held_no_null: "VNull \<notin> dom (held m)"
  by (simp add: held_def)

lemma held_updated: "held (updated fk params v cs (held m)) = updated fk params v cs (held m)"
proof -
  have "VNull \<notin> dom (updated fk params v cs (held m))" by (simp add: held_no_null)
  then show ?thesis unfolding held_def by (auto simp: restrict_map_def fun_eq_iff dom_def)
qed

lemma child_engine_table:
  "(d, lx) \<in> set sql_dialects \<Longrightarrow> fk \<noteq> k \<Longrightarrow> child_table (child_engine tx lx found_rows t fk k) d lx t fk k found_rows held"
  by unfold_locales (simp_all add: held_no_null child_engine_def child_execute_def held_updated)

text \<open>PostgreSQL answers the rows that match; MySQL, unless it is asked otherwise, those that change.\<close>

interpretation pg_children: child_table "child_engine tx postgres_lexis True ''posts'' ''author_id'' ''id''"
  postgres postgres_lexis "''posts''" "''author_id''" "''id''" True held for tx
  by (rule child_engine_table) (simp_all add: sql_dialects_def)
interpretation my_children: child_table "child_engine tx mysql_lexis False ''posts'' ''author_id'' ''id''"
  mysql mysql_lexis "''posts''" "''author_id''" "''id''" False held for tx
  by (rule child_engine_table) (simp_all add: sql_dialects_def)

subsection \<open>Properties\<close>

text \<open>
  C13: On an engine that executes the statements it reads as SQL means them, a nested \<open>Set\<close> leaves
  the parent exactly the listed children that exist.  Every listed child is taken over, from
  another parent if it has one; the children of the parent that are not listed are released; no
  other child changes, and none appears or disappears.  The foreign key is not the key itself,
  and neither the parent's key nor a listed one is \<^verbatim>\<open>NULL\<close>.
\<close>

theorem nested_set_exact:
  assumes "child_table en d lx t fk k found_rows rows"
    and "p \<noteq> VNull" and "VNull \<notin> set vs"
  shows "\<exists>st'. run en (nested_execute d (NwSet r t fk k vs) p) st = (Some (Inr ()), st')
     \<and> children_of p (rows st') = set vs \<inter> dom (rows st)
     \<and> (\<forall>x. rows st' x = (case rows st x of None \<Rightarrow> None | Some q \<Rightarrow>
          Some (if x \<in> set vs then p else if q = p then VNull else q)))"
proof -
  obtain st' where st': "run en (set_children d t fk k vs p) st = (Some (Inr ()), st')"
    "rows st' = point_at p (set vs) (release_from p (set vs) (rows st))"
    by (rule child_table.set_children_run [OF assms])
  then have "children_of p (rows st') = set vs \<inter> dom (rows st)" using children_set [OF assms(2)] by simp
  moreover have "rows st' x = (case rows st x of None \<Rightarrow> None | Some q \<Rightarrow>
          Some (if x \<in> set vs then p else if q = p then VNull else q))" for x
    by (simp add: st'(2) point_at_def release_from_def split: option.splits)
  ultimately show ?thesis using st'(1) by auto
qed

theorem nested_set_exact_witness:
  "\<exists>m'. run (child_engine True postgres_lexis True ''posts'' ''author_id'' ''id'' :: (unit, unit, unit, _) engine)
      (nested_execute postgres (NwSet ''posts'' ''posts'' ''author_id'' ''id'' [VInt 2, VInt 3]) (VInt 1))
      [VInt 3 \<mapsto> VInt 9, VInt 4 \<mapsto> VInt 1] = (Some (Inr ()), m')
    \<and> children_of (VInt 1) (held m') = {VInt 3} \<and> held m' (VInt 4) = Some VNull"
proof -
  let ?m = "[VInt 3 \<mapsto> VInt 9, VInt 4 \<mapsto> VInt 1] :: unit filter_value \<rightharpoonup> unit filter_value"
  have "set [VInt 2, VInt 3] \<inter> dom (held ?m) = {VInt 3}" by (auto simp: held_def split: if_splits)
  moreover have "held ?m (VInt 4) = Some (VInt 1)" by (simp add: held_def)
  moreover have k: "VInt 1 \<noteq> (VNull :: unit filter_value)" "VNull \<notin> set [VInt 2, VInt 3 :: unit filter_value]" by simp_all
  obtain m' where "run (child_engine True postgres_lexis True ''posts'' ''author_id'' ''id'' :: (unit, unit, unit, _) engine)
      (nested_execute postgres (NwSet ''posts'' ''posts'' ''author_id'' ''id'' [VInt 2, VInt 3]) (VInt 1)) ?m = (Some (Inr ()), m')"
    "children_of (VInt 1) (held m') = set [VInt 2, VInt 3] \<inter> dom (held ?m)"
    "\<forall>x. held m' x = (case held ?m x of None \<Rightarrow> None | Some q \<Rightarrow>
          Some (if x \<in> set [VInt 2, VInt 3] then VInt 1 else if q = VInt 1 then VNull else q))"
    using nested_set_exact [OF pg_children.child_table_axioms [of True] k, of "''posts''" ?m] by (elim exE conjE)
  ultimately show ?thesis by (intro exI [of _ m']) simp
qed

text \<open>
  C14: On the same engines, batching consecutive connects gives the children that connecting them
  one after the other gives.  Only the answer differs: one after the other they always succeed,
  while the batch is an error exactly when a key is missing or repeated or, where the database
  counts the rows that change and not those that match, a child already is the parent's; inside a
  real transaction the batch that errs changes nothing.
\<close>

theorem connect_batch_equivalent:
  assumes "child_table en d lx t fk k found_rows rows" and "length vs \<ge> 2"
  shows "\<exists>st1 st2. run en (one_by_one d (connects r t fk k vs) p) st = (Some (Inr ()), st1)
     \<and> run en (run_nested_ops d (connects r t fk k vs) p) st =
        (Some (if distinct vs \<and> set vs \<subseteq> counted_keys found_rows p (rows st) then Inr ()
         else Inl (batch_error t (length vs) (card (set vs \<inter> counted_keys found_rows p (rows st))))), st2)
     \<and> rows st1 = rows st2
     \<and> (real_transactions en \<and> \<not> (distinct vs \<and> set vs \<subseteq> counted_keys found_rows p (rows st)) \<longrightarrow>
          run_transaction en (run_nested_ops d (connects r t fk k vs) p) st
            = (Some (Inl (batch_error t (length vs) (card (set vs \<inter> counted_keys found_rows p (rows st))))), st))"
proof -
  let ?c = "counted_keys found_rows p (rows st)"
  obtain st1 where st1: "run en (one_by_one d (connects r t fk k vs) p) st = (Some (Inr ()), st1)"
    "rows st1 = point_at p (set vs) (rows st)" using child_table.one_by_one_run [OF assms(1)] by blast
  obtain st2 where st2: "run en (run_nested_ops d (connects r t fk k vs) p) st =
      (Some (if length vs = card (set vs \<inter> ?c) then Inr () else Inl (batch_error t (length vs) (card (set vs \<inter> ?c)))), st2)"
    "rows st2 = point_at p (set vs) (rows st)" using child_table.run_connects [OF assms] by blast
  have "length vs = card (set vs \<inter> ?c) \<longleftrightarrow> distinct vs \<and> set vs \<subseteq> ?c"
    by (rule length_card_Int)
  with st1 st2 show ?thesis by (auto simp: run_transaction_def)
qed

theorem connect_batch_equivalent_witness:
  "\<exists>m1 m2. run (child_engine True mysql_lexis False ''posts'' ''author_id'' ''id'' :: (unit, unit, unit, _) engine)
      (one_by_one mysql (connects ''posts'' ''posts'' ''author_id'' ''id'' [VInt 3, VInt 4]) (VInt 1))
      [VInt 3 \<mapsto> VInt 9, VInt 4 \<mapsto> VInt 1] = (Some (Inr ()), m1)
    \<and> run_transaction (child_engine True mysql_lexis False ''posts'' ''author_id'' ''id'' :: (unit, unit, unit, _) engine)
      (run_nested_ops mysql (connects ''posts'' ''posts'' ''author_id'' ''id'' [VInt 3, VInt 4]) (VInt 1))
      [VInt 3 \<mapsto> VInt 9, VInt 4 \<mapsto> VInt 1] = (Some (Inl (batch_error ''posts'' 2 1)), m2)"
proof -
  let ?m = "[VInt 3 \<mapsto> VInt 9, VInt 4 \<mapsto> VInt 1] :: unit filter_value \<rightharpoonup> unit filter_value"
  have t: "real_transactions (child_engine True mysql_lexis False ''posts'' ''author_id'' ''id'' :: (unit, unit, unit, _) engine)"
    by (simp add: child_engine_def)
  have "VInt 4 \<notin> counted_keys False (VInt 1) (held ?m)" "VInt 3 \<in> counted_keys False (VInt 1) (held ?m)"
    by (simp_all add: counted_keys_def held_def)
  then have c: "card (set [VInt 3, VInt 4] \<inter> counted_keys False (VInt 1) (held ?m)) = 1"
    "\<not> (distinct [VInt 3, VInt 4] \<and> set [VInt 3, VInt 4] \<subseteq> counted_keys False (VInt 1) (held ?m))"
    by (simp_all add: Int_insert_left)
  have "length [VInt 3, VInt 4 :: unit filter_value] \<ge> 2" by simp
  note eq = connect_batch_equivalent [OF my_children.child_table_axioms [of True] this, of "''posts''" "VInt 1" ?m, unfolded c(1)]
  from eq obtain m1 m2 where "run (child_engine True mysql_lexis False ''posts'' ''author_id'' ''id'' :: (unit, unit, unit, _) engine)
      (one_by_one mysql (connects ''posts'' ''posts'' ''author_id'' ''id'' [VInt 3, VInt 4]) (VInt 1)) ?m = (Some (Inr ()), m1)"
    and "run_transaction (child_engine True mysql_lexis False ''posts'' ''author_id'' ''id'' :: (unit, unit, unit, _) engine)
      (run_nested_ops mysql (connects ''posts'' ''posts'' ''author_id'' ''id'' [VInt 3, VInt 4]) (VInt 1)) ?m
        = (Some (Inl (batch_error ''posts'' (length [VInt 3, VInt 4 :: unit filter_value]) 1)), m2)"
    by (elim exE conjE) (drule mp [OF _ conjI [OF t c(2)]])
  moreover have "length [VInt 3, VInt 4 :: unit filter_value] = 2" by simp
  ultimately show ?thesis by metis
qed

text \<open>
  An update with nested writes runs them although its own statement changed no row: the
  children are pointed at a parent that does not exist, and the operation answers \<^verbatim>\<open>Ok\<close> with no
  record.
\<close>

theorem update_without_parent:
  assumes "child_table en d lx t fk k found_rows rows"
    and "up_filter op = FEquals pk_col p" and "up_updates op \<noteq> []"
    and "up_build_sql op parents d = Some (sql, params)" and "execute_update en sql params st = (Inr [], st)"
  shows "\<exists>st'. serve en (up_exec d parents pk_col op [NwConnect r t fk k v]) st = (Some (Inr []), st')
     \<and> rows st' = point_at p {v} (rows st)"
proof -
  obtain c n st' where st': "connect_sql d t fk k = Some c" "execute_raw en c [p, v] st = (Inr n, st')"
    "rows st' = point_at p {v} (rows st)" by (rule child_table.connect [OF assms(1)])
  then have "run en (run_nested_ops d [NwConnect r t fk k v] p) st = (Some (Inr ()), st')"
    by (simp add: connect_target_def Let_def with_params_def)
  with st'(3) assms(2-5) show ?thesis
    by (simp add: up_exec_def extract_pk_from_filter_def run_transaction_def run_and_next del: run_nested_ops.simps)
qed

theorem update_without_parent_witness:
  "\<exists>m'. serve (child_engine True postgres_lexis True ''posts'' ''author_id'' ''id'' :: (unit, unit, unit, _) engine)
      (up_exec postgres ''users'' ''id'' (up_set (up_where up_new (FEquals ''id'' (VInt 1))) ''name'' VNull)
        [NwConnect ''posts'' ''posts'' ''author_id'' ''id'' (VInt 3)])
      [VInt 3 \<mapsto> VInt 9] = (Some (Inr []), m') \<and> held m' (VInt 3) = Some (VInt 1)"
proof -
  let ?op = "up_set (up_where up_new (FEquals ''id'' (VInt 1))) ''name'' VNull :: unit update_op"
  let ?m = "[VInt 3 \<mapsto> VInt 9] :: unit filter_value \<rightharpoonup> unit filter_value"
  have "up_build_sql ?op ''users'' postgres \<noteq> None" by code_simp
  then obtain sql params where b: "up_build_sql ?op ''users'' postgres = Some (sql, params)" by auto
  have "point_at (VInt 1) {VInt 3} (held ?m) (VInt 3) = Some (VInt 1)" by (simp add: point_at_def held_def)
  moreover have "up_filter ?op = FEquals ''id'' (VInt 1)" "up_updates ?op \<noteq> []"
    by (simp_all add: up_set_def up_where_def up_new_def and_then_def)
  moreover have "execute_update (child_engine True postgres_lexis True ''posts'' ''author_id'' ''id'' :: (unit, unit, unit, _) engine)
      sql params ?m = (Inr [], ?m)" by (simp add: child_engine_def)
  ultimately show ?thesis
    using update_without_parent [OF pg_children.child_table_axioms, where op = ?op
        and parents = "''users''" and pk_col = "''id''" and p = "VInt 1" and v = "VInt 3" and r = "''posts''" and st = ?m] b
    by fastforce
qed

end
