(* ===== verification/Upsert_Statements.thy ===== *)
theory Upsert_Statements
  imports Nested_Statements
begin

text \<open>
  Correctness of \<open>UpsertOperation\<close> on its single-statement path: the markers run through the
  inserted values and the assignments, the guard leaves no assignment without a conflict target,
  and the dialects that have no clause for the assignments still bind their values.
\<close>

definition has_upsert_clause :: "dialect \<Rightarrow> bool" where
  "has_upsert_clause d = (upsert_clause d [''c''] ''s'' \<noteq> Some [])"

lemma upsert_clause_empty:
  assumes "(d, lx) \<in> set sql_dialects"
  shows "upsert_clause d cs s = Some [] \<longleftrightarrow> \<not> has_upsert_clause d"
  using assms by (auto simp: sql_dialects_def has_upsert_clause_def dialect_defs on_conflict_cols_def)

lemma has_upsert_clause_dialects:
  "has_upsert_clause postgres" "has_upsert_clause sqlite" "has_upsert_clause mysql"
  "\<not> has_upsert_clause mssql" "\<not> has_upsert_clause cql"
  by (simp_all add: has_upsert_clause_def dialect_defs on_conflict_cols_def)

lemma us_assignments_values:
  "us_assignments op = [] \<longleftrightarrow> us_update_ops op = [] \<and> (us_update_columns op = [] \<or> us_update_values op = [])"
  by (simp add: us_assignments_def)

text \<open>What the guard lets through has a conflict target for its assignments.\<close>

lemma validate_fast_path_target:
  assumes "validate_fast_path op = (None :: 'e query_error option)"
    and "us_assignments op \<noteq> []"
  shows "us_conflict_cols op \<noteq> []"
proof (cases "us_conflict_columns op = []")
  case True
  have "us_update_ops op \<noteq> [] \<or> us_update_columns op \<noteq> []" using assms(2) by (auto simp: us_assignments_values)
  then obtain cols where "conflict_cols_from_filter (us_filter op) = Some cols"
    using assms(1) True by (auto simp: validate_fast_path_def split: if_splits)
  moreover from this have "cols \<noteq> []"
    by (auto simp: conflict_cols_from_filter_def split: filter.splits option.splits if_splits)
  ultimately show ?thesis using True by (simp add: us_conflict_cols_def)
qed (simp add: us_conflict_cols_def)

lemma to_set_fragment_nonempty: "fst (to_set_fragment op c p) \<noteq> []"
  by (cases op) simp_all

lemma set_parts_empty:
  "set_parts d us idx ps = Some (parts, r) \<Longrightarrow> join '', '' parts = [] \<longleftrightarrow> us = []"
proof (cases us)
  case (Cons u us')
  obtain c op where u: "u = (c, op)" by (cases u)
  assume "set_parts d us idx ps = Some (parts, r)"
  then obtain p where "placeholder d idx = Some p" "\<exists>rest. parts = fst (to_set_fragment op c p) # rest"
    by (cases "placeholder d idx"; cases "to_set_fragment op c (the (placeholder d idx))")
       (auto simp: Cons u bind_eq_Some_conv)
  then show ?thesis using to_set_fragment_nonempty [of op c p] by (auto simp: Cons join_Cons split: if_splits)
qed auto

context sql_upserts
begin

lemma conflict_suffix_yields:
  assumes "yields s [] ms"
  shows "\<exists>c is. us_conflict_suffix d cs s targetless ii = Some c \<and> ends_filter c \<and> set is \<subseteq> set cs
     \<and> yields c is (if s = [] \<or> upsert_clause d cs s = Some [] then [] else ms)"
proof (cases "s = []")
  case True
  show ?thesis
  proof (cases "cs = []")
    case True
    have "raw_text lx '' ON CONFLICT DO NOTHING''" by (rule raw_stmt) (simp add: stmt_chars_def)
    from yields_raw [OF this] have "yields '' ON CONFLICT DO NOTHING'' [] []" .
    moreover have "ends_filter '' ON CONFLICT DO NOTHING''" by simp
    moreover have "yields [] [] []" using yields_raw [of "[]"] by simp
    moreover have "us_conflict_suffix d cs s targetless ii
        = Some (if ii then [] else if targetless = [] then [] else '' ON CONFLICT DO NOTHING'')"
      using \<open>s = []\<close> True by (simp add: us_conflict_suffix_def)
    ultimately show ?thesis
      by (intro exI [of _ "if ii \<or> targetless = [] then [] else '' ON CONFLICT DO NOTHING''"] exI [of _ "[] :: string list"])
        (simp add: \<open>s = []\<close>)
  next
    case False
    from nothing_clause [OF this] obtain c us where c: "upsert_do_nothing_clause d cs = Some c" "ends_filter c"
      "set (idents us) \<subseteq> set cs" and "lexes c us" "marks us = []" by blast
    then have "yields c (idents us) []" by (auto simp: yields_def)
    with c show ?thesis
      by (intro exI [of _ c] exI [of _ "idents us"]) (simp add: us_conflict_suffix_def False \<open>s = []\<close>)
  qed
next
  case False
  obtain ts where ts: "lexes s ts" "idents ts = []" "marks ts = ms" using assms(1) by (auto simp: yields_def)
  from upsert_clause [OF ts(1), of cs] obtain c us where c: "upsert_clause d cs s = Some c"
    "c = [] \<or> lexes c us \<and> ends_filter c \<and> marks us = marks ts \<and> set (idents us) \<subseteq> set cs \<union> set (idents ts)" by blast
  show ?thesis
  proof (cases "c = []")
    case True
    with c(1) False yields_raw [of "[]"] show ?thesis by (auto simp: us_conflict_suffix_def intro: exI [of _ "[]"])
  next
    case nonempty: False
    with c(2) ts have "yields c (idents us) ms" "set (idents us) \<subseteq> set cs" "ends_filter c" by (auto simp: yields_def)
    with c(1) False nonempty show ?thesis by (auto simp: us_conflict_suffix_def)
  qed
qed

lemma us_build_sql_renders:
  assumes "raw_text lx table" and "list_all (raw_text lx) (us_create_columns op)"
    and "list_all (raw_text lx \<circ> fst) (us_assignments op)" and "raw_text lx (sel_to_sql (us_select op))"
  shows "\<exists>sql is upd. us_build_sql op table d = Some (sql, us_create_values op @ set_values (us_assignments op))
     \<and> set is \<subseteq> set (us_conflict_cols op)
     \<and> yields sql is (map nm [1..<Suc (length (us_create_values op)
          + (if upsert_clause d (us_conflict_cols op) upd = Some [] then 0 else length (set_values (us_assignments op))))])
     \<and> (us_assignments op \<noteq> [] \<longrightarrow> (\<exists>s c ret. s \<noteq> [] \<and> upsert_clause d (us_conflict_cols op) s = Some c
          \<and> sql = ''INSERT INTO '' @ table @ '' ('' @ join '', '' (us_create_columns op) @ '')'' @ '' VALUES ''
              @ (''('' @ join '', '' (map ph [1..<length (us_create_values op) + 1]) @ '')'') @ c @ ret))"
proof -
  let ?cs = "us_conflict_cols op" and ?us = "us_assignments op" and ?vs = "us_create_values op"
  let ?n = "length ?vs"
  obtain tl where tl: "upsert_do_nothing_clause d [] = Some tl" using do_nothing by fastforce
  define ii where "ii \<longleftrightarrow> us_update_ops op = [] \<and> us_update_columns op = [] \<and> ?cs = [] \<and> prefix '' ON DUPLICATE KEY'' tl"
  obtain parts where parts: "set_parts d ?us (?n + 1) ?vs = Some (parts, ?n + 1 + length (set_values ?us), ?vs @ set_values ?us)"
    "yields (join '', '' parts) [] (map nm [?n + 1..<?n + 1 + length (set_values ?us)])"
    using set_parts_renders [OF assms(3)] by blast
  let ?s = "join '', '' parts"
  have empty: "?s = [] \<longleftrightarrow> ?us = []" using set_parts_empty [OF parts(1)] .
  obtain c ids where c: "us_conflict_suffix d ?cs ?s tl ii = Some c" "ends_filter c" "set ids \<subseteq> set ?cs"
    "yields c ids (if ?s = [] \<or> upsert_clause d ?cs ?s = Some [] then [] else map nm [?n + 1..<?n + 1 + length (set_values ?us)])"
    using conflict_suffix_yields [OF parts(2), of ?cs tl ii] empty by auto
  obtain ret where ret: "returning_clause d (sel_to_sql (us_select op)) = Some ret" "raw_text lx ret" "ends_filter ret"
    using returning [OF assms(4)] by blast
  define h where "h = (if ii then ''INSERT IGNORE INTO '' else ''INSERT INTO '') @ table
     @ '' ('' @ join '', '' (us_create_columns op) @ '')'' @ '' VALUES ''"
  have "raw_text lx ''INSERT INTO ''" "raw_text lx ''INSERT IGNORE INTO ''" "raw_text lx '' (''" "raw_text lx '')''"
    "raw_text lx '' VALUES ''" by (rule raw_stmt, simp add: stmt_chars_def)+
  with assms(1,2) raw_comma have h: "raw_text lx h" by (auto simp: h_def raw_text_join)
  have "ends_filter (c @ ret)" using c(2) ret(3) by (cases "c = []") (auto intro: ends_filter_appendI)
  note all = yields_raw_append [OF h yields_append [OF yields_group [of "[1..<?n + 1]"] yields_append_raw [OF c(4) ret(2,3)] this]]
  let ?m = "if upsert_clause d ?cs ?s = Some [] then 0 else length (set_values ?us)"
  have "map nm [1..<?n + 1] @ (if ?s = [] \<or> upsert_clause d ?cs ?s = Some [] then []
      else map nm [?n + 1..<?n + 1 + length (set_values ?us)]) = map nm [1..<Suc (?n + ?m)]"
    using upt_add_eq_append [of 1 "?n + 1" "length (set_values ?us)"] empty by (simp del: upt_Suc flip: map_append)
  with all have "yields (h @ (''('' @ join '', '' (map ph [1..<?n + 1]) @ '')'') @ c @ ret) ids (map nm [1..<Suc (?n + ?m)])"
    by simp
  moreover have "us_build_sql op table d = Some (h @ (''('' @ join '', '' (map ph [1..<?n + 1]) @ '')'') @ c @ ret, ?vs @ set_values ?us)"
    using tl parts(1) c(1) ret(1)
    by (simp add: us_build_sql_def Let_def those_placeholders h_def ii_def del: upt_Suc)
  moreover have "\<exists>s c' ret'. s \<noteq> [] \<and> upsert_clause d ?cs s = Some c'
      \<and> h @ (''('' @ join '', '' (map ph [1..<?n + 1]) @ '')'') @ c @ ret
        = ''INSERT INTO '' @ table @ '' ('' @ join '', '' (us_create_columns op) @ '')'' @ '' VALUES ''
          @ (''('' @ join '', '' (map ph [1..<?n + 1]) @ '')'') @ c' @ ret'" if "?us \<noteq> []"
  proof (intro exI conjI)
    show "?s \<noteq> []" using that empty by simp
    with c(1) show "upsert_clause d ?cs ?s = Some c" by (simp add: us_conflict_suffix_def)
    have "\<not> ii" using that by (auto simp: ii_def us_assignments_values)
    then show "h @ (''('' @ join '', '' (map ph [1..<?n + 1]) @ '')'') @ c @ ret
        = ''INSERT INTO '' @ table @ '' ('' @ join '', '' (us_create_columns op) @ '')'' @ '' VALUES ''
          @ (''('' @ join '', '' (map ph [1..<?n + 1]) @ '')'') @ c @ ret"
      by (simp add: h_def)
  qed
  ultimately show ?thesis using c(3) by blast
qed

end

text \<open>
  What the databases write before the assignments: PostgreSQL and SQLite the conflict target, each
  of its columns quoted, MySQL a clause without a target, SQL Server and CQL nothing.
\<close>

definition conflict_head :: "lexis \<Rightarrow> dialect \<Rightarrow> string list \<Rightarrow> string" where
  "conflict_head lx d cols =
     (if d \<in> {postgres, sqlite} then '' ON CONFLICT ('' @ join '', '' (map (spell_ident lx) cols) @ '') DO UPDATE SET ''
      else if d = mysql then '' ON DUPLICATE KEY UPDATE '' else [])"

lemma upsert_clause_texts:
  "upsert_clause postgres cs s = Some (on_conflict_cols (quote_with DQUOTE DQUOTE) cs @ '' DO UPDATE SET '' @ s)"
  "upsert_clause sqlite cs s = Some (on_conflict_cols (quote_with DQUOTE DQUOTE) cs @ '' DO UPDATE SET '' @ s)"
  "upsert_clause mysql cs s = Some ('' ON DUPLICATE KEY UPDATE '' @ s)"
  "upsert_clause mssql cs s = Some []" "upsert_clause cql cs s = Some []"
  by (simp_all add: dialect_defs)

lemma dialects_differ: "{mysql, mssql, cql} \<inter> {postgres, sqlite} = {}" "mysql \<notin> {mssql, cql}"
  by (auto dest!: arg_cong [where f = "\<lambda>d. upsert_clause d [''c''] []"]
      simp: upsert_clause_texts on_conflict_cols_def)

lemma conflict_head_clause:
  assumes "(d, lx) \<in> set sql_dialects" and "upsert_clause d cols s = Some c"
  shows "\<exists>tail. c = conflict_head lx d cols @ tail"
proof -
  have "spell_ident postgres_lexis = quote_with DQUOTE DQUOTE" "spell_ident sqlite_lexis = quote_with DQUOTE DQUOTE"
    by (simp_all add: fun_eq_iff spell_ident_def lexis_defs)
  with assms dialects_differ show ?thesis
    by (auto simp: sql_dialects_def conflict_head_def upsert_clause_texts on_conflict_cols_def)
qed

text \<open>
  C15: An upsert that the guard lets through, on a table whose name, whose columns and whose selected
  list have no quotes and no markers, is one \<^verbatim>\<open>INSERT\<close> whose parameters are the values to insert
  and then those to assign; the only identifiers are its conflict columns.  With assignments, there
  is at least one conflict column, and after the inserted values PostgreSQL and SQLite get exactly the
  conflict target made of them; MySQL's clause has no target, SQL Server and CQL have no clause.
  On PostgreSQL, SQLite and MySQL the markers are numbered 1 to the number of parameters.  On SQL
  Server and CQL the text has no marker for the assigned values, although they are bound.
\<close>

theorem upsert_statement:
  assumes "(d, lx) \<in> set sql_dialects" and "validate_fast_path op = (None :: 'e query_error option)"
    and "raw_text lx table" and "list_all (raw_text lx) (us_create_columns op)"
    and "list_all (raw_text lx \<circ> fst) (us_assignments op)" and "raw_text lx (sel_to_sql (us_select op))"
  shows "\<exists>sql ts params. params = us_create_values op @ set_values (us_assignments op)
     \<and> us_exec pk_value d table pk_col op [] [] = Direct (ExecuteInsert sql params (Return \<circ> (Inr :: 'r \<Rightarrow> 'e query_error + 'r)))
     \<and> lex_sql lx sql = Some ts \<and> set (idents ts) \<subseteq> set (us_conflict_cols op)
     \<and> marks ts = map (marker lx) [1..<Suc (length (if has_upsert_clause d then params else us_create_values op))]
     \<and> (us_assignments op \<noteq> [] \<longrightarrow> us_conflict_cols op \<noteq> []
          \<and> (\<exists>tail. sql = ''INSERT INTO '' @ table @ '' ('' @ join '', '' (us_create_columns op) @ '') VALUES (''
               @ join '', '' (map (spell_mark lx) [1..<Suc (length (us_create_values op))]) @ '')''
               @ conflict_head lx d (us_conflict_cols op) @ tail))"
proof -
  note u = sql_dialects_upserts [OF assms(1)]
  obtain sql ids upd where b: "us_build_sql op table d = Some (sql, us_create_values op @ set_values (us_assignments op))"
    "set ids \<subseteq> set (us_conflict_cols op)"
    "sql_lexable.yields lx sql ids (map (marker lx) [1..<Suc (length (us_create_values op)
       + (if upsert_clause d (us_conflict_cols op) upd = Some [] then 0 else length (set_values (us_assignments op))))])"
    and shape: "us_assignments op \<noteq> [] \<longrightarrow> (\<exists>s c ret. s \<noteq> [] \<and> upsert_clause d (us_conflict_cols op) s = Some c
          \<and> sql = ''INSERT INTO '' @ table @ '' ('' @ join '', '' (us_create_columns op) @ '')'' @ '' VALUES ''
              @ (''('' @ join '', '' (map (spell_mark lx) [1..<length (us_create_values op) + 1]) @ '')'') @ c @ ret)"
    using sql_upserts.us_build_sql_renders [OF u assms(3-6)] by blast
  have head: "\<exists>tail. sql = ''INSERT INTO '' @ table @ '' ('' @ join '', '' (us_create_columns op) @ '') VALUES (''
      @ join '', '' (map (spell_mark lx) [1..<Suc (length (us_create_values op))]) @ '')''
      @ conflict_head lx d (us_conflict_cols op) @ tail" if "us_assignments op \<noteq> []"
  proof -
    from shape that obtain s c ret where c: "upsert_clause d (us_conflict_cols op) s = Some c"
      "sql = ''INSERT INTO '' @ table @ '' ('' @ join '', '' (us_create_columns op) @ '')'' @ '' VALUES ''
        @ (''('' @ join '', '' (map (spell_mark lx) [1..<length (us_create_values op) + 1]) @ '')'') @ c @ ret" by blast
    obtain tail where "c = conflict_head lx d (us_conflict_cols op) @ tail"
      using conflict_head_clause [OF assms(1) c(1)] by blast
    with c(2) show ?thesis by (simp del: upt_Suc)
  qed
  obtain ts where "lex_sql lx sql = Some ts" "idents ts = ids"
    "marks ts = map (marker lx) [1..<Suc (length (us_create_values op)
       + (if has_upsert_clause d then length (set_values (us_assignments op)) else 0))]"
    using sql_lexable.yields_lex [OF sql_dialects_lexable [OF assms(1)] b(3)] upsert_clause_empty [OF assms(1)] by auto
  then show ?thesis
    using b(1,2) assms(2) validate_fast_path_target [OF assms(2)] head
    by (intro exI [of _ sql] exI [of _ ts]) (simp add: us_exec_def comp_def del: upt_Suc)
qed

definition sample_upsert :: "unit upsert_op" where
  "sample_upsert = us_update_set (us_create (us_where us_new (FEquals ''id'' (VInt 1))) [(''id'', VInt 1), (''a'', VBool True)])
     ''b'' (VInt 2)"

theorem upsert_statement_witness:
  "\<exists>sql ts. us_exec (\<lambda>r. r) mssql ''t'' ''id'' sample_upsert [] []
       = Direct (ExecuteInsert sql [VInt 1, VBool True, VInt 2] (Return \<circ> (Inr :: unit filter_value \<Rightarrow> unit query_error + _)))
     \<and> lex_sql mssql_lexis sql = Some ts \<and> marks ts = [Some 1, Some 2]"
proof -
  have "(mssql, mssql_lexis) \<in> set sql_dialects" by (simp add: sql_dialects_def)
  moreover have "validate_fast_path sample_upsert = (None :: unit query_error option)" by code_simp
  moreover have "us_create_values sample_upsert = [VInt 1, VBool True]"
    "us_create_columns sample_upsert = [''id'', ''a'']" "us_assignments sample_upsert = [(''b'', WSet (VInt 2))]"
    "us_select sample_upsert = SelAll"
    by (simp_all add: sample_upsert_def us_new_def us_create_def us_create_set_def us_update_set_def us_where_def
        us_assignments_def)
  moreover have "\<not> has_upsert_clause mssql" by (simp add: has_upsert_clause_def mssql_def)
  ultimately show ?thesis
    using upsert_statement [where 'e = unit and d = mssql and lx = mssql_lexis and op = sample_upsert and table = "''t''"
        and pk_value = "\<lambda>r. r" and pk_col = "''id''"]
    by (auto simp: mssql_lexis_def sel_to_sql_def marker_def numeral_eq_Suc)
qed

end
