(* ===== verification/Relation_Loading.thy ===== *)
theory Relation_Loading
  imports Nested_Writes Hash_Maps
begin

text \<open>
  Relations of finds, \<^verbatim>\<open>prax-query/src/relations\<close>: what an \<^verbatim>\<open>include\<close> asks for
  (\<^verbatim>\<open>include.rs\<close>), how a relation is described (\<^verbatim>\<open>spec.rs\<close>, \<^verbatim>\<open>meta.rs\<close>), the executor
  that fetches the children of all parents with one statement and buckets them by their foreign key
  (\<^verbatim>\<open>executor.rs\<close>), the loop that the derive macro generates around it
  (\<^verbatim>\<open>prax-codegen/src/generators/derive_relation_loader.rs\<close>), the separate statement builder
  (\<^verbatim>\<open>loader.rs\<close>), and the execution of the read operations that use them.

  Rows of all models are values of one type \<open>'r\<close>; what a model's derived code does with a row is an
  argument (\<open>pk_value\<close>, \<open>column_value\<close>, \<open>set_field\<close>).
\<close>

subsection \<open>Includes\<close>

datatype 'j include_spec = IncludeSpec
  (is_relation_name: string) (is_filter: "'j filter option") (is_order_by: "order_by option")
  (is_pagination: "pagination option") (is_nested: "(string \<times> 'j include_spec) list") (is_include_count: bool)

definition is_new :: "string \<Rightarrow> 'j include_spec" where
  "is_new name = IncludeSpec name None None None [] False"
fun is_where :: "'j include_spec \<Rightarrow> 'j filter \<Rightarrow> 'j include_spec" where
  "is_where (IncludeSpec r f ob pg nested cnt) f1 = IncludeSpec r (Some f1) ob pg nested cnt"
fun is_order :: "'j include_spec \<Rightarrow> order_by \<Rightarrow> 'j include_spec" where
  "is_order (IncludeSpec r f ob pg nested cnt) order = IncludeSpec r f (Some order) pg nested cnt"

definition pagination_or_default :: "pagination option \<Rightarrow> pagination" where
  "pagination_or_default pg = (case pg of Some p \<Rightarrow> p | None \<Rightarrow> pg_new)"

fun is_skip :: "'j include_spec \<Rightarrow> u64 \<Rightarrow> 'j include_spec" where
  "is_skip (IncludeSpec r f ob pg nested cnt) n =
     IncludeSpec r f ob (Some ((pagination_or_default pg)\<lparr>pg_skip := Some n\<rparr>)) nested cnt"
fun is_take :: "'j include_spec \<Rightarrow> u64 \<Rightarrow> 'j include_spec" where
  "is_take (IncludeSpec r f ob pg nested cnt) n =
     IncludeSpec r f ob (Some ((pagination_or_default pg)\<lparr>pg_take := Some n\<rparr>)) nested cnt"
fun is_include :: "'j include_spec \<Rightarrow> 'j include_spec \<Rightarrow> 'j include_spec" where
  "is_include (IncludeSpec r f ob pg nested cnt) spec =
     IncludeSpec r f ob pg (AList.update (is_relation_name spec) spec nested) cnt"
fun is_with_count :: "'j include_spec \<Rightarrow> 'j include_spec" where
  "is_with_count (IncludeSpec r f ob pg nested cnt) = IncludeSpec r f ob pg nested True"
definition is_has_nested :: "'j include_spec \<Rightarrow> bool" where
  "is_has_nested spec \<longleftrightarrow> is_nested spec \<noteq> []"

text \<open>\<open>Include\<close>, a map from relation names.\<close>

type_synonym 'j include_map = "(string, 'j include_spec) hash_map"

definition inc_new :: "'j include_map" where
  "inc_new = []"
definition inc_with :: "'j include_map \<Rightarrow> 'j include_spec \<Rightarrow> 'j include_map" where
  "inc_with inc spec = AList.update (is_relation_name spec) spec inc"
definition inc_with_many :: "'j include_map \<Rightarrow> 'j include_spec list \<Rightarrow> 'j include_map" where
  "inc_with_many inc specs = foldl inc_with inc specs"
definition inc_get :: "'j include_map \<Rightarrow> string \<Rightarrow> 'j include_spec option" where
  "inc_get inc relation = map_of inc relation"
definition inc_contains :: "'j include_map \<Rightarrow> string \<Rightarrow> bool" where
  "inc_contains inc relation \<longleftrightarrow> map_of inc relation \<noteq> None"
definition inc_merge :: "'j include_map \<Rightarrow> 'j include_map \<Rightarrow> 'j include_map" where
  "inc_merge inc other = foldl (\<lambda>m (k, v). AList.update k v m) inc other"

subsection \<open>Relation specifications\<close>

datatype rel_type = RtOneToOne | RtOneToMany | RtManyToOne | RtManyToMany

definition rel_is_many :: "rel_type \<Rightarrow> bool" where
  "rel_is_many t \<longleftrightarrow> t = RtOneToMany \<or> t = RtManyToMany"
definition rel_is_one :: "rel_type \<Rightarrow> bool" where
  "rel_is_one t \<longleftrightarrow> t = RtOneToOne \<or> t = RtManyToOne"

datatype rel_action = RaCascade | RaSetNull | RaSetDefault | RaRestrict | RaNoAction

fun rel_action_sql :: "rel_action \<Rightarrow> string" where
  "rel_action_sql RaCascade = ''CASCADE''"
| "rel_action_sql RaSetNull = ''SET NULL''"
| "rel_action_sql RaSetDefault = ''SET DEFAULT''"
| "rel_action_sql RaRestrict = ''RESTRICT''"
| "rel_action_sql RaNoAction = ''NO ACTION''"

record join_table_spec =
  jt_table_name :: string
  jt_source_column :: string
  jt_target_column :: string

definition jt_new :: "string \<Rightarrow> string \<Rightarrow> string \<Rightarrow> join_table_spec" where
  "jt_new table source target = \<lparr>jt_table_name = table, jt_source_column = source, jt_target_column = target\<rparr>"

record relation_spec =
  rel_name :: string
  rel_kind :: rel_type
  rel_related_model :: string
  rel_related_table :: string
  rel_fields :: "string list"
  rel_references :: "string list"
  rel_join_table :: "join_table_spec option"
  rel_on_delete :: "rel_action option"
  rel_on_update :: "rel_action option"
  rel_map :: "string option"

definition rel_make :: "rel_type \<Rightarrow> join_table_spec option \<Rightarrow> string \<Rightarrow> string \<Rightarrow> string \<Rightarrow> relation_spec" where
  "rel_make t jt name related_model table = \<lparr>rel_name = name, rel_kind = t, rel_related_model = related_model,
     rel_related_table = table, rel_fields = [], rel_references = [], rel_join_table = jt, rel_on_delete = None,
     rel_on_update = None, rel_map = None\<rparr>"
definition one_to_one :: "string \<Rightarrow> string \<Rightarrow> string \<Rightarrow> relation_spec" where
  "one_to_one = rel_make RtOneToOne None"
definition one_to_many :: "string \<Rightarrow> string \<Rightarrow> string \<Rightarrow> relation_spec" where
  "one_to_many = rel_make RtOneToMany None"
definition many_to_one :: "string \<Rightarrow> string \<Rightarrow> string \<Rightarrow> relation_spec" where
  "many_to_one = rel_make RtManyToOne None"
definition many_to_many :: "string \<Rightarrow> string \<Rightarrow> string \<Rightarrow> join_table_spec \<Rightarrow> relation_spec" where
  "many_to_many name related_model table jt = rel_make RtManyToMany (Some jt) name related_model table"

definition with_rel_fields :: "relation_spec \<Rightarrow> string list \<Rightarrow> relation_spec" where
  "with_rel_fields r fs = r\<lparr>rel_fields := fs\<rparr>"
definition with_rel_references :: "relation_spec \<Rightarrow> string list \<Rightarrow> relation_spec" where
  "with_rel_references r rs = r\<lparr>rel_references := rs\<rparr>"
definition with_rel_on_delete :: "relation_spec \<Rightarrow> rel_action \<Rightarrow> relation_spec" where
  "with_rel_on_delete r a = r\<lparr>rel_on_delete := Some a\<rparr>"
definition with_rel_on_update :: "relation_spec \<Rightarrow> rel_action \<Rightarrow> relation_spec" where
  "with_rel_on_update r a = r\<lparr>rel_on_update := Some a\<rparr>"
definition with_rel_map :: "relation_spec \<Rightarrow> string \<Rightarrow> relation_spec" where
  "with_rel_map r name = r\<lparr>rel_map := Some name\<rparr>"

text \<open>\<^verbatim>\<open>first().unwrap_or("id")\<close>.\<close>

definition first_or_id :: "string list \<Rightarrow> string" where
  "first_or_id xs = (case xs of x # _ \<Rightarrow> x | [] \<Rightarrow> ''id'')"

definition to_join_clause :: "relation_spec \<Rightarrow> string \<Rightarrow> string \<Rightarrow> string" where
  "to_join_clause r parent child =
     (case rel_join_table r of
        Some jt \<Rightarrow> ''JOIN '' @ jt_table_name jt @ '' ON '' @ parent @ ''.'' @ first_or_id (rel_fields r) @ '' = ''
          @ jt_table_name jt @ ''.'' @ jt_source_column jt @ '' JOIN '' @ rel_related_table r @ '' AS '' @ child
          @ '' ON '' @ jt_table_name jt @ ''.'' @ jt_target_column jt @ '' = '' @ child @ ''.''
          @ first_or_id (rel_references r)
      | None \<Rightarrow> ''JOIN '' @ rel_related_table r @ '' AS '' @ child @ '' ON ''
          @ join '' AND '' (map (\<lambda>(f, ref). parent @ ''.'' @ f @ '' = '' @ child @ ''.'' @ ref)
              (zip (rel_fields r) (rel_references r))))"

type_synonym relation_registry = "(string, relation_spec) hash_map"

definition reg_register :: "relation_registry \<Rightarrow> relation_spec \<Rightarrow> relation_registry" where
  "reg_register reg spec = AList.update (rel_name spec) spec reg"
definition reg_get :: "relation_registry \<Rightarrow> string \<Rightarrow> relation_spec option" where
  "reg_get reg name = map_of reg name"
definition reg_of_type :: "rel_type \<Rightarrow> relation_registry \<Rightarrow> relation_spec list" where
  "reg_of_type t reg = List.filter (\<lambda>r. rel_kind r = t) (map snd reg)"

subsection \<open>The statement builder of \<^verbatim>\<open>loader.rs\<close>\<close>

datatype load_strategy = Separate | Join | Lazy

record relation_loader =
  ld_strategy :: load_strategy
  ld_batch_size :: nat

definition ld_new :: relation_loader where
  "ld_new = \<lparr>ld_strategy = Separate, ld_batch_size = 100\<rparr>"
definition ld_with_strategy :: "relation_loader \<Rightarrow> load_strategy \<Rightarrow> relation_loader" where
  "ld_with_strategy l s = l\<lparr>ld_strategy := s\<rparr>"
definition ld_with_batch_size :: "relation_loader \<Rightarrow> nat \<Rightarrow> relation_loader" where
  "ld_with_batch_size l n = l\<lparr>ld_batch_size := n\<rparr>"

definition include_page :: "'j include_spec \<Rightarrow> string" where
  "include_page inc = (case is_pagination inc of
     None \<Rightarrow> [] | Some pg \<Rightarrow> (let s = pg_to_sql pg in if s = [] then [] else '' '' @ s))"

definition include_order :: "'j include_spec \<Rightarrow> string" where
  "include_order inc = (case is_order_by inc of None \<Rightarrow> [] | Some ob \<Rightarrow> '' ORDER BY '' @ ob_to_sql ob)"

definition build_one_to_many_query ::
  "dialect \<Rightarrow> relation_spec \<Rightarrow> 'j include_spec \<Rightarrow> 'j filter_value list \<Rightarrow> (string \<times> 'j filter_value list) option" where
  "build_one_to_many_query d r inc ids =
     do {
       slots \<leftarrow> those (map (placeholder d) [1..<length ids + 1]);
       (cond, ps) \<leftarrow> (case is_filter inc of None \<Rightarrow> Some ([], [])
         | Some f \<Rightarrow> map_option (\<lambda>(s, ps). ('' AND '' @ s, ps)) (to_sql f (length ids) d));
       Some (''SELECT * FROM '' @ rel_related_table r @ '' WHERE '' @ first_or_id (rel_references r) @ '' IN (''
         @ join '', '' slots @ '')'' @ cond @ include_order inc @ include_page inc, ids @ ps)
     }"

text \<open>\<^verbatim>\<open>slice::chunks\<close>, for a size above 0.\<close>

fun chunks :: "nat \<Rightarrow> 'a list \<Rightarrow> 'a list list" where
  "chunks n [] = []"
| "chunks n (x # xs) = take (max 1 n) (x # xs) # chunks n (drop (max 1 n) (x # xs))"

definition build_one_to_many_queries ::
  "relation_loader \<Rightarrow> dialect \<Rightarrow> relation_spec \<Rightarrow> 'j include_spec \<Rightarrow> 'j filter_value list
     \<Rightarrow> (string \<times> 'j filter_value list) list option" where
  "build_one_to_many_queries l d r inc ids =
     those (map (build_one_to_many_query d r inc) (chunks (max 1 (ld_batch_size l)) ids))"

text \<open>The two other builders write PostgreSQL's markers, whatever the dialect.\<close>

definition dollar_slots :: "nat \<Rightarrow> string" where
  "dollar_slots n = join '', '' (map (\<lambda>i. ''$'' @ show_nat i) [1..<n + 1])"

definition build_many_to_one_query ::
  "relation_spec \<Rightarrow> 'j filter_value list \<Rightarrow> string \<times> 'j filter_value list" where
  "build_many_to_one_query r fks =
     (''SELECT * FROM '' @ rel_related_table r @ '' WHERE '' @ first_or_id (rel_references r) @ '' IN (''
       @ dollar_slots (length fks) @ '')'', fks)"

definition build_many_to_many_query ::
  "relation_spec \<Rightarrow> 'j include_spec \<Rightarrow> 'j filter_value list \<Rightarrow> (string \<times> 'j filter_value list) option" where
  "build_many_to_many_query r inc ids =
     do {
       jt \<leftarrow> rel_join_table r;
       Some (''SELECT t.*, jt.'' @ jt_source_column jt @ '' as _parent_id FROM '' @ rel_related_table r @ '' t ''
         @ ''INNER JOIN '' @ jt_table_name jt @ '' jt ON t.'' @ first_or_id (rel_references r) @ '' = jt.''
         @ jt_target_column jt @ '' WHERE jt.'' @ jt_source_column jt @ '' IN (''
         @ dollar_slots (length ids) @ '')'' @ include_order inc, ids)
     }"

subsection \<open>The executor\<close>

record relation_meta =
  rm_name :: string
  rm_target_table :: string
  rm_foreign_key :: string

text \<open>How the standard library prints a float and \<^verbatim>\<open>serde_json\<close> a value.\<close>

record 'j printers =
  show_f64 :: "u64 \<Rightarrow> string"
  show_json :: "'j \<Rightarrow> string"

fun filter_value_key :: "'j printers \<Rightarrow> 'j filter_value \<Rightarrow> string option" where
  "filter_value_key P (VInt i) = Some (show_int (sint i))"
| "filter_value_key P (VString s) = Some s"
| "filter_value_key P (VBool b) = Some (if b then ''true'' else ''false'')"
| "filter_value_key P (VFloat f) = Some (show_f64 P f)"
| "filter_value_key P VNull = Some ''<null>''"
| "filter_value_key P (VJson j) = Some (show_json P j)"
| "filter_value_key P (VList vs) = None"

text \<open>The loop over the children.\<close>

fun bucket ::
  "'j printers \<Rightarrow> ('r \<Rightarrow> string \<Rightarrow> 'j filter_value option) \<Rightarrow> relation_meta \<Rightarrow> 'r list \<Rightarrow> (string, 'r list) hash_map
     \<Rightarrow> ('j, 'r, 'e, (string, 'r list) hash_map) session" where
  "bucket P column_value rel [] out = ok out"
| "bucket P column_value rel (child # children) out =
     (case column_value child (rm_foreign_key rel) of
        None \<Rightarrow> fail (internal_error (''relation '' @ rm_name rel @ '': child model missing FK column '' @ rm_foreign_key rel))
      | Some fk \<Rightarrow> (case filter_value_key P fk of
            None \<Rightarrow> Panic
          | Some key \<Rightarrow> bucket P column_value rel children (entry_modify key [] (\<lambda>cs. cs @ [child]) out)))"

definition children_sql :: "dialect \<Rightarrow> relation_meta \<Rightarrow> 'j filter_value list \<Rightarrow> (string \<times> 'j filter_value list) option" where
  "children_sql d rel pks =
     do {
       (where_sql, params) \<leftarrow> to_sql (FIn (rm_foreign_key rel) pks) 0 d;
       Some (''SELECT * FROM '' @ rm_target_table rel @ '' WHERE '' @ where_sql, params)
     }"

definition load_has_many ::
  "'j printers \<Rightarrow> ('r \<Rightarrow> 'j filter_value) \<Rightarrow> ('r \<Rightarrow> string \<Rightarrow> 'j filter_value option) \<Rightarrow> dialect \<Rightarrow> relation_meta
     \<Rightarrow> 'r list \<Rightarrow> ('j, 'r, 'e, (string, 'r list) hash_map) session" where
  "load_has_many P pk_value column_value d rel parents =
     (if parents = [] then ok []
      else with_statement (children_sql d rel (map pk_value parents)) (\<lambda>sql params.
        QueryMany sql params (\<lambda>children. bucket P column_value rel children [])))"

text \<open>
  The generated \<^verbatim>\<open>load_relation\<close>: one arm per relation of the model, with the children assigned to
  the field of the same name.
\<close>

fun attach ::
  "'j printers \<Rightarrow> ('r \<Rightarrow> 'j filter_value) \<Rightarrow> ('r list \<Rightarrow> 'r \<Rightarrow> 'r) \<Rightarrow> (string, 'r list) hash_map \<Rightarrow> 'r list
     \<Rightarrow> 'r list option" where
  "attach P pk_value assign buckets [] = Some []"
| "attach P pk_value assign buckets (p # ps) =
     do {
       key \<leftarrow> filter_value_key P (pk_value p);
       rest \<leftarrow> attach P pk_value assign buckets ps;
       Some ((case map_of buckets key of Some children \<Rightarrow> assign children p | None \<Rightarrow> p) # rest)
     }"

record ('j, 'r) loadable =
  lm_model :: string
  lm_relations :: "(string \<times> relation_meta) list"
  lm_pk_value :: "'r \<Rightarrow> 'j filter_value"
  lm_column_value :: "'r \<Rightarrow> string \<Rightarrow> 'j filter_value option"
  lm_set_field :: "string \<Rightarrow> 'r list \<Rightarrow> 'r \<Rightarrow> 'r"

definition or_panic :: "'a option \<Rightarrow> ('j, 'r, 'e, 'a) session" where
  "or_panic x = (case x of Some a \<Rightarrow> ok a | None \<Rightarrow> Panic)"

definition load_relation ::
  "'j printers \<Rightarrow> ('j, 'r) loadable \<Rightarrow> dialect \<Rightarrow> 'j include_spec \<Rightarrow> 'r list \<Rightarrow> ('j, 'r, 'e, 'r list) session" where
  "load_relation P M d spec parents =
     (case map_of (lm_relations M) (is_relation_name spec) of
        None \<Rightarrow> fail (internal_error (''unknown relation '' @ sq (is_relation_name spec) @ '' on '' @ lm_model M))
      | Some rel \<Rightarrow> and_next (load_has_many P (lm_pk_value M) (lm_column_value M) d rel parents)
          (\<lambda>buckets. or_panic (attach P (lm_pk_value M) (lm_set_field M (is_relation_name spec)) buckets parents)))"

fun load_all ::
  "'j printers \<Rightarrow> ('j, 'r) loadable \<Rightarrow> dialect \<Rightarrow> 'j include_spec list \<Rightarrow> 'r list \<Rightarrow> ('j, 'r, 'e, 'r list) session" where
  "load_all P M d [] parents = ok parents"
| "load_all P M d (spec # specs) parents = and_next (load_relation P M d spec parents) (load_all P M d specs)"

subsection \<open>Executing the read operations\<close>

definition fm_exec ::
  "'j printers \<Rightarrow> ('j, 'r) loadable \<Rightarrow> dialect \<Rightarrow> string \<Rightarrow> ('j, 'j include_spec) find_many \<Rightarrow> ('j, 'r, 'e, 'r list) session" where
  "fm_exec P M d table op =
     with_statement (fm_build_sql op table d) (\<lambda>sql params.
       QueryMany sql params (\<lambda>parents. load_all P M d (fm_includes op) parents))"

text \<open>The one-row operations put the row in a list for the loader; their includes are an argument.\<close>

definition load_one ::
  "'j printers \<Rightarrow> ('j, 'r) loadable \<Rightarrow> dialect \<Rightarrow> 'j include_spec list \<Rightarrow> 'r \<Rightarrow> ('j, 'r, 'e, 'r option) session" where
  "load_one P M d specs row =
     and_next (load_all P M d specs [row]) (\<lambda>parents. ok (case parents of p # _ \<Rightarrow> Some p | [] \<Rightarrow> None))"

definition exec_optional ::
  "'j printers \<Rightarrow> ('j, 'r) loadable \<Rightarrow> dialect \<Rightarrow> 'j include_spec list \<Rightarrow> (string \<times> 'j filter_value list) option
     \<Rightarrow> ('j, 'r, 'e, 'r option) session" where
  "exec_optional P M d specs statement =
     with_statement statement (\<lambda>sql params.
       QueryOptional sql params (\<lambda>row. case row of None \<Rightarrow> ok None | Some r \<Rightarrow> load_one P M d specs r))"

definition exec_required ::
  "'j printers \<Rightarrow> ('j, 'r) loadable \<Rightarrow> dialect \<Rightarrow> 'j include_spec list \<Rightarrow> (string \<times> 'j filter_value list) option
     \<Rightarrow> ('j, 'r, 'e, 'r) session" where
  "exec_required P M d specs statement =
     with_statement statement (\<lambda>sql params.
       QueryOne sql params (\<lambda>row. and_next (load_one P M d specs row) or_panic))"

definition ff_exec ::
  "'j printers \<Rightarrow> ('j, 'r) loadable \<Rightarrow> dialect \<Rightarrow> string \<Rightarrow> 'j find_first \<Rightarrow> 'j include_spec list
     \<Rightarrow> ('j, 'r, 'e, 'r option) session" where
  "ff_exec P M d table op specs = exec_optional P M d specs (ff_build_sql op table d)"
definition ff_exec_required ::
  "'j printers \<Rightarrow> ('j, 'r) loadable \<Rightarrow> dialect \<Rightarrow> string \<Rightarrow> 'j find_first \<Rightarrow> 'j include_spec list
     \<Rightarrow> ('j, 'r, 'e, 'r) session" where
  "ff_exec_required P M d table op specs = exec_required P M d specs (ff_build_sql op table d)"
definition fu_exec ::
  "'j printers \<Rightarrow> ('j, 'r) loadable \<Rightarrow> dialect \<Rightarrow> string \<Rightarrow> 'j find_unique \<Rightarrow> 'j include_spec list
     \<Rightarrow> ('j, 'r, 'e, 'r) session" where
  "fu_exec P M d table op specs = exec_required P M d specs (fu_build_sql op table d)"
definition fu_exec_optional ::
  "'j printers \<Rightarrow> ('j, 'r) loadable \<Rightarrow> dialect \<Rightarrow> string \<Rightarrow> 'j find_unique \<Rightarrow> 'j include_spec list
     \<Rightarrow> ('j, 'r, 'e, 'r option) session" where
  "fu_exec_optional P M d table op specs = exec_optional P M d specs (fu_build_sql op table d)"

definition ct_exec :: "dialect \<Rightarrow> string \<Rightarrow> 'j count_op \<Rightarrow> ('j, 'r, 'e, nat) session" where
  "ct_exec d table op = with_statement (ct_build_sql op table d) (\<lambda>sql params. CountRows sql params ok)"
definition dl_exec_count :: "dialect \<Rightarrow> string \<Rightarrow> 'j delete_op \<Rightarrow> ('j, 'r, 'e, nat) session" where
  "dl_exec_count d table op = with_statement (dl_build_sql_count op table d) (\<lambda>sql params. ExecuteDelete sql params ok)"
definition dm_exec :: "dialect \<Rightarrow> string \<Rightarrow> 'j delete_many \<Rightarrow> ('j, 'r, 'e, nat) session" where
  "dm_exec d table op = with_statement (dm_build_sql op table d) (\<lambda>sql params. ExecuteDelete sql params ok)"

end
