(* ===== verification/Relation_Laws.thy ===== *)
theory Relation_Laws
  imports Relation_Loading Nested_Laws
begin

text \<open>
  What loading relations does: every parent gets exactly its children, in the order the database
  gave them; the statements it takes, and how many; what an include asks for and does not get; the
  batches of the separate statement builder.
\<close>

subsection \<open>Bucketing\<close>

text \<open>Values that have one key each: integers, or strings.\<close>

fun int_value :: "'j filter_value \<Rightarrow> bool" where
  "int_value (VInt i) \<longleftrightarrow> True"
| "int_value _ \<longleftrightarrow> False"

fun string_value :: "'j filter_value \<Rightarrow> bool" where
  "string_value (VString s) \<longleftrightarrow> True"
| "string_value _ \<longleftrightarrow> False"

definition one_kind :: "'j filter_value list \<Rightarrow> bool" where
  "one_kind vs \<longleftrightarrow> list_all int_value vs \<or> list_all string_value vs"

lemma value_kinds: "int_value v \<longleftrightarrow> (\<exists>i. v = VInt i)" "string_value v \<longleftrightarrow> (\<exists>s. v = VString s)"
  by (cases v; simp)+

lemma show_int_inj: "show_int i = show_int j \<longleftrightarrow> i = j"
proof -
  have sign: "show_nat n \<noteq> CHR ''-'' # cs" for n cs
  proof
    assume a: "show_nat n = CHR ''-'' # cs"
    have "is_digit (CHR ''-'')" by (rule show_nat_set_digits [of _ n]) (simp add: a)
    then show False by (simp add: is_digit_def)
  qed
  show ?thesis
    using sign sign [symmetric] by (auto simp: show_int_def show_nat_inj split: if_splits)
qed

lemma key_inj:
  assumes "one_kind vs" and "v \<in> set vs" and "w \<in> set vs"
  shows "filter_value_key P v = filter_value_key P w \<longleftrightarrow> v = w" and "filter_value_key P v \<noteq> None"
proof -
  from assms(1) have "(\<forall>v \<in> set vs. \<exists>i. v = VInt i) \<or> (\<forall>v \<in> set vs. \<exists>s. v = VString s)"
    by (auto simp: one_kind_def list_all_iff value_kinds)
  with assms(2,3) consider i j where "v = VInt i" "w = VInt j" | s t where "v = VString s" "w = VString t" by meson
  then have "(filter_value_key P v = filter_value_key P w \<longleftrightarrow> v = w) \<and> filter_value_key P v \<noteq> None"
    by cases (simp_all add: show_int_inj flip: word_eq_iff_signed)
  then show "filter_value_key P v = filter_value_key P w \<longleftrightarrow> v = w" and "filter_value_key P v \<noteq> None" by auto
qed

lemma bucket_spec:
  fixes P :: "'j printers" and children :: "'r list"
  assumes "list_all (\<lambda>c. \<exists>v key. column_value c (rm_foreign_key rel) = Some v \<and> filter_value_key P v = Some key) children"
  shows "\<exists>out'. bucket P column_value rel children out = (ok out' :: ('j, 'r, 'e, _) session) \<and>
     (\<forall>k. map_of out' k =
        (let cs = List.filter (\<lambda>c. Option.bind (column_value c (rm_foreign_key rel)) (filter_value_key P) = Some k) children
         in if cs = [] then map_of out k else Some ((case map_of out k of Some l \<Rightarrow> l | None \<Rightarrow> []) @ cs)))"
  using assms
proof (induction children arbitrary: out)
  case (Cons c children)
  then obtain v key where k: "column_value c (rm_foreign_key rel) = Some v" "filter_value_key P v = Some key" by auto
  have "list_all (\<lambda>c. \<exists>v key. column_value c (rm_foreign_key rel) = Some v \<and> filter_value_key P v = Some key) children"
    using Cons.prems by simp
  from Cons.IH [OF this, of "entry_modify key [] (\<lambda>cs. cs @ [c]) out"]
  obtain out' where o: "bucket P column_value rel children (entry_modify key [] (\<lambda>cs. cs @ [c]) out) = (ok out' :: ('j, 'r, 'e, _) session)"
    "\<forall>k. map_of out' k =
        (let cs = List.filter (\<lambda>c. Option.bind (column_value c (rm_foreign_key rel)) (filter_value_key P) = Some k) children
         in if cs = [] then map_of (entry_modify key [] (\<lambda>cs. cs @ [c]) out) k
           else Some ((case map_of (entry_modify key [] (\<lambda>cs. cs @ [c]) out) k of Some l \<Rightarrow> l | None \<Rightarrow> []) @ cs))"
    by blast
  show ?case
  proof (intro exI [of _ out'] conjI allI)
    show "bucket P column_value rel (c # children) out = (ok out' :: ('j, 'r, 'e, _) session)" using k o(1) by simp
    fix j
    show "map_of out' j =
        (let cs = List.filter (\<lambda>c. Option.bind (column_value c (rm_foreign_key rel)) (filter_value_key P) = Some j) (c # children)
         in if cs = [] then map_of out j else Some ((case map_of out j of Some l \<Rightarrow> l | None \<Rightarrow> []) @ cs))"
      using k o(2) by (auto simp: Let_def map_of_entry_modify split: option.splits)
  qed
qed simp

lemma attach_spec:
  assumes "list_all (\<lambda>p. filter_value_key P (pk p) \<noteq> None) parents"
  shows "attach P pk assign buckets parents
    = Some (map (\<lambda>p. case map_of buckets (the (filter_value_key P (pk p))) of Some cs \<Rightarrow> assign cs p | None \<Rightarrow> p) parents)"
  using assms by (induction parents) auto

text \<open>The children of a parent.\<close>

definition own_children :: "('j, 'r) loadable \<Rightarrow> relation_meta \<Rightarrow> 'r list \<Rightarrow> 'r \<Rightarrow> 'r list" where
  "own_children M rel children p =
     List.filter (\<lambda>c. lm_column_value M c (rm_foreign_key rel) = Some (lm_pk_value M p)) children"

text \<open>
  C16: An include gives every parent exactly the fetched children whose foreign key is its key, in
  the order they were fetched; a parent without children keeps its field.  The keys have to be all
  integers or all strings; more than one parent may have the same key.
\<close>

theorem include_attaches_children:
  fixes M :: "('j, 'r) loadable" and en :: "('j, 'r, 'e, 's) engine"
  assumes "map_of (lm_relations M) (is_relation_name spec) = Some rel" and "parents \<noteq> []"
    and "children_sql d rel (map (lm_pk_value M) parents) = Some (sql, params)"
    and "query_many en sql params st = (Inr children, st')"
    and "list_all (\<lambda>c. lm_column_value M c (rm_foreign_key rel) \<noteq> None) children"
    and "one_kind (map (lm_pk_value M) parents @ map (\<lambda>c. the (lm_column_value M c (rm_foreign_key rel))) children)"
  shows "run en (load_relation P M d spec parents) st = (Some (Inr (map (\<lambda>p.
      if own_children M rel children p = [] then p
      else lm_set_field M (is_relation_name spec) (own_children M rel children p) p) parents)), st')"
proof -
  let ?vs = "map (lm_pk_value M) parents @ map (\<lambda>c. the (lm_column_value M c (rm_foreign_key rel))) children"
  note keys = key_inj [OF assms(6)]
  have child: "the (lm_column_value M c (rm_foreign_key rel)) \<in> set ?vs" "lm_column_value M c (rm_foreign_key rel) \<noteq> None"
    if "c \<in> set children" for c
    using that assms(5) by (auto simp: list_all_iff)
  have "\<exists>v key. lm_column_value M c (rm_foreign_key rel) = Some v \<and> filter_value_key P v = Some key"
    if "c \<in> set children" for c
    using keys(2) [OF child(1) [OF that] child(1) [OF that], where P = P] child [OF that] by auto
  then have "list_all (\<lambda>c. \<exists>v key. lm_column_value M c (rm_foreign_key rel) = Some v \<and> filter_value_key P v = Some key) children"
    by (simp add: list_all_iff)
  note b = bucket_spec [of "lm_column_value M" rel P children "[]", OF this]
  obtain out where o: "bucket P (lm_column_value M) rel children [] = (ok out :: ('j, 'r, 'e, _) session)"
    "\<forall>k. map_of out k =
        (let cs = List.filter (\<lambda>c. Option.bind (lm_column_value M c (rm_foreign_key rel)) (filter_value_key P) = Some k) children
         in if cs = [] then map_of [] k else Some ((case map_of [] k of Some l \<Rightarrow> l | None \<Rightarrow> []) @ cs))"
    using b by blast
  then have out: "bucket P (lm_column_value M) rel children [] = (ok out :: ('j, 'r, 'e, _) session)"
    "map_of out k =
        (let cs = List.filter (\<lambda>c. Option.bind (lm_column_value M c (rm_foreign_key rel)) (filter_value_key P) = Some k) children
         in if cs = [] then None else Some cs)" for k
    by (simp_all add: Let_def)
  have own: "List.filter (\<lambda>c. Option.bind (lm_column_value M c (rm_foreign_key rel)) (filter_value_key P)
      = Some (the (filter_value_key P (lm_pk_value M p)))) children = own_children M rel children p"
    if "p \<in> set parents" for p
  proof -
    have p: "lm_pk_value M p \<in> set ?vs" using that by simp
    show ?thesis
      unfolding own_children_def
    proof (rule filter_cong [OF refl])
      fix c assume c: "c \<in> set children"
      obtain v where v: "lm_column_value M c (rm_foreign_key rel) = Some v" "v \<in> set ?vs" using child [OF c] by auto
      show "Option.bind (lm_column_value M c (rm_foreign_key rel)) (filter_value_key P)
          = Some (the (filter_value_key P (lm_pk_value M p)))
        \<longleftrightarrow> lm_column_value M c (rm_foreign_key rel) = Some (lm_pk_value M p)"
        using keys(1) [OF v(2) p, where P = P] keys(2) [OF v(2) p, where P = P] keys(2) [OF p p, where P = P] v(1) by auto
    qed
  qed
  have "list_all (\<lambda>p. filter_value_key P (lm_pk_value M p) \<noteq> None) parents"
    using keys(2) [where P = P] by (fastforce simp: list_all_iff)
  note at = attach_spec [OF this, of "lm_set_field M (is_relation_name spec)" out]
  have "attach P (lm_pk_value M) (lm_set_field M (is_relation_name spec)) out parents = Some (map (\<lambda>p.
      if own_children M rel children p = [] then p
      else lm_set_field M (is_relation_name spec) (own_children M rel children p) p) parents)"
    unfolding at by (simp add: out(2) own Let_def)
  with assms(1-4) out(1) show ?thesis
    by (simp add: load_relation_def load_has_many_def or_panic_def)
qed

text \<open>A row of either model: a kind, its key, its foreign key and the field its children are put in.\<close>

datatype row = Row (row_key: "unit filter_value") (row_fk: "unit filter_value") (row_children: "row list")

definition plain_printers :: "unit printers" where
  "plain_printers = \<lparr>show_f64 = (\<lambda>_. []), show_json = (\<lambda>_. [])\<rparr>"

definition posts_relation :: relation_meta where
  "posts_relation = \<lparr>rm_name = ''posts'', rm_target_table = ''posts'', rm_foreign_key = ''author_id''\<rparr>"

definition users_model :: "(unit, row) loadable" where
  "users_model = \<lparr>lm_model = ''User'', lm_relations = [(''posts'', posts_relation)], lm_pk_value = row_key,
     lm_column_value = (\<lambda>r c. if c = ''author_id'' then Some (row_fk r) else None),
     lm_set_field = (\<lambda>_ cs r. Row (row_key r) (row_fk r) cs)\<rparr>"

text \<open>An engine that answers every query with the same rows.\<close>

definition refused :: "'a \<Rightarrow> 'b \<Rightarrow> 's \<Rightarrow> ('e query_error + 'x) \<times> 's" where
  "refused _ _ s = (Inl (database_error ''read only''), s)"

definition answering :: "row list \<Rightarrow> (unit, row, unit, unit) engine" where
  "answering rows =
     \<lparr>execute_raw = refused, execute_insert = refused, execute_update = refused, query_one = refused,
      query_many = (\<lambda>_ _ s. (Inr rows, s)), query_optional = refused, execute_delete = refused, count_rows = refused,
      aggregate_query = refused, refresh_view = refused, real_transactions = False\<rparr>"

theorem include_attaches_children_witness:
  "\<exists>ps. run (answering [Row (VInt 7) (VInt 1) [], Row (VInt 8) (VInt 2) [], Row (VInt 9) (VInt 1) []])
      (load_relation plain_printers users_model postgres (is_new ''posts'')
        [Row (VInt 1) VNull [], Row (VInt 3) VNull []]) () = (Some (Inr ps), ())
    \<and> map row_children ps = [[Row (VInt 7) (VInt 1) [], Row (VInt 9) (VInt 1) []], []]"
proof -
  have "children_sql postgres posts_relation [VInt 1, VInt 3 :: unit filter_value] \<noteq> None" by code_simp
  then obtain sql params where c: "children_sql postgres posts_relation [VInt 1, VInt 3 :: unit filter_value] = Some (sql, params)"
    by auto
  show ?thesis
    using include_attaches_children [of users_model "is_new ''posts''" posts_relation
        "[Row (VInt 1) VNull [], Row (VInt 3) VNull []]" postgres sql params
        "answering [Row (VInt 7) (VInt 1) [], Row (VInt 8) (VInt 2) [], Row (VInt 9) (VInt 1) []]" "()"
        "[Row (VInt 7) (VInt 1) [], Row (VInt 8) (VInt 2) [], Row (VInt 9) (VInt 1) []]" "()" plain_printers] c
    by (simp add: users_model_def posts_relation_def is_new_def answering_def one_kind_def own_children_def Let_def)
qed

subsection \<open>The statements\<close>

text \<open>How many statements a run can send.\<close>

primrec sends :: "('j, 'r, 'e, 'a) session \<Rightarrow> nat set" where
  "sends (Return x) = {0}"
| "sends (ExecuteRaw s ps k) = insert 1 (\<Union>x. Suc ` sends (k x))"
| "sends (ExecuteInsert s ps k) = insert 1 (\<Union>x. Suc ` sends (k x))"
| "sends (ExecuteUpdate s ps k) = insert 1 (\<Union>x. Suc ` sends (k x))"
| "sends (QueryOne s ps k) = insert 1 (\<Union>x. Suc ` sends (k x))"
| "sends (QueryMany s ps k) = insert 1 (\<Union>x. Suc ` sends (k x))"
| "sends (QueryOptional s ps k) = insert 1 (\<Union>x. Suc ` sends (k x))"
| "sends (ExecuteDelete s ps k) = insert 1 (\<Union>x. Suc ` sends (k x))"
| "sends (CountRows s ps k) = insert 1 (\<Union>x. Suc ` sends (k x))"
| "sends (AggregateQuery s ps k) = insert 1 (\<Union>x. Suc ` sends (k x))"
| "sends (RefreshView v c k) = insert 1 (Suc ` sends k)"
| "sends Panic = {0}"

lemma sends_and_next:
  "n \<in> sends (and_next s f) \<Longrightarrow> \<exists>m \<in> sends s. n = m \<or> (\<exists>a. \<exists>k \<in> sends (f a). n = m + k)"
proof (induction s arbitrary: n)
  case (Return x)
  then show ?case by (cases x) auto
qed (auto, fastforce+)

lemma sends_bucket: "sends (bucket P cv rel children out) = {0}"
  by (induction P cv rel children out rule: bucket.induct) (auto split: option.splits)

lemma sends_load_has_many: "sends (load_has_many P pk cv d rel parents) \<subseteq> {0, 1}"
  by (auto simp: load_has_many_def with_statement_def sends_bucket split: option.splits prod.splits)

lemma or_panic_statements: "sends (or_panic x) = {0}" "statements (or_panic x) = {}"
  by (cases x; simp add: or_panic_def)+

lemma sends_load_relation: "n \<in> sends (load_relation P M d spec parents) \<Longrightarrow> n \<le> 1"
  using sends_load_has_many by (fastforce simp: load_relation_def or_panic_statements dest!: sends_and_next split: option.splits)

lemma sends_load_all: "n \<in> sends (load_all P M d specs parents) \<Longrightarrow> n \<le> length specs"
proof (induction specs arbitrary: parents n)
  case (Cons spec specs)
  then show ?case by (auto dest!: sends_and_next) (use sends_load_relation in fastforce)+
qed simp

context sql_statements
begin

lemma children_sql_ok:
  assumes "raw_text lx (rm_target_table rel)"
  shows "\<exists>sql. children_sql d rel vs = Some (sql, vs) \<and> stmt_ok {rm_foreign_key rel} sql vs"
proof -
  obtain w where w: "to_sql (FIn (rm_foreign_key rel) vs) 0 d = Some (w, vs)"
    "yields w (filter_columns (FIn (rm_foreign_key rel) vs)) (map nm [Suc 0..<Suc (length vs)])"
    using yields_filter [of "FIn (rm_foreign_key rel) vs" 0] by auto
  have "raw_text lx ''SELECT * FROM ''" "raw_text lx '' WHERE ''" by (rule raw_stmt, simp add: stmt_chars_def)+
  then have "raw_text lx (''SELECT * FROM '' @ rm_target_table rel @ '' WHERE '')" using assms by simp
  from yields_raw_append [OF this w(2)] have "stmt_ok {rm_foreign_key rel}
      (''SELECT * FROM '' @ rm_target_table rel @ '' WHERE '' @ w) vs"
    by (auto simp: stmt_ok_def yields_def simp del: upt_Suc split: if_splits)
  with w(1) show ?thesis by (simp add: children_sql_def)
qed

lemma fine_bucket_statements: "statements (bucket P cv rel children out) = {}"
  by (induction P cv rel children out rule: bucket.induct) (auto split: option.splits)

lemma load_relation_statements:
  assumes "list_all (raw_text lx \<circ> rm_target_table \<circ> snd) (lm_relations M)"
    and "(sql, params) \<in> statements (load_relation P M d spec parents :: ('j, 'r, 'e, 'r list) session)"
  shows "stmt_ok (rm_foreign_key ` snd ` set (lm_relations M)) sql params"
proof -
  obtain rel where rel: "map_of (lm_relations M) (is_relation_name spec) = Some rel"
    using assms(2) by (auto simp: load_relation_def split: option.splits)
  then have mem: "rel \<in> snd ` set (lm_relations M)" by (force dest: map_of_SomeD)
  then have "raw_text lx (rm_target_table rel)" using assms(1) by (auto simp: list_all_iff)
  note c = children_sql_ok [OF this]
  from assms(2) rel have "(sql, params) \<in> statements (load_has_many P (lm_pk_value M) (lm_column_value M) d rel parents
      :: ('j, 'r, 'e, _) session)"
    by (auto simp: load_relation_def or_panic_statements dest!: statements_and_next)
  then have many: "(sql, params) \<in> statements (with_statement (children_sql d rel (map (lm_pk_value M) parents)) (\<lambda>sql params.
      QueryMany sql params (\<lambda>children. bucket P (lm_column_value M) rel children [])) :: ('j, 'r, 'e, _) session)"
    by (simp add: load_has_many_def split: if_splits)
  obtain s where s: "children_sql d rel (map (lm_pk_value M) parents) = Some (s, map (lm_pk_value M) parents)"
    "stmt_ok {rm_foreign_key rel} s (map (lm_pk_value M) parents)" using c by blast
  from many have "sql = s" "params = map (lm_pk_value M) parents"
    by (simp_all add: s(1) fine_bucket_statements)
  with s(2) have "stmt_ok {rm_foreign_key rel} sql params" by simp
  moreover have "{rm_foreign_key rel} \<subseteq> rm_foreign_key ` snd ` set (lm_relations M)" using mem by blast
  ultimately show ?thesis unfolding stmt_ok_def by (meson order_trans)
qed

lemma load_all_statements:
  assumes "list_all (raw_text lx \<circ> rm_target_table \<circ> snd) (lm_relations M)"
  shows "(sql, params) \<in> statements (load_all P M d specs parents :: ('j, 'r, 'e, 'r list) session) \<Longrightarrow>
    stmt_ok (rm_foreign_key ` snd ` set (lm_relations M)) sql params"
proof (induction specs arbitrary: parents)
  case (Cons spec specs)
  from statements_and_next [OF Cons.prems [unfolded load_all.simps]] show ?case
    using load_relation_statements [OF assms] Cons.IH by blast
qed simp

end

text \<open>
  C17: A find with includes never sends more than one statement per include besides its own, however
  many rows it finds; each of those statements is read back with its markers numbered in the order
  of the parents' keys, and its only identifiers are foreign keys of the model's relations.
\<close>

theorem include_statements:
  assumes "(d, lx) \<in> set sql_dialects"
    and "list_all (raw_text lx \<circ> rm_target_table \<circ> snd) (lm_relations M)"
    and "fm_build_sql op table d = Some (main, main_params)"
  shows "(\<forall>n \<in> sends (fm_exec P M d table op :: ('j, 'r, 'e, 'r list) session). n \<le> Suc (length (fm_includes op))) \<and>
    (\<forall>(sql, params) \<in> statements (fm_exec P M d table op :: ('j, 'r, 'e, 'r list) session).
      (sql, params) = (main, main_params) \<or> (\<exists>ts. lex_sql lx sql = Some ts
        \<and> marks ts = map (marker lx) [1..<Suc (length params)]
        \<and> set (idents ts) \<subseteq> rm_foreign_key ` snd ` set (lm_relations M)))"
proof -
  note s = sql_dialects_statements [OF assms(1)]
  have "n \<le> Suc (length (fm_includes op))" if "n \<in> sends (fm_exec P M d table op :: ('j, 'r, 'e, 'r list) session)" for n
    using that sends_load_all assms(3) by (fastforce simp: fm_exec_def)
  moreover have "(sql, params) = (main, main_params) \<or> (\<exists>ts. lex_sql lx sql = Some ts
        \<and> marks ts = map (marker lx) [1..<Suc (length params)]
        \<and> set (idents ts) \<subseteq> rm_foreign_key ` snd ` set (lm_relations M))"
    if "(sql, params) \<in> statements (fm_exec P M d table op :: ('j, 'r, 'e, 'r list) session)" for sql params
  proof (cases "(sql, params) = (main, main_params)")
    case False
    with that assms(3) have "(sql, params) \<in> (\<Union>ps. statements (load_all P M d (fm_includes op) ps :: ('j, 'r, 'e, 'r list) session))"
      by (auto simp: fm_exec_def)
    then obtain parents where "(sql, params) \<in> statements (load_all P M d (fm_includes op) parents :: ('j, 'r, 'e, 'r list) session)"
      by blast
    from sql_statements.load_all_statements [OF s assms(2) this] show ?thesis
      unfolding sql_statements.stmt_ok_def [OF s] using sql_statements.lexes_whole [OF s] by blast
  qed simp
  ultimately show ?thesis by blast
qed

theorem include_statements_witness:
  "list_all (\<lambda>n. n \<le> 2) (List.filter (\<lambda>n. n \<in> sends (fm_exec plain_printers users_model mysql ''users''
     (fm_include fm_new (is_take (is_new ''posts'') 5)) :: (unit, row, unit, row list) session)) [0..<10])"
proof -
  let ?op = "fm_include fm_new (is_take (is_new ''posts'') 5) :: (unit, unit include_spec) find_many"
  have "fm_build_sql ?op ''users'' mysql \<noteq> None" by code_simp
  then obtain main main_params where "fm_build_sql ?op ''users'' mysql = Some (main, main_params)" by auto
  moreover have "(mysql, mysql_lexis) \<in> set sql_dialects" by (simp add: sql_dialects_def)
  moreover have "list_all (raw_text mysql_lexis \<circ> rm_target_table \<circ> snd) (lm_relations users_model)"
    by (simp add: users_model_def posts_relation_def mysql_lexis_def)
  moreover have "length (fm_includes ?op) = 1" by (simp add: fm_include_def fm_new_def)
  ultimately show ?thesis
    using include_statements [of mysql mysql_lexis users_model ?op "''users''" main main_params plain_printers]
    by (auto simp: list_all_iff)
qed

lemma load_relation_name:
  "load_relation P M d (is_new (is_relation_name spec)) = load_relation P M d spec"
  by (simp add: fun_eq_iff load_relation_def is_new_def split: option.split)

lemma load_all_names: "load_all P M d (map (is_new \<circ> is_relation_name) specs) = load_all P M d specs"
  by (induction specs) (rule ext, simp add: load_relation_name)+

lemma load_one_names: "load_one P M d (map (is_new \<circ> is_relation_name) specs) = load_one P M d specs"
  by (rule ext) (simp only: load_one_def load_all_names)

lemma fm_build_sql_includes: "fm_build_sql (op\<lparr>fm_includes := xs\<rparr>) table d = fm_build_sql op table d"
  by (simp add: fm_build_sql_def cong: if_cong)

text \<open>
  C18: Nothing but the name of an include has an effect: its filter, ordering, page, nested includes
  and count are never looked at, by any of the finds.
\<close>

theorem include_options_ignored:
  "fm_exec P M d table (op\<lparr>fm_includes := map (is_new \<circ> is_relation_name) (fm_includes op)\<rparr>) = fm_exec P M d table op
   \<and> ff_exec P M d table first (map (is_new \<circ> is_relation_name) specs) = ff_exec P M d table first specs
   \<and> fu_exec P M d table uniq (map (is_new \<circ> is_relation_name) specs) = fu_exec P M d table uniq specs"
  by (simp add: fm_exec_def fm_build_sql_includes ff_exec_def fu_exec_def exec_optional_def exec_required_def
      load_all_names load_one_names cong: option.case_cong)

subsection \<open>Batches\<close>

lemma chunks_concat: "concat (chunks n xs) = xs"
  by (induction n xs rule: chunks.induct) (simp_all del: take_Suc_Cons drop_Suc_Cons)

lemma chunks_sizes: "c \<in> set (chunks n xs) \<Longrightarrow> c \<noteq> [] \<and> length c \<le> max 1 n"
  by (induction n xs rule: chunks.induct) auto

lemma chunks_length: "0 < n \<Longrightarrow> length (chunks n xs) = (length xs + n - 1) div n"
proof (induction n xs rule: chunks.induct)
  case (2 n x xs)
  then have n: "max 1 n = n" by simp
  let ?l = "length (x # xs)"
  have "length (chunks n (x # xs)) = Suc ((length (drop n (x # xs)) + n - 1) div n)"
    using 2 by (simp only: chunks.simps n) simp
  also have "\<dots> = (?l + n - 1) div n"
  proof (cases "n \<le> ?l")
    case True
    then have "?l + n - 1 = n + (length (drop n (x # xs)) + n - 1)" using 2(2) by simp
    then show ?thesis using 2(2) by (simp only: div_add_self1)
  next
    case False
    then have "length (drop n (x # xs)) + n - 1 < n" "?l + n - 1 = n + (?l - 1)" "?l - 1 < n" using 2(2) by auto
    then show ?thesis using 2(2) by (simp only: div_less div_add_self1)
  qed
  finally show ?case .
qed simp_all

text \<open>
  The batches of a one-to-many load: as many statements as the batch size asks for, each with its
  own part of the parents' keys in front, and no key lost, repeated or moved.
\<close>

lemma those_forall2: "those xs = Some ys \<Longrightarrow> list_all2 (\<lambda>x y. x = Some y) xs ys"
  by (induction xs arbitrary: ys) (auto split: option.splits)

lemma one_to_many_batches:
  assumes "build_one_to_many_queries l d r inc ids = Some stmts" and "is_filter inc = None"
  shows "concat (map snd stmts) = ids"
    and "length stmts = (length ids + max 1 (ld_batch_size l) - 1) div max 1 (ld_batch_size l)"
    and "list_all (\<lambda>(sql, params). params \<noteq> [] \<and> length params \<le> max 1 (ld_batch_size l)) stmts"
proof -
  define b where "b = max 1 (ld_batch_size l)"
  have "list_all2 (\<lambda>x y. x = Some y) (map (build_one_to_many_query d r inc) (chunks b ids)) stmts"
    using assms(1) by (auto simp: build_one_to_many_queries_def b_def intro: those_forall2)
  then have "list_all2 (\<lambda>c y. c = snd y) (chunks b ids) stmts"
    unfolding list_all2_map1 by (rule list_all2_mono)
      (auto simp: build_one_to_many_query_def assms(2) split: bind_splits)
  then have eq: "chunks b ids = map snd stmts" by (simp add: list_all2_conv_all_nth list_eq_iff_nth_eq)
  then show "concat (map snd stmts) = ids" by (metis chunks_concat)
  have "0 < b" by (simp add: b_def)
  from chunks_length [OF this, of ids] eq
  show "length stmts = (length ids + max 1 (ld_batch_size l) - 1) div max 1 (ld_batch_size l)"
    by (simp add: b_def)
  have "c \<noteq> [] \<and> length c \<le> b" if "c \<in> snd ` set stmts" for c
    using chunks_sizes [of c b ids] that unfolding eq by (simp add: b_def)
  then show "list_all (\<lambda>(sql, params). params \<noteq> [] \<and> length params \<le> max 1 (ld_batch_size l)) stmts"
    unfolding b_def list_all_iff by fastforce
qed

end
