(* ===== verification/Float64.thy ===== *)
theory Float64
  imports Prax_Prelude Complex_Main
begin

text \<open>
  The language's \<^verbatim>\<open>f64\<close>, as far as the query builders look inside one: a 64-bit pattern, the
  rational number it stands for, \<^verbatim>\<open>is_finite\<close>, and the conversions \<^verbatim>\<open>as i64\<close> (toward zero,
  saturating, 0 for NaN) and \<^verbatim>\<open>as f64\<close> (to the nearest, ties to even).
\<close>

definition f64_negative :: "u64 \<Rightarrow> bool" where
  "f64_negative b \<longleftrightarrow> 2 ^ 63 \<le> uint b"
definition f64_exponent :: "u64 \<Rightarrow> nat" where
  "f64_exponent b = unat b div 2 ^ 52 mod 2 ^ 11"
definition f64_fraction :: "u64 \<Rightarrow> nat" where
  "f64_fraction b = unat b mod 2 ^ 52"

definition f64_is_finite :: "u64 \<Rightarrow> bool" where
  "f64_is_finite b \<longleftrightarrow> f64_exponent b \<noteq> 2047"
definition f64_is_nan :: "u64 \<Rightarrow> bool" where
  "f64_is_nan b \<longleftrightarrow> f64_exponent b = 2047 \<and> f64_fraction b \<noteq> 0"

text \<open>The magnitude is \<open>f64_mantissa * 2 ^ (f64_scale - 1075)\<close>.\<close>

definition f64_mantissa :: "u64 \<Rightarrow> nat" where
  "f64_mantissa b = (if f64_exponent b = 0 then f64_fraction b else 2 ^ 52 + f64_fraction b)"
definition f64_scale :: "u64 \<Rightarrow> nat" where
  "f64_scale b = max 1 (f64_exponent b)"

definition f64_magnitude :: "u64 \<Rightarrow> rat" where
  "f64_magnitude b =
     (if 1075 \<le> f64_scale b then of_nat (f64_mantissa b) * 2 ^ (f64_scale b - 1075)
      else of_nat (f64_mantissa b) / 2 ^ (1075 - f64_scale b))"
definition f64_value :: "u64 \<Rightarrow> rat" where
  "f64_value b = (if f64_negative b then - f64_magnitude b else f64_magnitude b)"

definition f64_truncate :: "u64 \<Rightarrow> int" where
  "f64_truncate b =
     (let m = int (if 1075 \<le> f64_scale b then f64_mantissa b * 2 ^ (f64_scale b - 1075)
        else f64_mantissa b div 2 ^ (1075 - f64_scale b))
      in if f64_negative b then - m else m)"

definition f64_as_i64 :: "u64 \<Rightarrow> i64" where
  "f64_as_i64 b =
     (if f64_is_nan b then 0
      else if \<not> f64_is_finite b then (if f64_negative b then of_int (- (2 ^ 63)) else of_int (2 ^ 63 - 1))
      else of_int (max (- (2 ^ 63)) (min (2 ^ 63 - 1) (f64_truncate b))))"

text \<open>From an integer: the mantissa has 53 bits, the rest is rounded.\<close>

fun bit_count :: "nat \<Rightarrow> nat" where
  "bit_count n = (if n = 0 then 0 else Suc (bit_count (n div 2)))"

declare bit_count.simps [simp del]

definition round_shift :: "nat \<Rightarrow> nat \<Rightarrow> nat" where
  "round_shift n s =
     (let q = n div 2 ^ s; r = 2 * (n mod 2 ^ s)
      in if 2 ^ s < r \<or> r = 2 ^ s \<and> odd q then Suc q else q)"

definition f64_of_i64 :: "i64 \<Rightarrow> u64" where
  "f64_of_i64 i =
     (if i = 0 then 0
      else let n = nat \<bar>sint i\<bar>; k = bit_count n - 1;
               q = (if k \<le> 52 then n * 2 ^ (52 - k) else round_shift n (k - 52))
           in of_nat ((if sint i < 0 then 2 ^ 63 else 0) + (k + 1023) * 2 ^ 52 + q - 2 ^ 52))"

subsection \<open>Truncation\<close>

lemma floor_divide_nat: "\<lfloor>of_nat m / 2 ^ k :: rat\<rfloor> = int (m div 2 ^ k)"
  using floor_divide_of_nat_eq [of m "2 ^ k", where 'a = rat] by simp

lemma f64_magnitude_nonneg: "0 \<le> f64_magnitude b"
  by (simp add: f64_magnitude_def)

lemma f64_truncate_floor:
  "f64_truncate b = (if f64_negative b then - \<lfloor>f64_magnitude b\<rfloor> else \<lfloor>f64_magnitude b\<rfloor>)"
proof -
  have "\<lfloor>of_nat m * 2 ^ k :: rat\<rfloor> = int (m * 2 ^ k)" for m k
    by (metis floor_of_nat of_nat_mult of_nat_numeral of_nat_power)
  then show ?thesis
    by (simp add: f64_truncate_def f64_magnitude_def floor_divide_nat Let_def)
qed

lemma f64_truncate_value:
  "0 \<le> f64_value b \<Longrightarrow> f64_truncate b = \<lfloor>f64_value b\<rfloor>"
  "f64_value b \<le> 0 \<Longrightarrow> f64_truncate b = \<lceil>f64_value b\<rceil>"
  using f64_magnitude_nonneg [of b]
  by (auto simp: f64_truncate_floor f64_value_def ceiling_minus split: if_splits)

lemma sint_clamp: "sint (of_int (max (- (2 ^ 63)) (min (2 ^ 63 - 1) t)) :: i64) = max (- (2 ^ 63)) (min (2 ^ 63 - 1) t)"
  unfolding sint_sbintrunc'
  by (rule signed_take_bit_int_eq_self) (simp_all add: min_def max_def)

lemma sint_f64_as_i64:
  "f64_is_finite b \<Longrightarrow> sint (f64_as_i64 b) = max (- (2 ^ 63)) (min (2 ^ 63 - 1) (f64_truncate b))"
  using sint_clamp by (simp add: f64_as_i64_def f64_is_nan_def f64_is_finite_def)

subsection \<open>Conversion from integers, on examples\<close>

lemma f64_of_i64_samples:
  "f64_of_i64 0 = 0"
  "f64_of_i64 1 = 0x3FF0000000000000"
  "f64_of_i64 (- 3) = 0xC008000000000000"
  "f64_of_i64 9007199254740993 = f64_of_i64 9007199254740992"
  "f64_of_i64 9007199254740995 = f64_of_i64 9007199254740996"
  by (simp_all add: f64_of_i64_def round_shift_def bit_count.simps Let_def)

end
