(* ===== verification/Aggregate_Operations.thy ===== *)
theory Aggregate_Operations
  imports Nested_Writes Hash_Maps Float64
begin

text \<open>
  Aggregates and groups, \<^verbatim>\<open>prax-query/src/operations/aggregate.rs\<close>: the operations, the statements
  they build, the conditions on groups, and how the rows that come back are taken apart.

  A row is a map from column names to values.  The constructors of \<^verbatim>\<open>serde_json::Value\<close> and the
  standard library's float parser are an argument.
\<close>

subsection \<open>Quoting where needed\<close>

text \<open>
  From \<^verbatim>\<open>sql.rs\<close>.  Every character outside ASCII needs quoting, so it is enough that
  \<^verbatim>\<open>to_lowercase\<close> is right on ASCII.
\<close>

definition reserved_words :: "string list" where
  "reserved_words =
  [''user'', ''order'', ''group'', ''select'', ''from'', ''where'', ''table'', ''index'', ''key'',
   ''primary'', ''foreign'', ''check'', ''default'', ''null'', ''not'', ''and'', ''or'', ''in'', ''is'',
   ''like'', ''between'', ''case'', ''when'', ''then'', ''else'', ''end'', ''as'', ''on'', ''join'',
   ''left'', ''right'', ''inner'', ''outer'', ''cross'', ''natural'', ''using'', ''limit'', ''offset'',
   ''union'', ''intersect'', ''except'', ''all'', ''distinct'', ''having'', ''create'', ''alter'',
   ''drop'', ''insert'', ''update'', ''delete'', ''into'', ''values'', ''set'', ''returning'']"

definition needs_quoting :: "string \<Rightarrow> bool" where
  "needs_quoting name \<longleftrightarrow> lower name \<in> set reserved_words
     \<or> \<not> list_all (\<lambda>c. is_digit c \<or> c \<in> set ''abcdefghijklmnopqrstuvwxyzABCDEFGHIJKLMNOPQRSTUVWXYZ_'') name"
definition quote_identifier :: "string \<Rightarrow> string" where
  "quote_identifier name = (if needs_quoting name then quote_with DQUOTE DQUOTE name else name)"

subsection \<open>Aggregates\<close>

datatype aggregate_field =
    CountAll | CountColumn string | CountDistinct string | Sum string | Avg string | Min string | Max string

fun agg_to_sql :: "aggregate_field \<Rightarrow> string" where
  "agg_to_sql CountAll = ''COUNT(*)''"
| "agg_to_sql (CountColumn col) = ''COUNT('' @ quote_identifier col @ '')''"
| "agg_to_sql (CountDistinct col) = ''COUNT(DISTINCT '' @ quote_identifier col @ '')''"
| "agg_to_sql (Sum col) = ''SUM('' @ quote_identifier col @ '')''"
| "agg_to_sql (Avg col) = ''AVG('' @ quote_identifier col @ '')''"
| "agg_to_sql (Min col) = ''MIN('' @ quote_identifier col @ '')''"
| "agg_to_sql (Max col) = ''MAX('' @ quote_identifier col @ '')''"

definition call_sql :: "dialect \<Rightarrow> string \<Rightarrow> string \<Rightarrow> string option" where
  "call_sql d function col = do { q \<leftarrow> quote_ident d col; Some (function @ q @ '')'') }"

fun agg_to_sql_dialect :: "aggregate_field \<Rightarrow> dialect \<Rightarrow> string option" where
  "agg_to_sql_dialect CountAll d = Some ''COUNT(*)''"
| "agg_to_sql_dialect (CountColumn col) d = call_sql d ''COUNT('' col"
| "agg_to_sql_dialect (CountDistinct col) d = call_sql d ''COUNT(DISTINCT '' col"
| "agg_to_sql_dialect (Sum col) d = call_sql d ''SUM('' col"
| "agg_to_sql_dialect (Avg col) d = call_sql d ''AVG('' col"
| "agg_to_sql_dialect (Min col) d = call_sql d ''MIN('' col"
| "agg_to_sql_dialect (Max col) d = call_sql d ''MAX('' col"

fun agg_alias :: "aggregate_field \<Rightarrow> string" where
  "agg_alias CountAll = ''_count''"
| "agg_alias (CountColumn col) = ''_count_'' @ col"
| "agg_alias (CountDistinct col) = ''_count_distinct_'' @ col"
| "agg_alias (Sum col) = ''_sum_'' @ col"
| "agg_alias (Avg col) = ''_avg_'' @ col"
| "agg_alias (Min col) = ''_min_'' @ col"
| "agg_alias (Max col) = ''_max_'' @ col"

fun agg_is_count :: "aggregate_field \<Rightarrow> bool" where
  "agg_is_count CountAll = True"
| "agg_is_count (CountColumn col) = True"
| "agg_is_count (CountDistinct col) = True"
| "agg_is_count _ = False"

subsection \<open>Results\<close>

record 'j json_lib =
  json_null :: 'j
  json_bool :: "bool \<Rightarrow> 'j"
  json_i64 :: "i64 \<Rightarrow> 'j"
  json_f64 :: "u64 \<Rightarrow> 'j option"
  json_string :: "string \<Rightarrow> 'j"
  json_as_f64 :: "'j \<Rightarrow> u64 option"
  parse_f64 :: "string \<Rightarrow> u64 option"

fun value_to_i64 :: "'j filter_value \<Rightarrow> i64 option" where
  "value_to_i64 (VInt n) = Some n"
| "value_to_i64 (VString s) = parse_i64 s"
| "value_to_i64 _ = None"

fun value_to_f64 :: "'j json_lib \<Rightarrow> 'j filter_value \<Rightarrow> u64 option" where
  "value_to_f64 J (VInt n) = Some (f64_of_i64 n)"
| "value_to_f64 J (VFloat f) = Some f"
| "value_to_f64 J (VString s) = parse_f64 J s"
| "value_to_f64 J _ = None"

fun filter_value_to_json :: "'j json_lib \<Rightarrow> 'j filter_value \<Rightarrow> 'j" where
  "filter_value_to_json J VNull = json_null J"
| "filter_value_to_json J (VBool b) = json_bool J b"
| "filter_value_to_json J (VInt n) = json_i64 J n"
| "filter_value_to_json J (VFloat f) = (case json_f64 J f of Some j \<Rightarrow> j | None \<Rightarrow> json_null J)"
| "filter_value_to_json J (VString s) = json_string J s"
| "filter_value_to_json J (VJson j) = j"
| "filter_value_to_json J (VList vs) = json_null J"

record 'j aggregate_result =
  ar_count :: "i64 option"
  ar_count_columns :: "(string, i64) hash_map"
  ar_count_distinct :: "(string, i64) hash_map"
  ar_sum :: "(string, u64) hash_map"
  ar_avg :: "(string, u64) hash_map"
  ar_min :: "(string, 'j) hash_map"
  ar_max :: "(string, 'j) hash_map"

definition ar_empty :: "'j aggregate_result" where
  "ar_empty = \<lparr>ar_count = None, ar_count_columns = [], ar_count_distinct = [], ar_sum = [], ar_avg = [], ar_min = [], ar_max = []\<rparr>"

definition strip_prefix :: "string \<Rightarrow> string \<Rightarrow> string option" where
  "strip_prefix p s = (if take (length p) s = p then Some (drop (length p) s) else None)"

text \<open>Insertion when there is a value.\<close>

definition insert_some :: "string \<Rightarrow> 'a option \<Rightarrow> (string, 'a) hash_map \<Rightarrow> (string, 'a) hash_map" where
  "insert_some k x m = (case x of Some v \<Rightarrow> AList.update k v m | None \<Rightarrow> m)"

definition add_entry :: "'j json_lib \<Rightarrow> string \<Rightarrow> 'j filter_value \<Rightarrow> 'j aggregate_result \<Rightarrow> 'j aggregate_result" where
  "add_entry J k v out =
     (if k = ''_count'' then (case v of VInt n \<Rightarrow> out\<lparr>ar_count := Some n\<rparr> | _ \<Rightarrow> out)
      else case strip_prefix ''_count_distinct_'' k of
        Some col \<Rightarrow> out\<lparr>ar_count_distinct := insert_some col (value_to_i64 v) (ar_count_distinct out)\<rparr>
      | None \<Rightarrow> (case strip_prefix ''_count_'' k of
        Some col \<Rightarrow> out\<lparr>ar_count_columns := insert_some col (value_to_i64 v) (ar_count_columns out)\<rparr>
      | None \<Rightarrow> (case strip_prefix ''_sum_'' k of
        Some col \<Rightarrow> out\<lparr>ar_sum := insert_some col (value_to_f64 J v) (ar_sum out)\<rparr>
      | None \<Rightarrow> (case strip_prefix ''_avg_'' k of
        Some col \<Rightarrow> out\<lparr>ar_avg := insert_some col (value_to_f64 J v) (ar_avg out)\<rparr>
      | None \<Rightarrow> (case strip_prefix ''_min_'' k of
        Some col \<Rightarrow> out\<lparr>ar_min := AList.update col (filter_value_to_json J v) (ar_min out)\<rparr>
      | None \<Rightarrow> (case strip_prefix ''_max_'' k of
        Some col \<Rightarrow> out\<lparr>ar_max := AList.update col (filter_value_to_json J v) (ar_max out)\<rparr>
      | None \<Rightarrow> out))))))"

definition from_row :: "'j json_lib \<Rightarrow> (string \<times> 'j filter_value) list \<Rightarrow> 'j aggregate_result" where
  "from_row J row = fold (\<lambda>(k, v). add_entry J k v) row ar_empty"

definition count_of :: "'j aggregate_result \<Rightarrow> string \<Rightarrow> i64 option" where
  "count_of r column = map_of (ar_count_columns r) column"
definition count_distinct_of :: "'j aggregate_result \<Rightarrow> string \<Rightarrow> i64 option" where
  "count_distinct_of r column = map_of (ar_count_distinct r) column"
definition sum_as_f64 :: "'j aggregate_result \<Rightarrow> string \<Rightarrow> u64 option" where
  "sum_as_f64 r column = map_of (ar_sum r) column"
definition avg_as_f64 :: "'j aggregate_result \<Rightarrow> string \<Rightarrow> u64 option" where
  "avg_as_f64 r column = map_of (ar_avg r) column"
definition min_as_f64 :: "'j json_lib \<Rightarrow> 'j aggregate_result \<Rightarrow> string \<Rightarrow> u64 option" where
  "min_as_f64 J r column = Option.bind (map_of (ar_min r) column) (json_as_f64 J)"
definition max_as_f64 :: "'j json_lib \<Rightarrow> 'j aggregate_result \<Rightarrow> string \<Rightarrow> u64 option" where
  "max_as_f64 J r column = Option.bind (map_of (ar_max r) column) (json_as_f64 J)"

subsection \<open>\<open>AggregateOperation\<close>\<close>

record 'j aggregate_op =
  ag_engine :: bool
  ag_fields :: "aggregate_field list"
  ag_filter :: "'j filter option"

definition ag_new :: "'j aggregate_op" where
  "ag_new = \<lparr>ag_engine = False, ag_fields = [], ag_filter = None\<rparr>"
definition ag_with_engine :: "'j aggregate_op" where
  "ag_with_engine = \<lparr>ag_engine = True, ag_fields = [], ag_filter = None\<rparr>"
definition ag_add :: "'j aggregate_op \<Rightarrow> aggregate_field \<Rightarrow> 'j aggregate_op" where
  "ag_add op f = op\<lparr>ag_fields := ag_fields op @ [f]\<rparr>"
definition ag_where :: "'j aggregate_op \<Rightarrow> 'j filter \<Rightarrow> 'j aggregate_op" where
  "ag_where op f = op\<lparr>ag_filter := Some (case ag_filter op of Some g \<Rightarrow> and_then g f | None \<Rightarrow> f)\<rparr>"

definition aliased_sql :: "dialect \<Rightarrow> aggregate_field \<Rightarrow> string option" where
  "aliased_sql d f =
     do { e \<leftarrow> agg_to_sql_dialect f d; a \<leftarrow> quote_ident d (agg_alias f); Some (e @ '' AS '' @ a) }"

definition optional_where :: "dialect \<Rightarrow> 'j filter option \<Rightarrow> (string \<times> 'j filter_value list) option" where
  "optional_where d flt = (case flt of None \<Rightarrow> Some ([], [])
     | Some f \<Rightarrow> map_option (\<lambda>(w, ps). ('' WHERE '' @ w, ps)) (to_sql f 0 d))"

definition ag_build_sql :: "'j aggregate_op \<Rightarrow> string \<Rightarrow> dialect \<Rightarrow> (string \<times> 'j filter_value list) option" where
  "ag_build_sql op table d =
     do {
       parts \<leftarrow> those (map (aliased_sql d) (if ag_fields op = [] then [CountAll] else ag_fields op));
       t \<leftarrow> quote_ident d table;
       (cond, params) \<leftarrow> optional_where d (ag_filter op);
       Some (''SELECT '' @ join '', '' parts @ '' FROM '' @ t @ cond, params)
     }"

definition last_row :: "'a list list \<Rightarrow> 'a list" where
  "last_row rows = (if rows = [] then [] else last rows)"

definition ag_exec :: "'j json_lib \<Rightarrow> dialect \<Rightarrow> string \<Rightarrow> 'j aggregate_op \<Rightarrow> ('j, 'r, 'e, 'j aggregate_result) session" where
  "ag_exec J d table op =
     (if \<not> ag_engine op then fail (internal_error
        (''AggregateOperation::exec called on a builder without an engine; use Client<E>::aggregate() ''
         @ ''(which calls with_engine) instead of AggregateOperation::new()''))
      else with_statement (ag_build_sql op table d) (\<lambda>sql params.
        AggregateQuery sql params (\<lambda>rows. ok (from_row J (last_row rows)))))"

subsection \<open>Conditions on groups\<close>

datatype having_op = HGt | HGte | HLt | HLte | HEq | HNe

fun having_op_str :: "having_op \<Rightarrow> string" where
  "having_op_str HGt = ''>''"
| "having_op_str HGte = ''>=''"
| "having_op_str HLt = ''<''"
| "having_op_str HLte = ''<=''"
| "having_op_str HEq = ''=''"
| "having_op_str HNe = ''<>''"

record having_condition =
  hv_field :: aggregate_field
  hv_op :: having_op
  hv_value :: u64

text \<open>The helpers \<^verbatim>\<open>having::count_gt\<close> to \<^verbatim>\<open>having::max_ne\<close>.\<close>

definition having_make :: "aggregate_field \<Rightarrow> having_op \<Rightarrow> u64 \<Rightarrow> having_condition" where
  "having_make f op v = \<lparr>hv_field = f, hv_op = op, hv_value = v\<rparr>"
definition having_count :: "having_op \<Rightarrow> u64 \<Rightarrow> having_condition" where
  "having_count op v = having_make CountAll op v"
definition having_sum :: "having_op \<Rightarrow> string \<Rightarrow> u64 \<Rightarrow> having_condition" where
  "having_sum op column v = having_make (Sum column) op v"
definition having_avg :: "having_op \<Rightarrow> string \<Rightarrow> u64 \<Rightarrow> having_condition" where
  "having_avg op column v = having_make (Avg column) op v"
definition having_min :: "having_op \<Rightarrow> string \<Rightarrow> u64 \<Rightarrow> having_condition" where
  "having_min op column v = having_make (Min column) op v"
definition having_max :: "having_op \<Rightarrow> string \<Rightarrow> u64 \<Rightarrow> having_condition" where
  "having_max op column v = having_make (Max column) op v"

definition having_param :: "having_condition \<Rightarrow> 'j filter_value" where
  "having_param h = (if agg_is_count (hv_field h) then VInt (f64_as_i64 (hv_value h)) else VFloat (hv_value h))"

subsection \<open>\<open>GroupByOperation\<close>\<close>

record 'j group_by_op =
  gb_engine :: bool
  gb_columns :: "string list"
  gb_fields :: "aggregate_field list"
  gb_filter :: "'j filter option"
  gb_having :: "having_condition option"
  gb_order_by :: "order_by_field list"
  gb_skip :: "nat option"
  gb_take :: "nat option"

definition gb_make :: "bool \<Rightarrow> string list \<Rightarrow> 'j group_by_op" where
  "gb_make engine columns = \<lparr>gb_engine = engine, gb_columns = columns, gb_fields = [], gb_filter = None,
     gb_having = None, gb_order_by = [], gb_skip = None, gb_take = None\<rparr>"
definition gb_new :: "string list \<Rightarrow> 'j group_by_op" where
  "gb_new columns = gb_make False columns"
definition gb_with_engine :: "string list \<Rightarrow> 'j group_by_op" where
  "gb_with_engine columns = gb_make True columns"
definition gb_add :: "'j group_by_op \<Rightarrow> aggregate_field \<Rightarrow> 'j group_by_op" where
  "gb_add op f = op\<lparr>gb_fields := gb_fields op @ [f]\<rparr>"
definition gb_where :: "'j group_by_op \<Rightarrow> 'j filter \<Rightarrow> 'j group_by_op" where
  "gb_where op f = op\<lparr>gb_filter := Some (case gb_filter op of Some g \<Rightarrow> and_then g f | None \<Rightarrow> f)\<rparr>"
text \<open>Panics when the value is not finite.\<close>

definition gb_with_having :: "'j group_by_op \<Rightarrow> having_condition \<Rightarrow> 'j group_by_op option" where
  "gb_with_having op h = (if f64_is_finite (hv_value h) then Some (op\<lparr>gb_having := Some h\<rparr>) else None)"
definition gb_order :: "'j group_by_op \<Rightarrow> order_by_field \<Rightarrow> 'j group_by_op" where
  "gb_order op o1 = op\<lparr>gb_order_by := gb_order_by op @ [o1]\<rparr>"
definition gb_with_skip :: "'j group_by_op \<Rightarrow> nat \<Rightarrow> 'j group_by_op" where
  "gb_with_skip op n = op\<lparr>gb_skip := Some n\<rparr>"
definition gb_with_take :: "'j group_by_op \<Rightarrow> nat \<Rightarrow> 'j group_by_op" where
  "gb_with_take op n = op\<lparr>gb_take := Some n\<rparr>"

definition order_part :: "dialect \<Rightarrow> order_by_field \<Rightarrow> string option" where
  "order_part d f =
     do {
       q \<leftarrow> quote_ident d (ob_column f);
       Some (q @ '' '' @ sort_as_sql (ob_order f)
         @ (case ob_nulls f of None \<Rightarrow> [] | Some n \<Rightarrow> '' '' @ nulls_as_sql n))
     }"

definition having_sql :: "dialect \<Rightarrow> having_condition option \<Rightarrow> nat \<Rightarrow> (string \<times> 'j filter_value list) option" where
  "having_sql d hv n = (case hv of None \<Rightarrow> Some ([], [])
     | Some h \<Rightarrow> do {
         e \<leftarrow> agg_to_sql_dialect (hv_field h) d;
         m \<leftarrow> placeholder d (n + 1);
         Some ('' HAVING '' @ e @ '' '' @ having_op_str (hv_op h) @ '' '' @ m, [having_param h]) })"

definition listed :: "string \<Rightarrow> (dialect \<Rightarrow> 'a \<Rightarrow> string option) \<Rightarrow> dialect \<Rightarrow> 'a list \<Rightarrow> string option" where
  "listed keyword spell d xs =
     (if xs = [] then Some [] else map_option (\<lambda>ps. keyword @ join '', '' ps) (those (map (spell d) xs)))"

definition gb_page :: "'j group_by_op \<Rightarrow> string" where
  "gb_page op = (case gb_take op of None \<Rightarrow> [] | Some n \<Rightarrow> '' LIMIT '' @ show_nat n)
     @ (case gb_skip op of None \<Rightarrow> [] | Some n \<Rightarrow> '' OFFSET '' @ show_nat n)"

definition gb_build_sql :: "'j group_by_op \<Rightarrow> string \<Rightarrow> dialect \<Rightarrow> (string \<times> 'j filter_value list) option" where
  "gb_build_sql op table d =
     do {
       cols \<leftarrow> those (map (quote_ident d) (gb_columns op));
       parts \<leftarrow> those (map (aliased_sql d) (gb_fields op));
       t \<leftarrow> quote_ident d table;
       (cond, params) \<leftarrow> optional_where d (gb_filter op);
       grp \<leftarrow> listed '' GROUP BY '' quote_ident d (gb_columns op);
       (hv, hparams) \<leftarrow> having_sql d (gb_having op) (length params);
       ord \<leftarrow> listed '' ORDER BY '' order_part d (gb_order_by op);
       Some (''SELECT '' @ join '', '' (cols @ parts) @ '' FROM '' @ t @ cond @ grp @ hv @ ord @ gb_page op,
         params @ hparams)
     }"

record 'j group_by_result =
  gr_values :: "(string, 'j) hash_map"
  gr_aggregates :: "'j aggregate_result"

definition group_row :: "'j json_lib \<Rightarrow> string list \<Rightarrow> (string \<times> 'j filter_value) list \<Rightarrow> 'j group_by_result" where
  "group_row J columns row =
     \<lparr>gr_values = map (\<lambda>(k, v). (k, filter_value_to_json J v)) (List.filter (\<lambda>(k, v). k \<in> set columns) row),
      gr_aggregates = from_row J (List.filter (\<lambda>(k, v). k \<notin> set columns) row)\<rparr>"

definition gb_exec :: "'j json_lib \<Rightarrow> dialect \<Rightarrow> string \<Rightarrow> 'j group_by_op \<Rightarrow> ('j, 'r, 'e, 'j group_by_result list) session" where
  "gb_exec J d table op =
     (if \<not> gb_engine op then fail (internal_error
        (''GroupByOperation::exec called on a builder without an engine; use Client<E>::group_by() ''
         @ ''(which calls with_engine) instead of GroupByOperation::new()''))
      else with_statement (gb_build_sql op table d) (\<lambda>sql params.
        AggregateQuery sql params (\<lambda>rows. ok (map (group_row J (gb_columns op)) rows))))"

end
