(* ===== verification/Aggregate_Laws.thy ===== *)
theory Aggregate_Laws
  imports Aggregate_Operations Nested_Statements
begin

text \<open>
  Aggregates and groups: what their statements lex to, which threshold a condition on a group
  really compares with, and what is read back from a row.
\<close>

subsection \<open>The statements\<close>

fun agg_tokens :: "aggregate_field \<Rightarrow> token list" where
  "agg_tokens CountAll = chars ''COUNT(*)''"
| "agg_tokens (CountColumn col) = chars ''COUNT('' @ [TIdent col] @ chars '')''"
| "agg_tokens (CountDistinct col) = chars ''COUNT(DISTINCT '' @ [TIdent col] @ chars '')''"
| "agg_tokens (Sum col) = chars ''SUM('' @ [TIdent col] @ chars '')''"
| "agg_tokens (Avg col) = chars ''AVG('' @ [TIdent col] @ chars '')''"
| "agg_tokens (Min col) = chars ''MIN('' @ [TIdent col] @ chars '')''"
| "agg_tokens (Max col) = chars ''MAX('' @ [TIdent col] @ chars '')''"

definition field_tokens :: "aggregate_field \<Rightarrow> token list" where
  "field_tokens f = agg_tokens f @ chars '' AS '' @ [TIdent (agg_alias f)]"

definition where_tokens :: "(nat \<Rightarrow> nat option) \<Rightarrow> 'j filter option \<Rightarrow> token list" where
  "where_tokens nm flt = (case flt of None \<Rightarrow> [] | Some f \<Rightarrow> chars '' WHERE '' @ filter_tokens nm f 0)"
definition where_values :: "'j filter option \<Rightarrow> 'j filter_value list" where
  "where_values flt = (case flt of None \<Rightarrow> [] | Some f \<Rightarrow> bound_values f)"

definition listed_tokens :: "string \<Rightarrow> token list list \<Rightarrow> token list" where
  "listed_tokens keyword tss = (if tss = [] then [] else chars keyword @ comma_separated tss)"

definition order_tokens :: "order_by_field \<Rightarrow> token list" where
  "order_tokens f = TIdent (ob_column f) # chars ('' '' @ sort_as_sql (ob_order f)
     @ (case ob_nulls f of None \<Rightarrow> [] | Some n \<Rightarrow> '' '' @ nulls_as_sql n))"

definition having_tokens :: "(nat \<Rightarrow> nat option) \<Rightarrow> having_condition option \<Rightarrow> nat \<Rightarrow> token list" where
  "having_tokens nm hv n = (case hv of None \<Rightarrow> []
     | Some h \<Rightarrow> chars '' HAVING '' @ agg_tokens (hv_field h)
         @ chars ('' '' @ having_op_str (hv_op h) @ '' '') @ [TMark (nm (n + 1))])"

definition group_tokens :: "(nat \<Rightarrow> nat option) \<Rightarrow> 'j group_by_op \<Rightarrow> string \<Rightarrow> token list" where
  "group_tokens nm op table =
     chars ''SELECT '' @ comma_separated (map (\<lambda>c. [TIdent c]) (gb_columns op) @ map field_tokens (gb_fields op))
     @ chars '' FROM '' @ [TIdent table] @ where_tokens nm (gb_filter op)
     @ listed_tokens '' GROUP BY '' (map (\<lambda>c. [TIdent c]) (gb_columns op))
     @ having_tokens nm (gb_having op) (length (where_values (gb_filter op)))
     @ listed_tokens '' ORDER BY '' (map order_tokens (gb_order_by op)) @ chars (gb_page op)"

lemma list_all2_same_maps: "(\<And>x. x \<in> set xs \<Longrightarrow> P (f x) (g x)) \<Longrightarrow> list_all2 P (map f xs) (map g xs)"
  by (auto simp: list_all2_conv_all_nth)

lemma those_total: "(\<And>x. x \<in> set xs \<Longrightarrow> \<exists>y. f x = Some y \<and> P x y) \<Longrightarrow>
   \<exists>ys. those (map f xs) = Some ys \<and> list_all2 P xs ys"
proof (induction xs)
  case (Cons x xs)
  obtain y ys where "f x = Some y" "P x y" "those (map f xs) = Some ys" "list_all2 P xs ys"
    using Cons.prems [of x] Cons.IH Cons.prems by force
  then show ?case by simp
qed simp

context sql_statements
begin

text \<open>A clause: nothing, or a part that closes what precedes it.\<close>

definition clause :: "string \<Rightarrow> token list \<Rightarrow> bool" where
  "clause s ts \<longleftrightarrow> (\<exists>ps. s = spelling ps \<and> ts = tokens_of ps \<and> well_spelt ps \<and> closed_by ps)"

lemma clause_Nil: "clause [] []"
  unfolding clause_def by (rule exI [of _ "[]"]) (simp add: spelling_def tokens_of_def)

lemma clause_append: "clause s ts \<Longrightarrow> clause s' ts' \<Longrightarrow> clause (s @ s') (ts @ ts')"
  unfolding clause_def
  by (elim exE conjE, rule_tac x = "ps @ psa" in exI)
     (simp add: spelling_def tokens_of_def well_spelt_append closed_by_append)

lemma clauseI:
  assumes "set k \<subseteq> set stmt_chars" "k \<noteq> []" "ends_filter k" "lexes s ts"
  shows "clause (k @ s) (chars k @ ts)"
  unfolding clause_def using assms
  by (intro exI [of _ "[Text k, Other s ts]"]) (simp add: spelling_def tokens_of_def)

lemma lexes_clause:
  assumes "well_spelt ps" and "clause s ts"
  shows "lexes (spelling ps @ s) (tokens_of ps @ ts)"
proof -
  obtain qs where "s = spelling qs" "ts = tokens_of qs" "well_spelt qs" "closed_by qs"
    using assms(2) unfolding clause_def by blast
  with spelling_lexes [OF well_spelt_append [OF assms(1), of qs]] show ?thesis
    by (simp add: spelling_def tokens_of_def)
qed

lemma agg_lexes:
  obtains s where "agg_to_sql_dialect f d = Some s" and "lexes s (agg_tokens f)"
proof -
  have call: "lexes (k @ quo c @ '')'') (chars k @ [TIdent c] @ chars '')'')" if "set k \<subseteq> set stmt_chars" for k c
    using spelling_lexes [of "[Text k, Name c, Text '')'']"] that by (simp add: spelling_def tokens_of_def stmt_chars_def)
  have "\<exists>s. agg_to_sql_dialect f d = Some s \<and> lexes s (agg_tokens f)"
  proof (cases f)
    case CountAll
    with spelling_lexes [of "[Text ''COUNT(*)'']"] show ?thesis by (simp add: spelling_def tokens_of_def stmt_chars_def)
  next
    case (CountColumn c)
    then show ?thesis using call [of "''COUNT(''" c] by (simp add: call_sql_def quote_ident stmt_chars_def)
  next
    case (CountDistinct c)
    then show ?thesis using call [of "''COUNT(DISTINCT ''" c] by (simp add: call_sql_def quote_ident stmt_chars_def)
  next
    case (Sum c)
    then show ?thesis using call [of "''SUM(''" c] by (simp add: call_sql_def quote_ident stmt_chars_def)
  next
    case (Avg c)
    then show ?thesis using call [of "''AVG(''" c] by (simp add: call_sql_def quote_ident stmt_chars_def)
  next
    case (Min c)
    then show ?thesis using call [of "''MIN(''" c] by (simp add: call_sql_def quote_ident stmt_chars_def)
  next
    case (Max c)
    then show ?thesis using call [of "''MAX(''" c] by (simp add: call_sql_def quote_ident stmt_chars_def)
  qed
  with that show thesis by blast
qed

lemma field_lexes: "\<exists>s. aliased_sql d f = Some s \<and> lexes s (field_tokens f)"
proof -
  obtain e where e: "agg_to_sql_dialect f d = Some e" "lexes e (agg_tokens f)" using agg_lexes .
  from spelling_lexes [of "[Other e (agg_tokens f), Text '' AS '', Name (agg_alias f)]"] e show ?thesis
    by (simp add: aliased_sql_def quote_ident field_tokens_def spelling_def tokens_of_def stmt_chars_def)
qed

lemma fields_lex: "\<exists>ss. those (map (aliased_sql d) fs) = Some ss \<and> list_all2 lexes ss (map field_tokens fs)"
  using those_total [of fs "aliased_sql d" "\<lambda>f s. lexes s (field_tokens f)"] field_lexes
  by (fastforce simp: list_all2_conv_all_nth)

lemma where_clause:
  assumes "pred_option no_subquery flt"
  shows "\<exists>s. optional_where d flt = Some (s, where_values flt) \<and> clause s (where_tokens nm flt)"
proof (cases flt)
  case None
  then show ?thesis using clause_Nil by (simp add: optional_where_def where_values_def where_tokens_def)
next
  case (Some f)
  with assms to_sql_renders [of f "[]" 0] obtain w where "to_sql f 0 d = Some (w, bound_values f)" "lexes w (filter_tokens nm f 0)"
    unfolding renders_def to_sql_def by fastforce
  with Some clauseI [of "'' WHERE ''" w] show ?thesis
    by (simp add: optional_where_def where_values_def where_tokens_def stmt_chars_def)
qed

lemma listed_clause:
  assumes "\<And>x. x \<in> set xs \<Longrightarrow> \<exists>s. spell d x = Some s \<and> lexes s (tokens x)"
    and "set k \<subseteq> set stmt_chars" "k \<noteq> []" "ends_filter k"
  shows "\<exists>s. listed k spell d xs = Some s \<and> clause s (listed_tokens k (map tokens xs))"
proof -
  obtain ss where "those (map (spell d) xs) = Some ss" "list_all2 (\<lambda>x s. lexes s (tokens x)) xs ss"
    using those_total [of xs "spell d" "\<lambda>x s. lexes s (tokens x)"] assms(1) by blast
  moreover from this(2) have "list_all2 lexes ss (map tokens xs)" by (auto simp: list_all2_conv_all_nth)
  ultimately show ?thesis
    using clauseI [OF assms(2-4) lexes_comma] clause_Nil by (simp add: listed_def listed_tokens_def)
qed

lemma order_lexes: "\<exists>s. order_part d f = Some s \<and> lexes s (order_tokens f)"
proof -
  let ?t = "'' '' @ sort_as_sql (ob_order f) @ (case ob_nulls f of None \<Rightarrow> [] | Some n \<Rightarrow> '' '' @ nulls_as_sql n)"
  have "set (sort_as_sql o') \<subseteq> set stmt_chars" "set (nulls_as_sql n) \<subseteq> set stmt_chars" for o' n
    by (cases o', simp_all add: sort_as_sql_def stmt_chars_def) (cases n, simp_all add: nulls_as_sql_def)
  moreover have "set '' '' \<subseteq> set stmt_chars" by (simp add: stmt_chars_def)
  ultimately have "set ?t \<subseteq> set stmt_chars" by (cases "ob_nulls f") simp_all
  with spelling_lexes [of "[Name (ob_column f), Text ?t]"] show ?thesis
    by (simp add: order_part_def quote_ident order_tokens_def spelling_def tokens_of_def)
qed

lemma having_clause:
  "\<exists>s. having_sql d hv n = Some (s, map having_param (case hv of None \<Rightarrow> [] | Some h \<Rightarrow> [h]))
     \<and> clause s (having_tokens nm hv n)"
proof (cases hv)
  case None
  then show ?thesis using clause_Nil by (simp add: having_sql_def having_tokens_def)
next
  case (Some h)
  obtain e where e: "agg_to_sql_dialect (hv_field h) d = Some e" "lexes e (agg_tokens (hv_field h))" using agg_lexes .
  let ?op = "'' '' @ having_op_str (hv_op h) @ '' ''"
  have "set ?op \<subseteq> set stmt_chars" by (cases "hv_op h") (simp_all add: stmt_chars_def)
  with e have "clause ('' HAVING '' @ e @ ?op @ ph (n + 1))
      (chars '' HAVING '' @ agg_tokens (hv_field h) @ chars ?op @ [TMark (nm (n + 1))])"
    unfolding clause_def
    by (intro exI [of _ "[Text '' HAVING '', Other e (agg_tokens (hv_field h)), Text ?op, Slot_Mark (n + 1)]"])
       (simp add: spelling_def tokens_of_def stmt_chars_def)
  with Some e(1) show ?thesis by (simp add: having_sql_def placeholder having_tokens_def)
qed

lemma page_clause: "clause (gb_page op) (chars (gb_page op))"
proof -
  have one: "clause (k @ show_nat n) (chars (k @ show_nat n))"
    if "k = '' LIMIT '' \<or> k = '' OFFSET ''" for k n
    unfolding clause_def using that show_nat_stmt [of n]
    by (intro exI [of _ "[Text (k @ show_nat n)]"]) (auto simp: spelling_def tokens_of_def stmt_chars_def)
  have "clause (case gb_take op of None \<Rightarrow> [] | Some n \<Rightarrow> '' LIMIT '' @ show_nat n)
      (chars (case gb_take op of None \<Rightarrow> [] | Some n \<Rightarrow> '' LIMIT '' @ show_nat n))"
    using clause_Nil one [of "'' LIMIT ''"] by (cases "gb_take op") simp_all
  moreover have "clause (case gb_skip op of None \<Rightarrow> [] | Some n \<Rightarrow> '' OFFSET '' @ show_nat n)
      (chars (case gb_skip op of None \<Rightarrow> [] | Some n \<Rightarrow> '' OFFSET '' @ show_nat n))"
    using clause_Nil one [of "'' OFFSET ''"] by (cases "gb_skip op") simp_all
  ultimately show ?thesis unfolding gb_page_def map_append by (rule clause_append)
qed

lemma aggregate_renders:
  assumes "pred_option no_subquery (ag_filter op)"
  shows "\<exists>sql. ag_build_sql op table d = Some (sql, where_values (ag_filter op)) \<and> lexes sql
     (chars ''SELECT '' @ comma_separated (map field_tokens (if ag_fields op = [] then [CountAll] else ag_fields op))
      @ chars '' FROM '' @ [TIdent table] @ where_tokens nm (ag_filter op))"
proof -
  let ?fs = "if ag_fields op = [] then [CountAll] else ag_fields op"
  obtain ss where ss: "those (map (aliased_sql d) ?fs) = Some ss" "list_all2 lexes ss (map field_tokens ?fs)"
    using fields_lex by blast
  obtain w where w: "optional_where d (ag_filter op) = Some (w, where_values (ag_filter op))"
    "clause w (where_tokens nm (ag_filter op))" using where_clause [OF assms] by blast
  let ?ps = "[Text ''SELECT '', Other (join '', '' ss) (comma_separated (map field_tokens ?fs)), Text '' FROM '', Name table]"
  have "well_spelt ?ps" using lexes_comma [OF ss(2)] by (simp add: stmt_chars_def)
  from lexes_clause [OF this w(2)] ss(1) w(1) show ?thesis
    by (simp add: ag_build_sql_def quote_ident spelling_def tokens_of_def)
qed

lemma group_renders:
  fixes op :: "'j group_by_op"
  assumes "pred_option no_subquery (gb_filter op)"
  shows "\<exists>sql. gb_build_sql op table d = Some (sql, where_values (gb_filter op)
       @ map having_param (case gb_having op of None \<Rightarrow> [] | Some h \<Rightarrow> [h]))
     \<and> lexes sql (group_tokens nm op table)"
proof -
  let ?n = "length (where_values (gb_filter op))"
  obtain ss where ss: "those (map (aliased_sql d) (gb_fields op)) = Some ss" "list_all2 lexes ss (map field_tokens (gb_fields op))"
    using fields_lex by blast
  obtain w where w: "optional_where d (gb_filter op) = Some (w, where_values (gb_filter op))"
    "clause w (where_tokens nm (gb_filter op))" using where_clause [OF assms] by blast
  obtain g where g: "listed '' GROUP BY '' quote_ident d (gb_columns op) = Some g"
    "clause g (listed_tokens '' GROUP BY '' (map (\<lambda>c. [TIdent c]) (gb_columns op)))"
    using listed_clause [of "gb_columns op" quote_ident "\<lambda>c. [TIdent c]" "'' GROUP BY ''"]
    by (auto simp: quote_ident lexes_ident stmt_chars_def)
  obtain h where h: "having_sql d (gb_having op) ?n
      = Some (h, map having_param (case gb_having op of None \<Rightarrow> [] | Some h \<Rightarrow> [h]) :: 'j filter_value list)"
    "clause h (having_tokens nm (gb_having op) ?n)" using having_clause by blast
  obtain ob where ob: "listed '' ORDER BY '' order_part d (gb_order_by op) = Some ob"
    "clause ob (listed_tokens '' ORDER BY '' (map order_tokens (gb_order_by op)))"
    using listed_clause [of "gb_order_by op" order_part order_tokens "'' ORDER BY ''"] order_lexes
    by (auto simp: stmt_chars_def)
  let ?ts = "comma_separated (map (\<lambda>c. [TIdent c]) (gb_columns op) @ map field_tokens (gb_fields op))"
  have cols: "list_all2 lexes (map quo (gb_columns op)) (map (\<lambda>c. [TIdent c]) (gb_columns op))"
    by (rule list_all2_same_maps) (rule lexes_ident)
  let ?ps = "[Text ''SELECT '', Other (join '', '' (map quo (gb_columns op) @ ss)) ?ts, Text '' FROM '', Name table]"
  have "well_spelt ?ps" using lexes_comma [OF list_all2_appendI [OF cols ss(2)]] by (simp add: stmt_chars_def)
  from lexes_clause [OF this clause_append [OF w(2) clause_append [OF g(2) clause_append [OF h(2) clause_append [OF ob(2) page_clause [of op]]]]]]
    ss(1) w(1) g(1) h(1) ob(1)
  show ?thesis
    by (simp add: gb_build_sql_def quote_ident those_names group_tokens_def spelling_def tokens_of_def)
qed

end

text \<open>
  C19: The statements of aggregates and groups whose filters have no raw scalar subquery lex, on
  every SQL dialect, to exactly the tokens they stand for, with the parameters of the filter and
  then the threshold of the condition: whatever bytes the names of columns, aliases and the table
  hold, they stay one identifier each.
\<close>

theorem aggregate_statements:
  assumes "(d, lx) \<in> set sql_dialects"
    and "pred_option no_subquery (ag_filter op)" and "pred_option no_subquery (gb_filter gop)"
  shows "\<exists>sql gsql. ag_build_sql op table d = Some (sql, where_values (ag_filter op))
     \<and> lex_sql lx sql = Some (chars ''SELECT ''
        @ comma_separated (map field_tokens (if ag_fields op = [] then [CountAll] else ag_fields op))
        @ chars '' FROM '' @ [TIdent table] @ where_tokens (marker lx) (ag_filter op))
     \<and> gb_build_sql gop table d = Some (gsql, where_values (gb_filter gop)
        @ map having_param (case gb_having gop of None \<Rightarrow> [] | Some h \<Rightarrow> [h]))
     \<and> lex_sql lx gsql = Some (group_tokens (marker lx) gop table)"
proof -
  note s = sql_dialects_statements [OF assms(1)]
  show ?thesis
    using sql_statements.aggregate_renders [OF s assms(2), of table] sql_statements.group_renders [OF s assms(3), of table]
      sql_statements.lexes_whole [OF s] by blast
qed


text \<open>
  The plain witness: a table and a column with quotes in their names.
\<close>

theorem aggregate_statements_witness:
  "\<exists>sql gsql. ag_build_sql (ag_add ag_new (Sum [DQUOTE, CHR ''x''])) [BTICK] postgres = Some (sql, [] :: unit filter_value list)
     \<and> lex_sql postgres_lexis sql = Some (chars ''SELECT '' @ field_tokens (Sum [DQUOTE, CHR ''x''])
        @ chars '' FROM '' @ [TIdent [BTICK]])
     \<and> gb_build_sql (gb_where (gb_new [''a'']) (FEquals ''b'' (VInt 1))) [BTICK] postgres = Some (gsql, [VInt 1 :: unit filter_value])
     \<and> lex_sql postgres_lexis gsql = Some (chars ''SELECT '' @ [TIdent ''a''] @ chars '' FROM '' @ [TIdent [BTICK]]
        @ chars '' WHERE '' @ [TIdent ''b''] @ chars '' = '' @ [TMark (Some 1)] @ chars '' GROUP BY '' @ [TIdent ''a''])"
  using aggregate_statements [of postgres postgres_lexis "ag_add ag_new (Sum [DQUOTE, CHR ''x'']) :: unit aggregate_op"
      "gb_where (gb_new [''a'']) (FEquals ''b'' (VInt 1)) :: unit group_by_op" "[BTICK]"]
  by (simp add: sql_dialects_def ag_add_def ag_new_def gb_where_def gb_new_def gb_make_def where_values_def
      where_tokens_def group_tokens_def listed_tokens_def having_tokens_def gb_page_def comma_separated_def marker_def
      postgres_lexis_def)

subsection \<open>The threshold of a condition on a count\<close>

fun having_holds :: "having_op \<Rightarrow> rat \<Rightarrow> rat \<Rightarrow> bool" where
  "having_holds HGt x y \<longleftrightarrow> y < x"
| "having_holds HGte x y \<longleftrightarrow> y \<le> x"
| "having_holds HLt x y \<longleftrightarrow> x < y"
| "having_holds HLte x y \<longleftrightarrow> x \<le> y"
| "having_holds HEq x y \<longleftrightarrow> x = y"
| "having_holds HNe x y \<longleftrightarrow> x \<noteq> y"

text \<open>Comparing a count with \<open>i\<close> decides as comparing it with the value the condition was made with.\<close>

definition threshold_kept :: "having_condition \<Rightarrow> i64 \<Rightarrow> bool" where
  "threshold_kept h i \<longleftrightarrow> (\<forall>n < 2 ^ 63 - 1.
     having_holds (hv_op h) (of_nat n) (of_int (sint i)) = having_holds (hv_op h) (of_nat n) (f64_value (hv_value h)))"

lemma having_holds_int: "having_holds op (of_int a) (of_int b) \<longleftrightarrow>
    (case op of HGt \<Rightarrow> b < a | HGte \<Rightarrow> b \<le> a | HLt \<Rightarrow> a < b | HLte \<Rightarrow> a \<le> b | HEq \<Rightarrow> a = b | HNe \<Rightarrow> a \<noteq> b)"
  by (cases op) simp_all

lemma having_holds_clamp:
  assumes "n < 2 ^ 63 - 1"
  shows "having_holds op (of_nat n) (of_int (max (- (2 ^ 63)) (min (2 ^ 63 - 1) t))) = having_holds op (of_nat n) (of_int t)"
proof -
  have n: "(of_nat n :: rat) = of_int (int n)" by simp
  have "int n < 2 ^ 63 - 1" using assms by simp
  then show ?thesis unfolding n having_holds_int by (cases op) (auto simp: min_def max_def)
qed

lemma f64_fractional_small:
  assumes "f64_value b \<notin> \<int>"
  shows "\<bar>f64_value b\<bar> < 2 ^ 53"
proof -
  have small: "\<not> 1075 \<le> f64_scale b"
  proof
    assume "1075 \<le> f64_scale b"
    then have "f64_magnitude b = of_int (int (f64_mantissa b) * 2 ^ (f64_scale b - 1075))"
      by (simp add: f64_magnitude_def)
    then have "f64_magnitude b \<in> \<int>" by (metis Ints_of_int)
    with assms show False by (simp add: f64_value_def split: if_splits)
  qed
  have "f64_fraction b < 2 ^ 52" by (simp add: f64_fraction_def)
  then have "f64_mantissa b < 2 ^ 53" by (simp add: f64_mantissa_def)
  then have m: "(of_nat (f64_mantissa b) :: rat) < 2 ^ 53"
    by (metis of_nat_less_iff of_nat_numeral of_nat_power)
  have "f64_magnitude b \<le> of_nat (f64_mantissa b)"
    using small by (simp add: f64_magnitude_def divide_le_eq mult_le_cancel_left1)
  with m show ?thesis using f64_magnitude_nonneg [of b] by (simp add: f64_value_def)
qed

lemma threshold_integral:
  assumes "f64_value b \<in> \<int>"
  shows "of_int (f64_truncate b) = f64_value b"
  using assms f64_truncate_value [of b] by (metis Ints_cases ceiling_of_int floor_of_int linear)

lemma threshold_above:
  assumes "f64_value (hv_value h) \<notin> \<int>" and "0 < f64_value (hv_value h)"
  defines "t \<equiv> f64_truncate (hv_value h)"
  shows "(\<forall>n < 2 ^ 63 - 1. having_holds (hv_op h) (of_nat n) (of_int t) = having_holds (hv_op h) (of_nat n) (f64_value (hv_value h)))
    \<longleftrightarrow> hv_op h = HGt \<or> hv_op h = HLte"
proof -
  let ?v = "f64_value (hv_value h)"
  have t: "t = \<lfloor>?v\<rfloor>" using f64_truncate_value(1) assms(2) by (simp add: t_def)
  then have pos: "0 \<le> t" using assms(2) by simp
  have ne: "of_int k \<noteq> ?v" for k using assms(1) by (metis Ints_of_int)
  have le: "of_int k \<le> ?v \<longleftrightarrow> k \<le> t" for k by (simp add: t le_floor_iff)
  have lt: "of_int k < ?v \<longleftrightarrow> k \<le> t" for k using le ne [of k] by (simp add: less_le)
  have small: "nat t < 2 ^ 63 - 1"
  proof -
    have "?v < 2 ^ 53" using f64_fractional_small [OF assms(1)] assms(2) by simp
    then have "of_int t < (of_int (2 ^ 53) :: rat)" using le [of t] by simp
    then have "t < 2 ^ 53" by (simp only: of_int_less_iff)
    then show ?thesis using pos by (simp add: nat_less_iff)
  qed
  have n: "(of_nat n :: rat) = of_int (int n)" for n by simp
  have v: "having_holds op (of_int k) ?v \<longleftrightarrow>
      (case op of HGt \<Rightarrow> t < k | HGte \<Rightarrow> t < k | HLt \<Rightarrow> k \<le> t | HLte \<Rightarrow> k \<le> t | HEq \<Rightarrow> False | HNe \<Rightarrow> True)" for op k
    using le [of k] lt [of k] ne [of k] by (cases op) (simp_all, linarith+)
  obtain m where m: "t = int m" using pos nonneg_int_cases by blast
  have "m < 2 ^ 63 - 1" using small by (simp add: m)
  then show ?thesis
    unfolding n having_holds_int v m by (cases "hv_op h") (auto intro!: exI [of _ m] simp: not_le)
qed

text \<open>
  C20: A condition on a count binds the truncated value.  That decides as the value itself would,
  for every count a database can hold, exactly when the value is whole, or below -1, or the
  comparison is \<open>>\<close> or \<open><=\<close> and the value positive, or it is \<open>>=\<close> or \<open><\<close> and the value negative:
  \<open>count >= 2.5\<close> keeps groups of 2, and \<open>count = 2.5\<close> keeps them too.
\<close>

theorem having_count_threshold:
  assumes "f64_is_finite (hv_value h)" and "agg_is_count (hv_field h)"
  shows "\<exists>i. having_param h = VInt i \<and> (threshold_kept h i \<longleftrightarrow>
     f64_value (hv_value h) \<in> \<int> \<or> f64_value (hv_value h) < - 1
     \<or> 0 < f64_value (hv_value h) \<and> (hv_op h = HGt \<or> hv_op h = HLte)
     \<or> f64_value (hv_value h) < 0 \<and> (hv_op h = HGte \<or> hv_op h = HLt))"
proof -
  let ?v = "f64_value (hv_value h)" and ?t = "f64_truncate (hv_value h)"
  have kept: "threshold_kept h (f64_as_i64 (hv_value h)) \<longleftrightarrow> (\<forall>n < 2 ^ 63 - 1.
      having_holds (hv_op h) (of_nat n) (of_int ?t) = having_holds (hv_op h) (of_nat n) ?v)"
    unfolding threshold_kept_def sint_f64_as_i64 [OF assms(1)] using having_holds_clamp by auto
  consider "?v \<in> \<int>" | "?v \<notin> \<int>" "0 < ?v" | "?v \<notin> \<int>" "?v < 0" "- 1 < ?v" | "?v < - 1"
    by (metis Ints_0 Ints_1 Ints_minus linorder_less_linear)
  then have "threshold_kept h (f64_as_i64 (hv_value h)) \<longleftrightarrow>
     ?v \<in> \<int> \<or> ?v < - 1 \<or> 0 < ?v \<and> (hv_op h = HGt \<or> hv_op h = HLte) \<or> ?v < 0 \<and> (hv_op h = HGte \<or> hv_op h = HLt)"
  proof cases
    case 1
    then show ?thesis using threshold_integral by (simp add: kept)
  next
    case 2
    then show ?thesis using threshold_above [of h] by (simp add: kept)
  next
    case 3
    then have t: "?t = 0" using f64_truncate_value(2) [of "hv_value h"] by (simp add: ceiling_eq_iff)
    have pos: "?v < of_nat n" "?v \<noteq> of_nat n" "of_nat n \<noteq> ?v" for n using 3(2) of_nat_0_le_iff [of n, where 'a = rat] by linarith+
    show ?thesis unfolding kept t using 3 pos
      by (cases "hv_op h") (auto intro!: exI [of _ 0] simp: not_less not_le less_imp_le)
  next
    case 4
    then have "?t = \<lceil>?v\<rceil>" using f64_truncate_value(2) [of "hv_value h"] by simp
    moreover have "\<lceil>?v\<rceil> \<le> - 1" using 4 by (simp add: ceiling_le_iff)
    ultimately have "(of_int ?t :: rat) \<le> of_int (- 1)" by (simp only: of_int_le_iff)
    then have t: "(of_int ?t :: rat) < of_nat n" "?v < of_nat n" for n
      using 4 of_nat_0_le_iff [of n, where 'a = rat] by auto
    have "having_holds (hv_op h) (of_nat n) (of_int ?t) = having_holds (hv_op h) (of_nat n) ?v" for n
      using t [of n] by (cases "hv_op h") auto
    then show ?thesis using 4 by (simp add: kept)
  qed
  then show ?thesis using assms(2) by (simp add: having_param_def)
qed

text \<open>The pattern of 2.5.\<close>

definition two_and_a_half :: u64 where
  "two_and_a_half = 4612811918334230528"

lemma two_and_a_half: "f64_value two_and_a_half = 5 / 2" "f64_as_i64 two_and_a_half = 2" "f64_is_finite two_and_a_half"
proof -
  have parts: "f64_exponent two_and_a_half = 1024" "f64_fraction two_and_a_half = 2 ^ 50" "\<not> f64_negative two_and_a_half"
    by (simp_all add: f64_exponent_def f64_fraction_def f64_negative_def two_and_a_half_def)
  then show "f64_value two_and_a_half = 5 / 2" "f64_as_i64 two_and_a_half = 2" "f64_is_finite two_and_a_half"
    by (simp_all add: f64_value_def f64_magnitude_def f64_as_i64_def f64_truncate_def f64_is_nan_def f64_is_finite_def
        f64_mantissa_def f64_scale_def)
qed

lemma half_not_whole: "(5 / 2 :: rat) \<notin> \<int>"
proof
  assume "(5 / 2 :: rat) \<in> \<int>"
  then obtain k where "(5 / 2 :: rat) = of_int k" by (rule Ints_cases)
  then have "(of_int (2 * k) :: rat) = of_int 5" by simp
  then have "2 * k = 5" by (simp only: of_int_eq_iff)
  then show False by presburger
qed

theorem having_count_threshold_witness:
  "threshold_kept (having_count HGt two_and_a_half) 2 \<and> \<not> threshold_kept (having_count HEq two_and_a_half) 2
   \<and> \<not> threshold_kept (having_count HGte two_and_a_half) 2"
  using having_count_threshold [of "having_count HGt two_and_a_half"] having_count_threshold [of "having_count HEq two_and_a_half"]
    having_count_threshold [of "having_count HGte two_and_a_half"]
  by (simp add: having_count_def having_make_def having_param_def two_and_a_half half_not_whole)

subsection \<open>Reading a row back\<close>

lemma strip_prefix_iff: "strip_prefix p s = Some col \<longleftrightarrow> s = p @ col"
  by (auto simp: strip_prefix_def) (metis append_take_drop_id)

lemma fold_entries:
  assumes "\<And>k v out. A (add_entry J k v out) = (if k = key then (case g v of Some x \<Rightarrow> Some x | None \<Rightarrow> A out) else A out)"
    and "distinct (map fst row)"
  shows "A (fold (\<lambda>(k, v). add_entry J k v) row out)
     = (case Option.bind (map_of row key) g of Some x \<Rightarrow> Some x | None \<Rightarrow> A out)"
  using assms(2)
proof (induction row arbitrary: out)
  case (Cons e row)
  obtain k v where e: "e = (k, v)" by (cases e)
  with Cons.prems have "k = key \<Longrightarrow> map_of row key = None" by (auto simp: map_of_eq_None_iff)
  with Cons e show ?case by (auto simp: assms(1) split: option.splits)
qed simp

lemma lookup_insert:
  "map_of (case strip_prefix p k of Some c \<Rightarrow> insert_some c x m | None \<Rightarrow> m) col
     = (if k = p @ col then (case x of Some y \<Rightarrow> Some y | None \<Rightarrow> map_of m col) else map_of m col)"
  by (auto simp: insert_some_def strip_prefix_iff update_conv' split: option.split)
     (simp add: strip_prefix_def)+

text \<open>Each part of the result looks at the names with its own prefix.\<close>

lemma strip_prefixD: "strip_prefix p s = Some c \<Longrightarrow> s = p @ c"
  by (simp only: strip_prefix_iff)

lemma entry_count:
  "ar_count (add_entry J k v out) = (if k = ''_count'' then (case (case v of VInt n \<Rightarrow> Some n | _ \<Rightarrow> None) of
     Some x \<Rightarrow> Some x | None \<Rightarrow> ar_count out) else ar_count out)"
  by (cases "k = ''_count''") (simp add: add_entry_def split: filter_value.split, simp add: add_entry_def split: option.split)

lemma entry_count_distinct:
  "ar_count_distinct (add_entry J k v out) = (case strip_prefix ''_count_distinct_'' k of
     Some c \<Rightarrow> insert_some c (value_to_i64 v) (ar_count_distinct out) | None \<Rightarrow> ar_count_distinct out)"
  by (cases "strip_prefix ''_count_distinct_'' k") (simp add: add_entry_def split: option.split filter_value.split,
    drule strip_prefixD, simp add: insert_some_def add_entry_def strip_prefix_def)

lemma entry_sum:
  "ar_sum (add_entry J k v out) = (case strip_prefix ''_sum_'' k of
     Some c \<Rightarrow> insert_some c (value_to_f64 J v) (ar_sum out) | None \<Rightarrow> ar_sum out)"
  by (cases "strip_prefix ''_sum_'' k") (simp add: add_entry_def split: option.split filter_value.split,
    drule strip_prefixD, simp add: insert_some_def add_entry_def strip_prefix_def)

lemma entry_avg:
  "ar_avg (add_entry J k v out) = (case strip_prefix ''_avg_'' k of
     Some c \<Rightarrow> insert_some c (value_to_f64 J v) (ar_avg out) | None \<Rightarrow> ar_avg out)"
  by (cases "strip_prefix ''_avg_'' k") (simp add: add_entry_def split: option.split filter_value.split,
    drule strip_prefixD, simp add: insert_some_def add_entry_def strip_prefix_def)

lemma entry_min:
  "ar_min (add_entry J k v out) = (case strip_prefix ''_min_'' k of
     Some c \<Rightarrow> insert_some c (Some (filter_value_to_json J v)) (ar_min out) | None \<Rightarrow> ar_min out)"
  by (cases "strip_prefix ''_min_'' k") (simp add: add_entry_def split: option.split filter_value.split,
    drule strip_prefixD, simp add: insert_some_def add_entry_def strip_prefix_def)

lemma entry_max:
  "ar_max (add_entry J k v out) = (case strip_prefix ''_max_'' k of
     Some c \<Rightarrow> insert_some c (Some (filter_value_to_json J v)) (ar_max out) | None \<Rightarrow> ar_max out)"
  by (cases "strip_prefix ''_max_'' k") (simp add: add_entry_def split: option.split filter_value.split,
    drule strip_prefixD, simp add: insert_some_def add_entry_def strip_prefix_def)

lemma entry_count_columns:
  "ar_count_columns (add_entry J k v out) = (case strip_prefix ''_count_'' k of
     Some c \<Rightarrow> if strip_prefix ''distinct_'' c = None then insert_some c (value_to_i64 v) (ar_count_columns out)
       else ar_count_columns out
   | None \<Rightarrow> ar_count_columns out)"
  by (cases "strip_prefix ''_count_'' k") (simp add: add_entry_def split: option.split filter_value.split,
    drule strip_prefixD, simp add: add_entry_def strip_prefix_def)

lemma entry_lookups:
  "count_distinct_of (add_entry J k v out) col = (if k = agg_alias (CountDistinct col)
     then (case value_to_i64 v of Some x \<Rightarrow> Some x | None \<Rightarrow> count_distinct_of out col) else count_distinct_of out col)"
  "sum_as_f64 (add_entry J k v out) col = (if k = agg_alias (Sum col)
     then (case value_to_f64 J v of Some x \<Rightarrow> Some x | None \<Rightarrow> sum_as_f64 out col) else sum_as_f64 out col)"
  "avg_as_f64 (add_entry J k v out) col = (if k = agg_alias (Avg col)
     then (case value_to_f64 J v of Some x \<Rightarrow> Some x | None \<Rightarrow> avg_as_f64 out col) else avg_as_f64 out col)"
  "map_of (ar_min (add_entry J k v out)) col = (if k = agg_alias (Min col)
     then (case Some (filter_value_to_json J v) of Some x \<Rightarrow> Some x | None \<Rightarrow> map_of (ar_min out) col) else map_of (ar_min out) col)"
  "map_of (ar_max (add_entry J k v out)) col = (if k = agg_alias (Max col)
     then (case Some (filter_value_to_json J v) of Some x \<Rightarrow> Some x | None \<Rightarrow> map_of (ar_max out) col) else map_of (ar_max out) col)"
  unfolding count_distinct_of_def sum_as_f64_def avg_as_f64_def entry_count_distinct entry_sum entry_avg entry_min entry_max
    lookup_insert by simp_all

lemma entry_count_of:
  "count_of (add_entry J k v out) col = (if k = agg_alias (CountColumn col)
     then (case (if strip_prefix ''distinct_'' col = None then value_to_i64 v else None) of
       Some x \<Rightarrow> Some x | None \<Rightarrow> count_of out col) else count_of out col)"
proof (cases "strip_prefix ''_count_'' k")
  case None
  then have "k \<noteq> ''_count_'' @ col" by (auto simp: strip_prefix_def)
  with None show ?thesis by (simp add: count_of_def entry_count_columns)
next
  case (Some c)
  then have "k = ''_count_'' @ c" by (rule strip_prefixD)
  with Some show ?thesis
    by (simp add: count_of_def entry_count_columns insert_some_def update_conv' split: option.split)
qed

lemma map_of_filter_keys:
  "map_of (List.filter (\<lambda>(k, v). k \<in> A) row) key = (if key \<in> A then map_of row key else None)"
  "map_of (List.filter (\<lambda>(k, v). k \<notin> A) row) key = (if key \<in> A then None else map_of row key)"
  by (induction row) auto

text \<open>
  C21: A group's row, whatever the order of its columns, is taken apart by name: the group columns
  give the values, and of the others each aggregate is found under its alias.  One exception: the
  count of a column whose name starts with \<open>distinct_\<close> is never found, since its alias is the one
  of a distinct count.
\<close>

theorem group_readback:
  assumes "distinct (map fst row)"
  shows "let g = group_row J columns row; r = gr_aggregates g;
      seen = (\<lambda>f. if agg_alias f \<in> set columns then None else map_of row (agg_alias f)) in
    map_of (gr_values g) col = (if col \<in> set columns then map_option (filter_value_to_json J) (map_of row col) else None)
    \<and> ar_count r = Option.bind (seen CountAll) (\<lambda>v. case v of VInt n \<Rightarrow> Some n | _ \<Rightarrow> None)
    \<and> count_of r col = Option.bind (seen (CountColumn col)) (\<lambda>v. if strip_prefix ''distinct_'' col = None then value_to_i64 v else None)
    \<and> count_distinct_of r col = Option.bind (seen (CountDistinct col)) value_to_i64
    \<and> sum_as_f64 r col = Option.bind (seen (Sum col)) (value_to_f64 J)
    \<and> avg_as_f64 r col = Option.bind (seen (Avg col)) (value_to_f64 J)
    \<and> map_of (ar_min r) col = map_option (filter_value_to_json J) (seen (Min col))
    \<and> map_of (ar_max r) col = map_option (filter_value_to_json J) (seen (Max col))"
proof -
  let ?row = "List.filter (\<lambda>(k, v). k \<notin> set columns) row"
  have "distinct (map fst ?row)" using assms by (rule distinct_map_filter)
  note fold = fold_entries [OF _ this, where J = J and out = ar_empty, unfolded map_of_filter_keys]
  have row: "from_row J (List.filter (\<lambda>(k, v). k \<notin> set columns) row) = fold (\<lambda>(k, v). add_entry J k v) ?row ar_empty"
    by (simp add: from_row_def)
  have empty: "ar_count ar_empty = None" "count_of ar_empty col = None" "count_distinct_of ar_empty col = None"
    "sum_as_f64 ar_empty col = None" "avg_as_f64 ar_empty col = None" "map_of (ar_min ar_empty) col = None" "map_of (ar_max ar_empty) col = None"
    by (simp_all add: ar_empty_def count_of_def count_distinct_of_def sum_as_f64_def avg_as_f64_def)
  have bind_id: "(case x of Some y \<Rightarrow> Some y | None \<Rightarrow> None) = x" for x :: "'x option" by (cases x) simp_all
  have vals: "map_of (map (\<lambda>(k, v). (k, filter_value_to_json J v)) xs) col = map_option (filter_value_to_json J) (map_of xs col)" for xs
    by (induction xs) auto
  have min: "map_of (ar_min (fold (\<lambda>(k, v). add_entry J k v) ?row ar_empty)) col
      = Option.bind (if agg_alias (Min col) \<in> set columns then None else map_of row (agg_alias (Min col))) (\<lambda>v. Some (filter_value_to_json J v))"
    using fold [where A = "\<lambda>r. map_of (ar_min r) col" and g = "\<lambda>v. Some (filter_value_to_json J v)", OF entry_lookups(4)]
    by (simp only: empty bind_id)
  have max: "map_of (ar_max (fold (\<lambda>(k, v). add_entry J k v) ?row ar_empty)) col
      = Option.bind (if agg_alias (Max col) \<in> set columns then None else map_of row (agg_alias (Max col))) (\<lambda>v. Some (filter_value_to_json J v))"
    using fold [where A = "\<lambda>r. map_of (ar_max r) col" and g = "\<lambda>v. Some (filter_value_to_json J v)", OF entry_lookups(5)]
    by (simp only: empty bind_id)
  show ?thesis
    using fold [of ar_count, OF entry_count] fold [of "\<lambda>r. count_of r col", OF entry_count_of]
      fold [of "\<lambda>r. count_distinct_of r col", OF entry_lookups(1)] fold [of "\<lambda>r. sum_as_f64 r col", OF entry_lookups(2)]
      fold [of "\<lambda>r. avg_as_f64 r col", OF entry_lookups(3)]
    unfolding empty bind_id
    by (simp add: Let_def group_row_def row min max vals map_of_filter_keys map_conv_bind_option o_def)
qed

text \<open>A row that has the count of a column \<open>distinct_x\<close>.\<close>

definition unit_json :: "unit json_lib" where
  "unit_json = \<lparr>json_null = (), json_bool = (\<lambda>_. ()), json_i64 = (\<lambda>_. ()), json_f64 = (\<lambda>_. Some ()),
     json_string = (\<lambda>_. ()), json_as_f64 = (\<lambda>_. None), parse_f64 = (\<lambda>_. None)\<rparr>"

theorem group_readback_witness:
  "count_of (gr_aggregates (group_row unit_json [''city''] [(''city'', VNull), (agg_alias (CountColumn ''distinct_x''), VInt 5)]))
     ''distinct_x'' = None"
  using group_readback [of "[(''city'', VNull), (agg_alias (CountColumn ''distinct_x''), VInt 5)]" unit_json "[''city'']" "''distinct_x''"]
  by (simp add: Let_def strip_prefix_def)

end
