(* ===== verification/View_Operations.thy ===== *)
theory View_Operations
  imports Nested_Writes
begin

text \<open>
  Reading views, \<^verbatim>\<open>prax-query/src/operations/view.rs\<close>.  The statements are written for PostgreSQL
  whatever the engine speaks; finding rows sends no statement at all.
\<close>

subsection \<open>\<open>ViewFindManyOperation\<close> and \<open>ViewFindFirstOperation\<close>\<close>

record 'j view_find =
  vf_filter :: "'j filter"
  vf_order_by :: order_by
  vf_pagination :: pagination
  vf_select :: select
  vf_distinct :: "string list option"

definition vf_new :: "'j view_find" where
  "vf_new = \<lparr>vf_filter = FNone, vf_order_by = ob_none, vf_pagination = pg_new, vf_select = SelAll, vf_distinct = None\<rparr>"
definition vf_where :: "'j view_find \<Rightarrow> 'j filter \<Rightarrow> 'j view_find" where
  "vf_where op f = op\<lparr>vf_filter := and_then (vf_filter op) f\<rparr>"
definition vf_order :: "'j view_find \<Rightarrow> order_by \<Rightarrow> 'j view_find" where
  "vf_order op ob = op\<lparr>vf_order_by := ob\<rparr>"
definition vf_skip :: "'j view_find \<Rightarrow> u64 \<Rightarrow> 'j view_find" where
  "vf_skip op n = op\<lparr>vf_pagination := (vf_pagination op)\<lparr>pg_skip := Some n\<rparr>\<rparr>"
definition vf_take :: "'j view_find \<Rightarrow> u64 \<Rightarrow> 'j view_find" where
  "vf_take op n = op\<lparr>vf_pagination := (vf_pagination op)\<lparr>pg_take := Some n\<rparr>\<rparr>"
definition vf_sel :: "'j view_find \<Rightarrow> select \<Rightarrow> 'j view_find" where
  "vf_sel op s = op\<lparr>vf_select := s\<rparr>"
definition vf_distinct_on :: "'j view_find \<Rightarrow> string list \<Rightarrow> 'j view_find" where
  "vf_distinct_on op cols = op\<lparr>vf_distinct := Some cols\<rparr>"
definition vf_cursor :: "'j view_find \<Rightarrow> cursor \<Rightarrow> 'j view_find" where
  "vf_cursor op c = op\<lparr>vf_pagination := (vf_pagination op)\<lparr>pg_cursor := Some c\<rparr>\<rparr>"

definition vf_build_sql :: "'j view_find \<Rightarrow> string \<Rightarrow> (string \<times> 'j filter_value list) option" where
  "vf_build_sql op view_name =
     do {
       (where_sql, params) \<leftarrow> to_sql (vf_filter op) 0 postgres;
       let sql = ''SELECT '' @ (case vf_distinct op of None \<Rightarrow> [] | Some cols \<Rightarrow> ''DISTINCT ON ('' @ join '', '' cols @ '') '')
         @ sel_to_sql (vf_select op) @ '' FROM '' @ view_name;
       let sql = (if \<not> is_none (vf_filter op) then sql @ '' WHERE '' @ where_sql else sql);
       let sql = (if \<not> ob_is_empty (vf_order_by op) then sql @ '' ORDER BY '' @ ob_to_sql (vf_order_by op) else sql);
       let page = pg_to_sql (vf_pagination op);
       Some (if page \<noteq> [] then sql @ '' '' @ page else sql, params)
     }"

definition vf_exec :: "string \<Rightarrow> 'j view_find \<Rightarrow> ('j, 'r, 'e, 'v list) session" where
  "vf_exec view_name op = (case vf_build_sql op view_name of None \<Rightarrow> Panic | Some _ \<Rightarrow> ok [])"

definition vff_new :: "'j view_find" where
  "vff_new = vf_take vf_new 1"
definition vff_exec :: "string \<Rightarrow> 'j view_find \<Rightarrow> ('j, 'r, 'e, 'v option) session" where
  "vff_exec view_name op = and_next (vf_exec view_name op) (\<lambda>rows. ok (case rows of r # _ \<Rightarrow> Some r | [] \<Rightarrow> None))"

subsection \<open>\<open>ViewCountOperation\<close>\<close>

record 'j view_count = vc_filter :: "'j filter"

definition vc_new :: "'j view_count" where
  "vc_new = \<lparr>vc_filter = FNone\<rparr>"
definition vc_where :: "'j view_count \<Rightarrow> 'j filter \<Rightarrow> 'j view_count" where
  "vc_where op f = op\<lparr>vc_filter := and_then (vc_filter op) f\<rparr>"
definition vc_build_sql :: "'j view_count \<Rightarrow> string \<Rightarrow> (string \<times> 'j filter_value list) option" where
  "vc_build_sql op view_name =
     do {
       (where_sql, params) \<leftarrow> to_sql (vc_filter op) 0 postgres;
       let sql = ''SELECT COUNT(*) FROM '' @ view_name;
       Some (if \<not> is_none (vc_filter op) then sql @ '' WHERE '' @ where_sql else sql, params)
     }"
definition vc_exec :: "string \<Rightarrow> 'j view_count \<Rightarrow> ('j, 'r, 'e, nat) session" where
  "vc_exec view_name op = with_statement (vc_build_sql op view_name) (\<lambda>sql params. CountRows sql params ok)"

subsection \<open>\<open>RefreshMaterializedViewOperation\<close>\<close>

record refresh_op = ro_concurrently :: bool

definition ro_new :: refresh_op where
  "ro_new = \<lparr>ro_concurrently = False\<rparr>"
definition ro_set_concurrently :: "bool \<Rightarrow> refresh_op \<Rightarrow> refresh_op" where
  "ro_set_concurrently supports_concurrent_refresh op = op\<lparr>ro_concurrently := supports_concurrent_refresh\<rparr>"
definition ro_exec :: "string \<Rightarrow> refresh_op \<Rightarrow> ('j, 'r, 'e, unit) session" where
  "ro_exec view_name op = RefreshView view_name (ro_concurrently op) (ok ())"

text \<open>A cursor is accepted and never written.\<close>

lemma vf_build_sql_cursor: "vf_build_sql (vf_cursor op c) view_name = vf_build_sql op view_name"
  by (simp add: vf_build_sql_def vf_cursor_def pg_to_sql_def cong: if_cong)

end
