(* ===== verification/Spec2Isabelle.thy ===== *)
theory Spec2Isabelle
  imports Filter_Subquery Filter_Like Filter_Builders Query_Clauses Write_Statements Migration_Engine
    Tenant_Cache Ddl_Laws Schema_Loader Validator_Names Row_Policies Introspection_Diff Nested_Effects Upsert_Statements
    Relation_Laws Aggregate_Laws View_Operations
begin

text \<open>
  A model of the core of prax, a Rust ORM: the query builders and tenant caches of the crate
  prax-query (under \<^verbatim>\<open>prax-query/src\<close>), the schema language's data of the crate prax-schema (under
  \<^verbatim>\<open>prax-schema/src\<close>), and the differ, the DDL generators and the migration engine of the crate
  prax-migrate (under \<^verbatim>\<open>prax-migrate/src\<close>).

  \<^bold>\<open>Query building.\<close>  A query is built in three layers.  A dialect (\<^verbatim>\<open>dialect.rs\<close>, theory
  \<open>Sql_Dialect\<close>) spells placeholders, identifiers and a few clauses.  A filter
  (\<^verbatim>\<open>filter.rs\<close>, theories \<open>Filter_Model\<close> and \<open>Filter_Builders\<close>) is a tree that
  \<open>to_sql\<close> turns into text and a list of bound values.  Orderings, projections, cursors and pages
  (\<^verbatim>\<open>types.rs\<close>, \<^verbatim>\<open>pagination.rs\<close>, theory \<open>Query_Clauses\<close>) are the other clauses.  The
  operations (\<^verbatim>\<open>operations/*.rs\<close>, theories \<open>Query_Operations\<close> and \<open>Write_Operations\<close>)
  keep these pieces in a record, accumulate them in builder methods and assemble the statement.
  A buffer that the code appends to is an argument returned extended; a panic is \<open>None\<close>; a text is
  the list of its UTF-8 bytes.

  The abstract specification is the lexical structure of the databases (theory \<open>Sql_Lexing\<close>): the
  locale \<open>sql_lexable\<close> states that a dialect's text is read back as the identifier, marker or
  literal it stands for, and is interpreted on all five SQL dialects.  \<open>Filter_Sql\<close> proves inside the
  locale that the text of a filter lexes to exactly the filter's token stream.  A raw scalar subquery
  is text that the code splices as it is: the theorems on the text of filters and of the statements
  that hold them are about filters without one (\<open>no_subquery\<close>), and \<open>Filter_Subquery\<close> is about the
  substitution of its slots.  \<open>Filter_Like\<close> gives the patterns \<^verbatim>\<open>LIKE\<close> operations bind their meaning,
  under any collation and with the bracket sets of SQL Server, and \<open>Filter_Builders\<close> shows that the
  combinators have their three-valued meaning.
  \<open>Statement_Lexing\<close> extends the contract to whole statements (locale \<open>sql_statements\<close>) and gives the
  calculus with which \<open>Read_Statements\<close> and \<open>Write_Statements\<close> prove that every operation numbers
  its markers in the order of its parameters and adds no identifier but its own.

  \<^bold>\<open>Execution and nested writes.\<close>  What an \<^verbatim>\<open>exec\<close> method does is a session (\<open>Engine_Session\<close>):
  the statements it sends, each with a continuation on the answer; the engine (\<^verbatim>\<open>traits.rs\<close>), a
  driver, is a record of functions on a state of its own.  \<^verbatim>\<open>transaction\<close> keeps or restores that state;
  its default in the trait restores nothing.  Errors (\<^verbatim>\<open>error.rs\<close>) are in \<open>Query_Error\<close>.
  \<open>Upsert_Operation\<close> (\<^verbatim>\<open>operations/upsert.rs\<close>) and \<open>Nested_Writes\<close> (\<^verbatim>\<open>nested.rs\<close> and the execution
  of the write operations) are sessions.  \<open>Nested_Statements\<close>, \<open>Nested_Laws\<close> and
  \<open>Upsert_Statements\<close> extend the lexical contract to them (locale \<open>sql_upserts\<close>): whatever the engine
  answers, no session panics, and each of its statements has the markers of its parameters.
  \<open>Update_Semantics\<close> reads an \<^verbatim>\<open>UPDATE\<close> of one column back from its text and says what it does to a
  table of children, after the semantics of SQL and without looking at the builders; the statements of
  the nested writes are proved to read as what they mean.  \<open>Nested_Effects\<close> asks of an engine that it
  executes whatever reads as such an \<^verbatim>\<open>UPDATE\<close> (locale \<open>child_table\<close>) and derives what the nested
  writes do; an engine that reads every statement it is sent interprets it, once counting the rows
  that match and once those that change.

  \<^bold>\<open>Relation loading.\<close>  \<open>Relation_Loading\<close> (\<^verbatim>\<open>relations\<close> and the loop that
  \<^verbatim>\<open>derive_relation_loader.rs\<close> generates) fetches the children of all parents with one statement per
  include and hands them out by key; what the derived code of a model does with a row is a record of
  functions.  \<open>Relation_Laws\<close> shows that every parent gets exactly its children, which statements that
  takes, and that an include's options have no effect.

  \<^bold>\<open>Aggregates and views.\<close>  \<open>Aggregate_Operations\<close> (\<^verbatim>\<open>operations/aggregate.rs\<close>) builds the statements
  of aggregates and groups and takes their rows apart; \<open>Aggregate_Laws\<close> reads the statements back token
  by token, says which threshold a condition on a count compares with, and what is found in a row.
  \<open>Float64\<close> is the \<^verbatim>\<open>f64\<close> of the language: its value and its conversions from and to \<^verbatim>\<open>i64\<close>.
  \<open>View_Operations\<close> (\<^verbatim>\<open>operations/view.rs\<close>) has the operations on views; finding rows of one is a
  placeholder in the code that asks the engine nothing, and a cursor is accepted but never written.

  \<^bold>\<open>Migrations.\<close>  The event log and its replay (\<^verbatim>\<open>event.rs\<close>, \<^verbatim>\<open>state.rs\<close>,
  \<^verbatim>\<open>event_store.rs\<close>, theory \<open>Migration_Events\<close>) decide what is applied; resolutions
  (\<^verbatim>\<open>resolution.rs\<close>, theory \<open>Migration_Resolutions\<close>) override the decision; the engine
  (\<^verbatim>\<open>engine.rs\<close>, theory \<open>Migration_Engine\<close>) plans, migrates, rolls back and reports.  The
  locale \<open>event_log\<close> is the interface of the store, \<open>keyed_store\<close> (theory \<open>Hash_Maps\<close>) that of a
  configuration keyed by what its values carry.  Appends of several tasks are an inductive step
  relation over the two critical sections of \<open>append_event\<close>, with an invariant over all
  reachable configurations.  \<open>plan_files\<close> is the file loop of \<^verbatim>\<open>plan\<close>, \<open>engine_plan\<close> the loop together
  with the answers it waits for (the store, the history, the directory), \<open>migrate\<close> a run;
  planning and migrating are related to one verdict per file.

  \<^bold>\<open>Schemas and their differences.\<close>  \<open>Schema_Ast\<close> holds models, fields, attributes, enums and views
  (\<^verbatim>\<open>prax-schema/src/ast\<close>).  \<open>Keyed_Diff\<close> is the pattern every differ of \<^verbatim>\<open>diff.rs\<close> and
  \<^verbatim>\<open>procedure.rs\<close> repeats (added, removed and changed entries of two keyed collections), as a locale
  whose laws say that applying the difference to the source gives the target; \<open>Procedure_Diff\<close>
  and \<open>Schema_Diff\<close> interpret it on procedures, triggers, tables, columns, enums and indexes.
  \<open>Model_Ordering\<close> is the topological sort of the foreign keys (Kahn's algorithm; its loop
  terminates because every round removes a ready table from the remaining ones).
  \<open>Schema_Diff_Laws\<close> states what a difference announces and what it leaves out: applied to the
  source's tables it gives the target's, with \<open>TEXT\<close> as the SQL type of an enum as in the code, and
  with the enum types PostgreSQL gives columns exactly when none of them changes.

  \<^bold>\<open>The schema language's pipeline.\<close>  \<open>Schema_Full\<close> adds composite types, server groups, policies
  (\<open>Row_Policies\<close>, with the statements they become), generators and the data source.
  \<open>Schema_Merge\<close> (\<^verbatim>\<open>schema.rs\<close>, \<^verbatim>\<open>loader/merge.rs\<close>) merges the schemas of several files; its locale
  \<open>mergeable\<close> states what a merge of labelled items promises, and its laws, that neither acceptance
  nor what is found depends on the order, hold for the schemas by interpretation.
  \<open>Schema_Loader\<close> (\<^verbatim>\<open>loader\<close>) finds the files of a directory, parses, merges and validates them;
  the directory is a tree of files, the parser a parameter.  \<open>Validator\<close> (\<^verbatim>\<open>validator.rs\<close>) has
  every check in the order of the code; \<open>Validator_Laws\<close> proves that a schema is accepted exactly
  when it satisfies \<open>schema_ok\<close>, and what an accepted schema guarantees; \<open>Validator_Names\<close> what its
  names may hold.

  \<^bold>\<open>Introspection.\<close>  \<open>Introspection\<close> (\<^verbatim>\<open>introspect.rs\<close>) makes a schema of the rows that describe
  a database.  \<open>Introspection_Laws\<close> shows what is read back unchanged (tables, enums, relations,
  defaults) and what is not; \<open>Introspection_Diff\<close> composes it with the differ.

  \<^bold>\<open>DDL.\<close>  \<open>Ddl_Common\<close>, \<open>Ddl_Postgres\<close>, \<open>Ddl_Mysql\<close>, \<open>Ddl_Sqlite\<close>, \<open>Ddl_Mssql\<close> and
  \<open>Ddl_Duckdb\<close> are the generators of \<^verbatim>\<open>sql.rs\<close>, statement by statement.  Their specification is a
  catalogue (\<open>Ddl_Catalogue\<close>): a set of objects, operations that need some objects and make or drop
  others, and a batch that is accepted when each operation finds what it needs.  \<open>Ddl_Rollback\<close>
  relates the up and down scripts of each generator to it; \<open>Ddl_Laws\<close> recognises the statements that
  destroy data by their text (\<open>destructive\<close>), on every backend, and shows that each carries its
  warning.  \<open>Procedure_Sql\<close> is the DDL of stored procedures.

  \<^bold>\<open>Tenant caches.\<close>  \<open>Tenant_Cache\<close> (\<^verbatim>\<open>tenant/cache.rs\<close>) is a bounded map with expiry and its
  sharded variant: an entry served is the last one written, and the capacity is kept.

  \<^bold>\<open>Conventions and bounds.\<close>  Machine integers are words of their width and wrap as in a release
  build; list lengths are natural numbers.  A hash map is an association list whose order stands
  for the unspecified iteration order.  The clock is an argument; one run of the engine has one
  instant.  No definition uses fuel: every loop is structural or has a measure (the search for a
  free name: the taken names not tried yet; the casts of a default: the length of the text).

  \<^bold>\<open>Not modelled.\<close>  Asynchronous scheduling, the database drivers,
  the older nested-write builder that no operation uses, the parser of the
  schema language, introspection through a live connection (the catalogue's rows are given), the
  query result caches, code generation, directories that cannot be read, case conversion outside
  ASCII, the parsing and printing of floating point numbers (the parameters \<open>float_text\<close> and
  \<open>parse_f64\<close>).
  Names of tables, columns of orderings and projections are written unquoted by the code; the statement theorems therefore assume that they contain no quote and no marker.
\<close>

end
